(* ===== verification/Prelude.thy ===== *)
theory Prelude
  imports Main "HOL-Library.Char_ord" "HOL-Library.List_Lexorder" "HOL-Library.Product_Lexorder"
begin

text \<open>
  Shared ground of the development: the collections of proof rules the components
  extend, Go's 64-bit integers, and the parts of Go's \<^verbatim>\<open>strings\<close> and
  \<^verbatim>\<open>strconv\<close> packages that the sources use.

  A Go \<^verbatim>\<open>string\<close> is a sequence of bytes and so is a HOL \<^typ>\<open>string\<close>
  (a list of 8-bit characters), so lengths and indices agree. A Go
  \<^verbatim>\<open>int64\<close> is an \<^typ>\<open>int\<close> inside \<open>int64_range\<close>; where the source
  adds, subtracts or multiplies without a check of its own the model wraps the
  result with \<open>wrap64\<close>, so that the theorems show where no wrap-around happens.
\<close>

named_theorems go_defs \<open>definitions of small Go helpers, unfolded by the component proofs\<close>
named_theorems tx_simps \<open>one-step evaluation of the transaction combinators\<close>
named_theorems tx_intro \<open>rules that push a postcondition through a transaction body\<close>

section \<open>Go integers\<close>

definition MaxInt64 :: int where
  "MaxInt64 = 9223372036854775807"

definition MinInt64 :: int where
  "MinInt64 = - 9223372036854775808"

definition maxUint64 :: int where
  "maxUint64 = 18446744073709551615"

definition int64_range :: "int \<Rightarrow> bool" where
  "int64_range x \<longleftrightarrow> MinInt64 \<le> x \<and> x \<le> MaxInt64"

definition wrap64 :: "int \<Rightarrow> int" where
  "wrap64 x = (x + 2 ^ 63) mod 2 ^ 64 - 2 ^ 63"

definition uwrap64 :: "int \<Rightarrow> int" where
  "uwrap64 x = x mod 2 ^ 64"

lemmas int64_limits = MaxInt64_def MinInt64_def maxUint64_def

lemma wrap64_id [simp]: "int64_range x \<Longrightarrow> wrap64 x = x"
  by (simp add: wrap64_def int64_range_def int64_limits)

lemma wrap64_range: "int64_range (wrap64 x)"
proof -
  have "0 \<le> (x + 2 ^ 63) mod 2 ^ 64" "(x + 2 ^ 63) mod 2 ^ 64 < 2 ^ 64"
    by simp_all
  then show ?thesis
    by (simp add: wrap64_def int64_range_def int64_limits)
qed

lemma uwrap64_id [simp]: "0 \<le> x \<Longrightarrow> x \<le> maxUint64 \<Longrightarrow> uwrap64 x = x"
  by (simp add: uwrap64_def maxUint64_def)

text \<open>Go's integer division truncates towards zero, its remainder has the dividend's sign.\<close>

definition go_div :: "int \<Rightarrow> int \<Rightarrow> int" where
  "go_div a b = sgn a * sgn b * (\<bar>a\<bar> div \<bar>b\<bar>)"

definition go_mod :: "int \<Rightarrow> int \<Rightarrow> int" where
  "go_mod a b = a - b * go_div a b"

lemma go_div_nonneg [simp]: "0 \<le> a \<Longrightarrow> 0 < b \<Longrightarrow> go_div a b = a div b"
  by (cases "a = 0") (simp_all add: go_div_def)

lemma go_mod_nonneg [simp]: "0 \<le> a \<Longrightarrow> 0 < b \<Longrightarrow> go_mod a b = a mod b"
  by (simp add: go_mod_def minus_mult_div_eq_mod)

text \<open>
  \<^verbatim>\<open>math/bits\<close>: the 128-bit product as a pair of 64-bit halves, the 64-bit sum with
  its carry, and the 128-by-64 division, which panics unless \<open>hi < y\<close>.
\<close>

definition bits_Mul64 :: "int \<Rightarrow> int \<Rightarrow> int \<times> int" where
  "bits_Mul64 x y = (x * y div 2 ^ 64, x * y mod 2 ^ 64)"

definition bits_Add64 :: "int \<Rightarrow> int \<Rightarrow> int \<Rightarrow> int \<times> int" where
  "bits_Add64 x y carry = ((x + y + carry) mod 2 ^ 64, (x + y + carry) div 2 ^ 64)"

definition bits_Div64 :: "int \<Rightarrow> int \<Rightarrow> int \<Rightarrow> (int \<times> int) option" where
  "bits_Div64 hi lo y =
     (if y = 0 \<or> y \<le> hi then None
      else Some ((hi * 2 ^ 64 + lo) div y, (hi * 2 ^ 64 + lo) mod y))"

lemma bits_Mul64_split: "bits_Mul64 x y = (hi, lo) \<Longrightarrow> hi * 2 ^ 64 + lo = x * y"
  by (auto simp: bits_Mul64_def)

section \<open>Go strings\<close>

definition hasPrefix :: "string \<Rightarrow> string \<Rightarrow> bool" where
  "hasPrefix s p \<longleftrightarrow> take (length p) s = p"

text \<open>The white space of \<^verbatim>\<open>unicode.IsSpace\<close>, as UTF-8 byte sequences.\<close>

definition spaceSequences :: "string list" where
  "spaceSequences =
     map (map char_of)
       [[9::nat], [10], [11], [12], [13], [32], [0xC2, 0x85], [0xC2, 0xA0], [0xE1, 0x9A, 0x80],
        [0xE2, 0x80, 0x80], [0xE2, 0x80, 0x81], [0xE2, 0x80, 0x82], [0xE2, 0x80, 0x83],
        [0xE2, 0x80, 0x84], [0xE2, 0x80, 0x85], [0xE2, 0x80, 0x86], [0xE2, 0x80, 0x87],
        [0xE2, 0x80, 0x88], [0xE2, 0x80, 0x89], [0xE2, 0x80, 0x8A], [0xE2, 0x80, 0xA8],
        [0xE2, 0x80, 0xA9], [0xE2, 0x80, 0xAF], [0xE2, 0x81, 0x9F], [0xE3, 0x80, 0x80]]"

definition dropOneOf :: "string list \<Rightarrow> string \<Rightarrow> string option" where
  "dropOneOf seqs s =
     (case filter (\<lambda>p. p \<noteq> [] \<and> hasPrefix s p) seqs of [] \<Rightarrow> None | p # _ \<Rightarrow> Some (drop (length p) s))"

lemma dropOneOf_shorter: "dropOneOf seqs s = Some t \<Longrightarrow> length t < length s"
proof -
  assume "dropOneOf seqs s = Some t"
  then obtain p where "p \<noteq> []" "take (length p) s = p" "t = drop (length p) s"
    by (auto simp: dropOneOf_def hasPrefix_def filter_eq_Cons_iff split: list.splits)
  moreover from this have "s \<noteq> []" by auto
  ultimately show ?thesis by (cases p) auto
qed

function trimLeftSeq :: "string list \<Rightarrow> string \<Rightarrow> string" where
  "trimLeftSeq seqs s = (case dropOneOf seqs s of None \<Rightarrow> s | Some t \<Rightarrow> trimLeftSeq seqs t)"
  by pat_completeness auto
termination
  by (relation "measure (\<lambda>(seqs, s). length s)") (auto simp: dropOneOf_shorter)

declare trimLeftSeq.simps [simp del]

definition TrimSpace :: "string \<Rightarrow> string" where
  "TrimSpace s = rev (trimLeftSeq (map rev spaceSequences) (rev (trimLeftSeq spaceSequences s)))"

fun splitOn :: "char \<Rightarrow> string \<Rightarrow> string list" where
  "splitOn c [] = [[]]"
| "splitOn c (x # xs) =
     (if x = c then [] # splitOn c xs
      else case splitOn c xs of [] \<Rightarrow> [[x]] | p # ps \<Rightarrow> (x # p) # ps)"

text \<open>\<^verbatim>\<open>strings.Cut\<close> around one separator byte: \<open>None\<close> when it does not occur.\<close>

fun cutOn :: "char \<Rightarrow> string \<Rightarrow> (string \<times> string) option" where
  "cutOn c [] = None"
| "cutOn c (x # xs) =
     (if x = c then Some ([], xs)
      else case cutOn c xs of None \<Rightarrow> None | Some (l, r) \<Rightarrow> Some (x # l, r))"

definition trimRightChar :: "char \<Rightarrow> string \<Rightarrow> string" where
  "trimRightChar c s = rev (dropWhile (\<lambda>x. x = c) (rev s))"

section \<open>Decimal numbers\<close>

definition isDigit :: "char \<Rightarrow> bool" where
  "isDigit c \<longleftrightarrow> 48 \<le> (of_char c :: nat) \<and> (of_char c :: nat) \<le> 57"

definition digitVal :: "char \<Rightarrow> int" where
  "digitVal c = int (of_char c) - 48"

definition digitChar :: "nat \<Rightarrow> char" where
  "digitChar d = char_of (48 + d)"

fun decNat :: "nat \<Rightarrow> string" where
  "decNat n = (if n < 10 then [digitChar n] else decNat (n div 10) @ [digitChar (n mod 10)])"

declare decNat.simps [simp del]

definition decInt :: "int \<Rightarrow> string" where
  "decInt n = (if n < 0 then ''-'' @ decNat (nat (- n)) else decNat (nat n))"

fun digitsVal :: "int \<Rightarrow> string \<Rightarrow> int" where
  "digitsVal acc [] = acc"
| "digitsVal acc (c # cs) = digitsVal (10 * acc + digitVal c) cs"

text \<open>\<^verbatim>\<open>strconv.ParseInt(s, 10, 64)\<close>: \<open>None\<close> is a syntax or a range error.\<close>

definition parseInt64 :: "string \<Rightarrow> int option" where
  "parseInt64 s =
     (let neg = (s \<noteq> [] \<and> hd s = CHR ''-'');
          ds = (if s \<noteq> [] \<and> (hd s = CHR ''-'' \<or> hd s = CHR ''+'') then tl s else s);
          v = (if neg then - digitsVal 0 ds else digitsVal 0 ds)
      in if ds = [] \<or> \<not> list_all isDigit ds \<or> \<not> int64_range v then None else Some v)"

lemma isDigit_digitChar [simp]: "d < 10 \<Longrightarrow> isDigit (digitChar d)"
  by (simp add: isDigit_def digitChar_def)

lemma digitVal_digitChar [simp]: "d < 10 \<Longrightarrow> digitVal (digitChar d) = int d"
  by (simp add: digitVal_def digitChar_def)

lemma digitsVal_append: "digitsVal acc (xs @ ys) = digitsVal (digitsVal acc xs) ys"
  by (induction xs arbitrary: acc) auto

lemma decNat_nonempty [simp]: "decNat n \<noteq> []"
  by (subst decNat.simps) simp

lemma decNat_digits: "list_all isDigit (decNat n)"
proof (induction n rule: decNat.induct)
  case (1 n)
  then show ?case by (subst decNat.simps) auto
qed

lemma digitsVal_decNat: "digitsVal 0 (decNat n) = int n"
proof (induction n rule: decNat.induct)
  case (1 n)
  show ?case
  proof (cases "n < 10")
    case True
    then show ?thesis by (subst decNat.simps) simp
  next
    case False
    with 1 have "digitsVal 0 (decNat (n div 10)) = int (n div 10)" by simp
    moreover have "10 * int (n div 10) + int (n mod 10) = int n"
      by (metis mult_div_mod_eq of_nat_add of_nat_mult of_nat_numeral)
    ultimately have "digitsVal 0 (decNat (n div 10) @ [digitChar (n mod 10)]) = int n"
      by (simp add: digitsVal_append)
    with False show ?thesis by (subst decNat.simps) simp
  qed
qed

lemma isDigit_not_sign: "isDigit c \<Longrightarrow> c \<noteq> CHR ''-'' \<and> c \<noteq> CHR ''+'' \<and> c \<noteq> CHR ''.'' \<and> c \<noteq> CHR '':''"
  by (auto simp: isDigit_def)

lemma decNat_hd: "isDigit (hd (decNat n))"
  using decNat_digits [of n] decNat_nonempty [of n] by (cases "decNat n") auto

lemma parseInt64_decNat: "int n \<le> MaxInt64 \<Longrightarrow> parseInt64 (decNat n) = Some (int n)"
  using decNat_hd [of n] decNat_digits [of n]
  by (auto simp: parseInt64_def Let_def digitsVal_decNat int64_range_def int64_limits
      dest: isDigit_not_sign)

lemma parseInt64_decInt: "int64_range n \<Longrightarrow> parseInt64 (decInt n) = Some n"
proof (cases "n < 0")
  case True
  assume "int64_range n"
  with True show ?thesis
    using decNat_digits [of "nat (- n)"]
    by (simp add: parseInt64_def decInt_def digitsVal_decNat)
next
  case False
  assume "int64_range n"
  with False show ?thesis
    using parseInt64_decNat [of "nat n"] by (simp add: decInt_def int64_range_def)
qed

lemma parseInt64_range: "parseInt64 s = Some n \<Longrightarrow> int64_range n"
  by (auto simp: parseInt64_def Let_def split: if_splits)

section \<open>Lemmas on division\<close>

lemma int_le_div_iff:
  assumes "0 < (c :: int)"
  shows "d \<le> a div c \<longleftrightarrow> d * c \<le> a"
proof
  assume "d \<le> a div c"
  then have "d * c \<le> (a div c) * c" using assms by (simp add: mult_right_mono)
  also have "\<dots> \<le> a"
    using assms pos_mod_sign [of c a] div_mult_mod_eq [of a c] by linarith
  finally show "d * c \<le> a" .
next
  assume "d * c \<le> a"
  then have "d * c div c \<le> a div c" using assms by (intro zdiv_mono1)
  with assms show "d \<le> a div c" by simp
qed

lemma int_div_less_iff: "0 < (c :: int) \<Longrightarrow> a div c < d \<longleftrightarrow> a < d * c"
  using int_le_div_iff [of c d a] by auto

lemma ceil_div:
  assumes "0 < (d :: int)"
  shows "(p + (d - 1)) div d = (if p mod d = 0 then p div d else p div d + 1)"
proof (cases "p mod d = 0")
  case True
  then have "p + (d - 1) = d * (p div d) + (d - 1)"
    using mult_div_mod_eq [of d p] by simp
  with True assms show ?thesis by (auto intro: int_div_pos_eq)
next
  case False
  have "p + (d - 1) = d * (p div d + 1) + (p mod d - 1)"
    by (simp add: algebra_simps)
  moreover have "0 < p mod d" "p mod d < d"
    using False assms pos_mod_sign [of d p] pos_mod_bound [of d p] by linarith+
  ultimately have "(p + (d - 1)) div d = p div d + 1"
    by (intro int_div_pos_eq [where r = "p mod d - 1"]) simp_all
  with False show ?thesis by simp
qed

text \<open>The 128-bit product and quotient of the sources, as one division of integers.\<close>

lemma mul_div64:
  assumes "0 < d" and "bits_Mul64 x y = (hi, lo)"
  shows "d \<le> hi \<longleftrightarrow> d * 2 ^ 64 \<le> x * y"
    and "\<not> d \<le> hi \<Longrightarrow> bits_Div64 hi lo d = Some (x * y div d, x * y mod d)"
proof -
  have hi: "hi = x * y div 2 ^ 64" and p: "hi * 2 ^ 64 + lo = x * y"
    using assms(2) by (auto simp: bits_Mul64_def)
  show "d \<le> hi \<longleftrightarrow> d * 2 ^ 64 \<le> x * y"
    unfolding hi by (rule int_le_div_iff) simp
  show "bits_Div64 hi lo d = Some (x * y div d, x * y mod d)" if "\<not> d \<le> hi"
    using that assms(1) p by (simp add: bits_Div64_def)
qed

section \<open>Lemmas on decimal text and trimming\<close>

lemma length_decNat: "10 ^ k \<le> n \<Longrightarrow> n < 10 ^ Suc k \<Longrightarrow> length (decNat n) = Suc k"
proof (induction k arbitrary: n)
  case 0
  then show ?case by (subst decNat.simps) simp
next
  case (Suc k)
  then have "10 ^ k \<le> n div 10" "n div 10 < 10 ^ Suc k" "\<not> n < 10"
    by (auto simp: less_eq_div_iff_mult_less_eq div_less_iff_less_mult algebra_simps)
       (metis le_trans mult_le_mono2 numeral_le_iff one_le_numeral one_le_power
         mult.right_neutral not_less)
  with Suc.IH show ?case by (subst decNat.simps) simp
qed

lemma digitVal_bounds: "isDigit c \<Longrightarrow> 0 \<le> digitVal c \<and> digitVal c \<le> 9"
  by (simp add: isDigit_def digitVal_def)

lemma digitsVal_shift: "digitsVal acc cs = acc * 10 ^ length cs + digitsVal 0 cs"
proof (induction cs arbitrary: acc)
  case (Cons c cs)
  show ?case
    using Cons.IH [of "10 * acc + digitVal c"] Cons.IH [of "digitVal c"]
    by (simp add: algebra_simps)
qed simp

lemma digitsVal_bounds:
  "list_all isDigit cs \<Longrightarrow> 0 \<le> digitsVal 0 cs \<and> digitsVal 0 cs < 10 ^ length cs"
proof (induction cs)
  case (Cons c cs)
  then have "0 \<le> digitVal c" "digitVal c \<le> 9" and cs: "0 \<le> digitsVal 0 cs" "digitsVal 0 cs < 10 ^ length cs"
    using digitVal_bounds [of c] by auto
  then have "0 \<le> digitVal c * 10 ^ length cs" "digitVal c * 10 ^ length cs \<le> 9 * 10 ^ length cs"
    by (auto intro: mult_right_mono)
  moreover have "digitsVal 0 (c # cs) = digitVal c * 10 ^ length cs + digitsVal 0 cs"
    using digitsVal_shift [of "digitVal c" cs] by simp
  moreover have "(10 :: int) ^ length (c # cs) = 10 * 10 ^ length cs" by simp
  ultimately show ?case using cs by linarith
qed simp

lemma trimRightChar_restore:
  "trimRightChar c s @ replicate (length s - length (trimRightChar c s)) c = s"
proof -
  have "rev s = takeWhile (\<lambda>x. x = c) (rev s) @ dropWhile (\<lambda>x. x = c) (rev s)"
    by simp
  moreover have "takeWhile (\<lambda>x. x = c) (rev s) = replicate (length (takeWhile (\<lambda>x. x = c) (rev s))) c"
    by (metis (mono_tags) replicate_length_same set_takeWhileD)
  moreover have "length (takeWhile (\<lambda>x. x = c) (rev s)) + length (dropWhile (\<lambda>x. x = c) (rev s)) = length s"
    by (metis length_append length_rev takeWhile_dropWhile_id)
  ultimately have "s = rev (dropWhile (\<lambda>x. x = c) (rev s)) @
      replicate (length s - length (dropWhile (\<lambda>x. x = c) (rev s))) c"
    by (metis (no_types, lifting) add_diff_cancel_right' rev_append rev_replicate rev_rev_ident)
  then show ?thesis by (simp add: trimRightChar_def)
qed

lemma trimRightChar_length: "length (trimRightChar c s) \<le> length s"
  by (metis length_dropWhile_le length_rev trimRightChar_def)

lemma set_trimRightChar: "set (trimRightChar c s) \<subseteq> set s"
  by (auto simp: trimRightChar_def dest: set_dropWhileD)

lemma trimRightChar_last: "trimRightChar c s \<noteq> [] \<Longrightarrow> last (trimRightChar c s) \<noteq> c"
  by (metis (mono_tags) hd_dropWhile last_rev rev_is_Nil_conv trimRightChar_def)

text \<open>A printable ASCII byte begins or ends no white space.\<close>

definition plainChar :: "char \<Rightarrow> bool" where
  "plainChar c \<longleftrightarrow> 33 \<le> (of_char c :: nat) \<and> (of_char c :: nat) \<le> 126"

lemma isDigit_plainChar [simp]: "isDigit c \<Longrightarrow> plainChar c"
  by (simp add: isDigit_def plainChar_def)

lemma trimLeftSeq_plain:
  assumes "\<forall>p \<in> set seqs. p \<noteq> [] \<and> \<not> plainChar (hd p)" and "s \<noteq> []" and "plainChar (hd s)"
  shows "trimLeftSeq seqs s = s"
proof -
  have "\<not> hasPrefix s p" if "p \<in> set seqs" for p
    using assms that by (cases p; cases s) (auto simp: hasPrefix_def)
  then have "dropOneOf seqs s = None"
    by (auto simp: dropOneOf_def split: list.splits)
  then show ?thesis by (subst trimLeftSeq.simps) simp
qed

lemma TrimSpace_plain:
  assumes "s \<noteq> []" and "plainChar (hd s)" and "plainChar (last s)"
  shows "TrimSpace s = s"
proof -
  have "\<forall>p \<in> set spaceSequences. p \<noteq> [] \<and> \<not> plainChar (hd p)"
    by (simp add: spaceSequences_def plainChar_def)
  then have "trimLeftSeq spaceSequences s = s"
    using assms by (intro trimLeftSeq_plain) auto
  moreover have "\<forall>p \<in> set (map rev spaceSequences). p \<noteq> [] \<and> \<not> plainChar (hd p)"
    by (simp add: spaceSequences_def plainChar_def)
  then have "trimLeftSeq (map rev spaceSequences) (rev s) = rev s"
    using assms by (intro trimLeftSeq_plain) (auto simp: hd_rev)
  ultimately show ?thesis by (simp add: TrimSpace_def)
qed

lemma trimLeftSeq_Nil [simp]: "trimLeftSeq seqs [] = []"
proof -
  have "dropOneOf seqs [] = None"
    by (auto simp: dropOneOf_def hasPrefix_def split: list.splits)
       (metis (mono_tags, lifting) filter_False list.distinct(1))
  then show ?thesis by (subst trimLeftSeq.simps) simp
qed

lemma TrimSpace_Nil [simp]: "TrimSpace [] = []"
  by (simp add: TrimSpace_def)

lemma plainChar_dot [simp]: "plainChar (CHR ''.'')"
  by (simp add: plainChar_def)

lemma splitOn_nonempty [simp]: "splitOn c s \<noteq> []"
  by (induction s) (auto split: list.splits)

lemma hd_splitOn: "hd (splitOn c s) = takeWhile (\<lambda>x. x \<noteq> c) s"
  by (induction s) (auto split: list.splits)

lemma parseInt64_nonneg:
  assumes "parseInt64 s = Some n" "hd s \<noteq> CHR ''-''"
  shows "0 \<le> n"
proof -
  from assms obtain ds where "list_all isDigit ds" "n = digitsVal 0 ds"
    by (auto simp: parseInt64_def Let_def split: if_splits)
  then show ?thesis using digitsVal_bounds [of ds] by simp
qed

lemma parseInt64_digits:
  "ds \<noteq> [] \<Longrightarrow> list_all isDigit ds \<Longrightarrow> digitsVal 0 ds \<le> MaxInt64 \<Longrightarrow> parseInt64 ds = Some (digitsVal 0 ds)"
  using digitsVal_bounds [of ds]
  by (cases ds) (auto simp: parseInt64_def Let_def int64_range_def int64_limits dest: isDigit_not_sign)

lemma splitOn_none: "c \<notin> set s \<Longrightarrow> splitOn c s = [s]"
  by (induction s) auto

lemma splitOn_one: "c \<notin> set l \<Longrightarrow> splitOn c (l @ c # r) = l # splitOn c r"
  by (induction l) auto

lemma cutOn_append: "c \<notin> set l \<Longrightarrow> cutOn c (l @ c # r) = Some (l, r)"
  by (induction l) auto

end
