(* ===== verification/Money.thy ===== *)
theory Money
  imports Prelude
begin

text \<open>
  \<^verbatim>\<open>internal/features/usage/money.go\<close> and the checked arithmetic at the end of
  \<^verbatim>\<open>internal/features/usage/admission.go\<close>: exact USD amounts in nanodollars, their
  decimal text, the cost of a token count, and the overflow-checked additions the
  counters are built from. An error return of the source is \<open>Inl\<close> with its message.
\<close>

section \<open>Checked arithmetic (admission.go)\<close>

fun checkedAddFrom :: "int \<Rightarrow> int list \<Rightarrow> int option" where
  "checkedAddFrom acc [] = Some acc"
| "checkedAddFrom acc (value # values) =
     (if value > 0 \<and> acc > wrap64 (MaxInt64 - value) then None
      else if value < 0 \<and> acc < wrap64 (MinInt64 - value) then None
      else checkedAddFrom (wrap64 (acc + value)) values)"

definition checkedAdd :: "int list \<Rightarrow> int option" where
  "checkedAdd values = checkedAddFrom 0 values"

definition saturatingAdd :: "int \<Rightarrow> int \<Rightarrow> int" where
  "saturatingAdd left right = (case checkedAdd [left, right] of Some v \<Rightarrow> v | None \<Rightarrow> MaxInt64)"

definition min_int64 :: "int \<Rightarrow> int \<Rightarrow> int" where
  "min_int64 a b = (if a < b then a else b)"

definition max_int64 :: "int \<Rightarrow> int \<Rightarrow> int" where
  "max_int64 a b = (if a > b then a else b)"

text \<open>
  \<^verbatim>\<open>refillAmount\<close>: the whole units a bucket gains in \<open>elapsed\<close> milliseconds and the
  remainder it carries over. \<open>Inl\<close> is the code's error; a panic of
  \<^verbatim>\<open>bits.Div64\<close> would be \<open>Inl ''panic''\<close>, which \<open>refillAmount_no_panic\<close> rules out.
\<close>

definition refillAmount :: "int \<Rightarrow> int \<Rightarrow> int \<Rightarrow> int \<Rightarrow> string + int \<times> int" where
  "refillAmount elapsed refill interval remainder =
     (if elapsed < 0 \<or> refill < 0 \<or> interval \<le> 0 \<or> remainder < 0 \<or> remainder \<ge> interval
      then Inl ''invalid rate calculation''
      else let (hi0, lo0) = bits_Mul64 elapsed refill;
               (lo, carry) = bits_Add64 lo0 remainder 0;
               hi = uwrap64 (hi0 + carry)
           in if hi \<ge> interval then Inr (MaxInt64, 0)
              else case bits_Div64 hi lo interval of
                     None \<Rightarrow> Inl ''panic''
                   | Some (quot, nxt) \<Rightarrow>
                       if quot > MaxInt64 then Inr (MaxInt64, nxt) else Inr (quot, nxt))"

text \<open>
  \<^verbatim>\<open>retryAfter\<close>: the seconds until \<open>deficit\<close> units are refilled, \<open>None\<close> for a nil
  pointer. The deficit and the interval are positive where the code calls it; the
  conversion to \<^verbatim>\<open>uint64\<close> of a negative argument is written out with \<open>uwrap64\<close>.
\<close>

definition retryAfter :: "int \<Rightarrow> int \<Rightarrow> int \<Rightarrow> int option" where
  "retryAfter deficit refill intervalMillis =
     (if refill \<le> 0 then None
      else let (hi, lo) = bits_Mul64 (uwrap64 deficit) (uwrap64 intervalMillis)
           in if hi \<ge> refill then None
              else case bits_Div64 hi lo refill of
                     None \<Rightarrow> None
                   | Some (q, remainder) \<Rightarrow>
                       let millis = (if remainder \<noteq> 0 then uwrap64 (q + 1) else q)
                       in if millis > MaxInt64 then None
                          else Some (max_int64 1 (wrap64 (go_div (wrap64 (millis - 1)) 1000 + 1))))"

section \<open>Amounts (money.go)\<close>

definition nanosPerUSD :: int where
  "nanosPerUSD = 1000000000"

definition errNotDecimal :: string where
  "errNotDecimal = ''amount must be a non-negative USD decimal''"

definition errTooLarge :: string where
  "errTooLarge = ''amount is too large''"

definition ParseUSD :: "string \<Rightarrow> string + int" where
  "ParseUSD value0 =
     (let value = TrimSpace value0 in
      if value = '''' \<or> hasPrefix value ''-'' \<or> hasPrefix value ''+'' then Inl errNotDecimal
      else let parts = splitOn (CHR ''.'') value in
      if length parts > 2 \<or> hd parts = '''' \<or> length parts = 2 \<and> parts ! 1 = '''' then Inl errNotDecimal
      else case parseInt64 (hd parts) of
        None \<Rightarrow> Inl errTooLarge
      | Some whole \<Rightarrow>
          if whole > go_div MaxInt64 nanosPerUSD then Inl errTooLarge
          else let fraction = (if length parts = 2 then parts ! 1 else '''') in
          if length fraction > 9 then Inl ''amount supports at most 9 decimal places''
          else if \<not> list_all isDigit fraction then Inl errNotDecimal
          else let padded = fraction @ replicate (9 - length fraction) (CHR ''0'');
                   fractionNanos = (if padded \<noteq> '''' then
                                      (case parseInt64 padded of Some v \<Rightarrow> v | None \<Rightarrow> 0)
                                    else 0)
               in if whole > go_div (wrap64 (MaxInt64 - fractionNanos)) nanosPerUSD then Inl errTooLarge
                  else Inr (wrap64 (whole * nanosPerUSD + fractionNanos)))"

definition parseSignedUSD :: "string \<Rightarrow> string + int" where
  "parseSignedUSD value0 =
     (let value = TrimSpace value0;
          negative = hasPrefix value ''-'';
          value' = (if negative then drop 1 value else value)
      in case ParseUSD value' of
           Inl e \<Rightarrow> Inl e
         | Inr amount \<Rightarrow> Inr (if negative then wrap64 (- amount) else amount))"

definition formatUSDUnsigned :: "int \<Rightarrow> string" where
  "formatUSDUnsigned nanos =
     (let whole = nanos div nanosPerUSD; fraction = nanos mod nanosPerUSD in
      if fraction = 0 then decNat (nat whole)
      else decNat (nat whole) @ ''.'' @
           trimRightChar (CHR ''0'') (drop 1 (decNat (nat (uwrap64 (fraction + nanosPerUSD))))))"

definition FormatUSD :: "int \<Rightarrow> string" where
  "FormatUSD nanos =
     (if nanos < 0 then ''-'' @ formatUSDUnsigned (uwrap64 (uwrap64 (wrap64 (- wrap64 (nanos + 1))) + 1))
      else formatUSDUnsigned nanos)"

definition tokenCost :: "int \<Rightarrow> int \<Rightarrow> string + int" where
  "tokenCost tokens rateNanosPerMillion =
     (if tokens < 0 \<or> rateNanosPerMillion < 0 then Inl ''token counts and prices must be non-negative''
      else let (hi, lo) = bits_Mul64 tokens rateNanosPerMillion
           in if hi \<ge> 1000000 then Inl ''calculated cost is too large''
              else case bits_Div64 hi lo 1000000 of
                     None \<Rightarrow> Inl ''panic''
                   | Some (q, remainder) \<Rightarrow>
                       let quot = (if remainder \<noteq> 0 then uwrap64 (q + 1) else q)
                       in if quot > MaxInt64 then Inl ''calculated cost is too large''
                          else Inr quot)"

definition CalculateCost :: "int \<Rightarrow> int \<Rightarrow> int \<Rightarrow> int \<Rightarrow> string + int" where
  "CalculateCost inputTokens outputTokens inputRate outputRate =
     (case tokenCost inputTokens inputRate of
        Inl e \<Rightarrow> Inl e
      | Inr inputCost \<Rightarrow>
          (case tokenCost outputTokens outputRate of
             Inl _ \<Rightarrow> Inl ''calculated cost is too large''
           | Inr outputCost \<Rightarrow>
               if inputCost > wrap64 (MaxInt64 - outputCost) then Inl ''calculated cost is too large''
               else Inr (wrap64 (inputCost + outputCost))))"

section \<open>Checked addition is exact\<close>

lemma checkedAddFrom_sound:
  "int64_range acc \<Longrightarrow> list_all int64_range vs \<Longrightarrow> checkedAddFrom acc vs = Some r \<Longrightarrow>
   r = acc + sum_list vs \<and> int64_range r"
proof (induction vs arbitrary: acc)
  case Nil
  then show ?case by simp
next
  case (Cons v vs)
  have "int64_range (acc + v)"
    using Cons.prems by (auto simp: int64_range_def int64_limits split: if_splits)
  with Cons.IH [of "acc + v"] Cons.prems show ?case
    by (auto simp: algebra_simps split: if_splits)
qed

lemma checkedAdd_sound:
  "list_all int64_range vs \<Longrightarrow> checkedAdd vs = Some r \<Longrightarrow> r = sum_list vs \<and> int64_range r"
  using checkedAddFrom_sound [of 0 vs r] by (simp add: checkedAdd_def int64_range_def int64_limits)

lemma checkedAdd2:
  assumes "int64_range a" and "int64_range b"
  shows "checkedAdd [a, b] = (if int64_range (a + b) then Some (a + b) else None)"
  using assms by (auto simp: checkedAdd_def int64_range_def int64_limits)

lemma checkedAdd_nonneg:
  "list_all (\<lambda>v. 0 \<le> v \<and> v \<le> MaxInt64) vs \<Longrightarrow> 0 \<le> acc \<Longrightarrow> acc \<le> MaxInt64 \<Longrightarrow>
   checkedAddFrom acc vs = (if acc + sum_list vs \<le> MaxInt64 then Some (acc + sum_list vs) else None)"
proof (induction vs arbitrary: acc)
  case Nil
  then show ?case by simp
next
  case (Cons v vs)
  then have v: "0 \<le> v" "v \<le> MaxInt64" and vs: "0 \<le> sum_list vs"
    by (auto intro!: sum_list_nonneg simp: list_all_iff)
  show ?case
  proof (cases "acc + v \<le> MaxInt64")
    case True
    with v Cons.prems have "wrap64 (acc + v) = acc + v" "wrap64 (MaxInt64 - v) = MaxInt64 - v"
      by (simp_all add: int64_range_def int64_limits)
    with True v Cons.prems Cons.IH [of "acc + v"] show ?thesis
      by (simp add: add.assoc)
  next
    case False
    with v vs Cons.prems show ?thesis
      by (simp add: int64_range_def int64_limits)
  qed
qed

lemma checkedAdd_all_nonneg:
  "list_all (\<lambda>v. 0 \<le> v \<and> v \<le> MaxInt64) vs \<Longrightarrow>
   checkedAdd vs = (if sum_list vs \<le> MaxInt64 then Some (sum_list vs) else None)"
  using checkedAdd_nonneg [of vs 0] by (simp add: checkedAdd_def MaxInt64_def)

lemma saturatingAdd_nonneg:
  "0 \<le> a \<Longrightarrow> a \<le> MaxInt64 \<Longrightarrow> 0 \<le> b \<Longrightarrow> b \<le> MaxInt64 \<Longrightarrow> saturatingAdd a b = min (a + b) MaxInt64"
  using checkedAdd_all_nonneg [of "[a, b]"] by (auto simp: saturatingAdd_def min_def)

section \<open>Token costs round up exactly\<close>

definition ceilCost :: "int \<Rightarrow> int \<Rightarrow> int" where
  "ceilCost tokens rate = (tokens * rate + 999999) div 1000000"

lemma ceilCost_div:
  "ceilCost t r = (if t * r mod 1000000 = 0 then t * r div 1000000 else t * r div 1000000 + 1)"
  using ceil_div [of 1000000 "t * r"] by (simp add: ceilCost_def)

lemma tokenCost_div:
  assumes "0 \<le> t" "0 \<le> r"
  shows "tokenCost t r =
    (let q = t * r div 1000000; quot = (if t * r mod 1000000 = 0 then q else uwrap64 (q + 1)) in
     if 2 ^ 64 \<le> q then Inl ''calculated cost is too large''
     else if quot > MaxInt64 then Inl ''calculated cost is too large'' else Inr quot)"
proof -
  obtain hi lo where m: "bits_Mul64 t r = (hi, lo)" by fastforce
  have "1000000 \<le> hi \<longleftrightarrow> 2 ^ 64 \<le> t * r div 1000000"
    using mul_div64(1) [OF _ m, of 1000000] int_le_div_iff [of 1000000 "2 ^ 64" "t * r"]
    by (simp add: mult.commute)
  moreover have "\<not> 1000000 \<le> hi \<Longrightarrow> bits_Div64 hi lo 1000000 = Some (t * r div 1000000, t * r mod 1000000)"
    using mul_div64(2) [OF _ m, of 1000000] by simp
  ultimately show ?thesis using assms m
    by (cases "1000000 \<le> hi") (simp_all only: tokenCost_def Let_def case_prod_conv option.case, simp_all)
qed

lemma rounded_quotient_cases:
  fixes q :: int
  assumes "0 \<le> q"
  shows "(let quot = (if exact then q else uwrap64 (q + 1)) in
          if 2 ^ 64 \<le> q then Inl e else if quot > MaxInt64 then Inl e else Inr quot) =
         (let c = (if exact then q else q + 1) in
          if c \<le> MaxInt64 then Inr c else if c = 2 ^ 64 \<and> \<not> exact then Inr 0 else Inl e)"
proof -
  consider "2 ^ 64 \<le> q" | "q = 2 ^ 64 - 1" | "q < 2 ^ 64 - 1" by linarith
  then show ?thesis
  proof cases
    case 1
    then show ?thesis by (simp add: MaxInt64_def Let_def)
  next
    case 2
    then show ?thesis by (simp add: MaxInt64_def uwrap64_def Let_def)
  next
    case 3
    with assms have "uwrap64 (q + 1) = q + 1" by (simp add: uwrap64_def)
    with 3 show ?thesis by (simp add: MaxInt64_def Let_def)
  qed
qed

lemma tokenCost_cases:
  assumes "0 \<le> t" "0 \<le> r"
  shows "tokenCost t r =
    (if ceilCost t r \<le> MaxInt64 then Inr (ceilCost t r)
     else if ceilCost t r = 2 ^ 64 \<and> t * r mod 1000000 \<noteq> 0 then Inr 0
     else Inl ''calculated cost is too large'')"
proof -
  have "0 \<le> t * r div 1000000" using assms by (simp add: pos_imp_zdiv_nonneg_iff)
  from rounded_quotient_cases [OF this, of "t * r mod 1000000 = 0" "''calculated cost is too large''"]
  show ?thesis
    unfolding tokenCost_div [OF assms] ceilCost_div Let_def .
qed

lemma tokenCost_nonneg: "tokenCost t r = Inr c \<Longrightarrow> 0 \<le> c \<and> c \<le> MaxInt64"
proof -
  assume a: "tokenCost t r = Inr c"
  then have "0 \<le> t" "0 \<le> r" by (auto simp: tokenCost_def split: if_splits)
  moreover from this have "0 \<le> ceilCost t r"
    by (simp add: ceilCost_def pos_imp_zdiv_nonneg_iff)
  ultimately show ?thesis using a tokenCost_cases [of t r]
    by (auto simp: MaxInt64_def split: if_splits)
qed

lemma CalculateCost_bounds:
  "CalculateCost i out ri ro = Inr c \<Longrightarrow> 0 \<le> c \<and> c \<le> MaxInt64"
proof -
  assume a: "CalculateCost i out ri ro = Inr c"
  then obtain ci co where ci: "tokenCost i ri = Inr ci" and co: "tokenCost out ro = Inr co"
    and le: "\<not> ci > wrap64 (MaxInt64 - co)" and c: "c = wrap64 (ci + co)"
    by (auto simp: CalculateCost_def split: sum.splits if_splits)
  note b = tokenCost_nonneg [OF ci] tokenCost_nonneg [OF co]
  then have "wrap64 (MaxInt64 - co) = MaxInt64 - co"
    by (simp add: int64_range_def int64_limits)
  with b le c show ?thesis by (simp add: int64_range_def int64_limits)
qed

section \<open>Refill is exact division with a carried remainder\<close>

lemma refillAmount_spec:
  assumes "0 \<le> elapsed" "elapsed \<le> MaxInt64" "0 \<le> refill" "refill \<le> MaxInt64"
    and "0 < interval" "interval \<le> MaxInt64" "0 \<le> remainder" "remainder < interval"
  shows "refillAmount elapsed refill interval remainder =
    (let gained = elapsed * refill + remainder in
     if 2 ^ 64 * interval \<le> gained then Inr (MaxInt64, 0)
     else if gained div interval > MaxInt64 then Inr (MaxInt64, gained mod interval)
     else Inr (gained div interval, gained mod interval))"
proof -
  define p where "p = elapsed * refill"
  define g where "g = p + remainder"
  define lo0 where "lo0 = p mod 2 ^ 64"
  have "p \<le> MaxInt64 * MaxInt64" using assms by (simp add: p_def mult_mono)
  then have p: "0 \<le> p" "p \<le> MaxInt64 * MaxInt64" using assms by (simp_all add: p_def)
  have lo0: "(p div 2 ^ 64) * 2 ^ 64 + lo0 = p" "0 \<le> lo0" "lo0 < 2 ^ 64"
    by (simp_all add: lo0_def)
  have mul: "bits_Mul64 elapsed refill = (p div 2 ^ 64, lo0)"
    by (simp add: bits_Mul64_def p_def lo0_def)
  have hi_div: "p div 2 ^ 64 + (lo0 + remainder) div 2 ^ 64 = g div 2 ^ 64"
  proof -
    have "g = lo0 + remainder + (p div 2 ^ 64) * 2 ^ 64" using lo0 by (simp add: g_def)
    then show ?thesis by simp
  qed
  have lo_mod: "(lo0 + remainder) mod 2 ^ 64 = g mod 2 ^ 64"
    by (simp add: g_def lo0_def mod_add_left_eq)
  have gb: "0 \<le> g" "g div 2 ^ 64 \<le> maxUint64"
  proof -
    show "0 \<le> g" using p assms by (simp add: g_def)
    have "g \<le> MaxInt64 * MaxInt64 + MaxInt64" using p assms by (simp add: g_def)
    then have "g < (maxUint64 + 1) * 2 ^ 64" by (simp add: int64_limits)
    then show "g div 2 ^ 64 \<le> maxUint64" using int_div_less_iff [of "2 ^ 64" g "maxUint64 + 1"] by simp
  qed
  then have hi: "uwrap64 (p div 2 ^ 64 + (lo0 + remainder) div 2 ^ 64) = g div 2 ^ 64"
    unfolding hi_div by (intro uwrap64_id) (simp_all add: pos_imp_zdiv_nonneg_iff)
  have add: "bits_Add64 lo0 remainder 0 = (g mod 2 ^ 64, (lo0 + remainder) div 2 ^ 64)"
    using lo_mod by (simp add: bits_Add64_def)
  have cmp: "interval \<le> g div 2 ^ 64 \<longleftrightarrow> 2 ^ 64 * interval \<le> g"
    using int_le_div_iff [of "2 ^ 64" interval g] by (simp add: mult.commute)
  have gg: "g = elapsed * refill + remainder" by (simp add: g_def p_def)
  have div: "\<not> interval \<le> g div 2 ^ 64 \<Longrightarrow>
      bits_Div64 (g div 2 ^ 64) (g mod 2 ^ 64) interval = Some (g div interval, g mod interval)"
    using assms(5) unfolding bits_Div64_def by (simp only: div_mult_mod_eq if_False) simp
  have guard: "\<not> (elapsed < 0 \<or> refill < 0 \<or> interval \<le> 0 \<or> remainder < 0 \<or> remainder \<ge> interval)"
    using assms by simp
  show ?thesis
    unfolding refillAmount_def if_not_P [OF guard] Let_def mul add case_prod_conv hi gg [symmetric] cmp
  proof (cases "2 ^ 64 * interval \<le> g")
    case False
    with cmp div show "(if 2 ^ 64 * interval \<le> g then Inr (MaxInt64, 0)
      else case bits_Div64 (g div 2 ^ 64) (g mod 2 ^ 64) interval of None \<Rightarrow> Inl ''panic''
         | Some (quot, nxt) \<Rightarrow> if MaxInt64 < quot then Inr (MaxInt64, nxt) else Inr (quot, nxt)) =
      (if 2 ^ 64 * interval \<le> g then Inr (MaxInt64, 0)
       else if MaxInt64 < g div interval then Inr (MaxInt64, g mod interval)
       else Inr (g div interval, g mod interval))"
      by (simp only: if_False option.case case_prod_conv not_False_eq_True simp_thms)
  qed (simp only: if_True)
qed

lemma refillAmount_conserves:
  assumes "0 \<le> elapsed" "elapsed \<le> MaxInt64" "0 \<le> refill" "refill \<le> MaxInt64"
    and "0 < interval" "interval \<le> MaxInt64" "0 \<le> remainder" "remainder < interval"
    and "refillAmount elapsed refill interval remainder = Inr (units, carry)"
  shows "0 \<le> units \<and> units \<le> MaxInt64 \<and> 0 \<le> carry \<and> carry < interval \<and>
         units * interval + carry \<le> elapsed * refill + remainder"
proof -
  define g where "g = elapsed * refill + remainder"
  have g0: "0 \<le> g" using assms by (simp add: g_def)
  from assms(9) have r: "(if 2 ^ 64 * interval \<le> g then Inr (MaxInt64, 0)
     else if g div interval > MaxInt64 then Inr (MaxInt64, g mod interval)
     else Inr (g div interval, g mod interval)) = (Inr (units, carry) :: string + int \<times> int)"
    unfolding refillAmount_spec [OF assms(1-8)] Let_def g_def .
  have d: "g div interval * interval + g mod interval = g" by simp
  have m: "0 \<le> g mod interval" "g mod interval < interval" using assms by simp_all
  consider "2 ^ 64 * interval \<le> g" | "\<not> 2 ^ 64 * interval \<le> g" "g div interval > MaxInt64"
    | "\<not> 2 ^ 64 * interval \<le> g" "g div interval \<le> MaxInt64" by linarith
  then show ?thesis unfolding g_def [symmetric]
  proof cases
    case 1
    moreover have "MaxInt64 * interval \<le> 2 ^ 64 * interval"
      using assms(5) by (simp add: MaxInt64_def)
    ultimately show "0 \<le> units \<and> units \<le> MaxInt64 \<and> 0 \<le> carry \<and> carry < interval \<and> units * interval + carry \<le> g"
      using r assms(5) by (simp add: MaxInt64_def)
  next
    case 2
    then have "MaxInt64 * interval \<le> g div interval * interval"
      using assms(5) by (intro mult_right_mono) simp_all
    moreover have "units = MaxInt64" "carry = g mod interval" using r 2 by simp_all
    moreover have "0 \<le> MaxInt64" by (simp add: MaxInt64_def)
    ultimately show "0 \<le> units \<and> units \<le> MaxInt64 \<and> 0 \<le> carry \<and> carry < interval \<and> units * interval + carry \<le> g"
      using d m by (metis add_mono_thms_linordered_semiring(3) order_refl)
  next
    case 3
    with r d m g0 assms(5) show "0 \<le> units \<and> units \<le> MaxInt64 \<and> 0 \<le> carry \<and> carry < interval \<and> units * interval + carry \<le> g"
      by (auto simp: pos_imp_zdiv_nonneg_iff)
  qed
qed

section \<open>Amounts survive printing and reading\<close>

lemma decNat_fraction:
  assumes "0 \<le> f" "f < nanosPerUSD"
  shows "length (drop 1 (decNat (nat (f + nanosPerUSD)))) = 9"
    and "list_all isDigit (drop 1 (decNat (nat (f + nanosPerUSD))))"
    and "digitsVal 0 (drop 1 (decNat (nat (f + nanosPerUSD)))) = f"
proof -
  let ?n = "nat (f + nanosPerUSD)"
  have len: "length (decNat ?n) = 10"
    using length_decNat [of 9 ?n] assms by (simp add: nanosPerUSD_def)
  then obtain c cs where dn: "decNat ?n = c # cs" by (cases "decNat ?n") auto
  with len have cs: "length cs = 9" by simp
  have dig: "isDigit c" "list_all isDigit cs" using decNat_digits [of ?n] dn by simp_all
  have "f + nanosPerUSD = digitVal c * 10 ^ 9 + digitsVal 0 cs"
    using digitsVal_decNat [of ?n] digitsVal_shift [of "digitVal c" cs] cs dn assms
    by (simp add: nanosPerUSD_def)
  moreover have "0 \<le> digitsVal 0 cs" "digitsVal 0 cs < 10 ^ 9"
    using digitsVal_bounds [OF dig(2)] cs by simp_all
  moreover from calculation have "0 < digitVal c" "digitVal c < 2"
    using assms by (simp_all add: nanosPerUSD_def)
  then have "digitVal c = 1" by linarith
  ultimately have "digitsVal 0 cs = f"
    using assms by (simp add: nanosPerUSD_def)
  with cs dig dn show "length (drop 1 (decNat ?n)) = 9" "list_all isDigit (drop 1 (decNat ?n))"
    "digitsVal 0 (drop 1 (decNat ?n)) = f" by simp_all
qed

lemma list_all_trimRightChar: "list_all P s \<Longrightarrow> list_all P (trimRightChar c s)"
  using set_trimRightChar [of c s] by (auto simp: list_all_iff)

lemma ParseUSD_parts:
  assumes "0 \<le> w" "list_all isDigit f" "length f \<le> 9"
    and "v = decNat (nat w) @ (if f = [] then [] else CHR ''.'' # f)"
    and "n = w * nanosPerUSD + digitsVal 0 (f @ replicate (9 - length f) (CHR ''0''))" and "n \<le> MaxInt64"
  shows "ParseUSD v = Inr n"
proof -
  let ?p = "f @ replicate (9 - length f) (CHR ''0'')"
  have pd: "list_all isDigit ?p" "length ?p = 9" "?p \<noteq> []"
    using assms(2,3) by (auto simp: list_all_iff isDigit_def)
  note pb = digitsVal_bounds [OF pd(1), unfolded pd(2)]
  have nodot: "CHR ''.'' \<notin> set (decNat (nat w))" "CHR ''.'' \<notin> set f"
    using decNat_digits [of "nat w"] assms(2) isDigit_not_sign by (auto simp: list_all_iff)
  have hd: "hd v = hd (decNat (nat w))" "v \<noteq> []" using assms(4) by simp_all
  have trim: "TrimSpace v = v"
  proof (rule TrimSpace_plain [OF hd(2)])
    show "plainChar (hd v)" using hd decNat_hd by simp
    show "plainChar (last v)"
      using assms(2,4) decNat_digits [of "nat w"] by (auto simp: list_all_iff)
  qed
  have sign: "\<not> hasPrefix v ''-''" "\<not> hasPrefix v ''+''"
    using hd decNat_hd [of "nat w"] by (cases v; auto simp: hasPrefix_def dest: isDigit_not_sign)+
  have split: "splitOn (CHR ''.'') v = decNat (nat w) # (if f = [] then [] else [f])"
    using nodot assms(4) by (auto simp: splitOn_none splitOn_one)
  have wle: "w \<le> 9223372036" using assms(5,6) pb by (simp add: nanosPerUSD_def MaxInt64_def)
  have whole: "parseInt64 (decNat (nat w)) = Some w"
    using parseInt64_decNat [of "nat w"] assms(1) wle by (simp add: MaxInt64_def)
  have frac: "parseInt64 ?p = Some (digitsVal 0 ?p)"
    using pd pb by (intro parseInt64_digits) (simp_all add: MaxInt64_def)
  define d where "d = digitsVal 0 ?p"
  have db: "0 \<le> d" "d < 1000000000" using pb by (simp_all add: d_def)
  have wr: "wrap64 (MaxInt64 - d) = MaxInt64 - d" "wrap64 (w * nanosPerUSD + d) = w * nanosPerUSD + d"
    using assms(1,5,6) db by (simp_all add: int64_range_def int64_limits nanosPerUSD_def d_def)
  have c1: "\<not> w > go_div MaxInt64 nanosPerUSD" using wle by (simp add: MaxInt64_def nanosPerUSD_def)
  have "w \<le> (MaxInt64 - d) div nanosPerUSD"
    using assms(5,6) by (subst int_le_div_iff) (simp_all add: nanosPerUSD_def d_def)
  then have c2: "\<not> w > go_div (wrap64 (MaxInt64 - d)) nanosPerUSD"
    using db wr by (simp add: MaxInt64_def nanosPerUSD_def)
  show ?thesis
    using assms(1-3,5) hd(2) trim sign split whole frac c1 c2 wr pd(3)
    by (cases "f = []") (simp_all add: ParseUSD_def Let_def d_def)
qed

lemma ParseUSD_formatUSDUnsigned:
  assumes "0 \<le> n" "n \<le> MaxInt64"
  shows "ParseUSD (formatUSDUnsigned n) = Inr n"
proof -
  define w f where "w = n div nanosPerUSD" and "f = n mod nanosPerUSD"
  have wf: "n = w * nanosPerUSD + f" "0 \<le> f" "f < nanosPerUSD" "0 \<le> w"
    using assms by (simp_all add: w_def f_def nanosPerUSD_def pos_imp_zdiv_nonneg_iff)
  show ?thesis
  proof (cases "f = 0")
    case True
    have "digitsVal 0 (replicate 9 (CHR ''0'')) = 0"
      by (simp add: eval_nat_numeral digitVal_def)
    with True wf assms show ?thesis
      by (intro ParseUSD_parts [where w = w and f = "[]"])
         (simp_all add: formatUSDUnsigned_def Let_def w_def [symmetric] f_def [symmetric])
  next
    case False
    define d where "d = drop 1 (decNat (nat (f + nanosPerUSD)))"
    define t where "t = trimRightChar (CHR ''0'') d"
    note d = decNat_fraction [OF wf(2,3), folded d_def]
    have restore: "t @ replicate (9 - length t) (CHR ''0'') = d"
      using trimRightChar_restore [of "CHR ''0''" d] d(1) by (simp add: t_def)
    have "digitsVal 0 (replicate 9 (CHR ''0'')) = 0"
      by (simp add: eval_nat_numeral digitVal_def)
    then have ne: "t \<noteq> []" using restore d(3) False by auto
    have len: "length t \<le> 9" "list_all isDigit t"
      using trimRightChar_length [of "CHR ''0''" d] d list_all_trimRightChar [OF d(2)]
      by (simp_all add: t_def)
    have "uwrap64 (f + nanosPerUSD) = f + nanosPerUSD"
      using wf by (simp add: nanosPerUSD_def maxUint64_def)
    then have "formatUSDUnsigned n = decNat (nat w) @ CHR ''.'' # t"
      using False by (simp add: formatUSDUnsigned_def Let_def w_def f_def t_def d_def)
    then show ?thesis
      using ne len restore d(3) wf assms
      by (intro ParseUSD_parts [where w = w and f = t]) simp_all
  qed
qed


lemma formatUSDUnsigned_last:
  assumes "0 \<le> n"
  shows "plainChar (last (formatUSDUnsigned n))"
proof -
  let ?f = "n mod nanosPerUSD"
  have f: "0 \<le> ?f" "?f < nanosPerUSD" by (simp_all add: nanosPerUSD_def)
  note d = decNat_fraction [OF f]
  have u: "uwrap64 (?f + nanosPerUSD) = ?f + nanosPerUSD"
    using f by (simp add: nanosPerUSD_def maxUint64_def)
  have "list_all isDigit (trimRightChar (CHR ''0'') (drop 1 (decNat (nat (?f + nanosPerUSD)))))"
    using d(2) by (rule list_all_trimRightChar)
  moreover have "isDigit (last (decNat (nat (n div nanosPerUSD))))"
    using decNat_digits [of "nat (n div nanosPerUSD)"] by (simp add: list_all_iff)
  ultimately show ?thesis
    using u by (auto simp: formatUSDUnsigned_def Let_def list_all_iff last_append)
qed

lemma wrap64_pos: "0 \<le> n \<Longrightarrow> n \<le> MaxInt64 \<Longrightarrow> wrap64 n = n \<and> wrap64 (- n) = - n"
  by (simp add: int64_range_def int64_limits)

lemma FormatUSD_neg:
  assumes "- MaxInt64 \<le> n" "n < 0"
  shows "FormatUSD n = ''-'' @ formatUSDUnsigned (- n)"
proof -
  have "wrap64 (n + 1) = n + 1" "wrap64 (- (n + 1)) = - (n + 1)"
    using assms by (simp_all add: int64_range_def int64_limits)
  moreover have "uwrap64 (- n - 1) = - n - 1" "uwrap64 (- n) = - n"
    using assms by (simp_all add: int64_limits)
  ultimately show ?thesis using assms by (simp add: FormatUSD_def)
qed

lemma padded_fraction:
  assumes "list_all isDigit f" "length f \<le> 9"
  shows "\<exists>d. parseInt64 (f @ replicate (9 - length f) (CHR ''0'')) = Some d \<and> 0 \<le> d \<and> d < 1000000000"
proof -
  let ?p = "f @ replicate (9 - length f) (CHR ''0'')"
  have pd: "list_all isDigit ?p" "length ?p = 9" "?p \<noteq> []"
    using assms by (auto simp: list_all_iff isDigit_def)
  note pb = digitsVal_bounds [OF pd(1), unfolded pd(2)]
  then have "parseInt64 ?p = Some (digitsVal 0 ?p)"
    using pd by (intro parseInt64_digits) (simp_all add: MaxInt64_def)
  with pb show ?thesis by simp
qed

lemma ParseUSD_bounds:
  assumes "ParseUSD v0 = Inr n"
  shows "0 \<le> n \<and> n \<le> MaxInt64"
proof -
  define v where "v = TrimSpace v0"
  define f where "f = (if length (splitOn (CHR ''.'') v) = 2 then splitOn (CHR ''.'') v ! 1 else [])"
  from assms obtain w where v: "v \<noteq> []" "\<not> hasPrefix v ''-''"
    and hdne: "hd (splitOn (CHR ''.'') v) \<noteq> []"
    and w: "parseInt64 (hd (splitOn (CHR ''.'') v)) = Some w"
    and f: "length f \<le> 9" "list_all isDigit f"
    and le: "\<not> w > go_div (wrap64 (MaxInt64 - (case parseInt64 (f @ replicate (9 - length f) (CHR ''0'')) of
               Some v \<Rightarrow> v | None \<Rightarrow> 0))) nanosPerUSD"
    and n: "n = wrap64 (w * nanosPerUSD + (case parseInt64 (f @ replicate (9 - length f) (CHR ''0'')) of
               Some v \<Rightarrow> v | None \<Rightarrow> 0))"
    by (auto simp: ParseUSD_def Let_def v_def [symmetric] f_def split: if_splits option.splits)
  obtain d where d: "parseInt64 (f @ replicate (9 - length f) (CHR ''0'')) = Some d" "0 \<le> d" "d < 1000000000"
    using padded_fraction [OF f(2,1)] by blast
  have "hd v \<noteq> CHR ''-''" using v by (cases v) (auto simp: hasPrefix_def)
  then have "hd (hd (splitOn (CHR ''.'') v)) \<noteq> CHR ''-''"
    using hdne v unfolding hd_splitOn by (cases v) (auto split: if_splits)
  then have w0: "0 \<le> w" using parseInt64_nonneg [OF w] by simp
  have wr: "wrap64 (MaxInt64 - d) = MaxInt64 - d"
    using d by (simp add: int64_range_def int64_limits)
  have "w \<le> (MaxInt64 - d) div nanosPerUSD" using le d wr by (simp add: MaxInt64_def nanosPerUSD_def)
  then have "w * nanosPerUSD \<le> MaxInt64 - d"
    by (subst (asm) int_le_div_iff) (simp_all add: nanosPerUSD_def)
  then show ?thesis using w0 d n
    by (simp add: int64_range_def int64_limits nanosPerUSD_def)
qed

lemma parseSignedUSD_FormatUSD_neg:
  assumes "- MaxInt64 \<le> n" "n < 0"
  shows "parseSignedUSD (FormatUSD n) = Inr n"
proof -
  have p: "ParseUSD (formatUSDUnsigned (- n)) = Inr (- n)"
    using assms by (intro ParseUSD_formatUSDUnsigned) simp_all
  have ne: "formatUSDUnsigned (- n) \<noteq> []" by (simp add: formatUSDUnsigned_def Let_def)
  have "plainChar (last (formatUSDUnsigned (- n)))"
    using formatUSDUnsigned_last [of "- n"] assms by simp
  then have "TrimSpace (''-'' @ formatUSDUnsigned (- n)) = ''-'' @ formatUSDUnsigned (- n)"
    using ne by (intro TrimSpace_plain) (simp_all add: plainChar_def)
  with assms p wrap64_pos [of "- n"] show ?thesis
    by (simp add: parseSignedUSD_def FormatUSD_neg hasPrefix_def)
qed

lemma parseSignedUSD_FormatUSD_nonneg:
  assumes "0 \<le> n" "n \<le> MaxInt64"
  shows "parseSignedUSD (FormatUSD n) = Inr n"
proof -
  have p: "ParseUSD (formatUSDUnsigned n) = Inr n" using assms by (rule ParseUSD_formatUSDUnsigned)
  obtain d r where dr: "formatUSDUnsigned n = d # r" "isDigit d"
  proof -
    have "hd (formatUSDUnsigned n) = hd (decNat (nat (n div nanosPerUSD)))"
      by (simp add: formatUSDUnsigned_def Let_def)
    moreover have "formatUSDUnsigned n \<noteq> []" by (simp add: formatUSDUnsigned_def Let_def)
    ultimately show thesis using that decNat_hd by (metis list.collapse)
  qed
  have "plainChar (last (formatUSDUnsigned n))" using formatUSDUnsigned_last [of n] assms by simp
  then have "TrimSpace (formatUSDUnsigned n) = formatUSDUnsigned n"
    using dr by (intro TrimSpace_plain) simp_all
  moreover have "\<not> hasPrefix (formatUSDUnsigned n) ''-''"
    using dr isDigit_not_sign by (auto simp: hasPrefix_def)
  ultimately show ?thesis using assms p by (simp add: parseSignedUSD_def FormatUSD_def)
qed

section \<open>Properties\<close>

text \<open>
  (C20) Amounts survive printing: every nano-dollar amount of magnitude at most the largest
  int64 is read back by \<^verbatim>\<open>parseSignedUSD\<close> from the text \<^verbatim>\<open>FormatUSD\<close> prints, and a
  non-negative one by \<^verbatim>\<open>ParseUSD\<close>. No digit of the nine decimals is lost.
\<close>

theorem USD_roundtrip:
  assumes "- MaxInt64 \<le> n" "n \<le> MaxInt64"
  shows "parseSignedUSD (FormatUSD n) = Inr n \<and> (0 \<le> n \<longrightarrow> ParseUSD (FormatUSD n) = Inr n)"
proof (cases "n < 0")
  case True
  with assms show ?thesis by (simp add: parseSignedUSD_FormatUSD_neg)
next
  case False
  with assms ParseUSD_formatUSDUnsigned [of n] show ?thesis
    by (simp add: parseSignedUSD_FormatUSD_nonneg) (simp add: FormatUSD_def)
qed

theorem USD_roundtrip_witness: "parseSignedUSD (FormatUSD (- 1500000)) = Inr (- 1500000)"
  using USD_roundtrip [of "- 1500000"] by (simp add: MaxInt64_def)

text \<open>
  (C22) \<^verbatim>\<open>tokenCost\<close> on non-negative inputs is the price rounded up to a whole nano-dollar
  whenever that fits in an int64, and otherwise the error "calculated cost is too large" - except
  when the rounded cost is exactly 2 to the 64 with a remainder, where the increment of the
  uint64 quotient wraps and the cost comes out as 0.
\<close>

theorem tokenCost_exact:
  assumes "0 \<le> tokens" "0 \<le> rate"
  shows "tokenCost tokens rate =
    (if ceilCost tokens rate \<le> MaxInt64 then Inr (ceilCost tokens rate)
     else if ceilCost tokens rate = 2 ^ 64 \<and> tokens * rate mod 1000000 \<noteq> 0 then Inr 0
     else Inl ''calculated cost is too large'')"
  by (rule tokenCost_cases [OF assms])

theorem tokenCost_exact_witness: "tokenCost 1 1 = Inr 1 \<and> tokenCost 3000000 7 = Inr 21"
  using tokenCost_exact [of 1 1] tokenCost_exact [of 3000000 7] by (simp add: ceilCost_def MaxInt64_def)

text \<open>
  (C23) The wrap is reachable from valid int64 inputs: 2000001 tokens at a rate of
  9223367425171063222 nano-dollars per million cost 18446744073709551616 nano-dollars, and
  \<^verbatim>\<open>tokenCost\<close> returns 0 without an error, so \<^verbatim>\<open>CalculateCost\<close> charges nothing.
\<close>

theorem tokenCost_wraps_to_zero:
  "ceilCost 2000001 9223367425171063222 = 18446744073709551616 \<and> tokenCost 2000001 9223367425171063222 = Inr 0 \<and>
   CalculateCost 2000001 0 9223367425171063222 0 = Inr 0"
proof -
  have z: "tokenCost 2000001 9223367425171063222 = Inr 0"
    by (subst tokenCost_cases) (simp_all add: ceilCost_def MaxInt64_def)
  moreover have "tokenCost 0 0 = Inr 0"
    by (subst tokenCost_cases) (simp_all add: ceilCost_def MaxInt64_def)
  ultimately show ?thesis by (simp add: CalculateCost_def ceilCost_def wrap64_def MaxInt64_def)
qed

text \<open>
  (C21) \<^verbatim>\<open>CalculateCost\<close> adds its two parts without overflow: a part is the price rounded up, except
  that a part of exactly 2 to the 64 that was rounded up wraps to 0; the result is the exact sum of the
  parts when that fits an int64, and otherwise the error "calculated cost is too large".
\<close>

theorem CalculateCost_exact:
  assumes "0 \<le> i" "0 \<le> out" "0 \<le> ri" "0 \<le> ro"
  shows "let part = (\<lambda>t r. if ceilCost t r = 2 ^ 64 \<and> t * r mod 1000000 \<noteq> 0 then 0 else ceilCost t r)
    in CalculateCost i out ri ro =
      (if part i ri + part out ro \<le> MaxInt64 then Inr (part i ri + part out ro)
       else Inl ''calculated cost is too large'')"
proof -
  define part where "part = (\<lambda>t r. if ceilCost t r = 2 ^ 64 \<and> t * r mod 1000000 \<noteq> 0 then 0 else ceilCost t r)"
  have nn: "0 \<le> part i ri" "0 \<le> part out ro"
    using assms by (simp_all add: part_def ceilCost_def pos_imp_zdiv_nonneg_iff)
  have one: "tokenCost t r = (if part t r \<le> MaxInt64 then Inr (part t r) else Inl ''calculated cost is too large'')"
    if "0 \<le> t" "0 \<le> r" for t r
    using tokenCost_cases [OF that] by (simp add: part_def MaxInt64_def)
  note ti = one [OF assms(1,3)] and to = one [OF assms(2,4)]
  have "CalculateCost i out ri ro =
    (if part i ri + part out ro \<le> MaxInt64 then Inr (part i ri + part out ro) else Inl ''calculated cost is too large'')"
  proof (cases "part i ri \<le> MaxInt64 \<and> part out ro \<le> MaxInt64")
    case True
    then have "wrap64 (MaxInt64 - part out ro) = MaxInt64 - part out ro"
      using nn by (simp add: int64_range_def int64_limits)
    moreover have "wrap64 (part i ri + part out ro) = part i ri + part out ro"
      if "part i ri + part out ro \<le> MaxInt64" using that nn by (simp add: int64_range_def int64_limits)
    ultimately show ?thesis using True ti to by (auto simp: CalculateCost_def)
  next
    case False
    then show ?thesis using ti to nn by (auto simp: CalculateCost_def)
  qed
  then show ?thesis by (simp add: part_def Let_def)
qed

theorem CalculateCost_exact_witness: "CalculateCost 1500 700 2500000000 10000000000 = Inr 10750000"
  using CalculateCost_exact [of 1500 700 2500000000 10000000000] by (simp add: ceilCost_def MaxInt64_def)

text \<open>
  (C24) Token-bucket refill neither creates nor loses allowance: with the remainder carried over,
  \<^verbatim>\<open>refillAmount\<close> accounts for every unit-millisecond of the elapsed time exactly, and only
  ever rounds down where the amount is capped at the largest int64. The carried remainder stays
  below the interval.
\<close>

theorem refill_conserves_allowance:
  assumes "0 \<le> elapsed" "elapsed \<le> MaxInt64" "0 \<le> refill" "refill \<le> MaxInt64"
    and "0 < interval" "interval \<le> MaxInt64" "0 \<le> remainder" "remainder < interval"
  shows "\<exists>units carry. refillAmount elapsed refill interval remainder = Inr (units, carry) \<and>
    0 \<le> units \<and> units \<le> MaxInt64 \<and> 0 \<le> carry \<and> carry < interval \<and>
    (if elapsed * refill + remainder < (MaxInt64 + 1) * interval
     then units * interval + carry = elapsed * refill + remainder else units = MaxInt64)"
proof -
  let ?g = "elapsed * refill + remainder"
  have g: "0 \<le> ?g" using assms by simp
  have q: "MaxInt64 < ?g div interval \<longleftrightarrow> \<not> ?g < (MaxInt64 + 1) * interval"
    using int_div_less_iff [of interval ?g "MaxInt64 + 1"] assms(5) by linarith
  have big: "?g \<ge> 2 ^ 64 * interval \<Longrightarrow> \<not> ?g < (MaxInt64 + 1) * interval"
    using mult_right_mono [of "MaxInt64 + 1" "2 ^ 64" interval] assms(5) by (simp add: MaxInt64_def)
  have m: "0 \<le> ?g mod interval" "?g mod interval < interval" using assms(5) by simp_all
  have d: "0 \<le> ?g div interval" using g assms(5) by (simp add: pos_imp_zdiv_nonneg_iff)
  have e: "?g div interval * interval + ?g mod interval = ?g" by simp
  have M: "0 \<le> MaxInt64" by (simp add: MaxInt64_def)
  show ?thesis
    using refillAmount_spec [OF assms] q big m d e M assms(5) unfolding Let_def
    by (cases "2 ^ 64 * interval \<le> ?g"; cases "MaxInt64 < ?g div interval") auto
qed

theorem refill_conserves_allowance_witness:
  "\<exists>units carry. refillAmount 1234 10 500 77 = Inr (units, carry) \<and> units * 500 + carry = 12417"
  using refill_conserves_allowance [of 1234 10 500 77] by (auto simp: MaxInt64_def)

end
