(* ===== verification/Calendar.thy ===== *)
theory Calendar
  imports Prelude
begin

text \<open>
  What the sources use of Go's \<^verbatim>\<open>time\<close> package on UTC instants: the civil date of a
  Unix millisecond, \<^verbatim>\<open>time.Date\<close> and \<^verbatim>\<open>AddDate\<close>, the weekday, the RFC 3339
  texts it prints and reads. Days are counted from 1 January of year 1 in the
  proleptic Gregorian calendar, as the package does; 1970-01-01 is day 719162.
\<close>

section \<open>Civil dates\<close>

definition isLeap :: "int \<Rightarrow> bool" where
  "isLeap y \<longleftrightarrow> y mod 4 = 0 \<and> (y mod 100 \<noteq> 0 \<or> y mod 400 = 0)"

definition daysBeforeYear :: "int \<Rightarrow> int" where
  "daysBeforeYear y = 365 * (y - 1) + (y - 1) div 4 - (y - 1) div 100 + (y - 1) div 400"

definition daysBeforeMonth :: "bool \<Rightarrow> int \<Rightarrow> int" where
  "daysBeforeMonth leap m =
     (if m \<le> 1 then 0 else if m = 2 then 31
      else (if leap then 1 else 0) +
        (if m = 3 then 59 else if m = 4 then 90 else if m = 5 then 120 else if m = 6 then 151
         else if m = 7 then 181 else if m = 8 then 212 else if m = 9 then 243 else if m = 10 then 273
         else if m = 11 then 304 else if m = 12 then 334 else 365))"

definition daysInMonth :: "int \<Rightarrow> int \<Rightarrow> int" where
  "daysInMonth y m = daysBeforeMonth (isLeap y) (m + 1) - daysBeforeMonth (isLeap y) m"

definition yearOfDay :: "int \<Rightarrow> int" where
  "yearOfDay z =
     (let y = 400 * z div 146097 + 1 in if daysBeforeYear (y + 1) \<le> z then y + 1 else y)"

definition monthOfYearDay :: "bool \<Rightarrow> int \<Rightarrow> int" where
  "monthOfYearDay leap d =
     (if d < daysBeforeMonth leap 2 then 1 else if d < daysBeforeMonth leap 3 then 2
      else if d < daysBeforeMonth leap 4 then 3 else if d < daysBeforeMonth leap 5 then 4
      else if d < daysBeforeMonth leap 6 then 5 else if d < daysBeforeMonth leap 7 then 6
      else if d < daysBeforeMonth leap 8 then 7 else if d < daysBeforeMonth leap 9 then 8
      else if d < daysBeforeMonth leap 10 then 9 else if d < daysBeforeMonth leap 11 then 10
      else if d < daysBeforeMonth leap 12 then 11 else 12)"

definition civilOfDay :: "int \<Rightarrow> int \<times> int \<times> int" where
  "civilOfDay z =
     (let y = yearOfDay z; d = z - daysBeforeYear y; m = monthOfYearDay (isLeap y) d
      in (y, m, d - daysBeforeMonth (isLeap y) m + 1))"

text \<open>\<^verbatim>\<open>time.Date\<close> normalises a month of 13 to January of the next year; no other overflow occurs here.\<close>

definition dayOfCivil :: "int \<Rightarrow> int \<Rightarrow> int \<Rightarrow> int" where
  "dayOfCivil y m d =
     (if m > 12 then daysBeforeYear (y + 1) + daysBeforeMonth (isLeap (y + 1)) (m - 12) + d - 1
      else daysBeforeYear y + daysBeforeMonth (isLeap y) m + d - 1)"

section \<open>Instants\<close>

definition unixEpochDay :: int where
  "unixEpochDay = 719162"

definition dayMillis :: int where
  "dayMillis = 86400000"

definition dayOfMillis :: "int \<Rightarrow> int" where
  "dayOfMillis t = t div dayMillis + unixEpochDay"

definition hourOfMillis :: "int \<Rightarrow> int" where
  "hourOfMillis t = t mod dayMillis div 3600000"

definition minuteOfMillis :: "int \<Rightarrow> int" where
  "minuteOfMillis t = t mod 3600000 div 60000"

text \<open>\<^verbatim>\<open>Weekday\<close>: Sunday is 0; day 719162 was a Thursday.\<close>

definition weekdayOfMillis :: "int \<Rightarrow> int" where
  "weekdayOfMillis t = (t div dayMillis + 4) mod 7"

definition millisOfDate :: "int \<Rightarrow> int \<Rightarrow> int \<Rightarrow> int \<Rightarrow> int" where
  "millisOfDate y m d h = (dayOfCivil y m d - unixEpochDay) * dayMillis + h * 3600000"

text \<open>\<^verbatim>\<open>usage.UTCMinuteOfWeek\<close>: Monday 00:00 UTC is minute 0.\<close>

definition UTCMinuteOfWeek :: "int \<Rightarrow> int" where
  "UTCMinuteOfWeek t =
     (let day = (weekdayOfMillis t + 6) mod 7
      in day * 24 * 60 + hourOfMillis t * 60 + minuteOfMillis t)"

section \<open>Printing\<close>

definition padded :: "nat \<Rightarrow> int \<Rightarrow> string" where
  "padded width n =
     (let s = decNat (nat \<bar>n\<bar>) in (if n < 0 then ''-'' else []) @ replicate (width - length s) (CHR ''0'') @ s)"

text \<open>\<^verbatim>\<open>Format("2006-01-02")\<close> and \<^verbatim>\<open>Format(time.RFC3339Nano)\<close> of a millisecond instant in UTC.\<close>

definition formatDate :: "int \<Rightarrow> string" where
  "formatDate t = (case civilOfDay (dayOfMillis t) of (y, m, d) \<Rightarrow> padded 4 y @ ''-'' @ padded 2 m @ ''-'' @ padded 2 d)"

definition timeString :: "int \<Rightarrow> string" where
  "timeString t =
     (let ms = t mod 1000; frac = (if ms = 0 then [] else CHR ''.'' # trimRightChar (CHR ''0'') (padded 3 ms))
      in formatDate t @ ''T'' @ padded 2 (hourOfMillis t) @ '':'' @ padded 2 (minuteOfMillis t) @ '':'' @
         padded 2 (t mod 60000 div 1000) @ frac @ ''Z'')"

section \<open>Reading RFC 3339\<close>

text \<open>
  \<^verbatim>\<open>time.Parse(time.RFC3339, s)\<close> as Unix nanoseconds. \<open>getnum\<close> is the package's reader of a
  two-digit field, which accepts one digit unless \<open>fixed\<close> (so does the hour of this
  layout); fractional seconds may follow with a period or a comma.
\<close>

definition getnum :: "bool \<Rightarrow> string \<Rightarrow> (int \<times> string) option" where
  "getnum fixed s =
     (case s of [] \<Rightarrow> None
      | a # r \<Rightarrow>
          if \<not> isDigit a then None
          else (case r of
                  b # r' \<Rightarrow> if isDigit b then Some (10 * digitVal a + digitVal b, r')
                            else if fixed then None else Some (digitVal a, r)
                | [] \<Rightarrow> if fixed then None else Some (digitVal a, r)))"

definition expectChar :: "char \<Rightarrow> string \<Rightarrow> string option" where
  "expectChar c s = (case s of x # r \<Rightarrow> if x = c then Some r else None | [] \<Rightarrow> None)"

definition parseFraction :: "string \<Rightarrow> int \<times> string" where
  "parseFraction s =
     (case s of
        x # r \<Rightarrow>
          if (x = CHR ''.'' \<or> x = CHR '','') \<and> r \<noteq> [] \<and> isDigit (hd r)
          then let ds = takeWhile isDigit r; used = take 9 ds
               in (digitsVal 0 used * 10 ^ (9 - length used), dropWhile isDigit r)
          else (0, s)
      | [] \<Rightarrow> (0, s))"

definition parseZone :: "string \<Rightarrow> (int \<times> string) option" where
  "parseZone s =
     (case s of
        x # r \<Rightarrow>
          if x = CHR ''Z'' then Some (0, r)
          else if x \<noteq> CHR ''+'' \<and> x \<noteq> CHR ''-'' then None
          else Option.bind (getnum True r) (\<lambda>(hh, r1).
               Option.bind (expectChar (CHR '':'') r1) (\<lambda>r2.
               Option.bind (getnum True r2) (\<lambda>(mm, r3).
                 if hh > 24 \<or> mm > 60 then None
                 else let off = (hh * 60 + mm) * 60 in Some (if x = CHR ''-'' then - off else off, r3))))
      | [] \<Rightarrow> None)"

definition parseYear :: "string \<Rightarrow> (int \<times> string) option" where
  "parseYear s =
     (if length s < 4 \<or> \<not> list_all isDigit (take 4 s) then None
      else Some (digitsVal 0 (take 4 s), drop 4 s))"

definition parseRFC3339 :: "string \<Rightarrow> int option" where
  "parseRFC3339 s =
     Option.bind (parseYear s) (\<lambda>(y, s1).
     Option.bind (expectChar (CHR ''-'') s1) (\<lambda>s2.
     Option.bind (getnum True s2) (\<lambda>(mo, s3).
     Option.bind (expectChar (CHR ''-'') s3) (\<lambda>s4.
     Option.bind (getnum True s4) (\<lambda>(d, s5).
     Option.bind (expectChar (CHR ''T'') s5) (\<lambda>s6.
     Option.bind (getnum False s6) (\<lambda>(h, s7).
     Option.bind (expectChar (CHR '':'') s7) (\<lambda>s8.
     Option.bind (getnum True s8) (\<lambda>(mi, s9).
     Option.bind (expectChar (CHR '':'') s9) (\<lambda>s10.
     Option.bind (getnum True s10) (\<lambda>(sec, s11).
     case parseFraction s11 of (nanos, s12) \<Rightarrow>
     Option.bind (parseZone s12) (\<lambda>(off, rest).
       if rest \<noteq> [] \<or> mo < 1 \<or> mo > 12 \<or> h \<ge> 24 \<or> mi \<ge> 60 \<or> sec \<ge> 60 \<or> d < 1 \<or> d > daysInMonth y mo then None
       else Some ((((dayOfCivil y mo d - unixEpochDay) * 86400 + h * 3600 + mi * 60 + sec - off) * 1000000000) + nanos)))))))))))))"

definition unixMilliOfNanos :: "int \<Rightarrow> int" where
  "unixMilliOfNanos n = n div 1000000"

section \<open>The calendar partitions the days\<close>

lemma isLeap_step: "daysBeforeYear (y + 1) = daysBeforeYear y + 365 + (if isLeap y then 1 else 0)"
proof -
  have "(y - 1) div k = (if y mod k = 0 then y div k - 1 else y div k)" if k: "0 < k" for k :: int
  proof (cases "y mod k = 0")
    case True
    then have "y - 1 = k * (y div k - 1) + (k - 1)"
      using mult_div_mod_eq [of k y] by (simp add: algebra_simps)
    then have "(y - 1) div k = y div k - 1" using k by (intro int_div_pos_eq [where r = "k - 1"]) simp_all
    with True show ?thesis by simp
  next
    case False
    have m: "0 < y mod k" "y mod k < k"
      using False k pos_mod_sign [of k y] pos_mod_bound [of k y] by linarith+
    have "y - 1 = k * (y div k) + (y mod k - 1)" by simp
    then have "(y - 1) div k = y div k" using m by (intro int_div_pos_eq [where r = "y mod k - 1"]) simp_all
    with False show ?thesis by simp
  qed
  note d = this [of 4] this [of 100] this [of 400]
  have "y mod 400 = 0 \<Longrightarrow> y mod 100 = 0" "y mod 100 = 0 \<Longrightarrow> y mod 4 = 0"
    by presburger+
  then show ?thesis using d by (auto simp: daysBeforeYear_def isLeap_def)
qed

lemma yearOfDay_bounds:
  "daysBeforeYear (yearOfDay z) \<le> z" "z < daysBeforeYear (yearOfDay z + 1)"
proof -
  define p where "p = 400 * z div 146097"
  have z: "146097 * p \<le> 400 * z" "400 * z < 146097 * (p + 1)"
    unfolding p_def by simp_all
  have b: "k * (q div k) \<le> q" "q < k * (q div k) + k" if "0 < k" for k q :: int
    using that pos_mod_sign [of k q] pos_mod_bound [of k q] mult_div_mod_eq [of k q] by linarith+
  note bp = b [of 4 p] b [of 100 p] b [of 400 p]
  have lo: "daysBeforeYear (p + 1) \<le> z"
    using z bp by (simp add: daysBeforeYear_def)
  have "p + 2 - 1 = p + 1" by simp
  then have "daysBeforeYear (p + 2) = 365 * (p + 1) + (p + 1) div 4 - (p + 1) div 100 + (p + 1) div 400"
    by (simp only: daysBeforeYear_def)
  moreover have "100 * p \<le> 400 * ((p + 1) div 4) + 200" "400 * ((p + 1) div 100) \<le> 4 * p + 4"
      "p \<le> 400 * ((p + 1) div 400) + 398"
    using b(2) [of 4 "p + 1"] b(1) [of 100 "p + 1"] b(2) [of 400 "p + 1"] by linarith+
  ultimately have "400 * z < 400 * (daysBeforeYear (p + 2) + 2)"
    using z(2) by (simp only: distrib_left right_diff_distrib)
  then have hi: "z < daysBeforeYear (p + 2) + 2" by simp
  have step: "daysBeforeYear (p + 3) \<ge> daysBeforeYear (p + 2) + 365"
    using isLeap_step [of "p + 2"] by (simp add: add.assoc)
  show "daysBeforeYear (yearOfDay z) \<le> z" "z < daysBeforeYear (yearOfDay z + 1)"
    using lo hi step by (auto simp: yearOfDay_def p_def [symmetric] Let_def add.assoc)
qed

lemma monthOfYearDay_bounds:
  assumes "0 \<le> d" "d < 365 + (if leap then 1 else 0)"
  shows "1 \<le> monthOfYearDay leap d" "monthOfYearDay leap d \<le> 12"
    and "daysBeforeMonth leap (monthOfYearDay leap d) \<le> d"
    and "d < daysBeforeMonth leap (monthOfYearDay leap d + 1)"
proof -
  show "1 \<le> monthOfYearDay leap d" "monthOfYearDay leap d \<le> 12"
    by (simp_all add: monthOfYearDay_def)
  show "daysBeforeMonth leap (monthOfYearDay leap d) \<le> d"
    using assms by (simp add: monthOfYearDay_def) (simp add: daysBeforeMonth_def)
  show "d < daysBeforeMonth leap (monthOfYearDay leap d + 1)"
    using assms by (simp add: monthOfYearDay_def) (simp add: daysBeforeMonth_def)
qed

lemma civilOfDay_month:
  assumes "civilOfDay z = (y, m, d)"
  shows "1 \<le> m" "m \<le> 12" "1 \<le> d" "dayOfCivil y m d = z"
    and "dayOfCivil y m 1 \<le> z" "z < dayOfCivil y (m + 1) 1"
proof -
  define yd where "yd = z - daysBeforeYear y"
  have y: "y = yearOfDay z" and m: "m = monthOfYearDay (isLeap y) yd"
    and d: "d = yd - daysBeforeMonth (isLeap y) m + 1"
    using assms by (auto simp: civilOfDay_def Let_def yd_def)
  have yd: "0 \<le> yd" "yd < 365 + (if isLeap y then 1 else 0)"
    using yearOfDay_bounds [of z] isLeap_step [of y] by (simp_all add: yd_def y)
  note mb = monthOfYearDay_bounds [OF yd, folded m]
  show "1 \<le> m" "m \<le> 12" "1 \<le> d" "dayOfCivil y m d = z" "dayOfCivil y m 1 \<le> z"
    using mb d by (simp_all add: dayOfCivil_def yd_def)
  show "z < dayOfCivil y (m + 1) 1"
  proof (cases "m = 12")
    case True
    then show ?thesis using yearOfDay_bounds(2) [of z]
      by (simp add: dayOfCivil_def y daysBeforeMonth_def)
  next
    case False
    with mb show ?thesis by (simp add: dayOfCivil_def yd_def)
  qed
qed

lemma millis_split: "t = (dayOfMillis t - unixEpochDay) * dayMillis + t mod dayMillis"
  by (simp add: dayOfMillis_def)

lemma mod_dayMillis: "0 \<le> t mod dayMillis" "t mod dayMillis < dayMillis"
  by (simp_all add: dayMillis_def)

section \<open>Printing and reading back\<close>

lemma decNat_small: "n < 10 \<Longrightarrow> decNat n = [digitChar n]"
  by (subst decNat.simps) simp

lemma decNat_step: "10 \<le> n \<Longrightarrow> decNat n = decNat (n div 10) @ [digitChar (n mod 10)]"
  by (subst decNat.simps) simp

lemma digitChar_0 [simp]: "digitChar 0 = CHR ''0''"
  by (simp add: digitChar_def char_of_eq_iff)

lemma padded2:
  assumes "0 \<le> n" "n < 100"
  shows "padded 2 n = [digitChar (nat n div 10), digitChar (nat n mod 10)]"
proof (cases "n < 10")
  case True
  with assms show ?thesis by (simp add: padded_def decNat_small numeral_2_eq_2)
next
  case False
  with assms show ?thesis by (simp add: padded_def decNat_step decNat_small numeral_2_eq_2)
qed

lemma getnum_padded2:
  assumes "0 \<le> n" "n < 100"
  shows "getnum fixed (padded 2 n @ r) = Some (n, r)"
proof -
  have "nat n div 10 < 10" "nat n mod 10 < 10" using assms by auto
  then have "isDigit (digitChar (nat n div 10))" "isDigit (digitChar (nat n mod 10))"
    "digitVal (digitChar (nat n div 10)) = int (nat n div 10)"
    "digitVal (digitChar (nat n mod 10)) = int (nat n mod 10)" by simp_all
  moreover have "10 * int (nat n div 10) + int (nat n mod 10) = n" using assms by (simp add: zdiv_int zmod_int)
  ultimately show ?thesis using padded2 [OF assms] by (simp add: getnum_def)
qed

lemma digitsVal_zeros: "digitsVal 0 (replicate k (CHR ''0'') @ s) = digitsVal 0 s"
  by (induction k) (simp_all add: digitVal_def)

lemma padded_props:
  assumes "0 \<le> n" "n < 10 ^ Suc w"
  shows "length (padded (Suc w) n) = Suc w" "list_all isDigit (padded (Suc w) n)" "digitsVal 0 (padded (Suc w) n) = n"
proof -
  have len: "length (decNat k) \<le> Suc w'" if "k < 10 ^ Suc w'" for k w'
    using that
  proof (induction w' arbitrary: k)
    case 0
    then show ?case by (simp add: decNat_small)
  next
    case (Suc w')
    show ?case
    proof (cases "k < 10")
      case True
      then show ?thesis by (simp add: decNat_small)
    next
      case False
      have "k div 10 < 10 ^ Suc w'" using Suc.prems by (simp add: less_mult_imp_div_less mult.commute)
      then show ?thesis using Suc.IH [of "k div 10"] False by (simp add: decNat_step)
    qed
  qed
  have "nat n < 10 ^ Suc w" using assms by (simp add: nat_less_iff)
  note l = len [OF this]
  show "length (padded (Suc w) n) = Suc w" using l assms by (simp add: padded_def Let_def)
  show "list_all isDigit (padded (Suc w) n)"
    using assms decNat_digits [of "nat n"] by (auto simp: padded_def Let_def list_all_iff isDigit_def)
  show "digitsVal 0 (padded (Suc w) n) = n"
    using assms by (simp add: padded_def Let_def digitsVal_zeros digitsVal_decNat)
qed

lemma parseYear_padded4:
  assumes "0 \<le> y" "y < 10000"
  shows "parseYear (padded 4 y @ r) = Some (y, r)"
  using padded_props [of y 3] assms by (simp add: parseYear_def)

lemma expectChar_Cons [simp]: "expectChar c (c # r) = Some r"
  by (simp add: expectChar_def)

definition millisFraction :: "int \<Rightarrow> string" where
  "millisFraction ms = (if ms = 0 then [] else CHR ''.'' # trimRightChar (CHR ''0'') (padded 3 ms))"

lemma parseFraction_millis:
  assumes "0 \<le> ms" "ms < 1000"
  shows "parseFraction (millisFraction ms @ ''Z'') = (ms * 1000000, ''Z'')"
proof (cases "ms = 0")
  case True
  then show ?thesis by (simp add: millisFraction_def parseFraction_def)
next
  case False
  let ?p = "padded 3 ms" let ?t = "trimRightChar (CHR ''0'') ?p"
  note p = padded_props [of ms 2, simplified]
  have dig: "list_all isDigit ?t" using p(2) set_trimRightChar [of "CHR ''0''" ?p] assms by (auto simp: list_all_iff)
  define k where "k = length ?p - length ?t"
  have k: "?p = ?t @ replicate k (CHR ''0'')" unfolding k_def by (rule trimRightChar_restore [symmetric])
  have lk: "length ?t + k = 3" using p(1) assms trimRightChar_length [of "CHR ''0''" ?p] by (simp add: k_def)
  have "digitsVal 0 ?p = digitsVal 0 ?t * 10 ^ k"
    by (subst k) (simp add: digitsVal_append digitsVal_shift [of "digitsVal 0 ?t" "replicate k (CHR ''0'')"]
        digitsVal_zeros [of k "[]", simplified])
  then have v: "digitsVal 0 ?t * 10 ^ k = ms" using p(3) assms by simp
  have ne: "?t \<noteq> []" using v False by auto
  have "digitsVal 0 ?t * 10 ^ (9 - length ?t) = (digitsVal 0 ?t * 10 ^ k) * 10 ^ 6"
  proof -
    have "9 - length ?t = k + 6" using lk by simp
    then show ?thesis by (simp add: power_add)
  qed
  then have v9: "digitsVal 0 ?t * 10 ^ (9 - length ?t) = ms * 1000000" using v by simp
  have z: "\<not> isDigit (CHR ''Z'')" by (simp add: isDigit_def)
  have tw: "takeWhile isDigit (?t @ ''Z'') = ?t" "dropWhile isDigit (?t @ ''Z'') = ''Z''"
    using dig z by (auto simp: list_all_iff takeWhile_append dropWhile_append)
  have "take 9 ?t = ?t" "isDigit (hd (?t @ ''Z''))" using lk dig ne by (cases ?t; simp)+
  then show ?thesis using False tw v9 by (simp add: millisFraction_def parseFraction_def Let_def)
qed

definition year10000 :: int where
  "year10000 = 253402300800000"

lemma yearOfDay_10000:
  assumes "0 \<le> z" "z < 3652059"
  shows "1 \<le> yearOfDay z" "yearOfDay z < 10000"
proof -
  have "400 * z div 146097 + 1 \<ge> 1" using assms by simp
  then show "1 \<le> yearOfDay z" by (simp add: yearOfDay_def Let_def)
  define p where "p = 400 * z div 146097"
  have p: "p \<le> 9998" using assms by (simp add: p_def)
  have ten: "daysBeforeYear 10000 = 3652059" by (simp add: daysBeforeYear_def)
  show "yearOfDay z < 10000"
  proof (cases "p = 9998")
    case True
    with assms ten show ?thesis by (simp add: yearOfDay_def Let_def p_def [symmetric])
  next
    case False
    with p show ?thesis by (simp add: yearOfDay_def Let_def p_def [symmetric])
  qed
qed

lemma clock_recombine:
  "t = 86400000 * a + r \<Longrightarrow> r = 3600000 * h + r2 \<Longrightarrow> r2 = 60000 * m + r3 \<Longrightarrow> r3 = 1000 * s + ms \<Longrightarrow>
   ((a + e - e) * 86400 + h * 3600 + m * 60 + s) * 1000 + ms = (t :: int)"
  by simp

lemma parse_timeString:
  assumes "0 \<le> t" "t < year10000"
  shows "map_option unixMilliOfNanos (parseRFC3339 (timeString t)) = Some t"
proof -
  obtain y m d where c: "civilOfDay (dayOfMillis t) = (y, m, d)" by (cases "civilOfDay (dayOfMillis t)")
  have "0 \<le> dayOfMillis t" "dayOfMillis t < 3652059" using assms
    by (auto simp: dayOfMillis_def dayMillis_def unixEpochDay_def year10000_def int_div_less_iff)
  note y = yearOfDay_10000 [OF this]
  have y_eq: "y = yearOfDay (dayOfMillis t)" using c by (simp add: civilOfDay_def Let_def)
  note cm = civilOfDay_month [OF c]
  have dm: "d \<le> daysInMonth y m"
    using cm(2,4,6) unfolding daysInMonth_def dayOfCivil_def by (simp split: if_splits) (simp add: daysBeforeMonth_def isLeap_step)
  have d31: "daysInMonth y m \<le> 31" using cm(1,2) by (simp add: daysInMonth_def daysBeforeMonth_def)
  have h: "0 \<le> hourOfMillis t" "hourOfMillis t < 24" "0 \<le> minuteOfMillis t" "minuteOfMillis t < 60"
    "0 \<le> t mod 60000 div 1000" "t mod 60000 div 1000 < 60" "0 \<le> t mod 1000" "t mod 1000 < 1000"
    by (simp_all add: hourOfMillis_def minuteOfMillis_def dayMillis_def int_div_less_iff)
  have shape: "timeString t = padded 4 y @ ''-'' @ padded 2 m @ ''-'' @ padded 2 d @ ''T'' @ padded 2 (hourOfMillis t) @ '':'' @
      padded 2 (minuteOfMillis t) @ '':'' @ padded 2 (t mod 60000 div 1000) @ millisFraction (t mod 1000) @ ''Z''"
    by (simp add: timeString_def formatDate_def c Let_def millisFraction_def)
  have "parseRFC3339 (timeString t) = Some ((((dayOfCivil y m d - unixEpochDay) * 86400 + hourOfMillis t * 3600 +
      minuteOfMillis t * 60 + t mod 60000 div 1000 - 0) * 1000000000) + t mod 1000 * 1000000)"
    unfolding shape parseRFC3339_def
    using y y_eq cm(1,2,3) dm d31 h
    by (simp add: parseYear_padded4 getnum_padded2 parseFraction_millis parseZone_def)
  moreover have "((dayOfCivil y m d - unixEpochDay) * 86400 + hourOfMillis t * 3600 +
      minuteOfMillis t * 60 + t mod 60000 div 1000) * 1000 + t mod 1000 = t"
  proof -
    have r: "t mod 86400000 mod 3600000 = t mod 3600000" "t mod 3600000 mod 60000 = t mod 60000"
      "t mod 60000 mod 1000 = t mod 1000"
      by (simp_all add: mod_mod_cancel)
    have e: "t = 86400000 * (t div 86400000) + t mod 86400000"
      "t mod 86400000 = 3600000 * (t mod 86400000 div 3600000) + t mod 3600000"
      "t mod 3600000 = 60000 * (t mod 3600000 div 60000) + t mod 60000"
      "t mod 60000 = 1000 * (t mod 60000 div 1000) + t mod 1000"
      using mult_div_mod_eq [of 86400000 t] mult_div_mod_eq [of 3600000 "t mod 86400000"]
        mult_div_mod_eq [of 60000 "t mod 3600000"] mult_div_mod_eq [of 1000 "t mod 60000"] unfolding r by simp_all
    show ?thesis unfolding cm(4) dayOfMillis_def hourOfMillis_def minuteOfMillis_def dayMillis_def
      by (rule clock_recombine [OF e])
  qed
  ultimately show ?thesis by (simp add: unixMilliOfNanos_def algebra_simps)
qed
end
