(* ===== verification/Transaction.thy ===== *)
theory Transaction
  imports Prelude
begin

text \<open>
  How the services talk to their database. \<^verbatim>\<open>internal/storage/storage.go\<close> opens each
  SQLite store with one connection (\<^verbatim>\<open>SetMaxOpenConns(1)\<close>) and
  \<^verbatim>\<open>foreign_keys(ON)\<close>, so the transactions of a process run one after the other and a
  store is a value that a transaction reads and replaces.

  A transaction body is a function from the outside world, a step counter and a store
  to an error or to a result with the next counter and store. The world is everything
  the code does not decide: what \<^verbatim>\<open>service.now()\<close> reads, what
  \<^verbatim>\<open>credentials.RandomToken\<close> yields (\<open>None\<close> is its error) and whether the driver fails a
  statement (I/O error, cancelled context); each may differ at every step. So every
  \<^verbatim>\<open>if err != nil { return err }\<close> after a statement, a clock reading or a token is a
  branch of the model, and a theorem about a body holds for every world.
\<close>

section \<open>Errors\<close>

text \<open>
  The sentinel errors of the packages, \<^verbatim>\<open>sql.ErrNoRows\<close>, what SQLite reports for a
  violated constraint (\<open>ErrOwnerIndex\<close>: the unique index \<^verbatim>\<open>one_active_owner\<close>), a driver failure, a
  failed random token, \<^verbatim>\<open>auth.InputError\<close>, the admission denial (policy, metric, reason, seconds
  to wait) and errors made with \<^verbatim>\<open>errors.New\<close>.
\<close>

datatype goerr =
    ErrNotFound
  | ErrDenied
  | ErrConflict
  | ErrNoRows
  | ErrUnique
  | ErrCheck
  | ErrForeignKey
  | ErrDriver
  | ErrRandom
  | ErrExpired
  | ErrSetupComplete
  | ErrInvalidSession
  | ErrInvalidCredentials
  | ErrInvalidActivation
  | ErrTooManyAttempts
  | ErrOwnerIndex
  | InputError string
  | Denial string string string "int option"
  | ErrMsg string

section \<open>Transaction bodies\<close>

record world =
  w_now :: "nat \<Rightarrow> int"
  w_rand :: "nat \<Rightarrow> string option"
  w_fault :: "nat \<Rightarrow> bool"

type_synonym ('s, 'a) txm = "world \<Rightarrow> nat \<times> 's \<Rightarrow> goerr + 'a \<times> nat \<times> 's"

definition returnT :: "'a \<Rightarrow> ('s, 'a) txm" where
  "returnT x w c = Inr (x, c)"

definition failT :: "goerr \<Rightarrow> ('s, 'a) txm" where
  "failT e w c = Inl e"

definition bindT :: "('s, 'a) txm \<Rightarrow> ('a \<Rightarrow> ('s, 'b) txm) \<Rightarrow> ('s, 'b) txm" where
  "bindT m f w c = (case m w c of Inl e \<Rightarrow> Inl e | Inr (x, c') \<Rightarrow> f x w c')"

text \<open>\<open>thenT m k\<close> runs \<open>m\<close> for its effect; \<open>guardT b e k\<close> is \<^verbatim>\<open>if b { return err }\<close>.\<close>

definition thenT :: "('s, 'a) txm \<Rightarrow> ('s, 'b) txm \<Rightarrow> ('s, 'b) txm" where
  "thenT m k = bindT m (\<lambda>_. k)"

definition guardT :: "bool \<Rightarrow> goerr \<Rightarrow> ('s, 'a) txm \<Rightarrow> ('s, 'a) txm" where
  "guardT b e k = (if b then failT e else k)"

text \<open>A statement: the driver may fail it, else it computes on the store.\<close>

definition stmtT :: "('s \<Rightarrow> goerr + 'a \<times> 's) \<Rightarrow> ('s, 'a) txm" where
  "stmtT g w c =
     (if w_fault w (fst c) then Inl ErrDriver
      else case g (snd c) of Inl e \<Rightarrow> Inl e | Inr (x, s) \<Rightarrow> Inr (x, Suc (fst c), s))"

definition queryT :: "('s \<Rightarrow> 'a) \<Rightarrow> ('s, 'a) txm" where
  "queryT q = stmtT (\<lambda>s. Inr (q s, s))"

text \<open>\<^verbatim>\<open>QueryRow(...).Scan\<close>: \<open>None\<close> is \<^verbatim>\<open>sql.ErrNoRows\<close>.\<close>

definition rowT :: "('s \<Rightarrow> 'r list) \<Rightarrow> ('r \<Rightarrow> bool) \<Rightarrow> ('s, 'r option) txm" where
  "rowT tbl p = queryT (\<lambda>s. find p (tbl s))"

definition rowsT :: "('s \<Rightarrow> 'r list) \<Rightarrow> ('r \<Rightarrow> bool) \<Rightarrow> ('s, 'r list) txm" where
  "rowsT tbl p = queryT (\<lambda>s. filter p (tbl s))"

text \<open>
  \<^verbatim>\<open>INSERT\<close>: SQLite tests the CHECK constraints of the row, then the clash with a stored
  row (UNIQUE, PRIMARY KEY), then its foreign keys; the row is appended.
\<close>

definition insertT ::
  "('s \<Rightarrow> 'r list) \<Rightarrow> (('r list \<Rightarrow> 'r list) \<Rightarrow> 's \<Rightarrow> 's) \<Rightarrow> ('r \<Rightarrow> 'r \<Rightarrow> bool) \<Rightarrow> ('r \<Rightarrow> bool) \<Rightarrow>
   ('s \<Rightarrow> 'r \<Rightarrow> bool) \<Rightarrow> 'r \<Rightarrow> ('s, unit) txm" where
  "insertT tbl upd clash check fk r =
     stmtT (\<lambda>s. if \<not> check r then Inl ErrCheck
                else if list_ex (\<lambda>r'. clash r' r) (tbl s) then Inl ErrUnique
                else if \<not> fk s r then Inl ErrForeignKey
                else Inr ((), upd (\<lambda>rs. rs @ [r]) s))"

definition updateWhere :: "('r \<Rightarrow> bool) \<Rightarrow> ('r \<Rightarrow> 'r) \<Rightarrow> 'r list \<Rightarrow> 'r list" where
  "updateWhere p f rs = map (\<lambda>r. if p r then f r else r) rs"

text \<open>
  \<^verbatim>\<open>UPDATE ... WHERE\<close>: the matching rows are rewritten if they still satisfy the CHECK
  constraints; the result is \<^verbatim>\<open>RowsAffected\<close>. The updates of this program never change a
  key column, so UNIQUE and foreign keys cannot fail.
\<close>

definition updateT ::
  "('s \<Rightarrow> 'r list) \<Rightarrow> (('r list \<Rightarrow> 'r list) \<Rightarrow> 's \<Rightarrow> 's) \<Rightarrow> ('r \<Rightarrow> bool) \<Rightarrow> ('r \<Rightarrow> bool) \<Rightarrow>
   ('r \<Rightarrow> 'r) \<Rightarrow> ('s, nat) txm" where
  "updateT tbl upd check p f =
     stmtT (\<lambda>s. if list_all (\<lambda>r. p r \<longrightarrow> check (f r)) (tbl s)
                then Inr (length (filter p (tbl s)), upd (updateWhere p f) s)
                else Inl ErrCheck)"

definition deleteT ::
  "('s \<Rightarrow> 'r list) \<Rightarrow> (('r list \<Rightarrow> 'r list) \<Rightarrow> 's \<Rightarrow> 's) \<Rightarrow> ('r \<Rightarrow> bool) \<Rightarrow> ('s, nat) txm" where
  "deleteT tbl upd p = stmtT (\<lambda>s. Inr (length (filter p (tbl s)), upd (filter (\<lambda>r. \<not> p r)) s))"

text \<open>
  \<^verbatim>\<open>INSERT OR IGNORE\<close>: a row that breaks a CHECK or UNIQUE constraint is skipped; the result
  is \<^verbatim>\<open>RowsAffected\<close>. \<^verbatim>\<open>INSERT ... ON CONFLICT DO UPDATE\<close>: the row with the same key is
  merged with the excluded row, or the row is inserted.
\<close>

definition insertIgnoreT ::
  "('s \<Rightarrow> 'r list) \<Rightarrow> (('r list \<Rightarrow> 'r list) \<Rightarrow> 's \<Rightarrow> 's) \<Rightarrow> ('r \<Rightarrow> 'r \<Rightarrow> bool) \<Rightarrow> ('r \<Rightarrow> bool) \<Rightarrow>
   ('s \<Rightarrow> 'r \<Rightarrow> bool) \<Rightarrow> 'r \<Rightarrow> ('s, nat) txm" where
  "insertIgnoreT tbl upd clash check fk r =
     stmtT (\<lambda>s. if \<not> check r \<or> list_ex (\<lambda>r'. clash r' r) (tbl s) then Inr (0, s)
                else if \<not> fk s r then Inl ErrForeignKey
                else Inr (1, upd (\<lambda>rs. rs @ [r]) s))"

definition upsertT ::
  "('s \<Rightarrow> 'r list) \<Rightarrow> (('r list \<Rightarrow> 'r list) \<Rightarrow> 's \<Rightarrow> 's) \<Rightarrow> ('r \<Rightarrow> 'r \<Rightarrow> bool) \<Rightarrow> ('r \<Rightarrow> bool) \<Rightarrow>
   ('s \<Rightarrow> 'r \<Rightarrow> bool) \<Rightarrow> ('r \<Rightarrow> 'r \<Rightarrow> 'r) \<Rightarrow> 'r \<Rightarrow> ('s, unit) txm" where
  "upsertT tbl upd same check fk merge r =
     stmtT (\<lambda>s. if \<not> check r then Inl ErrCheck
                else if list_ex (\<lambda>r'. same r' r) (tbl s) then
                  if list_all (\<lambda>r'. same r' r \<longrightarrow> check (merge r' r)) (tbl s)
                  then Inr ((), upd (updateWhere (\<lambda>r'. same r' r) (\<lambda>r'. merge r' r)) s)
                  else Inl ErrCheck
                else if \<not> fk s r then Inl ErrForeignKey
                else Inr ((), upd (\<lambda>rs. rs @ [r]) s))"

definition nowT :: "('s, int) txm" where
  "nowT w c = Inr (w_now w (fst c), Suc (fst c), snd c)"

definition randT :: "('s, string) txm" where
  "randT w c = (case w_rand w (fst c) of None \<Rightarrow> Inl ErrRandom | Some t \<Rightarrow> Inr (t, Suc (fst c), snd c))"

definition commitT :: "('s, unit) txm" where
  "commitT = stmtT (\<lambda>s. Inr ((), s))"

text \<open>A statement whose error the code inspects and replaces.\<close>

definition mapErrT :: "(goerr \<Rightarrow> goerr) \<Rightarrow> ('s, 'a) txm \<Rightarrow> ('s, 'a) txm" where
  "mapErrT f m w c = (case m w c of Inl e \<Rightarrow> Inl (f e) | Inr r \<Rightarrow> Inr r)"

text \<open>\<^verbatim>\<open>fmt.Errorf("prefix: %w", err)\<close>: the message is prefixed; a sentinel stays what \<^verbatim>\<open>errors.Is\<close> finds.\<close>

definition wrapErr :: "string \<Rightarrow> goerr \<Rightarrow> goerr" where
  "wrapErr prefix e = (case e of ErrMsg m \<Rightarrow> ErrMsg (prefix @ m) | _ \<Rightarrow> e)"

text \<open>A read whose error the code drops (\<^verbatim>\<open>value, _ := ...\<close>).\<close>

definition tryT :: "('s, 'a) txm \<Rightarrow> ('s, 'a option) txm" where
  "tryT m w c = (case m w c of Inl e \<Rightarrow> Inr (None, Suc (fst c), snd c) | Inr (x, c') \<Rightarrow> Inr (Some x, c'))"

text \<open>A pure function that may fail, and its error kept or replaced.\<close>

definition liftT :: "string + 'a \<Rightarrow> ('s, 'a) txm" where
  "liftT r = (case r of Inl e \<Rightarrow> failT (ErrMsg e) | Inr x \<Rightarrow> returnT x)"

definition optionT :: "goerr \<Rightarrow> 'a option \<Rightarrow> ('s, 'a) txm" where
  "optionT e r = (case r of None \<Rightarrow> failT e | Some x \<Rightarrow> returnT x)"

text \<open>A row whose absence is an error the code names.\<close>

definition oneT :: "goerr \<Rightarrow> ('s \<Rightarrow> 'r list) \<Rightarrow> ('r \<Rightarrow> bool) \<Rightarrow> ('s, 'r) txm" where
  "oneT e tbl p = bindT (rowT tbl p) (optionT e)"

text \<open>\<^verbatim>\<open>for _, item := range items\<close>, for the effect and with a value carried along.\<close>

primrec forT :: "('x \<Rightarrow> ('s, unit) txm) \<Rightarrow> 'x list \<Rightarrow> ('s, unit) txm" where
  "forT f [] = returnT ()"
| "forT f (x # xs) = thenT (f x) (forT f xs)"

primrec foldT :: "('x \<Rightarrow> 'a \<Rightarrow> ('s, 'a) txm) \<Rightarrow> 'x list \<Rightarrow> 'a \<Rightarrow> ('s, 'a) txm" where
  "foldT f [] acc = returnT acc"
| "foldT f (x # xs) acc = bindT (f x acc) (foldT f xs)"

text \<open>
  \<^verbatim>\<open>BeginTx\<close>, the body, and the deferred \<^verbatim>\<open>Rollback\<close>: an error leaves the old store. The
  body ends with \<open>commitT\<close> where the source commits.
\<close>

definition atomicT :: "('s, 'a) txm \<Rightarrow> world \<Rightarrow> 's \<Rightarrow> (goerr + 'a) \<times> 's" where
  "atomicT m w s =
     (case thenT commitT m w (0, s) of Inl e \<Rightarrow> (Inl e, s) | Inr (x, _, s') \<Rightarrow> (Inr x, s'))"

text \<open>A read or a single statement outside a transaction.\<close>

definition autoT :: "('s, 'a) txm \<Rightarrow> world \<Rightarrow> 's \<Rightarrow> (goerr + 'a) \<times> 's" where
  "autoT m w s = (case m w (0, s) of Inl e \<Rightarrow> (Inl e, s) | Inr (x, _, s') \<Rightarrow> (Inr x, s'))"

lemmas tx_defs = returnT_def failT_def bindT_def thenT_def guardT_def stmtT_def queryT_def rowT_def
  rowsT_def insertT_def insertIgnoreT_def upsertT_def updateT_def deleteT_def nowT_def randT_def commitT_def mapErrT_def tryT_def liftT_def optionT_def oneT_def

section \<open>Atomicity\<close>

lemma atomicT_error: "fst (atomicT m w s) = Inl e \<Longrightarrow> snd (atomicT m w s) = s"
  by (auto simp: atomicT_def split: sum.splits)

lemma atomicT_Inr:
  "atomicT m w s = (Inr x, s') \<Longrightarrow> \<exists>n n'. m w (n, s) = Inr (x, n', s')"
  by (auto simp: atomicT_def thenT_def bindT_def commitT_def stmtT_def split: sum.splits if_splits)

lemma autoT_Inr: "autoT m w s = (Inr x, s') \<Longrightarrow> \<exists>n n'. m w (n, s) = Inr (x, n', s')"
  by (auto simp: autoT_def split: sum.splits)

section \<open>Inverting a successful run\<close>

text \<open>
  What a successful run says of its parts: \<open>tx_elim\<close> takes a body apart into the runs of its
  statements, \<open>tx_inv\<close> rewrites the run of one statement, so that
  \<open>clarsimp simp: tx_inv elim!: tx_elim\<close> opens a body without unfolding the monad.
\<close>

named_theorems tx_elim \<open>elimination rules for \<open>m w (n, s) = Inr r\<close>\<close>

named_theorems tx_inv \<open>equations for \<open>m w (n, s) = Inr (x, n', s')\<close>\<close>

lemma returnT_Inr [tx_inv]: "returnT x w (n, s) = Inr (y, n', s') \<longleftrightarrow> y = x \<and> n' = n \<and> s' = s"
  by (auto simp: returnT_def)

lemma failT_Inr [tx_inv]: "failT e w c = Inr r \<longleftrightarrow> False"
  by (simp add: failT_def)

lemma bindT_E [tx_elim]:
  assumes "bindT m f w (n, s) = Inr r"
  obtains x n' s' where "m w (n, s) = Inr (x, n', s')" "f x w (n', s') = Inr r"
  using assms by (auto simp: bindT_def split: sum.splits)

lemma thenT_E [tx_elim]:
  assumes "thenT m k w (n, s) = Inr r"
  obtains x n' s' where "m w (n, s) = Inr (x, n', s')" "k w (n', s') = Inr r"
  using assms unfolding thenT_def by (rule bindT_E)

lemma guardT_Inr [tx_inv]: "guardT b e k w c = Inr r \<longleftrightarrow> \<not> b \<and> k w c = Inr r"
  by (simp add: guardT_def failT_def)

lemma queryT_Inr [tx_inv]:
  "queryT q w (n, s) = Inr (x, n', s') \<longleftrightarrow> \<not> w_fault w n \<and> x = q s \<and> n' = Suc n \<and> s' = s"
  by (auto simp: queryT_def stmtT_def)

lemma rowT_Inr [tx_inv]:
  "rowT tbl p w (n, s) = Inr (x, n', s') \<longleftrightarrow> \<not> w_fault w n \<and> x = find p (tbl s) \<and> n' = Suc n \<and> s' = s"
  unfolding rowT_def by (rule queryT_Inr)

lemma rowsT_Inr [tx_inv]:
  "rowsT tbl p w (n, s) = Inr (x, n', s') \<longleftrightarrow> \<not> w_fault w n \<and> x = filter p (tbl s) \<and> n' = Suc n \<and> s' = s"
  unfolding rowsT_def by (rule queryT_Inr)

lemma nowT_Inr [tx_inv]: "nowT w (n, s) = Inr (x, n', s') \<longleftrightarrow> x = w_now w n \<and> n' = Suc n \<and> s' = s"
  by (auto simp: nowT_def)

lemma randT_Inr [tx_inv]: "randT w (n, s) = Inr (x, n', s') \<longleftrightarrow> w_rand w n = Some x \<and> n' = Suc n \<and> s' = s"
  by (auto simp: randT_def split: option.splits)

lemma commitT_Inr [tx_inv]: "commitT w (n, s) = Inr (x, n', s') \<longleftrightarrow> \<not> w_fault w n \<and> n' = Suc n \<and> s' = s"
  by (auto simp: commitT_def stmtT_def)

lemma mapErrT_Inr [tx_inv]: "mapErrT f m w c = Inr r \<longleftrightarrow> m w c = Inr r"
  by (auto simp: mapErrT_def split: sum.splits)

lemma liftT_Inr [tx_inv]: "liftT v w (n, s) = Inr (x, n', s') \<longleftrightarrow> v = Inr x \<and> n' = n \<and> s' = s"
  by (auto simp: liftT_def failT_def returnT_def split: sum.splits)

lemma optionT_Inr [tx_inv]: "optionT e v w (n, s) = Inr (x, n', s') \<longleftrightarrow> v = Some x \<and> n' = n \<and> s' = s"
  by (auto simp: optionT_def failT_def returnT_def split: option.splits)

lemma oneT_Inr [tx_inv]:
  "oneT e tbl p w (n, s) = Inr (x, n', s') \<longleftrightarrow> \<not> w_fault w n \<and> find p (tbl s) = Some x \<and> n' = Suc n \<and> s' = s"
  by (auto simp: oneT_def rowT_def queryT_def stmtT_def bindT_def optionT_def failT_def returnT_def split: option.splits)

lemma insertT_Inr [tx_inv]:
  "insertT tbl upd clash check fk r w (n, s) = Inr (x, n', s') \<longleftrightarrow>
     \<not> w_fault w n \<and> check r \<and> \<not> list_ex (\<lambda>r'. clash r' r) (tbl s) \<and> fk s r \<and>
     n' = Suc n \<and> s' = upd (\<lambda>rs. rs @ [r]) s"
  by (auto simp: insertT_def stmtT_def)

lemma updateT_Inr [tx_inv]:
  "updateT tbl upd check p f w (n, s) = Inr (x, n', s') \<longleftrightarrow>
     \<not> w_fault w n \<and> list_all (\<lambda>r. p r \<longrightarrow> check (f r)) (tbl s) \<and> x = length (filter p (tbl s)) \<and>
     n' = Suc n \<and> s' = upd (updateWhere p f) s"
  by (auto simp: updateT_def stmtT_def)

lemma deleteT_Inr [tx_inv]:
  "deleteT tbl upd p w (n, s) = Inr (x, n', s') \<longleftrightarrow>
     \<not> w_fault w n \<and> x = length (filter p (tbl s)) \<and> n' = Suc n \<and> s' = upd (filter (\<lambda>r. \<not> p r)) s"
  by (auto simp: deleteT_def stmtT_def)

lemma upsertT_Inr [tx_inv]:
  "upsertT tbl upd same check fk merge r w (n, s) = Inr (x, n', s') \<longleftrightarrow>
     \<not> w_fault w n \<and> check r \<and> n' = Suc n \<and>
     (if list_ex (\<lambda>r'. same r' r) (tbl s)
      then list_all (\<lambda>r'. same r' r \<longrightarrow> check (merge r' r)) (tbl s) \<and>
           s' = upd (updateWhere (\<lambda>r'. same r' r) (\<lambda>r'. merge r' r)) s
      else fk s r \<and> s' = upd (\<lambda>rs. rs @ [r]) s)"
  by (auto simp: upsertT_def stmtT_def)

lemma insertIgnoreT_Inr [tx_inv]:
  "insertIgnoreT tbl upd clash check fk r w (n, s) = Inr (x, n', s') \<longleftrightarrow>
     \<not> w_fault w n \<and> n' = Suc n \<and>
     (if \<not> check r \<or> list_ex (\<lambda>r'. clash r' r) (tbl s) then x = 0 \<and> s' = s
      else fk s r \<and> x = 1 \<and> s' = upd (\<lambda>rs. rs @ [r]) s)"
  by (auto simp: insertIgnoreT_def stmtT_def)

section \<open>Postconditions of successful runs\<close>

text \<open>
  \<open>okT P m Q\<close>: a run of \<open>m\<close> from a store in \<open>P\<close> that succeeds ends with a result and a
  store in \<open>Q\<close>. Failed runs leave no store behind, so this is all a caller can see of the
  database; that a run does succeed is stated separately where a property needs it.
\<close>

definition okT :: "('s \<Rightarrow> bool) \<Rightarrow> ('s, 'a) txm \<Rightarrow> ('a \<Rightarrow> 's \<Rightarrow> bool) \<Rightarrow> bool" where
  "okT P m Q \<longleftrightarrow> (\<forall>w n s x n' s'. P s \<longrightarrow> m w (n, s) = Inr (x, n', s') \<longrightarrow> Q x s')"

lemma okT_D: "okT P m Q \<Longrightarrow> P s \<Longrightarrow> m w (n, s) = Inr (x, n', s') \<Longrightarrow> Q x s'"
  by (auto simp: okT_def)

lemma okT_I: "(\<And>w n s x n' s'. P s \<Longrightarrow> m w (n, s) = Inr (x, n', s') \<Longrightarrow> Q x s') \<Longrightarrow> okT P m Q"
  by (auto simp: okT_def)

lemma okT_weaken: "okT P m Q \<Longrightarrow> (\<And>x s. Q x s \<Longrightarrow> Q' x s) \<Longrightarrow> okT P m Q'"
  by (auto simp: okT_def)

lemma okT_pre: "okT P m Q \<Longrightarrow> (\<And>s. P' s \<Longrightarrow> P s) \<Longrightarrow> okT P' m Q"
  unfolding okT_def by blast

lemma okT_atomic: "okT P m Q \<Longrightarrow> P s \<Longrightarrow> atomicT m w s = (Inr x, s') \<Longrightarrow> Q x s'"
  by (drule atomicT_Inr) (blast dest: okT_D)

lemma okT_return [tx_intro]: "(\<And>s. P s \<Longrightarrow> Q x s) \<Longrightarrow> okT P (returnT x) Q"
  by (auto simp: okT_def returnT_def)

lemma okT_fail [tx_intro]: "okT P (failT e) Q"
  by (auto simp: okT_def failT_def)

lemma okT_bind: "okT P m R \<Longrightarrow> (\<And>x. okT (R x) (f x) Q) \<Longrightarrow> okT P (bindT m f) Q"
  by (fastforce simp: okT_def bindT_def split: sum.splits)

lemma okT_then: "okT P m (\<lambda>_. R) \<Longrightarrow> okT R k Q \<Longrightarrow> okT P (thenT m k) Q"
  unfolding thenT_def by (rule okT_bind [where R = "\<lambda>_. R"])

lemma okT_guard [tx_intro]: "(\<not> b \<Longrightarrow> okT P k Q) \<Longrightarrow> okT P (guardT b e k) Q"
  by (auto simp: okT_def guardT_def failT_def)

lemma okT_stmt:
  "(\<And>s x s'. P s \<Longrightarrow> g s = Inr (x, s') \<Longrightarrow> Q x s') \<Longrightarrow> okT P (stmtT g) Q"
  by (auto simp: okT_def stmtT_def split: if_splits sum.splits)

lemma okT_query: "(\<And>s. P s \<Longrightarrow> Q (q s) s) \<Longrightarrow> okT P (queryT q) Q"
  unfolding queryT_def by (rule okT_stmt) auto

lemma okT_now [tx_intro]: "(\<And>t s. P s \<Longrightarrow> Q t s) \<Longrightarrow> okT P nowT Q"
  by (auto simp: okT_def nowT_def)

lemma okT_rand [tx_intro]: "(\<And>t s. P s \<Longrightarrow> Q t s) \<Longrightarrow> okT P randT Q"
  by (auto simp: okT_def randT_def split: option.splits)

lemma okT_commit [tx_intro]: "(\<And>s. P s \<Longrightarrow> Q () s) \<Longrightarrow> okT P commitT Q"
  unfolding commitT_def by (rule okT_stmt) auto

lemma okT_lift [tx_intro]: "(\<And>x s. r = Inr x \<Longrightarrow> P s \<Longrightarrow> Q x s) \<Longrightarrow> okT P (liftT r) Q"
  by (auto simp: okT_def liftT_def failT_def returnT_def split: sum.splits)

lemma okT_optionT [tx_intro]: "(\<And>x s. r = Some x \<Longrightarrow> P s \<Longrightarrow> Q x s) \<Longrightarrow> okT P (optionT e r) Q"
  by (auto simp: okT_def optionT_def failT_def returnT_def split: option.splits)

lemma okT_insert:
  "(\<And>s. P s \<Longrightarrow> \<not> list_ex (\<lambda>r'. clash r' r) (tbl s) \<Longrightarrow> check r \<Longrightarrow> fk s r \<Longrightarrow> Q () (upd (\<lambda>rs. rs @ [r]) s)) \<Longrightarrow>
   okT P (insertT tbl upd clash check fk r) Q"
  unfolding insertT_def by (rule okT_stmt) (auto split: if_splits)

lemma okT_update:
  "(\<And>s. P s \<Longrightarrow> list_all (\<lambda>r. p r \<longrightarrow> check (f r)) (tbl s) \<Longrightarrow>
         Q (length (filter p (tbl s))) (upd (updateWhere p f) s)) \<Longrightarrow>
   okT P (updateT tbl upd check p f) Q"
  unfolding updateT_def by (rule okT_stmt) (auto split: if_splits)

lemma okT_insertIgnore:
  "(\<And>s. P s \<Longrightarrow> \<not> check r \<or> list_ex (\<lambda>r'. clash r' r) (tbl s) \<Longrightarrow> Q 0 s) \<Longrightarrow>
   (\<And>s. P s \<Longrightarrow> \<not> list_ex (\<lambda>r'. clash r' r) (tbl s) \<Longrightarrow> check r \<Longrightarrow> fk s r \<Longrightarrow> Q 1 (upd (\<lambda>rs. rs @ [r]) s)) \<Longrightarrow>
   okT P (insertIgnoreT tbl upd clash check fk r) Q"
  unfolding insertIgnoreT_def by (rule okT_stmt) (auto split: if_splits)

lemma okT_upsert:
  "(\<And>s. P s \<Longrightarrow> list_ex (\<lambda>r'. same r' r) (tbl s) \<Longrightarrow> list_all (\<lambda>r'. same r' r \<longrightarrow> check (merge r' r)) (tbl s) \<Longrightarrow>
         Q () (upd (updateWhere (\<lambda>r'. same r' r) (\<lambda>r'. merge r' r)) s)) \<Longrightarrow>
   (\<And>s. P s \<Longrightarrow> \<not> list_ex (\<lambda>r'. same r' r) (tbl s) \<Longrightarrow> check r \<Longrightarrow> fk s r \<Longrightarrow> Q () (upd (\<lambda>rs. rs @ [r]) s)) \<Longrightarrow>
   okT P (upsertT tbl upd same check fk merge r) Q"
  unfolding upsertT_def by (rule okT_stmt) (auto split: if_splits)

lemma okT_delete:
  "(\<And>s. P s \<Longrightarrow> Q (length (filter p (tbl s))) (upd (filter (\<lambda>r. \<not> p r)) s)) \<Longrightarrow>
   okT P (deleteT tbl upd p) Q"
  unfolding deleteT_def by (rule okT_stmt) auto

lemma okT_mapErr [tx_intro]: "okT P m Q \<Longrightarrow> okT P (mapErrT f m) Q"
  by (fastforce simp: okT_def mapErrT_def split: sum.splits)

lemma okT_try: "okT P m (\<lambda>_. R) \<Longrightarrow> (\<And>s. P s \<Longrightarrow> R s) \<Longrightarrow> okT P (tryT m) (\<lambda>_. R)"
  by (fastforce simp: okT_def tryT_def split: sum.splits)

lemma okT_for: "(\<And>x. x \<in> set xs \<Longrightarrow> okT I (f x) (\<lambda>_. I)) \<Longrightarrow> okT I (forT f xs) (\<lambda>_. I)"
  by (induction xs) (auto intro!: okT_return intro: okT_then)

section \<open>Invariants of transaction bodies\<close>

text \<open>
  \<open>keepsT I m\<close>: every successful run of \<open>m\<close> keeps \<open>I\<close>. The rules follow the shape of a
  body, so that a body keeps an invariant as soon as each of its statements does.
\<close>

definition keepsT :: "('s \<Rightarrow> bool) \<Rightarrow> ('s, 'a) txm \<Rightarrow> bool" where
  "keepsT I m \<longleftrightarrow> okT I m (\<lambda>_. I)"

named_theorems keeps \<open>bodies and statements that keep an invariant\<close>

lemma keepsT_D: "keepsT I m \<Longrightarrow> I s \<Longrightarrow> m w (n, s) = Inr (x, n', s') \<Longrightarrow> I s'"
  by (auto simp: keepsT_def okT_def)

lemma keepsT_atomic: "keepsT I m \<Longrightarrow> I s \<Longrightarrow> I (snd (atomicT m w s))"
  by (auto simp: atomicT_def thenT_def bindT_def commitT_def stmtT_def split: sum.splits if_splits
      dest: keepsT_D)

lemma keepsT_auto: "keepsT I m \<Longrightarrow> I s \<Longrightarrow> I (snd (autoT m w s))"
  by (auto simp: autoT_def split: sum.splits dest: keepsT_D)

lemma keepsT_return [keeps]: "keepsT I (returnT x)"
  by (simp add: keepsT_def okT_return)

lemma keepsT_fail [keeps]: "keepsT I (failT e)"
  by (simp add: keepsT_def okT_fail)

lemma keepsT_bind [keeps]: "keepsT I m \<Longrightarrow> (\<And>x. keepsT I (f x)) \<Longrightarrow> keepsT I (bindT m f)"
  unfolding keepsT_def by (rule okT_bind)

lemma keepsT_then [keeps]: "keepsT I m \<Longrightarrow> keepsT I k \<Longrightarrow> keepsT I (thenT m k)"
  unfolding keepsT_def by (rule okT_then)

lemma keepsT_guard [keeps]: "keepsT I k \<Longrightarrow> keepsT I (guardT b e k)"
  unfolding keepsT_def by (rule okT_guard)

lemma keepsT_query [keeps]: "keepsT I (queryT q)"
  unfolding keepsT_def by (rule okT_query)

lemma keepsT_row [keeps]: "keepsT I (rowT tbl p)"
  unfolding rowT_def by (rule keepsT_query)

lemma keepsT_rows [keeps]: "keepsT I (rowsT tbl p)"
  unfolding rowsT_def by (rule keepsT_query)

lemma keepsT_now [keeps]: "keepsT I nowT"
  by (simp add: keepsT_def okT_now)

lemma keepsT_rand [keeps]: "keepsT I randT"
  by (simp add: keepsT_def okT_rand)

lemma keepsT_commit [keeps]: "keepsT I commitT"
  by (simp add: keepsT_def okT_commit)

lemma keepsT_mapErr [keeps]: "keepsT I m \<Longrightarrow> keepsT I (mapErrT f m)"
  unfolding keepsT_def by (rule okT_mapErr)

lemma keepsT_try [keeps]: "keepsT I m \<Longrightarrow> keepsT I (tryT m)"
  unfolding keepsT_def by (rule okT_try) simp_all

lemma keepsT_lift [keeps]: "keepsT I (liftT r)"
  by (simp add: keepsT_def okT_lift)

lemma keepsT_optionT [keeps]: "keepsT I (optionT e r)"
  by (simp add: keepsT_def okT_optionT)

lemma keepsT_one [keeps]: "keepsT I (oneT e tbl p)"
  unfolding oneT_def by (intro keeps)

lemma keepsT_for [keeps]: "(\<And>x. keepsT I (f x)) \<Longrightarrow> keepsT I (forT f xs)"
  unfolding keepsT_def by (rule okT_for)

lemma keepsT_fold [keeps]: "(\<And>x a. keepsT I (f x a)) \<Longrightarrow> keepsT I (foldT f xs acc)"
  by (induction xs arbitrary: acc) (auto intro!: keeps)

lemma keepsT_if [keeps]: "keepsT I m \<Longrightarrow> keepsT I k \<Longrightarrow> keepsT I (if b then m else k)"
  by simp

lemma keepsT_case_option [keeps]:
  "keepsT I m \<Longrightarrow> (\<And>x. keepsT I (f x)) \<Longrightarrow> keepsT I (case r of None \<Rightarrow> m | Some x \<Rightarrow> f x)"
  by (cases r) auto

lemma keepsT_case_sum [keeps]:
  "(\<And>x. keepsT I (f x)) \<Longrightarrow> (\<And>x. keepsT I (g x)) \<Longrightarrow> keepsT I (case r of Inl x \<Rightarrow> f x | Inr x \<Rightarrow> g x)"
  by (cases r) auto

lemma keepsT_case_prod [keeps]:
  "(\<And>x y. keepsT I (f x y)) \<Longrightarrow> keepsT I (case r of (x, y) \<Rightarrow> f x y)"
  by (cases r) auto

lemma keepsT_let [keeps]: "(\<And>x. keepsT I (f x)) \<Longrightarrow> keepsT I (let x = r in f x)"
  by (simp add: Let_def)

section \<open>Lemmas on updated tables\<close>

lemma updateWhere_simps [simp]:
  "updateWhere p f [] = []"
  "updateWhere p f (r # rs) = (if p r then f r else r) # updateWhere p f rs"
  "updateWhere p f (rs @ rs') = updateWhere p f rs @ updateWhere p f rs'"
  by (simp_all add: updateWhere_def)

lemma length_updateWhere [simp]: "length (updateWhere p f rs) = length rs"
  by (simp add: updateWhere_def)

lemma set_updateWhere: "set (updateWhere p f rs) = (\<lambda>r. if p r then f r else r) ` set rs"
  by (auto simp: updateWhere_def)

lemma map_updateWhere: "(\<And>r. g (f r) = g r) \<Longrightarrow> map g (updateWhere p f rs) = map g rs"
  by (simp add: updateWhere_def)

lemma updateWhere_none: "(\<And>r. r \<in> set rs \<Longrightarrow> \<not> p r) \<Longrightarrow> updateWhere p f rs = rs"
  by (induction rs) auto

lemma find_updateWhere:
  assumes "\<And>r. q (f r) = q r"
  shows "find q (updateWhere p f rs) = map_option (\<lambda>r. if p r then f r else r) (find q rs)"
  using assms by (induction rs) auto

lemma find_SomeD: "find p xs = Some x \<Longrightarrow> x \<in> set xs \<and> p x"
  by (induction xs) (auto split: if_splits)

lemma find_distinct:
  assumes "distinct (map key xs)" "x \<in> set xs"
  shows "find (\<lambda>r. key r = key x) xs = Some x"
  using assms by (induction xs) auto

lemma find_append: "find p (xs @ ys) = (case find p xs of None \<Rightarrow> find p ys | Some x \<Rightarrow> Some x)"
  by (induction xs) auto

end
