(* ===== verification/Json.thy ===== *)
theory Json
  imports Prelude
begin

text \<open>
  What the sources use of Go's \<^verbatim>\<open>encoding/json\<close> and \<^verbatim>\<open>path\<close> packages: JSON
  values and their text (\<^verbatim>\<open>Marshal\<close>), reading a text back (\<^verbatim>\<open>Valid\<close>,
  \<^verbatim>\<open>Unmarshal\<close> of a list of strings) and glob matching (\<^verbatim>\<open>path.Match\<close>). A text is
  a UTF-8 byte string; the replacement of invalid UTF-8 by U+FFFD is not modelled.

  The reader is a tokeniser followed by a stack machine. Both recurse on the text, so
  both are total and need no fuel.
\<close>

section \<open>Values and their text\<close>

datatype json =
    JNull
  | JBool bool
  | JNum string
  | JStr string
  | JArr "json list"
  | JObj "(string \<times> json) list"

definition jint :: "int \<Rightarrow> json" where
  "jint n = JNum (decInt n)"

definition jintOpt :: "int option \<Rightarrow> json" where
  "jintOpt v = (case v of None \<Rightarrow> JNull | Some n \<Rightarrow> jint n)"

text \<open>\<^verbatim>\<open>map[string]any\<close> is marshalled with its keys in byte order.\<close>

definition jmap :: "(string \<times> json) list \<Rightarrow> json" where
  "jmap kvs = JObj (sort_key fst kvs)"

definition hexDigit :: "nat \<Rightarrow> char" where
  "hexDigit n = (if n < 10 then char_of (48 + n) else char_of (87 + n))"

definition escapeChar :: "char \<Rightarrow> string" where
  "escapeChar c =
     (let n = (of_char c :: nat) in
      if n = 34 then [CHR 0x5C, CHR 0x22] else if n = 92 then [CHR 0x5C, CHR 0x5C]
      else if n = 8 then [CHR 0x5C, CHR ''b''] else if n = 12 then [CHR 0x5C, CHR ''f'']
      else if n = 10 then [CHR 0x5C, CHR ''n''] else if n = 13 then [CHR 0x5C, CHR ''r'']
      else if n = 9 then [CHR 0x5C, CHR ''t'']
      else if n < 32 \<or> n = 60 \<or> n = 62 \<or> n = 38 then
        [CHR 0x5C, CHR ''u'', CHR ''0'', CHR ''0'', hexDigit (n div 16), hexDigit (n mod 16)]
      else [c])"

definition quoteText :: "string \<Rightarrow> string" where
  "quoteText s = CHR 0x22 # concat (map escapeChar s) @ [CHR 0x22]"

fun joinText :: "string list \<Rightarrow> string" where
  "joinText [] = []"
| "joinText [x] = x"
| "joinText (x # xs) = x @ CHR '','' # joinText xs"

fun jsonText :: "json \<Rightarrow> string" where
  "jsonText JNull = ''null''"
| "jsonText (JBool b) = (if b then ''true'' else ''false'')"
| "jsonText (JNum n) = n"
| "jsonText (JStr s) = quoteText s"
| "jsonText (JArr vs) = ''['' @ joinText (map jsonText vs) @ '']''"
| "jsonText (JObj kvs) = ''{'' @ joinText (map (\<lambda>(k, v). quoteText k @ '':'' @ jsonText v) kvs) @ ''}''"

text \<open>SQLite's \<^verbatim>\<open>length\<close> of a TEXT counts code points, that is, bytes that continue no other.\<close>

definition sqlLength :: "string \<Rightarrow> int" where
  "sqlLength s = int (length (filter (\<lambda>c. (of_char c :: nat) < 128 \<or> (of_char c :: nat) \<ge> 192) s))"

fun jget :: "string \<Rightarrow> json \<Rightarrow> json option" where
  "jget k (JObj kvs) = map_option snd (find (\<lambda>kv. fst kv = k) (rev kvs))"
| "jget k _ = None"

text \<open>
  \<^verbatim>\<open>Unmarshal\<close> into a \<^verbatim>\<open>string\<close>, an \<^verbatim>\<open>int64\<close> or a \<^verbatim>\<open>*int64\<close> field: an
  absent key and \<^verbatim>\<open>null\<close> leave the zero value, a value of another type is an error
  (\<open>None\<close>).
\<close>

definition fieldString :: "string \<Rightarrow> json \<Rightarrow> string option" where
  "fieldString k j =
     (case jget k j of None \<Rightarrow> Some [] | Some JNull \<Rightarrow> Some [] | Some (JStr s) \<Rightarrow> Some s | _ \<Rightarrow> None)"

definition fieldIntOpt :: "string \<Rightarrow> json \<Rightarrow> int option option" where
  "fieldIntOpt k j =
     (case jget k j of
        None \<Rightarrow> Some None
      | Some JNull \<Rightarrow> Some None
      | Some (JNum n) \<Rightarrow> (case parseInt64 n of None \<Rightarrow> None | Some v \<Rightarrow> Some (Some v))
      | _ \<Rightarrow> None)"

definition fieldInt :: "string \<Rightarrow> json \<Rightarrow> int option" where
  "fieldInt k j = (case fieldIntOpt k j of None \<Rightarrow> None | Some None \<Rightarrow> Some 0 | Some (Some v) \<Rightarrow> Some v)"

section \<open>Reading\<close>

datatype token =
    TLBrace | TRBrace | TLBrack | TRBrack | TColon | TComma
  | TStr "(char + nat) list"
  | TWord string

text \<open>
  The tokeniser: outside a token, inside a string (\<open>Inl\<close> a byte, \<open>Inr\<close> a
  \<^verbatim>\<open>\uXXXX\<close> unit), after a backslash, inside an escape of four hexadecimal digits,
  inside a number or literal. The accumulators are reversed.
\<close>

datatype lexmode =
    LOut
  | LStr "(char + nat) list"
  | LEsc "(char + nat) list"
  | LHex "(char + nat) list" nat nat
  | LWord string

definition isSpaceJ :: "char \<Rightarrow> bool" where
  "isSpaceJ c \<longleftrightarrow> c = CHR '' '' \<or> c = CHR 0x09 \<or> c = CHR 0x0A \<or> c = CHR 0x0D"

definition isWordChar :: "char \<Rightarrow> bool" where
  "isWordChar c \<longleftrightarrow> isDigit c \<or> c \<in> set ''+-.'' \<or> (97 \<le> (of_char c :: nat) \<and> (of_char c :: nat) \<le> 122) \<or> c = CHR ''E''"

definition hexVal :: "char \<Rightarrow> nat option" where
  "hexVal c =
     (let n = (of_char c :: nat) in
      if 48 \<le> n \<and> n \<le> 57 then Some (n - 48) else if 97 \<le> n \<and> n \<le> 102 then Some (n - 87)
      else if 65 \<le> n \<and> n \<le> 70 then Some (n - 55) else None)"

definition punct :: "char \<Rightarrow> token option" where
  "punct c =
     (if c = CHR ''{'' then Some TLBrace else if c = CHR ''}'' then Some TRBrace
      else if c = CHR ''['' then Some TLBrack else if c = CHR '']'' then Some TRBrack
      else if c = CHR '':'' then Some TColon else if c = CHR '','' then Some TComma else None)"

definition simpleEscape :: "char \<Rightarrow> char option" where
  "simpleEscape c =
     (if c = CHR 0x22 \<or> c = CHR 0x5C \<or> c = CHR ''/'' then Some c
      else if c = CHR ''b'' then Some (CHR 0x08) else if c = CHR ''f'' then Some (CHR 0x0C)
      else if c = CHR ''n'' then Some (CHR 0x0A) else if c = CHR ''r'' then Some (CHR 0x0D)
      else if c = CHR ''t'' then Some (CHR 0x09) else None)"

fun lexJson :: "lexmode \<Rightarrow> string \<Rightarrow> token list option" where
  "lexJson LOut [] = Some []"
| "lexJson (LWord acc) [] = Some [TWord (rev acc)]"
| "lexJson _ [] = None"
| "lexJson (LStr acc) (c # cs) =
     (if c = CHR 0x22 then map_option (\<lambda>ts. TStr (rev acc) # ts) (lexJson LOut cs)
      else if c = CHR 0x5C then lexJson (LEsc acc) cs
      else if (of_char c :: nat) < 32 then None
      else lexJson (LStr (Inl c # acc)) cs)"
| "lexJson (LEsc acc) (c # cs) =
     (if c = CHR ''u'' then lexJson (LHex acc 4 0) cs
      else case simpleEscape c of None \<Rightarrow> None | Some e \<Rightarrow> lexJson (LStr (Inl e # acc)) cs)"
| "lexJson (LHex acc k v) (c # cs) =
     (case hexVal c of
        None \<Rightarrow> None
      | Some d \<Rightarrow> if k \<le> 1 then lexJson (LStr (Inr (16 * v + d) # acc)) cs
                  else lexJson (LHex acc (k - 1) (16 * v + d)) cs)"
| "lexJson (LWord acc) (c # cs) =
     (if isWordChar c then lexJson (LWord (c # acc)) cs
      else if isSpaceJ c then map_option (\<lambda>ts. TWord (rev acc) # ts) (lexJson LOut cs)
      else case punct c of
             None \<Rightarrow> None
           | Some t \<Rightarrow> map_option (\<lambda>ts. TWord (rev acc) # t # ts) (lexJson LOut cs))"
| "lexJson LOut (c # cs) =
     (if isSpaceJ c then lexJson LOut cs
      else if c = CHR 0x22 then lexJson (LStr []) cs
      else if isWordChar c then lexJson (LWord [c]) cs
      else case punct c of None \<Rightarrow> None | Some t \<Rightarrow> map_option (\<lambda>ts. t # ts) (lexJson LOut cs))"

text \<open>A number: an optional minus, an integer part without a leading zero, fraction, exponent.\<close>

definition validExponent :: "string \<Rightarrow> bool" where
  "validExponent s =
     (case s of [] \<Rightarrow> True
      | c # r \<Rightarrow> (c = CHR ''e'' \<or> c = CHR ''E'') \<and>
          (let ds = (case r of x # r' \<Rightarrow> if x = CHR ''+'' \<or> x = CHR ''-'' then r' else r | [] \<Rightarrow> [])
           in ds \<noteq> [] \<and> list_all isDigit ds))"

definition validFraction :: "string \<Rightarrow> bool" where
  "validFraction s =
     (case s of
        [] \<Rightarrow> True
      | c # r \<Rightarrow>
          if c = CHR ''.'' then takeWhile isDigit r \<noteq> [] \<and> validExponent (dropWhile isDigit r)
          else validExponent s)"

definition validNumber :: "string \<Rightarrow> bool" where
  "validNumber s =
     (let t = (case s of x # r \<Rightarrow> if x = CHR ''-'' then r else s | [] \<Rightarrow> []);
          ds = takeWhile isDigit t
      in ds \<noteq> [] \<and> (hd ds = CHR ''0'' \<longrightarrow> length ds = 1) \<and> validFraction (dropWhile isDigit t))"

definition word_json :: "string \<Rightarrow> json option" where
  "word_json s =
     (if s = ''null'' then Some JNull else if s = ''true'' then Some (JBool True)
      else if s = ''false'' then Some (JBool False) else if validNumber s then Some (JNum s) else None)"

text \<open>UTF-8 of a code point, and the text of string units with surrogate pairs joined.\<close>

definition utf8 :: "nat \<Rightarrow> string" where
  "utf8 n =
     (if n < 128 then [char_of n]
      else if n < 2048 then [char_of (192 + n div 64), char_of (128 + n mod 64)]
      else if n < 65536 then [char_of (224 + n div 4096), char_of (128 + n div 64 mod 64), char_of (128 + n mod 64)]
      else [char_of (240 + n div 262144), char_of (128 + n div 4096 mod 64), char_of (128 + n div 64 mod 64),
            char_of (128 + n mod 64)])"

fun unitsText :: "(char + nat) list \<Rightarrow> string" where
  "unitsText [] = []"
| "unitsText (Inl c # us) = c # unitsText us"
| "unitsText (Inr h # Inr l # us) =
     (if 55296 \<le> h \<and> h < 56320 \<and> 56320 \<le> l \<and> l < 57344
      then utf8 (65536 + (h - 55296) * 1024 + (l - 56320)) @ unitsText us
      else (if 55296 \<le> h \<and> h < 57344 then utf8 65533 else utf8 h) @ unitsText (Inr l # us))"
| "unitsText (Inr h # us) = (if 55296 \<le> h \<and> h < 57344 then utf8 65533 else utf8 h) @ unitsText us"

text \<open>
  The stack machine. A frame is an open array or an open object with the key being
  read; \<open>PValue\<close> waits for a value (or the end of a fresh array), \<open>PKey\<close> for a key (or
  the end of a fresh object), \<open>PColon\<close> and \<open>PComma\<close> for their separators, \<open>PDone\<close> holds
  the finished value.
\<close>

datatype frame = FArr "json list" | FObj "(string \<times> json) list" string

datatype pstate =
    PValue bool "frame list"
  | PKey bool "(string \<times> json) list" "frame list"
  | PColon "(string \<times> json) list" string "frame list"
  | PComma "frame list"
  | PDone json

fun pushValue :: "json \<Rightarrow> frame list \<Rightarrow> pstate" where
  "pushValue v [] = PDone v"
| "pushValue v (FArr vs # st) = PComma (FArr (v # vs) # st)"
| "pushValue v (FObj kvs k # st) = PComma (FObj ((k, v) # kvs) [] # st)"

definition pstep :: "token \<Rightarrow> pstate \<Rightarrow> pstate option" where
  "pstep t p =
     (case p of
        PValue fresh st \<Rightarrow>
          (case t of
             TLBrack \<Rightarrow> Some (PValue True (FArr [] # st))
           | TLBrace \<Rightarrow> Some (PKey True [] st)
           | TStr us \<Rightarrow> Some (pushValue (JStr (unitsText us)) st)
           | TWord s \<Rightarrow> map_option (\<lambda>v. pushValue v st) (word_json s)
           | TRBrack \<Rightarrow> (case st of FArr vs # st' \<Rightarrow> if fresh then Some (pushValue (JArr []) st') else None | _ \<Rightarrow> None)
           | _ \<Rightarrow> None)
      | PKey fresh kvs st \<Rightarrow>
          (case t of
             TStr us \<Rightarrow> Some (PColon kvs (unitsText us) st)
           | TRBrace \<Rightarrow> if fresh then Some (pushValue (JObj []) st) else None
           | _ \<Rightarrow> None)
      | PColon kvs k st \<Rightarrow> (case t of TColon \<Rightarrow> Some (PValue False (FObj kvs k # st)) | _ \<Rightarrow> None)
      | PComma st \<Rightarrow>
          (case st of
             FArr vs # st' \<Rightarrow>
               (case t of TComma \<Rightarrow> Some (PValue False st) | TRBrack \<Rightarrow> Some (pushValue (JArr (rev vs)) st') | _ \<Rightarrow> None)
           | FObj kvs k # st' \<Rightarrow>
               (case t of TComma \<Rightarrow> Some (PKey False kvs st') | TRBrace \<Rightarrow> Some (pushValue (JObj (rev kvs)) st') | _ \<Rightarrow> None)
           | [] \<Rightarrow> None)
      | PDone v \<Rightarrow> None)"

fun prun :: "token list \<Rightarrow> pstate \<Rightarrow> json option" where
  "prun [] p = (case p of PDone v \<Rightarrow> Some v | _ \<Rightarrow> None)"
| "prun (t # ts) p = (case pstep t p of None \<Rightarrow> None | Some p' \<Rightarrow> prun ts p')"

definition parseJson :: "string \<Rightarrow> json option" where
  "parseJson s = Option.bind (lexJson LOut s) (\<lambda>ts. prun ts (PValue False []))"

definition json_Valid :: "string \<Rightarrow> bool" where
  "json_Valid s \<longleftrightarrow> parseJson s \<noteq> None"

text \<open>\<^verbatim>\<open>Unmarshal\<close> into \<^verbatim>\<open>[]string\<close>: \<^verbatim>\<open>null\<close> is the nil slice, a null element the empty string.\<close>

fun stringElements :: "json list \<Rightarrow> string list option" where
  "stringElements [] = Some []"
| "stringElements (JStr s # vs) = map_option (\<lambda>r. s # r) (stringElements vs)"
| "stringElements (JNull # vs) = map_option (\<lambda>r. [] # r) (stringElements vs)"
| "stringElements (_ # vs) = None"

definition unmarshalStrings :: "string \<Rightarrow> string list option" where
  "unmarshalStrings s =
     (case parseJson s of Some (JArr vs) \<Rightarrow> stringElements vs | Some JNull \<Rightarrow> Some [] | _ \<Rightarrow> None)"

section \<open>Glob matching (path.Match)\<close>

text \<open>
  The package's algorithm: the pattern is cut at its stars into chunks, a chunk is
  matched at the current position and, after a star, at later positions up to the next
  slash. \<open>None\<close> is \<^verbatim>\<open>ErrBadPattern\<close>. A rune is taken to be one byte.
\<close>

fun scanBody :: "bool \<Rightarrow> string \<Rightarrow> string \<times> string" where
  "scanBody inrange [] = ([], [])"
| "scanBody inrange (c # cs) =
     (if c = CHR 0x5C then
        (case cs of
           [] \<Rightarrow> ([c], [])
         | e # cs' \<Rightarrow> (case scanBody inrange cs' of (a, b) \<Rightarrow> (c # e # a, b)))
      else if c = CHR ''*'' \<and> \<not> inrange then ([], c # cs)
      else let r = (if c = CHR ''['' then True else if c = CHR '']'' then False else inrange)
           in case scanBody r cs of (a, b) \<Rightarrow> (c # a, b))"

definition scanChunk :: "string \<Rightarrow> bool \<times> string \<times> string" where
  "scanChunk pattern =
     (case scanBody False (dropWhile (\<lambda>c. c = CHR ''*'') pattern) of
        (chunk, rest) \<Rightarrow> (pattern \<noteq> [] \<and> hd pattern = CHR ''*'', chunk, rest))"

definition getEsc :: "string \<Rightarrow> (char \<times> string) option" where
  "getEsc chunk =
     (case chunk of
        [] \<Rightarrow> None
      | c # r \<Rightarrow>
          if c = CHR ''-'' \<or> c = CHR '']'' then None
          else if c = CHR 0x5C then (case r of e # r' \<Rightarrow> if r' = [] then None else Some (e, r') | [] \<Rightarrow> None)
          else if r = [] then None else Some (c, r))"

lemma getEsc_shorter: "getEsc chunk = Some (c, r) \<Longrightarrow> length r < length chunk"
  by (auto simp: getEsc_def split: list.splits if_splits)

text \<open>The ranges of a character class, up to its closing bracket: whether one matched, and the rest.\<close>

function matchRanges :: "char \<Rightarrow> bool \<Rightarrow> bool \<Rightarrow> string \<Rightarrow> (bool \<times> string) option" where
  "matchRanges r found some chunk =
     (if some \<and> chunk \<noteq> [] \<and> hd chunk = CHR '']'' then Some (found, tl chunk)
      else case getEsc chunk of
             None \<Rightarrow> None
           | Some (lo, c1) \<Rightarrow>
               if hd c1 = CHR ''-'' then
                 (case getEsc (tl c1) of
                    None \<Rightarrow> None
                  | Some (hi, c2) \<Rightarrow>
                      if length c2 < length chunk then matchRanges r (found \<or> lo \<le> r \<and> r \<le> hi) True c2 else None)
               else matchRanges r (found \<or> lo = r) True c1)"
  by pat_completeness auto
termination
  by (relation "measure (\<lambda>(r, f, n, chunk). length chunk)") (auto dest: getEsc_shorter)

declare matchRanges.simps [simp del]

lemma matchRanges_shorter: "matchRanges r f n chunk = Some (b, rest) \<Longrightarrow> length rest \<le> length chunk"
proof (induction r f n chunk rule: matchRanges.induct)
  case (1 r f n chunk)
  show ?case
  proof (cases "n \<and> chunk \<noteq> [] \<and> hd chunk = CHR '']''")
    case True
    with "1.prems" show ?thesis unfolding matchRanges.simps [of r f n chunk] by auto
  next
    case False
    with "1.prems" obtain lo c1 where g: "getEsc chunk = Some (lo, c1)"
      by (auto simp: matchRanges.simps [of r f n chunk] split: option.splits)
    note l = getEsc_shorter [OF g]
    show ?thesis
    proof (cases "hd c1 = CHR ''-''")
      case True
      with "1.prems" False g obtain hi c2 where g2: "getEsc (tl c1) = Some (hi, c2)" "length c2 < length chunk"
        and m: "matchRanges r (f \<or> lo \<le> r \<and> r \<le> hi) True c2 = Some (b, rest)"
        by (auto simp: matchRanges.simps [of r f n chunk] split: option.splits if_splits)
      from "1.IH"(1) [OF False g refl True g2(1) refl g2(2) m] g2(2) show ?thesis by simp
    next
      case F: False
      with "1.prems" False g have m: "matchRanges r (f \<or> lo = r) True c1 = Some (b, rest)"
        by (auto simp: matchRanges.simps [of r f n chunk] split: option.splits if_splits)
      from "1.IH"(2) [OF False g refl F m] l show ?thesis by simp
    qed
  qed
qed

text \<open>
  \<^verbatim>\<open>matchChunk\<close>: once failed it only checks the rest of the chunk. \<open>Some None\<close> is a
  mismatch, \<open>Some (Some rest)\<close> a match with the rest of the name.
\<close>

function matchChunk :: "bool \<Rightarrow> string \<Rightarrow> string \<Rightarrow> string option option" where
  "matchChunk failed [] s = Some (if failed then None else Some s)"
| "matchChunk failed0 (c # chunk) s =
     (let failed = (failed0 \<or> s = []) in
      if c = CHR ''['' then
        (let neg = (chunk \<noteq> [] \<and> hd chunk = CHR ''^'');
             body = (if neg then tl chunk else chunk);
             r = (if failed then CHR 0x00 else hd s)
         in case matchRanges r False False body of
              None \<Rightarrow> None
            | Some (found, rest) \<Rightarrow>
                if length rest \<le> length chunk
                then matchChunk (failed \<or> found = neg) rest (if failed then s else tl s) else None)
      else if c = CHR ''?'' then
        matchChunk (failed \<or> hd s = CHR ''/'') chunk (if failed then s else tl s)
      else if c = CHR 0x5C then
        (case chunk of
           [] \<Rightarrow> None
         | e # chunk' \<Rightarrow> matchChunk (failed \<or> e \<noteq> hd s) chunk' (if failed then s else tl s))
      else matchChunk (failed \<or> c \<noteq> hd s) chunk (if failed then s else tl s))"
  by pat_completeness auto
termination
  by (relation "measure (\<lambda>(f, chunk, s). length chunk)") auto

declare matchChunk.simps [simp del]

fun suffixesToSlash :: "string \<Rightarrow> string list" where
  "suffixesToSlash [] = []"
| "suffixesToSlash (c # cs) = (if c = CHR ''/'' then [] else cs # suffixesToSlash cs)"

text \<open>The first later position where the chunk matches (the last chunk must use up the name).\<close>

fun firstMatch :: "string \<Rightarrow> bool \<Rightarrow> string list \<Rightarrow> string option option" where
  "firstMatch chunk isLast [] = Some None"
| "firstMatch chunk isLast (s # ss) =
     (case matchChunk False chunk s of
        None \<Rightarrow> None
      | Some None \<Rightarrow> firstMatch chunk isLast ss
      | Some (Some t) \<Rightarrow> if isLast \<and> t \<noteq> [] then firstMatch chunk isLast ss else Some (Some t))"

lemma scanBody_length: "length (snd (scanBody r p)) \<le> length p"
proof (induction r p rule: scanBody.induct)
  case (1 r)
  show ?case by simp
next
  case (2 r c cs)
  show ?case
  proof (cases "c = CHR 0x5C")
    case True
    then show ?thesis using "2.IH"(1) by (cases cs) (auto simp: case_prod_beta le_SucI)
  next
    case False
    show ?thesis
    proof (cases "c = CHR ''*'' \<and> \<not> r")
      case True
      with False show ?thesis by simp
    next
      case F: False
      from "2.IH"(2) [OF False F refl] show ?thesis
        unfolding scanBody.simps if_not_P [OF False] if_not_P [OF F] Let_def case_prod_beta snd_conv
        by simp
    qed
  qed
qed

lemma scanBody_progress:
  assumes "p \<noteq> []" "hd p \<noteq> CHR ''*''"
  shows "length (snd (scanBody False p)) < length p"
proof (cases p)
  case Nil
  with assms show ?thesis by simp
next
  case (Cons c cs)
  with assms have star: "\<not> (c = CHR ''*'' \<and> \<not> False)" by simp
  have l: "length (snd (scanBody r cs)) < Suc (length cs)" for r
    using scanBody_length [of r cs] by simp
  show ?thesis
  proof (cases "c = CHR 0x5C")
    case True
    have "length (snd (scanBody False (tl cs))) \<le> length cs"
      using scanBody_length [of False "tl cs"] by simp
    with True Cons show ?thesis by (cases cs) (auto simp: case_prod_beta)
  next
    case False
    show ?thesis
      unfolding Cons scanBody.simps if_not_P [OF False] if_not_P [OF star] Let_def case_prod_beta snd_conv
      using l by simp
  qed
qed

lemma scanChunk_shorter:
  assumes "scanChunk p = (star, chunk, rest)" "p \<noteq> []"
  shows "length rest < length p"
proof (cases p)
  case Nil
  with assms show ?thesis by simp
next
  case (Cons c cs)
  let ?q = "dropWhile (\<lambda>c. c = CHR ''*'') p"
  have rest: "rest = snd (scanBody False ?q)" using assms(1) by (auto simp: scanChunk_def split: prod.splits)
  show ?thesis
  proof (cases "c = CHR ''*''")
    case True
    with Cons have "length ?q \<le> length cs" by (simp add: length_dropWhile_le)
    moreover have "length rest \<le> length ?q" unfolding rest by (rule scanBody_length)
    ultimately show ?thesis using Cons by simp
  next
    case False
    with Cons have "?q = p" "hd p \<noteq> CHR ''*''" by simp_all
    with rest scanBody_progress [OF assms(2)] show ?thesis by simp
  qed
qed

text \<open>The syntax check of what is left of the pattern before a mismatch is reported.\<close>

function patternRestOk :: "string \<Rightarrow> bool" where
  "patternRestOk pattern =
     (if pattern = [] then True
      else case scanChunk pattern of
             (_, chunk, rest) \<Rightarrow> matchChunk False chunk [] \<noteq> None \<and> patternRestOk rest)"
  by pat_completeness auto
termination
  by (relation "measure length") (auto dest: scanChunk_shorter [OF sym])

declare patternRestOk.simps [simp del]

text \<open>\<^verbatim>\<open>path.Match(pattern, name)\<close>; \<open>None\<close> is \<^verbatim>\<open>ErrBadPattern\<close>.\<close>

function path_Match :: "string \<Rightarrow> string \<Rightarrow> bool option" where
  "path_Match pattern name =
     (if pattern = [] then Some (name = [])
      else case scanChunk pattern of
             (star, chunk, rest) \<Rightarrow>
               if star \<and> chunk = [] then Some (CHR ''/'' \<notin> set name)
               else case matchChunk False chunk name of
                      None \<Rightarrow> None
                    | Some here \<Rightarrow>
                        (case (case here of
                                 Some t \<Rightarrow> if t = [] \<or> rest \<noteq> [] then Some (Some t)
                                           else if star then firstMatch chunk (rest = []) (suffixesToSlash name) else Some None
                               | None \<Rightarrow> if star then firstMatch chunk (rest = []) (suffixesToSlash name) else Some None)
                         of
                           None \<Rightarrow> None
                         | Some (Some t) \<Rightarrow> path_Match rest t
                         | Some None \<Rightarrow> if patternRestOk rest then Some False else None))"
  by pat_completeness auto
termination
  by (relation "measure (\<lambda>(p, n). length p)") (auto dest: scanChunk_shorter [OF sym])

declare path_Match.simps [simp del]

end
