(* ===== verification/Store.thy ===== *)
theory Store
  imports Transaction Json
begin

text \<open>
  The system database as a value: a record per table row (the columns the modelled code
  reads or writes), the table constraints of \<^verbatim>\<open>storage/migrations/system/*.sql\<close> as
  boolean functions, the store with one list of rows per table, and one statement per
  table that inserts or updates under those constraints. A list keeps the rows in
  insertion order, which is the \<^verbatim>\<open>sequence\<close> order of the outbox.

  Types and columns keep the schema's names with a prefix per table. TEXT enumerations stay
  strings; NULL is \<open>None\<close>; BOOLEAN integers are \<open>bool\<close>.
\<close>

section \<open>Rows\<close>

record user_row =
  us_id :: string
  us_email :: string
  us_displayName :: string
  us_role :: string
  us_status :: string
  us_unrestricted :: bool
  us_scopes :: string
  us_models :: string
  us_connections :: string

record key_row =
  ak_id :: string
  ak_owner :: string
  ak_state :: string
  ak_scopes :: string
  ak_models :: string
  ak_connections :: string
  ak_expires :: "int option"

record policy_row =
  lp_id :: string
  lp_scopeKind :: string
  lp_scopeID :: string
  lp_metric :: string
  lp_algorithm :: string
  lp_period :: string
  lp_window :: int
  lp_limit :: int
  lp_refill :: int
  lp_interval :: int
  lp_enabled :: bool
  lp_revision :: int
  lp_created :: int
  lp_updated :: int

record bucket_row =
  bs_policy :: string
  bs_remaining :: int
  bs_remainder :: int
  bs_refillAt :: int
  bs_effective :: int

record period_row =
  qp_policy :: string
  qp_start :: int
  qp_end :: "int option"
  qp_consumed :: int
  qp_reserved :: int
  qp_effective :: int

record request_row =
  rq_id :: string
  rq_owner :: string
  rq_key :: string
  rq_operation :: string
  rq_dialect :: string
  rq_model :: string
  rq_state :: string
  rq_started :: int
  rq_finished :: "int option"
  rq_streaming :: bool

record price_row =
  pv_id :: string
  pv_connection :: string
  pv_model :: string
  pv_input :: int
  pv_output :: int
  pv_cacheRead :: "int option"
  pv_webSearch :: "int option"
  pv_source :: string
  pv_from :: int
  pv_to :: "int option"
  pv_weekStart :: "int option"
  pv_weekEnd :: "int option"
  pv_createdBy :: "string option"
  pv_created :: int

record attempt_row =
  at_id :: string
  at_request :: string
  at_ordinal :: int
  at_connection :: string
  at_model :: string
  at_upstreamRecord :: string
  at_upstream :: string
  at_connectionRevision :: int
  at_targetDialect :: string
  at_targetOperation :: string
  at_translation :: bool
  at_toolCount :: int
  at_webMax :: "int option"
  at_webFetch :: bool
  at_selection :: string
  at_rejected :: string
  at_price :: "string option"
  at_quoted :: "int option"
  at_state :: string
  at_usage :: string
  at_estimatedTokens :: int
  at_estimatedCost :: "int option"
  at_input :: "int option"
  at_output :: "int option"
  at_cacheCreation :: "int option"
  at_cacheRead :: "int option"
  at_cache5m :: "int option"
  at_cache1h :: "int option"
  at_webCalls :: "int option"
  at_recorded :: "int option"
  at_restated :: "int option"
  at_responseTools :: int
  at_toolStatus :: string
  at_firstByte :: "int option"
  at_started :: int
  at_finished :: "int option"

record reservation_row =
  rs_id :: string
  rs_attempt :: string
  rs_policy :: string
  rs_period :: "int option"
  rs_units :: int
  rs_state :: string
  rs_created :: int
  rs_settled :: "int option"

record lease_row =
  cl_policy :: string
  cl_kind :: string
  cl_lease :: string
  cl_request :: string
  cl_attempt :: "string option"
  cl_epoch :: string
  cl_created :: int

record ledger_row =
  ul_id :: string
  ul_attempt :: string
  ul_type :: string
  ul_tokens :: "int option"
  ul_cost :: "int option"
  ul_key :: string
  ul_actor :: "string option"
  ul_reason :: string
  ul_created :: int

record assessment_row =
  ca_id :: string
  ca_attempt :: string
  ca_price :: string
  ca_version :: int
  ca_kind :: string
  ca_amount :: int
  ca_delta :: int
  ca_created :: int

record job_row =
  pj_id :: string
  pj_key :: string
  pj_actor :: "string option"
  pj_model :: string
  pj_connection :: string
  pj_from :: int
  pj_to :: int
  pj_state :: string
  pj_affected :: int
  pj_missing :: int
  pj_delta :: int
  pj_created :: int
  pj_completed :: "int option"

record outbox_row =
  eo_id :: string
  eo_type :: string
  eo_request :: "string option"
  eo_attempt :: "string option"
  eo_payload :: json
  eo_created :: int
  eo_delivered :: "int option"

record audit_row =
  ae_id :: string
  ae_actor :: string
  ae_action :: string
  ae_resourceType :: string
  ae_resourceID :: string
  ae_detail :: json
  ae_created :: int

text \<open>Rows of other features that the stale-request repair looks at.\<close>

record work_row =
  wk_request :: "string option"
  wk_state :: string

record connection_row =
  pc_id :: string
  pc_adapter :: string
  pc_preset :: string
  pc_baseURL :: string
  pc_enabled :: bool
  pc_private :: bool
  pc_timeout :: int
  pc_revision :: int

record credential_row =
  cr_connection :: string
  cr_ciphertext :: "string option"
  cr_nonce :: "string option"
  cr_external :: "string option"

record script_row =
  ps_connection :: string
  ps_request :: string
  ps_response :: string

record upstream_row =
  um_id :: string
  um_connection :: string
  um_upstream :: string
  um_capabilities :: string
  um_active :: bool

record public_row =
  pm_id :: string
  pm_label :: string
  pm_description :: string
  pm_targetConnection :: string
  pm_targetModel :: string
  pm_capabilities :: string
  pm_active :: bool
  pm_revision :: int
  pm_updated :: int
  pm_strategy :: string
  pm_freeOnly :: bool

record target_row =
  pt_model :: string
  pt_upstream :: string
  pt_priority :: int
  pt_weight :: int
  pt_enabled :: bool
  pt_created :: int
  pt_updated :: int

record observation_row =
  ro_upstream :: string
  ro_operation :: string
  ro_streaming :: bool
  ro_success :: int
  ro_failure :: int
  ro_consecutive :: int
  ro_first :: "int option"
  ro_total :: "int option"
  ro_until :: "int option"
  ro_updated :: int

section \<open>The store\<close>

record store =
  users :: "user_row list"
  api_keys :: "key_row list"
  limit_policies :: "policy_row list"
  bucket_state :: "bucket_row list"
  quota_periods :: "period_row list"
  admission_clock :: "(int \<times> string) option"
  requests :: "request_row list"
  price_versions :: "price_row list"
  attempts :: "attempt_row list"
  reservations :: "reservation_row list"
  concurrency_leases :: "lease_row list"
  usage_ledger :: "ledger_row list"
  cost_assessments :: "assessment_row list"
  pricing_jobs :: "job_row list"
  event_outbox :: "outbox_row list"
  audit_events :: "audit_row list"
  stored_responses :: "work_row list"
  message_batch_items :: "work_row list"
  openai_batch_items :: "work_row list"
  provider_connections :: "connection_row list"
  provider_credentials :: "credential_row list"
  provider_adapter_scripts :: "script_row list"
  upstream_models :: "upstream_row list"
  public_models :: "public_row list"
  public_model_targets :: "target_row list"
  route_observations :: "observation_row list"

definition emptyStore :: store where
  "emptyStore = \<lparr>users = [], api_keys = [], limit_policies = [], bucket_state = [], quota_periods = [],
     admission_clock = None, requests = [], price_versions = [], attempts = [], reservations = [],
     concurrency_leases = [], usage_ledger = [], cost_assessments = [], pricing_jobs = [], event_outbox = [],
     audit_events = [], stored_responses = [], message_batch_items = [], openai_batch_items = [],
     provider_connections = [], provider_credentials = [], provider_adapter_scripts = [],
     upstream_models = [], public_models = [], public_model_targets = [], route_observations = []\<rparr>"

type_synonym 'a tx = "(store, 'a) txm"

section \<open>Constraints\<close>

definition nonnegOpt :: "int option \<Rightarrow> bool" where
  "nonnegOpt v = (case v of None \<Rightarrow> True | Some n \<Rightarrow> n \<ge> 0)"

definition hasKey :: "('r \<Rightarrow> 'k) \<Rightarrow> 'r list \<Rightarrow> 'k \<Rightarrow> bool" where
  "hasKey key rs k = list_ex (\<lambda>r. key r = k) rs"

definition hasKeyOpt :: "('r \<Rightarrow> 'k) \<Rightarrow> 'r list \<Rightarrow> 'k option \<Rightarrow> bool" where
  "hasKeyOpt key rs k = (case k of None \<Rightarrow> True | Some v \<Rightarrow> hasKey key rs v)"

definition policyShape :: "policy_row \<Rightarrow> bool" where
  "policyShape p =
     ((lp_algorithm p = ''token_bucket'' \<and> lp_period p = [] \<and> lp_window p = 0 \<and> lp_refill p > 0 \<and>
       lp_interval p > 0 \<and> lp_metric p \<in> {''requests'', ''tokens''}) \<or>
      (lp_algorithm p = ''fixed_window'' \<and> lp_period p = [] \<and> lp_window p > 0 \<and> lp_refill p = 0 \<and>
       lp_interval p = 0 \<and> lp_metric p \<in> {''requests'', ''tokens''}) \<or>
      (lp_algorithm p = ''quota'' \<and> lp_period p \<noteq> [] \<and> lp_window p = 0 \<and> lp_refill p = 0 \<and>
       lp_interval p = 0 \<and> lp_metric p \<in> {''requests'', ''tokens'', ''spend''}) \<or>
      (lp_algorithm p = ''concurrency'' \<and> lp_period p = [] \<and> lp_window p = 0 \<and> lp_refill p = 0 \<and>
       lp_interval p = 0 \<and> lp_metric p = ''concurrency'') \<or>
      (lp_algorithm p = ''ceiling'' \<and> lp_period p = [] \<and> lp_window p = 0 \<and> lp_refill p = 0 \<and>
       lp_interval p = 0 \<and> lp_metric p \<in> {''body_bytes'', ''output_tokens'', ''batch_items''}))"

definition policyCheck :: "policy_row \<Rightarrow> bool" where
  "policyCheck p =
     (lp_scopeKind p \<in> {''instance'', ''user'', ''key'', ''connection''} \<and>
      lp_metric p \<in> {''requests'', ''tokens'', ''spend'', ''concurrency'', ''body_bytes'', ''output_tokens'', ''batch_items''} \<and>
      lp_algorithm p \<in> {''token_bucket'', ''fixed_window'', ''quota'', ''concurrency'', ''ceiling''} \<and>
      lp_period p \<in> {[], ''hour'', ''day'', ''week'', ''month'', ''lifetime''} \<and>
      lp_window p \<ge> 0 \<and> lp_limit p > 0 \<and> lp_refill p \<ge> 0 \<and> lp_interval p \<ge> 0 \<and>
      (lp_scopeKind p = ''instance'' \<longleftrightarrow> lp_scopeID p = []) \<and> policyShape p)"

definition policyKey :: "policy_row \<Rightarrow> string \<times> string \<times> string \<times> string \<times> string \<times> int" where
  "policyKey p = (lp_scopeKind p, lp_scopeID p, lp_metric p, lp_algorithm p, lp_period p, lp_window p)"

definition policyClash :: "policy_row \<Rightarrow> policy_row \<Rightarrow> bool" where
  "policyClash p q \<longleftrightarrow> lp_id p = lp_id q \<or> policyKey p = policyKey q"

definition periodCheck :: "period_row \<Rightarrow> bool" where
  "periodCheck q \<longleftrightarrow> qp_consumed q \<ge> 0 \<and> qp_reserved q \<ge> 0"

definition requestStates :: "string list" where
  "requestStates = [''reserved'', ''in_progress'', ''succeeded'', ''failed'', ''cancelled'', ''interrupted_unknown'']"

definition requestCheck :: "request_row \<Rightarrow> bool" where
  "requestCheck r \<longleftrightarrow> rq_state r \<in> set requestStates"

definition priceCheck :: "price_row \<Rightarrow> bool" where
  "priceCheck p =
     (pv_input p \<ge> 0 \<and> pv_output p \<ge> 0 \<and> nonnegOpt (pv_cacheRead p) \<and> nonnegOpt (pv_webSearch p) \<and>
      (case pv_to p of None \<Rightarrow> True | Some t \<Rightarrow> t > pv_from p) \<and>
      (case (pv_weekStart p, pv_weekEnd p) of
         (None, None) \<Rightarrow> True
       | (Some a, Some b) \<Rightarrow> 0 \<le> a \<and> a < 10080 \<and> a < b \<and> b \<le> 10080
       | _ \<Rightarrow> False))"

definition activeStates :: "string list" where
  "activeStates = [''reserved'', ''dispatching'', ''streaming'']"

definition terminalStates :: "string list" where
  "terminalStates = [''succeeded'', ''failed'', ''cancelled_before_dispatch'', ''cancelled'', ''interrupted_unknown'']"

definition attemptCheck :: "attempt_row \<Rightarrow> bool" where
  "attemptCheck a =
     (at_ordinal a > 0 \<and> at_state a \<in> set activeStates \<union> set terminalStates \<and>
      at_usage a \<in> {''pending'', ''provider_reported'', ''estimated'', ''unknown''} \<and> at_estimatedTokens a \<ge> 0 \<and>
      nonnegOpt (at_input a) \<and> nonnegOpt (at_output a) \<and> nonnegOpt (at_estimatedCost a) \<and>
      nonnegOpt (at_recorded a) \<and> nonnegOpt (at_restated a) \<and> at_toolCount a \<ge> 0 \<and> at_responseTools a \<ge> 0 \<and>
      at_toolStatus a \<in> {''none'', ''completed'', ''incomplete''} \<and> nonnegOpt (at_cacheCreation a) \<and>
      nonnegOpt (at_cacheRead a) \<and> nonnegOpt (at_cache5m a) \<and> nonnegOpt (at_cache1h a) \<and>
      (case at_webMax a of None \<Rightarrow> True | Some n \<Rightarrow> 1 \<le> n \<and> n \<le> 4) \<and>
      (case at_webCalls a of None \<Rightarrow> True | Some n \<Rightarrow> 0 \<le> n \<and> n \<le> 4) \<and>
      nonnegOpt (at_quoted a) \<and> nonnegOpt (at_firstByte a))"

definition reservationCheck :: "reservation_row \<Rightarrow> bool" where
  "reservationCheck r \<longleftrightarrow> rs_units r \<ge> 0 \<and> rs_state r \<in> {''active'', ''settled'', ''released'', ''uncertain''}"

definition leaseCheck :: "lease_row \<Rightarrow> bool" where
  "leaseCheck l =
     ((cl_kind l = ''request'' \<and> cl_attempt l = None \<and> cl_lease l = cl_request l) \<or>
      (cl_kind l = ''attempt'' \<and> cl_attempt l = Some (cl_lease l)))"

definition ledgerCheck :: "ledger_row \<Rightarrow> bool" where
  "ledgerCheck l \<longleftrightarrow> ul_type l \<in> {''settlement'', ''reconciliation'', ''adjustment'', ''reprice''}"

definition assessmentCheck :: "assessment_row \<Rightarrow> bool" where
  "assessmentCheck c \<longleftrightarrow> ca_kind c \<in> {''recorded'', ''restated''} \<and> ca_amount c \<ge> 0"

definition outboxCheck :: "outbox_row \<Rightarrow> bool" where
  "outboxCheck e \<longleftrightarrow> sqlLength (jsonText (eo_payload e)) \<le> 16384"

definition targetCheck :: "target_row \<Rightarrow> bool" where
  "targetCheck t \<longleftrightarrow> 1 \<le> pt_priority t \<and> pt_priority t \<le> 1000 \<and> 1 \<le> pt_weight t \<and> pt_weight t \<le> 10000"

definition publicCheck :: "public_row \<Rightarrow> bool" where
  "publicCheck m \<longleftrightarrow> pm_strategy m \<in> {''fixed'', ''ordered_fallback'', ''weighted'', ''lowest_cost'', ''lowest_latency''}"

definition observationCheck :: "observation_row \<Rightarrow> bool" where
  "observationCheck r \<longleftrightarrow> ro_success r \<ge> 0 \<and> ro_failure r \<ge> 0 \<and> ro_consecutive r \<ge> 0"

section \<open>Statements\<close>

definition insertPolicy :: "policy_row \<Rightarrow> unit tx" where
  "insertPolicy = insertT limit_policies limit_policies_update policyClash policyCheck (\<lambda>s p. True)"

definition updatePolicies :: "(policy_row \<Rightarrow> bool) \<Rightarrow> (policy_row \<Rightarrow> policy_row) \<Rightarrow> nat tx" where
  "updatePolicies = updateT limit_policies limit_policies_update policyCheck"

definition upsertBucket :: "(bucket_row \<Rightarrow> bucket_row \<Rightarrow> bucket_row) \<Rightarrow> bucket_row \<Rightarrow> unit tx" where
  "upsertBucket = upsertT bucket_state bucket_state_update (\<lambda>a b. bs_policy a = bs_policy b)
     (\<lambda>b. bs_remainder b \<ge> 0) (\<lambda>s b. hasKey lp_id (limit_policies s) (bs_policy b))"

definition updateBuckets :: "(bucket_row \<Rightarrow> bool) \<Rightarrow> (bucket_row \<Rightarrow> bucket_row) \<Rightarrow> nat tx" where
  "updateBuckets = updateT bucket_state bucket_state_update (\<lambda>b. bs_remainder b \<ge> 0)"

definition samePeriod :: "period_row \<Rightarrow> period_row \<Rightarrow> bool" where
  "samePeriod a b \<longleftrightarrow> qp_policy a = qp_policy b \<and> qp_start a = qp_start b"

definition upsertPeriod :: "(period_row \<Rightarrow> period_row \<Rightarrow> period_row) \<Rightarrow> period_row \<Rightarrow> unit tx" where
  "upsertPeriod = upsertT quota_periods quota_periods_update samePeriod periodCheck
     (\<lambda>s q. hasKey lp_id (limit_policies s) (qp_policy q))"

definition updatePeriods :: "(period_row \<Rightarrow> bool) \<Rightarrow> (period_row \<Rightarrow> period_row) \<Rightarrow> nat tx" where
  "updatePeriods = updateT quota_periods quota_periods_update periodCheck"

definition insertRequest :: "request_row \<Rightarrow> unit tx" where
  "insertRequest = insertT requests requests_update (\<lambda>a b. rq_id a = rq_id b) requestCheck
     (\<lambda>s r. hasKey us_id (users s) (rq_owner r) \<and> hasKey ak_id (api_keys s) (rq_key r))"

definition updateRequests :: "(request_row \<Rightarrow> bool) \<Rightarrow> (request_row \<Rightarrow> request_row) \<Rightarrow> nat tx" where
  "updateRequests = updateT requests requests_update requestCheck"

definition insertPrice :: "price_row \<Rightarrow> unit tx" where
  "insertPrice = insertT price_versions price_versions_update (\<lambda>a b. pv_id a = pv_id b) priceCheck
     (\<lambda>s p. hasKeyOpt us_id (users s) (pv_createdBy p))"

definition updatePrices :: "(price_row \<Rightarrow> bool) \<Rightarrow> (price_row \<Rightarrow> price_row) \<Rightarrow> nat tx" where
  "updatePrices = updateT price_versions price_versions_update priceCheck"

definition insertAttempt :: "attempt_row \<Rightarrow> unit tx" where
  "insertAttempt = insertT attempts attempts_update
     (\<lambda>a b. at_id a = at_id b \<or> at_request a = at_request b \<and> at_ordinal a = at_ordinal b) attemptCheck
     (\<lambda>s a. hasKey rq_id (requests s) (at_request a) \<and> hasKeyOpt pv_id (price_versions s) (at_price a))"

definition updateAttempts :: "(attempt_row \<Rightarrow> bool) \<Rightarrow> (attempt_row \<Rightarrow> attempt_row) \<Rightarrow> nat tx" where
  "updateAttempts = updateT attempts attempts_update attemptCheck"

definition insertReservation :: "reservation_row \<Rightarrow> unit tx" where
  "insertReservation = insertT reservations reservations_update
     (\<lambda>a b. rs_id a = rs_id b \<or> rs_attempt a = rs_attempt b \<and> rs_policy a = rs_policy b) reservationCheck
     (\<lambda>s r. hasKey at_id (attempts s) (rs_attempt r) \<and> hasKey lp_id (limit_policies s) (rs_policy r))"

definition updateReservations :: "(reservation_row \<Rightarrow> bool) \<Rightarrow> (reservation_row \<Rightarrow> reservation_row) \<Rightarrow> nat tx" where
  "updateReservations = updateT reservations reservations_update reservationCheck"

definition insertLease :: "lease_row \<Rightarrow> unit tx" where
  "insertLease = insertT concurrency_leases concurrency_leases_update
     (\<lambda>a b. cl_policy a = cl_policy b \<and> cl_kind a = cl_kind b \<and> cl_lease a = cl_lease b) leaseCheck
     (\<lambda>s l. hasKey lp_id (limit_policies s) (cl_policy l) \<and> hasKey rq_id (requests s) (cl_request l) \<and>
            hasKeyOpt at_id (attempts s) (cl_attempt l))"

definition deleteLeases :: "(lease_row \<Rightarrow> bool) \<Rightarrow> nat tx" where
  "deleteLeases = deleteT concurrency_leases concurrency_leases_update"

definition insertLedger :: "ledger_row \<Rightarrow> unit tx" where
  "insertLedger = insertT usage_ledger usage_ledger_update (\<lambda>a b. ul_id a = ul_id b \<or> ul_key a = ul_key b)
     ledgerCheck (\<lambda>s l. hasKey at_id (attempts s) (ul_attempt l) \<and> hasKeyOpt us_id (users s) (ul_actor l))"

definition assessmentClash :: "assessment_row \<Rightarrow> assessment_row \<Rightarrow> bool" where
  "assessmentClash a b \<longleftrightarrow>
     ca_id a = ca_id b \<or>
     ca_attempt a = ca_attempt b \<and> ca_price a = ca_price b \<and> ca_version a = ca_version b \<and> ca_kind a = ca_kind b"

definition assessmentRefs :: "store \<Rightarrow> assessment_row \<Rightarrow> bool" where
  "assessmentRefs s c \<longleftrightarrow> hasKey at_id (attempts s) (ca_attempt c) \<and> hasKey pv_id (price_versions s) (ca_price c)"

definition insertAssessment :: "assessment_row \<Rightarrow> unit tx" where
  "insertAssessment = insertT cost_assessments cost_assessments_update assessmentClash assessmentCheck assessmentRefs"

definition insertAssessmentOrIgnore :: "assessment_row \<Rightarrow> nat tx" where
  "insertAssessmentOrIgnore =
     insertIgnoreT cost_assessments cost_assessments_update assessmentClash assessmentCheck assessmentRefs"

definition insertJob :: "job_row \<Rightarrow> unit tx" where
  "insertJob = insertT pricing_jobs pricing_jobs_update (\<lambda>a b. pj_id a = pj_id b \<or> pj_key a = pj_key b)
     (\<lambda>j. pj_state j \<in> {''preview'', ''completed'', ''failed''}) (\<lambda>s j. hasKeyOpt us_id (users s) (pj_actor j))"

definition insertEvent :: "outbox_row \<Rightarrow> unit tx" where
  "insertEvent = insertT event_outbox event_outbox_update (\<lambda>a b. eo_id a = eo_id b) outboxCheck (\<lambda>s e. True)"

definition updateEvents :: "(outbox_row \<Rightarrow> bool) \<Rightarrow> (outbox_row \<Rightarrow> outbox_row) \<Rightarrow> nat tx" where
  "updateEvents = updateT event_outbox event_outbox_update outboxCheck"

definition deleteEvents :: "(outbox_row \<Rightarrow> bool) \<Rightarrow> nat tx" where
  "deleteEvents = deleteT event_outbox event_outbox_update"

definition insertAuditEvent :: "audit_row \<Rightarrow> unit tx" where
  "insertAuditEvent = insertT audit_events audit_events_update (\<lambda>a b. ae_id a = ae_id b) (\<lambda>e. True)
     (\<lambda>s e. hasKey us_id (users s) (ae_actor e))"

definition updatePublicModels :: "(public_row \<Rightarrow> bool) \<Rightarrow> (public_row \<Rightarrow> public_row) \<Rightarrow> nat tx" where
  "updatePublicModels = updateT public_models public_models_update publicCheck"

definition insertTarget :: "target_row \<Rightarrow> unit tx" where
  "insertTarget = insertT public_model_targets public_model_targets_update
     (\<lambda>a b. pt_model a = pt_model b \<and> (pt_upstream a = pt_upstream b \<or> pt_priority a = pt_priority b)) targetCheck
     (\<lambda>s t. hasKey pm_id (public_models s) (pt_model t) \<and> hasKey um_id (upstream_models s) (pt_upstream t))"

definition deleteTargets :: "(target_row \<Rightarrow> bool) \<Rightarrow> nat tx" where
  "deleteTargets = deleteT public_model_targets public_model_targets_update"

definition upsertObservation :: "(observation_row \<Rightarrow> observation_row \<Rightarrow> observation_row) \<Rightarrow> observation_row \<Rightarrow> unit tx" where
  "upsertObservation = upsertT route_observations route_observations_update
     (\<lambda>a b. ro_upstream a = ro_upstream b \<and> ro_operation a = ro_operation b \<and> ro_streaming a = ro_streaming b)
     observationCheck (\<lambda>s r. hasKey um_id (upstream_models s) (ro_upstream r))"

text \<open>
  \<^verbatim>\<open>INSERT INTO admission_clock ... ON CONFLICT DO UPDATE\<close>: the clock row never goes back.
\<close>

definition raiseClock :: "int \<Rightarrow> string \<Rightarrow> unit tx" where
  "raiseClock at epoch =
     stmtT (\<lambda>s. Inr ((), s\<lparr>admission_clock :=
       Some (case admission_clock s of None \<Rightarrow> at | Some (t, _) \<Rightarrow> max t at, epoch)\<rparr>))"

lemmas statement_defs = insertPolicy_def updatePolicies_def upsertBucket_def updateBuckets_def upsertPeriod_def
  updatePeriods_def insertRequest_def updateRequests_def insertPrice_def updatePrices_def insertAttempt_def
  updateAttempts_def insertReservation_def updateReservations_def insertLease_def deleteLeases_def insertLedger_def
  insertAssessment_def insertAssessmentOrIgnore_def insertJob_def insertEvent_def updateEvents_def deleteEvents_def
  insertAuditEvent_def updatePublicModels_def insertTarget_def deleteTargets_def upsertObservation_def raiseClock_def

lemma raiseClock_Inr [tx_inv]:
  "raiseClock at epoch w (n, s) = Inr (x, n', s') \<longleftrightarrow>
     \<not> w_fault w n \<and> n' = Suc n \<and>
     s' = s\<lparr>admission_clock := Some (case admission_clock s of None \<Rightarrow> at | Some (t, _) \<Rightarrow> max t at, epoch)\<rparr>"
  by (auto simp: raiseClock_def stmtT_def)

section \<open>Ordered queries\<close>

text \<open>\<^verbatim>\<open>ORDER BY\<close> one or two columns, ascending and descending, on rows in any order.\<close>

definition orderBy :: "('r \<Rightarrow> 'k::linorder) \<Rightarrow> 'r list \<Rightarrow> 'r list" where
  "orderBy key rs = sort_key key rs"

definition orderByDesc :: "('r \<Rightarrow> 'k::linorder) \<Rightarrow> 'r list \<Rightarrow> 'r list" where
  "orderByDesc key rs = rev (sort_key key (rev rs))"

lemma set_orderBy [simp]: "set (orderBy key rs) = set rs"
  by (simp add: orderBy_def)

lemma set_orderByDesc [simp]: "set (orderByDesc key rs) = set rs"
  by (simp add: orderByDesc_def)

lemma orderByDesc_sorted: "sorted_wrt (\<lambda>a b. key a \<ge> key b) (orderByDesc key rs)"
proof -
  have "sorted_wrt (\<lambda>a b. key a \<le> key b) (sort_key key (rev rs))"
    using sorted_sort_key [of key "rev rs"] by (simp add: sorted_map)
  then show ?thesis unfolding orderByDesc_def by (simp add: sorted_wrt_rev)
qed

end
