(* ===== verification/Cursor.thy ===== *)
theory Cursor
  imports Calendar Store "HOL-Library.Multiset"
begin

text \<open>
  Keyset pagination: the opaque cursor of \<^verbatim>\<open>usage/cursor.go\<close> (base64 of
  \<^verbatim>\<open>time:id\<close>) and the shape of the list queries (rows ordered by a time and an id, both
  descending, one more row than a page to see whether there is a next page). The locale
  \<open>keyset\<close> states what a page query returns and shows that following the cursors
  yields every row once, in order.
\<close>

section \<open>base64.RawURLEncoding\<close>

text \<open>
  Three bytes give four digits, a rest of one or two bytes two or three digits, without
  padding. The decoder skips line breaks and, not being strict, ignores the low bits of
  the last digit.
\<close>

definition base64Digit :: "nat \<Rightarrow> char" where
  "base64Digit n =
     (if n < 26 then char_of (65 + n) else if n < 52 then char_of (71 + n)
      else if n < 62 then char_of (n - 4) else if n = 62 then CHR ''-'' else CHR ''_'')"

definition base64Value :: "char \<Rightarrow> nat option" where
  "base64Value c =
     (let n = (of_char c :: nat) in
      if 65 \<le> n \<and> n \<le> 90 then Some (n - 65) else if 97 \<le> n \<and> n \<le> 122 then Some (n - 71)
      else if 48 \<le> n \<and> n \<le> 57 then Some (n + 4) else if n = 45 then Some 62 else if n = 95 then Some 63 else None)"

fun sextets :: "nat list \<Rightarrow> nat list" where
  "sextets (a # b # c # r) = a div 4 # (a mod 4 * 16 + b div 16) # (b mod 16 * 4 + c div 64) # c mod 64 # sextets r"
| "sextets [a, b] = [a div 4, a mod 4 * 16 + b div 16, b mod 16 * 4]"
| "sextets [a] = [a div 4, a mod 4 * 16]"
| "sextets [] = []"

fun octets :: "nat list \<Rightarrow> nat list option" where
  "octets (w # x # y # z # r) =
     map_option (\<lambda>t. (w * 4 + x div 16) # (x mod 16 * 16 + y div 4) # (y mod 4 * 64 + z) # t) (octets r)"
| "octets [w, x, y] = Some [w * 4 + x div 16, x mod 16 * 16 + y div 4]"
| "octets [w, x] = Some [w * 4 + x div 16]"
| "octets [w] = None"
| "octets [] = Some []"

definition base64Encode :: "string \<Rightarrow> string" where
  "base64Encode s = map base64Digit (sextets (map of_char s))"

fun base64Values :: "string \<Rightarrow> nat list option" where
  "base64Values [] = Some []"
| "base64Values (c # cs) =
     (if c = CHR 0x0A \<or> c = CHR 0x0D then base64Values cs
      else case base64Value c of None \<Rightarrow> None | Some v \<Rightarrow> map_option ((#) v) (base64Values cs))"

definition base64Decode :: "string \<Rightarrow> string option" where
  "base64Decode s = Option.bind (base64Values s) (\<lambda>vs. map_option (map char_of) (octets vs))"

section \<open>Cursors\<close>

definition encodeCursor :: "int \<Rightarrow> string \<Rightarrow> string" where
  "encodeCursor at i = base64Encode (decInt at @ '':'' @ i)"

definition decodeCursor :: "string \<Rightarrow> string + int \<times> string" where
  "decodeCursor value =
     (if value = [] then Inr (0, [])
      else case base64Decode value of
             None \<Rightarrow> Inl ''invalid cursor''
           | Some raw \<Rightarrow>
               (case cutOn (CHR '':'') raw of
                  None \<Rightarrow> Inl ''invalid cursor''
                | Some (timePart, i) \<Rightarrow>
                    (case parseInt64 timePart of
                       None \<Rightarrow> Inl ''invalid cursor''
                     | Some at \<Rightarrow> if i = [] then Inl ''invalid cursor'' else Inr (at, i))))"

section \<open>Round trip\<close>

lemma base64Value_Digit: "n < 64 \<Longrightarrow> base64Value (base64Digit n) = Some n"
  by (auto simp: base64Value_def base64Digit_def Let_def)

lemma base64Digit_no_break: "n < 64 \<Longrightarrow> base64Digit n \<noteq> CHR 0x0A \<and> base64Digit n \<noteq> CHR 0x0D"
  using base64Value_Digit [of n] by (auto simp: base64Value_def)

lemma sextets_bound: "\<forall>b \<in> set bs. b < 256 \<Longrightarrow> \<forall>v \<in> set (sextets bs). v < 64"
  by (induction bs rule: sextets.induct) auto

lemma octets_sextets: "\<forall>b \<in> set bs. b < 256 \<Longrightarrow> octets (sextets bs) = Some bs"
proof (induction bs rule: sextets.induct)
  case (1 a b c r)
  then have "octets (sextets r) = Some r" "a < 256" "b < 256" "c < 256" by auto
  then show ?case by simp
qed auto

lemma base64Values_Digits: "\<forall>v \<in> set vs. v < 64 \<Longrightarrow> base64Values (map base64Digit vs) = Some vs"
  by (induction vs) (auto simp: base64Value_Digit base64Digit_no_break)

lemma base64Decode_Encode: "base64Decode (base64Encode s) = Some s"
proof -
  have b: "\<forall>b \<in> set (map of_char s). b < (256 :: nat)" by auto
  have "map char_of (map of_char s :: nat list) = s" by (simp add: comp_def)
  then show ?thesis
    by (simp add: base64Decode_def base64Encode_def base64Values_Digits [OF sextets_bound [OF b]] octets_sextets [OF b])
qed

lemma decInt_no_colon: "CHR '':'' \<notin> set (decInt n)"
proof -
  have "CHR '':'' \<notin> set (decNat k)" for k
    using decNat_digits [of k] isDigit_not_sign by (auto simp: list_all_iff)
  then show ?thesis by (auto simp: decInt_def)
qed

lemma encodeCursor_nonempty: "encodeCursor at i \<noteq> []"
proof
  assume "encodeCursor at i = []"
  then have "base64Decode [] = Some (decInt at @ '':'' @ i)"
    using base64Decode_Encode unfolding encodeCursor_def by metis
  then show False by (simp add: base64Decode_def)
qed

lemma decodeCursor_encodeCursor:
  assumes "int64_range at" "i \<noteq> []"
  shows "decodeCursor (encodeCursor at i) = Inr (at, i)"
  using assms encodeCursor_nonempty [of at i]
    cutOn_append [OF decInt_no_colon [of at], of i] parseInt64_decInt [of at]
  by (simp add: decodeCursor_def encodeCursor_def base64Decode_Encode)

section \<open>Pages\<close>

text \<open>
  The rows of one list query: those after the cursor (all of them without one), ordered
  descending, at most \<open>n + 1\<close>; and the page with the key of its last row when there is more.
\<close>

definition pageRows :: "('r \<Rightarrow> int \<times> string) \<Rightarrow> nat \<Rightarrow> (int \<times> string) option \<Rightarrow> 'r list \<Rightarrow> 'r list" where
  "pageRows key n cursor rs =
     take (Suc n) (orderByDesc key (filter (\<lambda>r. case cursor of None \<Rightarrow> True | Some (t, i) \<Rightarrow>
        fst (key r) < t \<or> fst (key r) = t \<and> snd (key r) < i) rs))"

definition cutPage :: "nat \<Rightarrow> 'r list \<Rightarrow> 'r list \<times> 'r option" where
  "cutPage n rs = (if length rs \<le> n then (rs, None) else (take n rs, Some (rs ! (n - 1))))"

lemma orderByDesc_filter: "orderByDesc key (filter p rs) = filter p (orderByDesc key rs)"
  by (simp only: orderByDesc_def rev_filter filter_sort [symmetric])

lemma before_key:
  fixes k c :: "int \<times> string"
  shows "(fst k < fst c \<or> fst k = fst c \<and> snd k < snd c) \<longleftrightarrow> k < c"
  by (auto simp: less_prod_def)

lemma descending_split:
  assumes "sorted_wrt (\<lambda>a b. key a > (key b :: 'k :: linorder)) xs" "n < length xs" "0 < n"
  shows "filter (\<lambda>r. key r < key (xs ! (n - 1))) xs = drop n xs"
proof -
  let ?c = "key (xs ! (n - 1))"
  have split: "xs = take n xs @ drop n xs" by simp
  have up: "\<not> key r < ?c" if "r \<in> set (take n xs)" for r
  proof -
    from that obtain i where i: "i < n" "r = xs ! i" using assms(2) by (auto simp: in_set_conv_nth)
    show ?thesis
    proof (cases "i = n - 1")
      case True
      with i show ?thesis by simp
    next
      case False
      with i assms have "key (xs ! i) > ?c" by (intro sorted_wrt_nth_less [OF assms(1)]) simp_all
      with i show ?thesis by simp
    qed
  qed
  have down: "key r < ?c" if "r \<in> set (drop n xs)" for r
  proof -
    from that obtain i where i: "n + i < length xs" "r = xs ! (n + i)"
      using assms(2) by (auto simp: in_set_conv_nth less_diff_conv add.commute)
    with assms show ?thesis by (auto intro!: sorted_wrt_nth_less [OF assms(1)])
  qed
  have "filter (\<lambda>r. key r < ?c) (take n xs) = []" using up by (simp add: filter_empty_conv)
  moreover have "filter (\<lambda>r. key r < ?c) (drop n xs) = drop n xs" using down by (simp add: filter_id_conv)
  moreover have "filter (\<lambda>r. key r < ?c) xs = filter (\<lambda>r. key r < ?c) (take n xs) @ filter (\<lambda>r. key r < ?c) (drop n xs)"
    by (metis split filter_append)
  ultimately show ?thesis by simp
qed

lemma orderByDesc_strict:
  fixes key :: "'r \<Rightarrow> 'k :: linorder"
  assumes "distinct (map key rs)"
  shows "sorted_wrt (\<lambda>a b. key a > key b) (orderByDesc key rs)"
proof -
  let ?xs = "orderByDesc key rs"
  have "mset (map key ?xs) = mset (map key rs)" by (simp add: orderByDesc_def)
  then have d: "distinct (map key ?xs)" using assms mset_eq_imp_distinct_iff by blast
  show ?thesis unfolding sorted_wrt_iff_nth_less
  proof (intro allI impI)
    fix i j assume ij: "i < j" "j < length ?xs"
    with orderByDesc_sorted [of key rs] have "key (?xs ! j) \<le> key (?xs ! i)"
      by (simp add: sorted_wrt_iff_nth_less)
    moreover have "key (?xs ! i) \<noteq> key (?xs ! j)" using d ij by (auto simp: distinct_conv_nth)
    ultimately show "key (?xs ! j) < key (?xs ! i)" by simp
  qed
qed

text \<open>
  The contract of a list operation: on rows that are all well formed it returns the page
  after the decoded cursor and the encoded key of the last row when there are more rows.
  \<open>follow\<close> is a client that passes each next cursor back until there is none.
\<close>

definition nextCursor :: "('r \<Rightarrow> int \<times> string) \<Rightarrow> 'r option \<Rightarrow> string" where
  "nextCursor key l = (case l of None \<Rightarrow> [] | Some r \<Rightarrow> encodeCursor (fst (key r)) (snd (key r)))"

locale keyset =
  fixes key :: "'r \<Rightarrow> int \<times> string"
    and wf :: "'r \<Rightarrow> bool"
    and size :: nat
    and page :: "'r list \<Rightarrow> string \<Rightarrow> 'r list \<times> string"
  assumes size_pos: "0 < size"
    and wf_key: "wf r \<Longrightarrow> int64_range (fst (key r)) \<and> snd (key r) \<noteq> []"
    and first_page: "list_all wf rows \<Longrightarrow>
        page rows [] = (case cutPage size (pageRows key size None rows) of (xs, l) \<Rightarrow> (xs, nextCursor key l))"
    and next_page: "list_all wf rows \<Longrightarrow> c \<noteq> [] \<Longrightarrow> decodeCursor c = Inr k \<Longrightarrow>
        page rows c = (case cutPage size (pageRows key size (Some k) rows) of (xs, l) \<Rightarrow> (xs, nextCursor key l))"
begin

primrec follow :: "nat \<Rightarrow> 'r list \<Rightarrow> string \<Rightarrow> 'r list" where
  "follow 0 rows c = []"
| "follow (Suc n) rows c = (case page rows c of (xs, next_c) \<Rightarrow> if next_c = [] then xs else xs @ follow n rows next_c)"

lemma page_at:
  assumes "list_all wf rows"
    and "c = [] \<and> k = None \<or> c \<noteq> [] \<and> (\<exists>v. decodeCursor c = Inr v \<and> k = Some v)"
    and "filter (\<lambda>r. case k of None \<Rightarrow> True | Some v \<Rightarrow> key r < v) (orderByDesc key rows) = drop m (orderByDesc key rows)"
  shows "page rows c =
    (case cutPage size (take (Suc size) (drop m (orderByDesc key rows))) of (xs, l) \<Rightarrow> (xs, nextCursor key l))"
proof -
  have "(\<lambda>r. case k of None \<Rightarrow> True | Some (t, i) \<Rightarrow> fst (key r) < t \<or> fst (key r) = t \<and> snd (key r) < i)
      = (\<lambda>r. case k of None \<Rightarrow> True | Some v \<Rightarrow> key r < v)"
    by (rule ext) (simp add: before_key [of _ "(_, _)", simplified] split: option.split prod.split)
  then have rows: "pageRows key size k rows = take (Suc size) (drop m (orderByDesc key rows))"
    unfolding pageRows_def orderByDesc_filter using assms(3) by simp
  show ?thesis using assms(1,2) first_page next_page unfolding rows [symmetric] by auto
qed

lemma follow_from:
  assumes "list_all wf rows" "distinct (map key rows)"
    and "c = [] \<and> k = None \<or> c \<noteq> [] \<and> (\<exists>v. decodeCursor c = Inr v \<and> k = Some v)"
    and "filter (\<lambda>r. case k of None \<Rightarrow> True | Some v \<Rightarrow> key r < v) (orderByDesc key rows) = drop m (orderByDesc key rows)"
    and "length (drop m (orderByDesc key rows)) < n"
  shows "follow n rows c = drop m (orderByDesc key rows)"
  using assms
proof (induction n arbitrary: c k m)
  case 0
  then show ?case by simp
next
  case (Suc n)
  let ?xs = "orderByDesc key rows"
  note page = page_at [OF Suc.prems(1,3,4)]
  show ?case
  proof (cases "length (drop m ?xs) \<le> size")
    case True
    then have p: "page rows c = (drop m ?xs, [])" unfolding page by (simp add: cutPage_def nextCursor_def)
    show ?thesis by (simp add: p)
  next
    case False
    then have len: "m + size < length ?xs" by simp
    let ?l = "?xs ! (m + size - 1)"
    let ?c = "encodeCursor (fst (key ?l)) (snd (key ?l))"
    have "take (Suc size) (drop m ?xs) ! (size - 1) = ?l" using len size_pos by simp
    then have p: "page rows c = (take size (drop m ?xs), ?c)"
      using False size_pos unfolding page by (simp add: cutPage_def min_def nextCursor_def)
    have "?l \<in> set rows" using len nth_mem [of "m + size - 1" ?xs] by (simp del: nth_mem)
    then have "wf ?l" using Suc.prems(1) by (simp add: list_all_iff)
    then have dec: "decodeCursor ?c = Inr (key ?l)" using decodeCursor_encodeCursor wf_key by (metis prod.collapse)
    have "filter (\<lambda>r. key r < key ?l) ?xs = drop (m + size) ?xs"
      using descending_split [OF orderByDesc_strict [OF Suc.prems(2)] len] size_pos by simp
    then have "follow n rows ?c = drop (m + size) ?xs"
      using Suc.IH [OF Suc.prems(1,2), of ?c "Some (key ?l)" "m + size"] Suc.prems(5) len size_pos dec
      by (simp add: encodeCursor_nonempty)
    then show ?thesis
      by (simp add: p encodeCursor_nonempty) (metis append_take_drop_id drop_drop add.commute)
  qed
qed

lemma follow_all:
  assumes "list_all wf rows" "distinct (map key rows)" "length rows < n"
  shows "follow n rows [] = orderByDesc key rows"
proof -
  have "length (orderByDesc key rows) = length rows" by (simp add: orderByDesc_def)
  then show ?thesis using follow_from [OF assms(1,2), of "[]" None 0 n] assms(3) by simp
qed

end

end
