(* ===== verification/Policy.thy ===== *)
theory Policy
  imports Money Calendar Cursor
begin

text \<open>
  \<^verbatim>\<open>usage/policy.go\<close>: limit policies. Validation of the input, who may manage which
  scope, and the operations that create, change, read and list policies, with the audit
  trail they write.
\<close>

definition maxSafeInteger :: int where
  "maxSafeInteger = 9007199254740991"

text \<open>\<^verbatim>\<open>auth.User\<close>, the caller of an operation.\<close>

record auth_user =
  ua_id :: string
  ua_email :: string
  ua_displayName :: string
  ua_role :: string
  ua_status :: string

record policy =
  po_id :: string
  po_scopeKind :: string
  po_scopeID :: string
  po_metric :: string
  po_algorithm :: string
  po_period :: string
  po_windowSeconds :: int
  po_limitUnits :: int
  po_limitUSD :: string
  po_refillUnits :: int
  po_refillIntervalMS :: int
  po_enabled :: bool
  po_revision :: int
  po_createdAt :: string
  po_updatedAt :: string

record policy_input =
  pi_scopeKind :: string
  pi_scopeID :: string
  pi_metric :: string
  pi_algorithm :: string
  pi_period :: string
  pi_windowSeconds :: int
  pi_limitUnits :: int
  pi_limitUSD :: string
  pi_refillUnits :: int
  pi_refillIntervalMS :: int
  pi_enabled :: "bool option"

primrec contains :: "string list \<Rightarrow> string \<Rightarrow> bool" where
  "contains [] value = False"
| "contains (item # items) value = (if item = value then True else contains items value)"

lemma contains_iff [simp]: "contains items value \<longleftrightarrow> value \<in> set items"
  by (induction items) auto

section \<open>Validation\<close>

text \<open>The \<^verbatim>\<open>switch input.Algorithm\<close> of \<^verbatim>\<open>validatePolicyInput\<close>.\<close>

definition policyAlgorithmError :: "policy_input \<Rightarrow> string option" where
  "policyAlgorithmError i =
     (if pi_algorithm i = ''token_bucket'' then
        if pi_period i \<noteq> [] \<or> pi_windowSeconds i \<noteq> 0 \<or> pi_refillUnits i \<le> 0 \<or> pi_refillIntervalMS i \<le> 0 \<or>
           (pi_metric i \<noteq> ''requests'' \<and> pi_metric i \<noteq> ''tokens'')
        then Some ''invalid token-bucket policy'' else None
      else if pi_algorithm i = ''fixed_window'' then
        if pi_period i \<noteq> [] \<or> pi_windowSeconds i \<le> 0 \<or> pi_windowSeconds i > go_div MaxInt64 1000 \<or> pi_refillUnits i \<noteq> 0 \<or>
           pi_refillIntervalMS i \<noteq> 0 \<or> (pi_metric i \<noteq> ''requests'' \<and> pi_metric i \<noteq> ''tokens'')
        then Some ''invalid fixed-window policy'' else None
      else if pi_algorithm i = ''quota'' then
        if \<not> contains [''hour'', ''day'', ''week'', ''month'', ''lifetime''] (pi_period i) \<or> pi_windowSeconds i \<noteq> 0 \<or>
           pi_refillUnits i \<noteq> 0 \<or> pi_refillIntervalMS i \<noteq> 0 \<or>
           \<not> contains [''requests'', ''tokens'', ''spend''] (pi_metric i)
        then Some ''invalid quota policy'' else None
      else if pi_algorithm i = ''concurrency'' then
        if pi_metric i \<noteq> ''concurrency'' \<or> pi_period i \<noteq> [] \<or> pi_windowSeconds i \<noteq> 0 \<or> pi_refillUnits i \<noteq> 0 \<or>
           pi_refillIntervalMS i \<noteq> 0
        then Some ''invalid concurrency policy'' else None
      else if pi_algorithm i = ''ceiling'' then
        if \<not> contains [''body_bytes'', ''output_tokens'', ''batch_items''] (pi_metric i) \<or> pi_period i \<noteq> [] \<or>
           pi_windowSeconds i \<noteq> 0 \<or> pi_refillUnits i \<noteq> 0 \<or> pi_refillIntervalMS i \<noteq> 0
        then Some ''invalid ceiling policy'' else None
      else Some ''unsupported policy algorithm'')"

definition trimPolicyInput :: "policy_input \<Rightarrow> policy_input" where
  "trimPolicyInput i = i\<lparr>pi_scopeKind := TrimSpace (pi_scopeKind i), pi_scopeID := TrimSpace (pi_scopeID i),
     pi_metric := TrimSpace (pi_metric i), pi_algorithm := TrimSpace (pi_algorithm i), pi_period := TrimSpace (pi_period i)\<rparr>"

definition validatePolicyInput :: "policy_input \<Rightarrow> string + policy_input" where
  "validatePolicyInput input =
     (let i = trimPolicyInput input in
      if pi_windowSeconds i > maxSafeInteger \<or> pi_refillUnits i > maxSafeInteger \<or> pi_refillIntervalMS i > maxSafeInteger
      then Inl ''policy values must not exceed 9007199254740991''
      else if pi_scopeKind i \<noteq> ''instance'' \<and> pi_scopeID i = [] then Inl ''scope_id is required''
      else let j = (if pi_scopeKind i = ''instance'' then i\<lparr>pi_scopeID := []\<rparr> else i) in
        case (if pi_metric j = ''spend'' then ParseUSD (pi_limitUSD j) else Inr (pi_limitUnits j)) of
          Inl e \<Rightarrow> Inl e
        | Inr limit \<Rightarrow>
            let k = j\<lparr>pi_limitUnits := limit\<rparr> in
            if pi_limitUnits k \<le> 0 \<or> pi_limitUnits k > maxSafeInteger
            then Inl ''limit must be between 1 and 9007199254740991''
            else if \<not> contains [''instance'', ''user'', ''key'', ''connection''] (pi_scopeKind k) \<or>
                    \<not> contains [''requests'', ''tokens'', ''spend'', ''concurrency'', ''body_bytes'', ''output_tokens'', ''batch_items''] (pi_metric k)
            then Inl ''unsupported policy scope or metric''
            else case policyAlgorithmError k of Some e \<Rightarrow> Inl e | None \<Rightarrow> Inr k)"

section \<open>Callers\<close>

definition refreshUsageActor :: "auth_user \<Rightarrow> auth_user tx" where
  "refreshUsageActor actor =
     bindT (oneT ErrDenied users (\<lambda>u. us_id u = ua_id actor \<and> us_status u = ''active'')) (\<lambda>u.
       returnT (actor\<lparr>ua_email := us_email u, ua_displayName := us_displayName u,
                  ua_role := us_role u, ua_status := us_status u\<rparr>))"

text \<open>The role the scope belongs to: of a user that is not archived, or of the owner of a key.\<close>

definition scopeRole :: "string \<Rightarrow> string \<Rightarrow> store \<Rightarrow> string option" where
  "scopeRole scopeKind scopeID s =
     (if scopeKind = ''user''
      then map_option us_role (find (\<lambda>u. us_id u = scopeID \<and> us_status u \<noteq> ''archived'') (users s))
      else Option.bind (find (\<lambda>k. ak_id k = scopeID) (api_keys s))
             (\<lambda>k. map_option us_role (find (\<lambda>u. us_id u = ak_owner k) (users s))))"

definition authorizePolicyScope :: "auth_user \<Rightarrow> string \<Rightarrow> string \<Rightarrow> unit tx" where
  "authorizePolicyScope actor scopeKind scopeID =
     (if scopeKind = ''instance'' then
        if ua_role actor = ''owner'' then returnT () else failT ErrDenied
      else if scopeKind = ''connection'' then
        if ua_role actor = ''owner'' \<or> ua_role actor = ''admin'' then returnT () else failT ErrDenied
      else
        bindT (queryT (scopeRole scopeKind scopeID)) (\<lambda>r.
        bindT (optionT ErrNotFound r) (\<lambda>role.
              if ua_role actor = ''owner'' then returnT ()
              else guardT (ua_role actor \<noteq> ''admin'') ErrDenied
                     (guardT (role \<noteq> ''member'') ErrDenied (returnT ())))))"

definition insertAudit :: "string \<Rightarrow> string \<Rightarrow> string \<Rightarrow> string \<Rightarrow> (string \<times> json) list \<Rightarrow> unit tx" where
  "insertAudit actorID action resourceType resourceID detail =
     bindT randT (\<lambda>i.
     bindT nowT (\<lambda>now.
       insertAuditEvent \<lparr>ae_id = ''aud_'' @ i, ae_actor = actorID, ae_action = action, ae_resourceType = resourceType,
         ae_resourceID = resourceID, ae_detail = jmap detail, ae_created = now\<rparr>))"

section \<open>Operations\<close>

definition scanPolicy :: "policy_row \<Rightarrow> policy" where
  "scanPolicy r = \<lparr>po_id = lp_id r, po_scopeKind = lp_scopeKind r, po_scopeID = lp_scopeID r, po_metric = lp_metric r,
     po_algorithm = lp_algorithm r, po_period = lp_period r, po_windowSeconds = lp_window r, po_limitUnits = lp_limit r,
     po_limitUSD = (if lp_metric r = ''spend'' then FormatUSD (lp_limit r) else []),
     po_refillUnits = lp_refill r, po_refillIntervalMS = lp_interval r, po_enabled = lp_enabled r,
     po_revision = lp_revision r, po_createdAt = timeString (lp_created r), po_updatedAt = timeString (lp_updated r)\<rparr>"

definition readPolicy :: "string \<Rightarrow> policy tx" where
  "readPolicy i =
     bindT (oneT ErrNotFound limit_policies (\<lambda>p. lp_id p = i)) (\<lambda>p. returnT (scanPolicy p))"

definition newPolicyRow :: "string \<Rightarrow> policy_input \<Rightarrow> int \<Rightarrow> policy_row" where
  "newPolicyRow i input now = \<lparr>lp_id = i, lp_scopeKind = pi_scopeKind input, lp_scopeID = pi_scopeID input,
     lp_metric = pi_metric input, lp_algorithm = pi_algorithm input, lp_period = pi_period input,
     lp_window = pi_windowSeconds input, lp_limit = pi_limitUnits input, lp_refill = pi_refillUnits input,
     lp_interval = pi_refillIntervalMS input,
     lp_enabled = (case pi_enabled input of None \<Rightarrow> True | Some b \<Rightarrow> b),
     lp_revision = 1, lp_created = now, lp_updated = now\<rparr>"

definition GetPolicy :: "auth_user \<Rightarrow> string \<Rightarrow> policy tx" where
  "GetPolicy actor0 i =
     bindT (refreshUsageActor actor0) (\<lambda>actor.
     bindT (readPolicy i) (\<lambda>policy.
     thenT (authorizePolicyScope actor (po_scopeKind policy) (po_scopeID policy))
       (returnT policy)))"

definition createPolicyTx :: "auth_user \<Rightarrow> policy_input \<Rightarrow> (auth_user \<times> string) tx" where
  "createPolicyTx actor0 input0 =
     bindT (liftT (validatePolicyInput input0)) (\<lambda>input.
     bindT (refreshUsageActor actor0) (\<lambda>actor.
     thenT (authorizePolicyScope actor (pi_scopeKind input) (pi_scopeID input)) (
     bindT randT (\<lambda>i.
     bindT nowT (\<lambda>now.
     thenT (mapErrT (\<lambda>e. if e = ErrUnique then ErrConflict else e) (insertPolicy (newPolicyRow (''pol_'' @ i) input now))) (
     thenT (insertAudit (ua_id actor) ''policy.create'' ''policy'' (''pol_'' @ i)
              [(''scope_kind'', JStr (pi_scopeKind input)), (''scope_id'', JStr (pi_scopeID input)), (''metric'', JStr (pi_metric input))]) (
     thenT commitT (returnT (actor, ''pol_'' @ i)))))))))"

definition updatePolicyTx :: "auth_user \<Rightarrow> string \<Rightarrow> int \<Rightarrow> int \<Rightarrow> string \<Rightarrow> bool \<Rightarrow> (auth_user \<times> string) tx" where
  "updatePolicyTx actor0 i revision limitUnits0 limitUSD enabled =
     bindT (refreshUsageActor actor0) (\<lambda>actor.
     bindT (readPolicy i) (\<lambda>policy.
     thenT (authorizePolicyScope actor (po_scopeKind policy) (po_scopeID policy)) (
     bindT (mapErrT (\<lambda>_. ErrMsg ''limit must be between 1 and 9007199254740991'')
              (liftT (if po_metric policy = ''spend'' then ParseUSD limitUSD else Inr limitUnits0))) (\<lambda>limitUnits.
         guardT (limitUnits \<le> 0 \<or> limitUnits > maxSafeInteger) (ErrMsg ''limit must be between 1 and 9007199254740991'') (
         bindT nowT (\<lambda>now.
         bindT (updatePolicies (\<lambda>p. lp_id p = i \<and> lp_revision p = revision)
                  (\<lambda>p. p\<lparr>lp_limit := limitUnits, lp_enabled := enabled, lp_revision := lp_revision p + 1, lp_updated := now\<rparr>))
           (\<lambda>changed.
         guardT (changed \<noteq> 1) ErrConflict (
         thenT (insertAudit (ua_id actor) ''policy.update'' ''policy'' i
                  [(''limit_units'', jint limitUnits), (''enabled'', JBool enabled)]) (
         thenT commitT (returnT (actor, i)))))))))))"

text \<open>
  A change answers with the policy read back after the commit. That read runs in a world of
  its own (\<open>w'\<close>): it may fail although the change is in the store.
\<close>

definition thenReadPolicy :: "(goerr + auth_user \<times> string) \<times> store \<Rightarrow> world \<Rightarrow> (goerr + policy) \<times> store" where
  "thenReadPolicy r w' =
     (case r of
        (Inl e, s) \<Rightarrow> (Inl e, s)
      | (Inr (actor, i), s) \<Rightarrow> autoT (GetPolicy actor i) w' s)"

definition CreatePolicy :: "auth_user \<Rightarrow> policy_input \<Rightarrow> world \<Rightarrow> world \<Rightarrow> store \<Rightarrow> (goerr + policy) \<times> store" where
  "CreatePolicy actor input w w' s = thenReadPolicy (atomicT (createPolicyTx actor input) w s) w'"

definition UpdatePolicy ::
  "auth_user \<Rightarrow> string \<Rightarrow> int \<Rightarrow> int \<Rightarrow> string \<Rightarrow> bool \<Rightarrow> world \<Rightarrow> world \<Rightarrow> store \<Rightarrow> (goerr + policy) \<times> store" where
  "UpdatePolicy actor i revision limitUnits limitUSD enabled w w' s =
     thenReadPolicy (atomicT (updatePolicyTx actor i revision limitUnits limitUSD enabled) w s) w'"

text \<open>The rows a caller may list.\<close>

definition listedPolicy :: "auth_user \<Rightarrow> store \<Rightarrow> policy_row \<Rightarrow> bool" where
  "listedPolicy actor s p =
     (if ua_role actor = ''member'' then
        lp_scopeKind p = ''user'' \<and> lp_scopeID p = ua_id actor \<or>
        lp_scopeKind p = ''key'' \<and> list_ex (\<lambda>k. ak_id k = lp_scopeID p \<and> ak_owner k = ua_id actor) (api_keys s)
      else if ua_role actor = ''admin'' then
        contains [''instance'', ''connection''] (lp_scopeKind p) \<or>
        lp_scopeKind p = ''user'' \<and> list_ex (\<lambda>u. us_id u = lp_scopeID p \<and> us_role u = ''member'') (users s) \<or>
        lp_scopeKind p = ''key'' \<and>
          list_ex (\<lambda>k. ak_id k = lp_scopeID p \<and> list_ex (\<lambda>u. us_id u = ak_owner k \<and> us_role u = ''member'') (users s)) (api_keys s)
      else True)"

definition policyOrder :: "policy_row \<Rightarrow> int \<times> string" where
  "policyOrder p = (lp_created p, lp_id p)"

text \<open>\<^verbatim>\<open>time.Parse(RFC3339Nano, text)\<close> with its error dropped: the zero time, year 1.\<close>

definition parsedMillis :: "string \<Rightarrow> int" where
  "parsedMillis t = (case parseRFC3339 t of None \<Rightarrow> - 62135596800000 | Some n \<Rightarrow> unixMilliOfNanos n)"

definition policyListPage :: "policy_row list \<Rightarrow> string \<Rightarrow> string + policy_row list \<times> string" where
  "policyListPage rows cursor =
     (case decodeCursor cursor of
        Inl e \<Rightarrow> Inl e
      | Inr (before, beforeID) \<Rightarrow>
          (case cutPage 50 (pageRows policyOrder 50 (if cursor \<noteq> [] then Some (before, beforeID) else None) rows) of
             (items, None) \<Rightarrow> Inr (items, [])
           | (items, Some p) \<Rightarrow> Inr (items, encodeCursor (parsedMillis (po_createdAt (scanPolicy p))) (lp_id p))))"

definition ListPolicies :: "auth_user \<Rightarrow> string \<Rightarrow> (policy list \<times> string) tx" where
  "ListPolicies actor0 cursor =
     bindT (refreshUsageActor actor0) (\<lambda>actor.
     bindT (liftT (decodeCursor cursor)) (\<lambda>_.
     bindT (queryT (\<lambda>s. filter (listedPolicy actor s) (limit_policies s))) (\<lambda>rows.
     bindT (liftT (policyListPage rows cursor)) (\<lambda>(items, nextCur).
       returnT (map scanPolicy items, nextCur)))))"

section \<open>Validation agrees with the schema\<close>

lemma validatePolicyInput_ok:
  assumes "validatePolicyInput input = Inr i"
  shows "policyAlgorithmError i = None" "0 < pi_limitUnits i" "pi_limitUnits i \<le> maxSafeInteger"
    and "pi_scopeKind i \<in> {''instance'', ''user'', ''key'', ''connection''}"
    and "pi_metric i \<in> {''requests'', ''tokens'', ''spend'', ''concurrency'', ''body_bytes'', ''output_tokens'', ''batch_items''}"
    and "pi_scopeKind i = ''instance'' \<longleftrightarrow> pi_scopeID i = []"
    and "pi_windowSeconds i \<le> maxSafeInteger" "pi_refillUnits i \<le> maxSafeInteger" "pi_refillIntervalMS i \<le> maxSafeInteger"
  using assms unfolding validatePolicyInput_def
  by (auto simp: Let_def split: if_splits sum.splits option.splits)

lemma policyAlgorithmError_None:
  assumes "policyAlgorithmError i = None"
  shows "policyShape (newPolicyRow n i now)" "pi_windowSeconds i \<ge> 0" "pi_refillUnits i \<ge> 0" "pi_refillIntervalMS i \<ge> 0"
    and "pi_algorithm i \<in> {''token_bucket'', ''fixed_window'', ''quota'', ''concurrency'', ''ceiling''}"
    and "pi_period i \<in> {[], ''hour'', ''day'', ''week'', ''month'', ''lifetime''}"
  using assms unfolding policyAlgorithmError_def policyShape_def newPolicyRow_def
  by (auto split: if_splits)

lemma newPolicyRow_check:
  assumes "validatePolicyInput input = Inr i"
  shows "policyCheck (newPolicyRow n i now)"
  unfolding policyCheck_def
  using validatePolicyInput_ok [OF assms] policyAlgorithmError_None [OF validatePolicyInput_ok(1) [OF assms]]
  by (simp add: newPolicyRow_def)

section \<open>Effects of the operations\<close>

lemma insertAudit_Inr [tx_inv]:
  "insertAudit actorID action rtype rid detail w (n, s) = Inr (x, n', s') \<longleftrightarrow>
     (\<exists>i. w_rand w n = Some i \<and> \<not> w_fault w (n + 2) \<and> \<not> list_ex (\<lambda>r. ae_id r = ''aud_'' @ i) (audit_events s) \<and>
        hasKey us_id (users s) actorID \<and> n' = n + 3 \<and>
        s' = audit_events_update (\<lambda>rs. rs @ [\<lparr>ae_id = ''aud_'' @ i, ae_actor = actorID, ae_action = action,
          ae_resourceType = rtype, ae_resourceID = rid, ae_detail = jmap detail, ae_created = w_now w (n + 1)\<rparr>]) s)"
  unfolding insertAudit_def statement_defs by (auto simp: tx_defs eval_nat_numeral split: option.splits if_splits)

lemma refreshUsageActor_Inr [tx_inv]:
  "refreshUsageActor actor w (n, s) = Inr (a, n', s') \<longleftrightarrow>
     \<not> w_fault w n \<and> n' = Suc n \<and> s' = s \<and>
     (\<exists>u. find (\<lambda>u. us_id u = ua_id actor \<and> us_status u = ''active'') (users s) = Some u \<and>
        a = actor\<lparr>ua_email := us_email u, ua_displayName := us_displayName u, ua_role := us_role u, ua_status := us_status u\<rparr>)"
  unfolding refreshUsageActor_def by (auto simp: tx_defs split: option.splits if_splits)

lemma readPolicy_Inr [tx_inv]:
  "readPolicy i w (n, s) = Inr (p, n', s') \<longleftrightarrow>
     \<not> w_fault w n \<and> n' = Suc n \<and> s' = s \<and>
     (\<exists>r. find (\<lambda>p. lp_id p = i) (limit_policies s) = Some r \<and> p = scanPolicy r)"
  unfolding readPolicy_def by (auto simp: tx_defs split: option.splits if_splits)

text \<open>The scopes a role may manage.\<close>

definition mayManage :: "string \<Rightarrow> string \<Rightarrow> string \<Rightarrow> store \<Rightarrow> bool" where
  "mayManage role kind i s \<longleftrightarrow>
     (kind = ''instance'' \<and> role = ''owner'') \<or>
     (kind = ''connection'' \<and> role \<in> {''owner'', ''admin''}) \<or>
     (kind \<notin> {''instance'', ''connection''} \<and>
       (\<exists>r. scopeRole kind i s = Some r \<and> (role = ''owner'' \<or> role = ''admin'' \<and> r = ''member'')))"

lemma authorizePolicyScope_Inr [tx_inv]:
  "authorizePolicyScope actor k i w (n, s) = Inr (x, n', s') \<longleftrightarrow>
     mayManage (ua_role actor) k i s \<and> s' = s \<and>
     (if k \<in> {''instance'', ''connection''} then n' = n else \<not> w_fault w n \<and> n' = Suc n)"
  unfolding authorizePolicyScope_def mayManage_def
  by (auto simp: tx_defs split: option.splits if_splits)

text \<open>What a successful update leaves: the one row of that id and revision, and an audit row.\<close>

lemma updatePolicyTx_Inr:
  assumes "updatePolicyTx actor i revision units usd enabled w (n, s) = Inr (r, n', s')"
  shows "\<exists>limit now row.
    s' = audit_events_update (\<lambda>rs. rs @ [row]) (limit_policies_update
        (updateWhere (\<lambda>p. lp_id p = i \<and> lp_revision p = revision)
          (\<lambda>p. p\<lparr>lp_limit := limit, lp_enabled := enabled, lp_revision := lp_revision p + 1, lp_updated := now\<rparr>)) s) \<and>
    length (filter (\<lambda>p. lp_id p = i \<and> lp_revision p = revision) (limit_policies s)) = 1 \<and>
    0 < limit \<and> limit \<le> maxSafeInteger \<and> ae_actor row = ua_id actor \<and> ae_action row = ''policy.update'' \<and> ae_resourceID row = i \<and>
    (case find (\<lambda>p. lp_id p = i) (limit_policies s) of None \<Rightarrow> False
     | Some p \<Rightarrow> (if lp_metric p = ''spend'' then ParseUSD usd else Inr units) = Inr limit)"
  using assms unfolding updatePolicyTx_def statement_defs
  apply (clarsimp simp: tx_inv not_le elim!: tx_elim)
  apply (intro exI conjI, rule refl)
  apply (auto simp: scanPolicy_def split: if_splits)
  done

lemma createPolicyTx_Inr:
  assumes "createPolicyTx actor input0 w (n, s) = Inr (r, n', s')"
  shows "\<exists>input i now role row.
    validatePolicyInput input0 = Inr input \<and> mayManage role (pi_scopeKind input) (pi_scopeID input) s \<and>
    list_ex (\<lambda>u. us_id u = ua_id actor \<and> us_status u = ''active'' \<and> us_role u = role) (users s) \<and>
    s' = audit_events_update (\<lambda>rs. rs @ [row]) (limit_policies_update (\<lambda>rs. rs @ [newPolicyRow (''pol_'' @ i) input now]) s) \<and>
    \<not> list_ex (\<lambda>p. policyClash p (newPolicyRow (''pol_'' @ i) input now)) (limit_policies s) \<and>
    ua_id (fst r) = ua_id actor \<and> snd r = ''pol_'' @ i \<and>
    ae_actor row = ua_id actor \<and> ae_action row = ''policy.create'' \<and> ae_resourceID row = ''pol_'' @ i"
  using assms unfolding createPolicyTx_def statement_defs
  apply (clarsimp simp: tx_inv elim!: tx_elim)
  apply (rule exI conjI refl | assumption)+
  apply (auto simp: list_ex_iff dest!: find_SomeD)
  done

lemma GetPolicy_Inr [tx_inv]:
  "GetPolicy actor i w (n, s) = Inr (p, n', s') \<Longrightarrow>
     s' = s \<and> (\<exists>r. find (\<lambda>p. lp_id p = i) (limit_policies s) = Some r \<and> p = scanPolicy r)"
  unfolding GetPolicy_def by (auto simp: tx_inv elim!: tx_elim)

lemma thenReadPolicy_Inr:
  assumes "thenReadPolicy r w' = (Inr p, s')"
  obtains a i where "r = (Inr (a, i), s')" "\<exists>row. find (\<lambda>p. lp_id p = i) (limit_policies s') = Some row \<and> p = scanPolicy row"
proof -
  obtain x s1 where r: "r = (x, s1)" by (cases r)
  from assms obtain a i where x: "x = Inr (a, i)" "autoT (GetPolicy a i) w' s1 = (Inr p, s')"
    by (auto simp: thenReadPolicy_def r split: sum.splits)
  from autoT_Inr [OF x(2)] have "s' = s1 \<and> (\<exists>row. find (\<lambda>p. lp_id p = i) (limit_policies s1) = Some row \<and> p = scanPolicy row)"
    by (auto dest!: GetPolicy_Inr)
  with that r x show thesis by simp
qed

section \<open>Properties\<close>

text \<open>
  (C25) Every policy that \<^verbatim>\<open>validatePolicyInput\<close> accepts is a row the schema accepts: the
  CHECK constraints of \<^verbatim>\<open>limit_policies\<close> hold of the row \<^verbatim>\<open>CreatePolicy\<close> builds, and its
  numbers are JSON-safe integers. So no accepted input fails on a CHECK constraint.
\<close>

theorem policy_validation_meets_schema:
  assumes "validatePolicyInput input = Inr i"
  shows "policyCheck (newPolicyRow n i now) \<and> 0 < pi_limitUnits i \<and> pi_limitUnits i \<le> maxSafeInteger \<and>
         pi_windowSeconds i \<le> maxSafeInteger \<and> pi_refillUnits i \<le> maxSafeInteger \<and> pi_refillIntervalMS i \<le> maxSafeInteger"
  using newPolicyRow_check [OF assms] validatePolicyInput_ok [OF assms] by simp

definition sampleInput :: policy_input where
  "sampleInput = \<lparr>pi_scopeKind = ''user'', pi_scopeID = ''usr_1'', pi_metric = ''tokens'', pi_algorithm = ''token_bucket'',
     pi_period = [], pi_windowSeconds = 0, pi_limitUnits = 1000, pi_limitUSD = [], pi_refillUnits = 10,
     pi_refillIntervalMS = 500, pi_enabled = None\<rparr>"

lemma sampleInput_valid: "validatePolicyInput sampleInput = Inr sampleInput"
  by (simp add: validatePolicyInput_def trimPolicyInput_def sampleInput_def TrimSpace_plain plainChar_def
      policyAlgorithmError_def maxSafeInteger_def)

theorem policy_validation_meets_schema_witness: "policyCheck (newPolicyRow ''pol_1'' sampleInput 0)"
  using policy_validation_meets_schema [OF sampleInput_valid] by blast

text \<open>
  (C26) A policy that \<^verbatim>\<open>CreatePolicy\<close> reports as created is stored: the table is the old one
  with the validated policy appended under a fresh id, nothing else changes but one audit row
  by the caller, the caller was active with a role that may manage the scope, and the answer is
  the stored row.
\<close>

theorem CreatePolicy_stores:
  assumes "CreatePolicy actor input w w' s = (Inr p, s')"
  shows "\<exists>i k now role row.
    validatePolicyInput input = Inr i \<and> mayManage role (pi_scopeKind i) (pi_scopeID i) s \<and>
    list_ex (\<lambda>u. us_id u = ua_id actor \<and> us_status u = ''active'' \<and> us_role u = role) (users s) \<and>
    s' = audit_events_update (\<lambda>rs. rs @ [row]) (limit_policies_update (\<lambda>rs. rs @ [newPolicyRow (''pol_'' @ k) i now]) s) \<and>
    find (\<lambda>r. lp_id r = ''pol_'' @ k) (limit_policies s) = None \<and>
    ae_actor row = ua_id actor \<and> ae_action row = ''policy.create'' \<and> p = scanPolicy (newPolicyRow (''pol_'' @ k) i now)"
proof -
  from assms obtain a k' where at: "atomicT (createPolicyTx actor input) w s = (Inr (a, k'), s')"
    and rd: "\<exists>row. find (\<lambda>p. lp_id p = k') (limit_policies s') = Some row \<and> p = scanPolicy row"
    unfolding CreatePolicy_def by (rule thenReadPolicy_Inr)
  from atomicT_Inr [OF at] obtain n n' where "createPolicyTx actor input w (n, s) = Inr ((a, k'), n', s')" by blast
  from createPolicyTx_Inr [OF this] obtain i k now role row where
    v: "validatePolicyInput input = Inr i" "mayManage role (pi_scopeKind i) (pi_scopeID i) s"
      "list_ex (\<lambda>u. us_id u = ua_id actor \<and> us_status u = ''active'' \<and> us_role u = role) (users s)"
      "s' = audit_events_update (\<lambda>rs. rs @ [row]) (limit_policies_update (\<lambda>rs. rs @ [newPolicyRow (''pol_'' @ k) i now]) s)"
      "ae_actor row = ua_id actor" "ae_action row = ''policy.create''"
    and k: "k' = ''pol_'' @ k" and cl: "\<not> list_ex (\<lambda>p. policyClash p (newPolicyRow (''pol_'' @ k) i now)) (limit_policies s)"
    by auto
  have id: "lp_id (newPolicyRow (''pol_'' @ k) i now) = ''pol_'' @ k" by (simp add: newPolicyRow_def)
  have none: "find (\<lambda>r. lp_id r = ''pol_'' @ k) (limit_policies s) = None"
    using cl id by (auto simp: find_None_iff list_ex_iff policyClash_def)
  then have "p = scanPolicy (newPolicyRow (''pol_'' @ k) i now)"
    using rd v(4) k id by (auto simp: find_append split: option.splits)
  with v none show ?thesis by blast
qed

text \<open>A store with an owner, an admin, a member with a key, and a world that never fails.\<close>

definition calmWorld :: world where
  "calmWorld = \<lparr>w_now = (\<lambda>n. 1700000000000 + int n), w_rand = (\<lambda>n. Some (decNat n)), w_fault = (\<lambda>n. False)\<rparr>"

definition sampleUser :: "string \<Rightarrow> string \<Rightarrow> user_row" where
  "sampleUser i role = \<lparr>us_id = i, us_email = i, us_displayName = i, us_role = role, us_status = ''active'',
     us_unrestricted = True, us_scopes = ''[]'', us_models = ''[]'', us_connections = ''[]''\<rparr>"

definition sampleKey :: key_row where
  "sampleKey = \<lparr>ak_id = ''key_1'', ak_owner = ''usr_1'', ak_state = ''active'', ak_scopes = ''[\"chat\"]'',
     ak_models = ''[\"*\"]'', ak_connections = ''[\"con_1\"]'', ak_expires = None\<rparr>"

definition sampleStore :: store where
  "sampleStore = emptyStore\<lparr>users := [sampleUser ''usr_0'' ''owner'', sampleUser ''usr_2'' ''admin'', sampleUser ''usr_1'' ''member''],
     api_keys := [sampleKey]\<rparr>"

definition sampleActor :: "string \<Rightarrow> auth_user" where
  "sampleActor i = \<lparr>ua_id = i, ua_email = [], ua_displayName = [], ua_role = [], ua_status = []\<rparr>"

lemmas sample_defs = calmWorld_def sampleUser_def sampleKey_def sampleStore_def emptyStore_def sampleActor_def

lemma sampleInput_sel [simp]:
  "pi_scopeKind sampleInput = ''user''" "pi_scopeID sampleInput = ''usr_1''" "pi_metric sampleInput = ''tokens''"
  by (simp_all add: sampleInput_def)

lemma sampleInput_policyCheck: "policyCheck (newPolicyRow n sampleInput now)"
  by (rule newPolicyRow_check [OF sampleInput_valid])

lemma newPolicyRow_sel [simp]:
  "lp_id (newPolicyRow n i now) = n" "lp_scopeKind (newPolicyRow n i now) = pi_scopeKind i"
  "lp_scopeID (newPolicyRow n i now) = pi_scopeID i" "lp_revision (newPolicyRow n i now) = 1"
  "lp_metric (newPolicyRow n i now) = pi_metric i"
  by (simp_all add: newPolicyRow_def)

lemma scanPolicy_sel [simp]:
  "po_scopeKind (scanPolicy p) = lp_scopeKind p" "po_scopeID (scanPolicy p) = lp_scopeID p" "po_id (scanPolicy p) = lp_id p"
  "po_metric (scanPolicy p) = lp_metric p" "po_createdAt (scanPolicy p) = timeString (lp_created p)"
  by (simp_all add: scanPolicy_def)

lemmas policy_run = thenReadPolicy_def atomicT_def autoT_def createPolicyTx_def GetPolicy_def tx_defs statement_defs
  refreshUsageActor_def authorizePolicyScope_def readPolicy_def insertAudit_def sample_defs scopeRole_def hasKey_def

lemma CreatePolicy_sample_run:
  "\<exists>p s'. CreatePolicy (sampleActor ''usr_2'') sampleInput calmWorld calmWorld sampleStore = (Inr p, s')"
  by (simp add: CreatePolicy_def policy_run sampleInput_valid sampleInput_policyCheck)

theorem CreatePolicy_stores_witness:
  "\<exists>p s'. CreatePolicy (sampleActor ''usr_2'') sampleInput calmWorld calmWorld sampleStore = (Inr p, s') \<and>
     (\<exists>row. limit_policies s' = [row] \<and> lp_scopeID row = ''usr_1'' \<and> p = scanPolicy row)"
proof -
  obtain p s' where r: "CreatePolicy (sampleActor ''usr_2'') sampleInput calmWorld calmWorld sampleStore = (Inr p, s')"
    using CreatePolicy_sample_run by blast
  from CreatePolicy_stores [OF r] show ?thesis using r
    by (auto simp: sampleInput_valid sampleStore_def emptyStore_def)
qed

lemma UpdatePolicy_run:
  assumes "distinct (map lp_id (limit_policies s))"
    and at: "atomicT (updatePolicyTx actor i revision units usd enabled) w s = (Inr r, s1)"
  obtains old limit now row where "find (\<lambda>r. lp_id r = i) (limit_policies s) = Some old" "lp_revision old = revision"
    "s1 = audit_events_update (\<lambda>rs. rs @ [row]) (limit_policies_update
       (updateWhere (\<lambda>p. lp_id p = i \<and> lp_revision p = revision)
         (\<lambda>p. p\<lparr>lp_limit := limit, lp_enabled := enabled, lp_revision := lp_revision p + 1, lp_updated := now\<rparr>)) s)"
    "0 < limit" "limit \<le> maxSafeInteger" "(if lp_metric old = ''spend'' then ParseUSD usd else Inr units) = Inr limit"
proof -
  let ?q = "\<lambda>p. lp_id p = i \<and> lp_revision p = revision"
  from atomicT_Inr [OF at] obtain n n' where "updatePolicyTx actor i revision units usd enabled w (n, s) = Inr (r, n', s1)"
    by blast
  from updatePolicyTx_Inr [OF this] obtain limit now row where
    s1: "s1 = audit_events_update (\<lambda>rs. rs @ [row]) (limit_policies_update (updateWhere ?q
       (\<lambda>p. p\<lparr>lp_limit := limit, lp_enabled := enabled, lp_revision := lp_revision p + 1, lp_updated := now\<rparr>)) s)"
    and one: "length (filter ?q (limit_policies s)) = 1" and l: "0 < limit" "limit \<le> maxSafeInteger"
    and u: "case find (\<lambda>p. lp_id p = i) (limit_policies s) of None \<Rightarrow> False
      | Some p \<Rightarrow> (if lp_metric p = ''spend'' then ParseUSD usd else Inr units) = Inr limit" by blast
  from one obtain old where "filter ?q (limit_policies s) = [old]"
    by (cases "filter ?q (limit_policies s)") simp_all
  then have "old \<in> set (filter ?q (limit_policies s))" by simp
  then have old: "old \<in> set (limit_policies s)" "lp_id old = i" "lp_revision old = revision" by auto
  have f: "find (\<lambda>r. lp_id r = i) (limit_policies s) = Some old" using find_distinct [OF assms(1) old(1)] old(2) by simp
  show thesis using u by (intro that [OF f old(3) s1 l]) (simp add: f)
qed

lemma find_updateWhere_key:
  assumes "\<And>r. key (f r) = key r" "\<And>r. p r \<Longrightarrow> key r = k"
  shows "j \<noteq> k \<Longrightarrow> find (\<lambda>r. key r = j) (updateWhere p f rs) = find (\<lambda>r. key r = j) rs"
  using assms by (induction rs) (auto split: if_splits)

text \<open>
  (C27) Optimistic concurrency of \<^verbatim>\<open>UpdatePolicy\<close>, for a table whose ids are unique: a
  successful update was made against the current revision. The policy of that id had
  revision \<open>revision\<close> and now has the new limit (parsed from USD for a spend policy, a
  JSON-safe positive number), the new switch and revision + 1; every other policy is as before.
\<close>

theorem UpdatePolicy_optimistic:
  assumes "distinct (map lp_id (limit_policies s))"
    and "UpdatePolicy actor i revision units usd enabled w w' s = (Inr p, s')"
  shows "\<exists>old limit now. find (\<lambda>r. lp_id r = i) (limit_policies s) = Some old \<and> lp_revision old = revision \<and>
        0 < limit \<and> limit \<le> maxSafeInteger \<and>
        (if lp_metric old = ''spend'' then ParseUSD usd else Inr units) = Inr limit \<and>
        find (\<lambda>r. lp_id r = i) (limit_policies s') =
          Some (old\<lparr>lp_limit := limit, lp_enabled := enabled, lp_revision := revision + 1, lp_updated := now\<rparr>) \<and>
        (\<forall>j. j \<noteq> i \<longrightarrow> find (\<lambda>r. lp_id r = j) (limit_policies s') = find (\<lambda>r. lp_id r = j) (limit_policies s))"
proof -
  let ?f = "\<lambda>limit now p. p\<lparr>lp_limit := limit, lp_enabled := enabled, lp_revision := lp_revision p + 1, lp_updated := now\<rparr>"
  let ?q = "\<lambda>p. lp_id p = i \<and> lp_revision p = revision"
  from assms(2) obtain a k where "atomicT (updatePolicyTx actor i revision units usd enabled) w s = (Inr (a, k), s')"
    unfolding UpdatePolicy_def by (rule thenReadPolicy_Inr)
  from UpdatePolicy_run [OF assms(1) this] obtain old limit now row where
    o: "find (\<lambda>r. lp_id r = i) (limit_policies s) = Some old" "lp_revision old = revision"
    "s' = audit_events_update (\<lambda>rs. rs @ [row]) (limit_policies_update (updateWhere ?q (?f limit now)) s)"
    "0 < limit" "limit \<le> maxSafeInteger" "(if lp_metric old = ''spend'' then ParseUSD usd else Inr units) = Inr limit" .
  have tbl: "limit_policies s' = updateWhere ?q (?f limit now) (limit_policies s)" using o(3) by simp
  have "find (\<lambda>r. lp_id r = i) (limit_policies s') = map_option (\<lambda>r. if ?q r then ?f limit now r else r) (Some old)"
    unfolding tbl o(1) [symmetric] by (rule find_updateWhere) simp
  then have at: "find (\<lambda>r. lp_id r = i) (limit_policies s') = Some (?f limit now old)"
    using find_SomeD [OF o(1)] o(2) by simp
  have "find (\<lambda>r. lp_id r = j) (limit_policies s') = find (\<lambda>r. lp_id r = j) (limit_policies s)" if "j \<noteq> i" for j
    unfolding tbl by (rule find_updateWhere_key [where k = i]) (use that in auto)
  with o(1,2,4,5,6) at show ?thesis by blast
qed

text \<open>
  (C28) A stale update is refused: with unique ids, \<^verbatim>\<open>UpdatePolicy\<close> with a revision other than
  the stored one returns an error and leaves the whole store as it was, whatever else happens.
\<close>

theorem UpdatePolicy_stale_refused:
  assumes "distinct (map lp_id (limit_policies s))"
    and "find (\<lambda>r. lp_id r = i) (limit_policies s) = Some old" and "lp_revision old \<noteq> revision"
  shows "\<exists>e. UpdatePolicy actor i revision units usd enabled w w' s = (Inl e, s)"
proof (cases "atomicT (updatePolicyTx actor i revision units usd enabled) w s")
  case (Pair x s1)
  show ?thesis
  proof (cases x)
    case (Inl e)
    with Pair atomicT_error [of "updatePolicyTx actor i revision units usd enabled" w s] have "s1 = s" by simp
    then show ?thesis using Pair Inl by (simp add: UpdatePolicy_def thenReadPolicy_def)
  next
    case (Inr r)
    with Pair have "atomicT (updatePolicyTx actor i revision units usd enabled) w s = (Inr r, s1)" by simp
    then have "\<exists>old'. find (\<lambda>r. lp_id r = i) (limit_policies s) = Some old' \<and> lp_revision old' = revision"
      by (rule UpdatePolicy_run [OF assms(1)]) blast
    with assms(2,3) show ?thesis by simp
  qed
qed

definition samplePolicyStore :: store where
  "samplePolicyStore = sampleStore\<lparr>limit_policies := [newPolicyRow ''pol_9'' sampleInput 1700000000000]\<rparr>"

lemma policyCheck_changed:
  "policyCheck p \<Longrightarrow> 0 < limit \<Longrightarrow> policyCheck (p\<lparr>lp_limit := limit, lp_enabled := b, lp_revision := r, lp_updated := t\<rparr>)"
  by (cases p) (auto simp: policyCheck_def policyShape_def)

lemma UpdatePolicy_sample_run:
  "\<exists>p s'. UpdatePolicy (sampleActor ''usr_2'') ''pol_9'' 1 250 [] False calmWorld calmWorld samplePolicyStore = (Inr p, s')"
  by (simp add: UpdatePolicy_def policy_run updatePolicyTx_def samplePolicyStore_def maxSafeInteger_def
      policyCheck_changed sampleInput_policyCheck)

theorem UpdatePolicy_optimistic_witness:
  "\<exists>p s' new. UpdatePolicy (sampleActor ''usr_2'') ''pol_9'' 1 250 [] False calmWorld calmWorld samplePolicyStore = (Inr p, s') \<and>
     find (\<lambda>r. lp_id r = ''pol_9'') (limit_policies s') = Some new \<and> lp_limit new = 250 \<and> lp_revision new = 2"
proof -
  obtain p s' where r: "UpdatePolicy (sampleActor ''usr_2'') ''pol_9'' 1 250 [] False calmWorld calmWorld samplePolicyStore = (Inr p, s')"
    using UpdatePolicy_sample_run by blast
  have d: "distinct (map lp_id (limit_policies samplePolicyStore))" by (simp add: samplePolicyStore_def)
  show ?thesis using r UpdatePolicy_optimistic [OF d r] by (auto simp: samplePolicyStore_def)
qed

theorem UpdatePolicy_stale_refused_witness:
  "\<exists>e. UpdatePolicy (sampleActor ''usr_2'') ''pol_9'' 7 250 [] False calmWorld calmWorld samplePolicyStore = (Inl e, samplePolicyStore)"
  by (rule UpdatePolicy_stale_refused [where old = "newPolicyRow ''pol_9'' sampleInput 1700000000000"])
     (simp_all add: samplePolicyStore_def)

section \<open>Listing\<close>

definition policyPage :: "policy_row list \<Rightarrow> string \<Rightarrow> policy_row list \<times> string" where
  "policyPage rows cursor = (case policyListPage rows cursor of Inl _ \<Rightarrow> ([], []) | Inr r \<Rightarrow> r)"

text \<open>Rows that can be named by a cursor: a non-empty id and a creation time before the year 10000.\<close>

definition wfListed :: "(int \<times> string) \<Rightarrow> bool" where
  "wfListed k \<longleftrightarrow> 0 \<le> fst k \<and> fst k < year10000 \<and> snd k \<noteq> []"

lemma parsedMillis_timeString: "0 \<le> t \<Longrightarrow> t < year10000 \<Longrightarrow> parsedMillis (timeString t) = t"
  using parse_timeString [of t] by (auto simp: parsedMillis_def split: option.splits)

lemma cutPage_member: "cutPage n rs = (xs, Some r) \<Longrightarrow> 0 < n \<Longrightarrow> r \<in> set rs"
  by (auto simp: cutPage_def split: if_splits)

lemma set_pageRows: "set (pageRows key n c rs) \<subseteq> set rs"
  by (auto simp: pageRows_def dest!: in_set_takeD)

lemma policyListPage_rows:
  assumes "list_all (\<lambda>p. wfListed (policyOrder p)) rows" "decodeCursor c = Inr k"
  shows "policyListPage rows c = Inr (case cutPage 50 (pageRows policyOrder 50 (if c \<noteq> [] then Some k else None) rows) of
           (xs, l) \<Rightarrow> (xs, nextCursor policyOrder l))"
proof (cases "cutPage 50 (pageRows policyOrder 50 (if c \<noteq> [] then Some k else None) rows)")
  case (Pair xs l)
  have "parsedMillis (timeString (lp_created p)) = lp_created p" if "l = Some p" for p
  proof -
    have "p \<in> set rows" using that Pair cutPage_member [of 50] set_pageRows by fastforce
    then show ?thesis using assms(1) by (auto simp: list_all_iff wfListed_def policyOrder_def parsedMillis_timeString)
  qed
  then show ?thesis using Pair assms(2)
    by (cases k) (auto simp: policyListPage_def nextCursor_def policyOrder_def split: option.split)
qed

interpretation policies: keyset policyOrder "\<lambda>p. wfListed (policyOrder p)" 50 policyPage
proof unfold_locales
  show "int64_range (fst (policyOrder r)) \<and> snd (policyOrder r) \<noteq> []" if "wfListed (policyOrder r)" for r
    using that by (simp add: wfListed_def int64_range_def int64_limits year10000_def)
  fix rows :: "policy_row list"
  assume wf: "list_all (\<lambda>p. wfListed (policyOrder p)) rows"
  show "policyPage rows [] = (case cutPage 50 (pageRows policyOrder 50 None rows) of (xs, l) \<Rightarrow> (xs, nextCursor policyOrder l))"
    using policyListPage_rows [OF wf, of "[]"] by (simp add: policyPage_def decodeCursor_def)
  show "policyPage rows c = (case cutPage 50 (pageRows policyOrder 50 (Some k) rows) of (xs, l) \<Rightarrow> (xs, nextCursor policyOrder l))"
    if "c \<noteq> []" "decodeCursor c = Inr k" for c k
    using policyListPage_rows [OF wf that(2)] that(1) by (simp add: policyPage_def)
qed simp

text \<open>A client that follows the cursors of \<^verbatim>\<open>ListPolicies\<close>, each call in a world of its own.\<close>

fun followPolicies :: "nat \<Rightarrow> auth_user \<Rightarrow> (nat \<Rightarrow> world) \<Rightarrow> store \<Rightarrow> string \<Rightarrow> policy list option" where
  "followPolicies 0 actor ws s c = Some []"
| "followPolicies (Suc n) actor ws s c =
     (case autoT (ListPolicies actor c) (ws n) s of
        (Inr (items, nextCur), _) \<Rightarrow>
          if nextCur = [] then Some items else map_option ((@) items) (followPolicies n actor ws s nextCur)
      | (Inl _, _) \<Rightarrow> None)"

lemma ListPolicies_run:
  assumes "\<And>k. \<not> w_fault w k"
    and "find (\<lambda>u. us_id u = ua_id actor \<and> us_status u = ''active'') (users s) = Some u"
    and "list_all (\<lambda>p. wfListed (policyOrder p)) (limit_policies s)"
    and "rows = filter (listedPolicy (actor\<lparr>ua_email := us_email u, ua_displayName := us_displayName u, ua_role := us_role u, ua_status := us_status u\<rparr>) s) (limit_policies s)"
    and "decodeCursor c = Inr k"
  shows "autoT (ListPolicies actor c) w s = (Inr (map scanPolicy (fst (policyPage rows c)), snd (policyPage rows c)), s)"
proof -
  have wf: "list_all (\<lambda>p. wfListed (policyOrder p)) rows" using assms(3,4) by (auto simp: list_all_iff)
  note page = policyListPage_rows [OF wf assms(5)]
  show ?thesis
    using assms(1,2,5) page assms(4) [symmetric]
    by (simp add: autoT_def ListPolicies_def refreshUsageActor_def tx_defs policyPage_def case_prod_beta)
qed

lemma nextCursor_decodes:
  assumes "\<And>r. l = Some r \<Longrightarrow> wfListed (key r)" "nextCursor key l \<noteq> []"
  shows "\<exists>k. decodeCursor (nextCursor key l) = Inr k"
proof (cases l)
  case None
  with assms(2) show ?thesis by (simp add: nextCursor_def)
next
  case (Some r)
  have "int64_range (fst (key r))" "snd (key r) \<noteq> []"
    using assms(1) [OF Some] by (auto simp: wfListed_def int64_range_def int64_limits year10000_def)
  then show ?thesis using decodeCursor_encodeCursor [of "fst (key r)" "snd (key r)"] Some by (simp add: nextCursor_def)
qed

lemma followPolicies_follow:
  assumes "\<And>n k. \<not> w_fault (ws n) k"
    and "find (\<lambda>u. us_id u = ua_id actor \<and> us_status u = ''active'') (users s) = Some u"
    and "list_all (\<lambda>p. wfListed (policyOrder p)) (limit_policies s)"
    and "rows = filter (listedPolicy (actor\<lparr>ua_email := us_email u, ua_displayName := us_displayName u, ua_role := us_role u, ua_status := us_status u\<rparr>) s) (limit_policies s)"
    and "decodeCursor c = Inr k"
  shows "followPolicies n actor ws s c = Some (map scanPolicy (policies.follow n rows c))"
  using assms(5)
proof (induction n arbitrary: c k)
  case 0
  then show ?case by simp
next
  case (Suc n)
  have wf: "list_all (\<lambda>p. wfListed (policyOrder p)) rows" using assms(3,4) by (auto simp: list_all_iff)
  obtain xs l where cut: "cutPage 50 (pageRows policyOrder 50 (if c \<noteq> [] then Some k else None) rows) = (xs, l)" by fastforce
  have page: "policyPage rows c = (xs, nextCursor policyOrder l)"
    using policyListPage_rows [OF wf Suc.prems] cut by (simp add: policyPage_def)
  have "wfListed (policyOrder r)" if "l = Some r" for r
    using that cut cutPage_member [of 50] set_pageRows wf by (fastforce simp: list_all_iff)
  then have nc: "\<exists>k. decodeCursor (nextCursor policyOrder l) = Inr k" if "nextCursor policyOrder l \<noteq> []"
    using that by (rule nextCursor_decodes)
  show ?case
    using ListPolicies_run [OF assms(1-4) Suc.prems, of n] page nc Suc.IH
    by (cases "nextCursor policyOrder l = []") auto
qed

text \<open>
  (C29) Pagination of \<^verbatim>\<open>ListPolicies\<close> loses and repeats nothing: in worlds where no statement
  fails, an active caller who passes each returned cursor back until there is none receives
  exactly the policies visible to their role, each once, newest first (creation time, then id,
  both descending). Ids are unique and non-empty, and times lie before the year 10000.
\<close>

theorem ListPolicies_complete:
  assumes "\<And>n k. \<not> w_fault (ws n) k"
    and "find (\<lambda>u. us_id u = ua_id actor \<and> us_status u = ''active'') (users s) = Some u"
    and "list_all (\<lambda>p. wfListed (policyOrder p)) (limit_policies s)"
    and "distinct (map lp_id (limit_policies s))"
    and "length (limit_policies s) < n"
  shows "followPolicies n actor ws s [] = Some (map scanPolicy (orderByDesc policyOrder
           (filter (listedPolicy (actor\<lparr>ua_email := us_email u, ua_displayName := us_displayName u,
              ua_role := us_role u, ua_status := us_status u\<rparr>) s) (limit_policies s))))"
proof -
  let ?rows = "filter (listedPolicy (actor\<lparr>ua_email := us_email u, ua_displayName := us_displayName u,
      ua_role := us_role u, ua_status := us_status u\<rparr>) s) (limit_policies s)"
  have "distinct (map lp_id ?rows)" using assms(4) by (simp add: distinct_map inj_on_def)
  then have "distinct (map policyOrder ?rows)" by (auto simp: distinct_map inj_on_def policyOrder_def)
  moreover have "list_all (\<lambda>p. wfListed (policyOrder p)) ?rows" using assms(3) by (auto simp: list_all_iff)
  moreover have "length ?rows < n" using assms(5) length_filter_le le_less_trans by blast
  ultimately have "policies.follow n ?rows [] = orderByDesc policyOrder ?rows" by (intro policies.follow_all)
  moreover have "decodeCursor [] = Inr (0, [])" by (simp add: decodeCursor_def)
  ultimately show ?thesis using followPolicies_follow [OF assms(1-3) refl] by simp
qed

theorem ListPolicies_complete_witness:
  "\<exists>items. followPolicies 2 (sampleActor ''usr_1'') (\<lambda>n. calmWorld) samplePolicyStore [] = Some items \<and> map po_id items = [''pol_9'']"
proof -
  have "followPolicies 2 (sampleActor ''usr_1'') (\<lambda>n. calmWorld) samplePolicyStore [] = Some (map scanPolicy (orderByDesc policyOrder
      (filter (listedPolicy ((sampleActor ''usr_1'')\<lparr>ua_email := ''usr_1'', ua_displayName := ''usr_1'',
              ua_role := ''member'', ua_status := ''active''\<rparr>) samplePolicyStore) (limit_policies samplePolicyStore))))"
    using ListPolicies_complete [of "\<lambda>n. calmWorld" "sampleActor ''usr_1''" samplePolicyStore "sampleUser ''usr_1'' ''member''" 2]
    by (simp add: sample_defs samplePolicyStore_def wfListed_def policyOrder_def year10000_def newPolicyRow_def)
  then show ?thesis
    by (simp add: sample_defs samplePolicyStore_def listedPolicy_def orderByDesc_def)
qed

end
