(* ===== verification/Limits.thy ===== *)
theory Limits
  imports Policy
begin

text \<open>
  The limiter of \<^verbatim>\<open>usage/admission.go\<close> and the counters it keeps: the effective clock, the
  period of a policy, the decision for one policy (\<^verbatim>\<open>evaluatePolicy\<close>: ceilings,
  concurrency leases, token buckets, quota windows) and its booking (\<^verbatim>\<open>applyPlan\<close>). The
  outbox helpers of that file and the counter helpers of \<^verbatim>\<open>usage/settlement.go\<close> that give
  reserved units back are here as well, since both the admission and the settlement use them.
\<close>

section \<open>Data\<close>

record admission_input =
  ai_requestID :: string
  ai_keyID :: string
  ai_connectionID :: string
  ai_modelID :: string
  ai_upstreamModelRecordID :: string
  ai_upstreamModelID :: string
  ai_connectionRevision :: int
  ai_modelRevision :: int
  ai_operation :: string
  ai_targetOperation :: string
  ai_scope :: string
  ai_dialect :: string
  ai_targetDialect :: string
  ai_translationApplied :: bool
  ai_requestToolCount :: int
  ai_webSearchMaxCalls :: int
  ai_webFetchPresent :: bool
  ai_selectionReason :: string
  ai_rejectedCandidatesJSON :: string
  ai_requiredPriceVersionID :: string
  ai_priceQuoteAt :: int
  ai_quotedPriceVersionID :: "string option"
  ai_requireFreePrice :: bool
  ai_priceUnavailable :: bool
  ai_snapshotPriceOnly :: bool
  ai_bodyBytes :: int
  ai_batchItems :: int
  ai_streaming :: bool
  ai_estimatedInputTokens :: int
  ai_estimatedOutputTokens :: int
  ai_enforceInputBound :: bool
  ai_inputBounded :: bool
  ai_enforceOutputBound :: bool
  ai_outputBounded :: bool

record runtime_policy =
  rp_id :: string
  rp_scopeKind :: string
  rp_metric :: string
  rp_algorithm :: string
  rp_period :: string
  rp_window :: int
  rp_limit :: int
  rp_refill :: int
  rp_interval :: int

record counter_plan =
  cp_policy :: runtime_policy
  cp_periodStart :: int
  cp_periodEnd :: "int option"
  cp_consumed :: int
  cp_reserved :: int
  cp_bucketRemaining :: int
  cp_bucketRemainder :: int
  cp_bucketRefillAt :: int
  cp_units :: int
  cp_reserve :: bool
  cp_leaseKind :: string
  cp_leaseID :: string

definition emptyPlan :: "runtime_policy \<Rightarrow> counter_plan" where
  "emptyPlan p = \<lparr>cp_policy = p, cp_periodStart = 0, cp_periodEnd = None, cp_consumed = 0, cp_reserved = 0,
     cp_bucketRemaining = 0, cp_bucketRemainder = 0, cp_bucketRefillAt = 0, cp_units = 0, cp_reserve = False,
     cp_leaseKind = [], cp_leaseID = []\<rparr>"

definition runtimePolicy :: "policy_row \<Rightarrow> runtime_policy" where
  "runtimePolicy p = \<lparr>rp_id = lp_id p, rp_scopeKind = lp_scopeKind p, rp_metric = lp_metric p, rp_algorithm = lp_algorithm p,
     rp_period = lp_period p, rp_window = lp_window p, rp_limit = lp_limit p, rp_refill = lp_refill p, rp_interval = lp_interval p\<rparr>"

section \<open>The effective clock\<close>

definition effectiveTimeTxAtLeast :: "string \<Rightarrow> int \<Rightarrow> int tx" where
  "effectiveTimeTxAtLeast epoch floorAt =
     bindT nowT (\<lambda>t.
     let wall = (if floorAt > t then floorAt else t) in
     thenT (raiseClock wall epoch) (
     bindT (queryT admission_clock) (\<lambda>row.
     bindT (optionT ErrNoRows row) (\<lambda>(effective, _). returnT effective))))"

definition effectiveTimeTx :: "string \<Rightarrow> int tx" where
  "effectiveTimeTx epoch = effectiveTimeTxAtLeast epoch 0"

definition effectiveTime :: "string \<Rightarrow> int tx" where
  "effectiveTime epoch = bindT (effectiveTimeTx epoch) (\<lambda>effective. thenT commitT (returnT effective))"

definition QuoteTime :: "int tx" where
  "QuoteTime =
     bindT nowT (\<lambda>wall.
     bindT (queryT admission_clock) (\<lambda>row.
       returnT (case row of None \<Rightarrow> wall | Some (persisted, _) \<Rightarrow> max_int64 wall persisted)))"

section \<open>Periods\<close>

text \<open>A \<^verbatim>\<open>time.Time\<close> nobody set prints this many milliseconds.\<close>

definition zeroTimeMillis :: int where
  "zeroTimeMillis = - 62135596800000"

definition periodBounds :: "runtime_policy \<Rightarrow> int \<Rightarrow> int \<times> int option" where
  "periodBounds policy millis =
     (if rp_algorithm policy = ''fixed_window'' then
        let window = wrap64 (rp_window policy * 1000);
            start = wrap64 (millis - go_mod millis window)
        in (start, Some (wrap64 (start + window)))
      else if rp_period policy = ''lifetime'' then (0, None)
      else
        case civilOfDay (dayOfMillis millis) of (y, m, d) \<Rightarrow>
          if rp_period policy = ''hour'' then
            let start = millisOfDate y m d (hourOfMillis millis) in (start, Some (start + 3600000))
          else if rp_period policy = ''day'' then (millisOfDate y m d 0, Some (millisOfDate y m (d + 1) 0))
          else if rp_period policy = ''week'' then
            let back = (weekdayOfMillis millis + 6) mod 7
            in (millisOfDate y m (d - back) 0, Some (millisOfDate y m (d - back + 7) 0))
          else if rp_period policy = ''month'' then (millisOfDate y m 1 0, Some (millisOfDate y (m + 1) 1 0))
          else (zeroTimeMillis, Some zeroTimeMillis))"

section \<open>One policy\<close>

text \<open>
  The decision of a token bucket: refill for the elapsed time, cap at the limit, take the units or
  deny with a time to wait. The result is the new remaining units, remainder and refill time.
\<close>

definition bucketStep :: "runtime_policy \<Rightarrow> int \<times> int \<times> int \<times> int \<Rightarrow> int \<Rightarrow> int \<Rightarrow> goerr + int \<times> int \<times> int" where
  "bucketStep policy state now units =
     (case state of (remaining0, remainder, lastRefill, lastEffective) \<Rightarrow>
        let effective = max_int64 now lastEffective;
            elapsed = max_int64 0 (wrap64 (effective - lastRefill))
        in case refillAmount elapsed (rp_refill policy) (rp_interval policy) remainder of
             Inl e \<Rightarrow> Inl (ErrMsg e)
           | Inr (refill, nextRemainder0) \<Rightarrow>
               let refilled = saturatingAdd remaining0 refill;
                   remaining = (if refilled \<ge> rp_limit policy then rp_limit policy else refilled);
                   nextRemainder = (if refilled \<ge> rp_limit policy then 0 else nextRemainder0)
               in if units > remaining
                  then Inl (Denial (rp_id policy) (rp_metric policy) ''token bucket exhausted''
                              (retryAfter (wrap64 (units - remaining)) (rp_refill policy) (rp_interval policy)))
                  else Inr (wrap64 (remaining - units), nextRemainder, effective))"

text \<open>
  The decision of a quota or fixed window: consumed, reserved and new units must fit the limit;
  a reservation is booked as reserved, anything else as consumed.
\<close>

definition windowStep :: "runtime_policy \<Rightarrow> int option \<Rightarrow> int \<times> int \<Rightarrow> int \<Rightarrow> int \<Rightarrow> bool \<Rightarrow> goerr + int \<times> int" where
  "windowStep policy periodEnd state now units reserve =
     (case state of (consumed, reserved) \<Rightarrow>
        case checkedAdd [consumed, reserved, units] of
          None \<Rightarrow> Inl (ErrMsg ''policy counter overflow'')
        | Some used \<Rightarrow>
            if used > rp_limit policy
            then Inl (Denial (rp_id policy) (rp_metric policy) ''policy allowance exhausted''
                   (map_option (\<lambda>e. max_int64 1 (go_div (wrap64 (wrap64 (e - now) + 999)) 1000)) periodEnd))
            else Inr (if reserve then (consumed, wrap64 (reserved + units)) else (wrap64 (consumed + units), reserved)))"

definition evaluateConcurrency :: "runtime_policy \<Rightarrow> string \<Rightarrow> string \<Rightarrow> counter_plan option tx" where
  "evaluateConcurrency policy requestID attemptID =
     (let kind = (if rp_scopeKind policy = ''connection'' then ''attempt'' else ''request'');
          lease = (if rp_scopeKind policy = ''connection'' then attemptID else requestID)
      in bindT (queryT (\<lambda>s. list_ex (\<lambda>l. cl_policy l = rp_id policy \<and> cl_kind l = kind \<and> cl_lease l = lease) (concurrency_leases s)))
           (\<lambda>held.
         if held then returnT None
         else bindT (queryT (\<lambda>s. int (length (filter (\<lambda>l. cl_policy l = rp_id policy) (concurrency_leases s))))) (\<lambda>active.
              guardT (active \<ge> rp_limit policy) (Denial (rp_id policy) (rp_metric policy) ''concurrency limit reached'' None) (
              returnT (Some ((emptyPlan policy)\<lparr>cp_leaseKind := kind, cp_leaseID := lease\<rparr>))))))"

definition evaluateBucket :: "runtime_policy \<Rightarrow> int \<Rightarrow> int \<Rightarrow> bool \<Rightarrow> counter_plan option tx" where
  "evaluateBucket policy now units reserve =
     bindT (rowT bucket_state (\<lambda>b. bs_policy b = rp_id policy)) (\<lambda>row.
     case bucketStep policy
            (case row of None \<Rightarrow> (rp_limit policy, 0, now, now)
             | Some b \<Rightarrow> (bs_remaining b, bs_remainder b, bs_refillAt b, bs_effective b)) now units of
       Inl e \<Rightarrow> failT e
     | Inr (remaining, remainder, refillAt) \<Rightarrow>
         returnT (Some ((emptyPlan policy)\<lparr>cp_units := units, cp_reserve := reserve, cp_bucketRemaining := remaining,
           cp_bucketRemainder := remainder, cp_bucketRefillAt := refillAt\<rparr>)))"

definition evaluateWindow :: "runtime_policy \<Rightarrow> int \<Rightarrow> int \<Rightarrow> bool \<Rightarrow> counter_plan option tx" where
  "evaluateWindow policy now units reserve =
     (case periodBounds policy now of (start, periodEnd) \<Rightarrow>
        bindT (rowT quota_periods (\<lambda>q. qp_policy q = rp_id policy \<and> qp_start q = start)) (\<lambda>row.
        case windowStep policy periodEnd (case row of None \<Rightarrow> (0, 0) | Some q \<Rightarrow> (qp_consumed q, qp_reserved q)) now units reserve of
          Inl e \<Rightarrow> failT e
        | Inr (consumed, reserved) \<Rightarrow>
            returnT (Some ((emptyPlan policy)\<lparr>cp_units := units, cp_reserve := reserve, cp_periodStart := start,
              cp_periodEnd := periodEnd, cp_consumed := consumed, cp_reserved := reserved\<rparr>))))"

text \<open>
  The \<^verbatim>\<open>switch policy.Metric\<close>: units and whether they are reserved; \<open>None\<close> when the policy does
  not apply (a retry under a request limit that is not the connection's).
\<close>

definition planUnits :: "runtime_policy \<Rightarrow> bool \<Rightarrow> admission_input \<Rightarrow> int \<Rightarrow> int option \<Rightarrow> goerr + (int \<times> bool) option" where
  "planUnits policy first input estimatedTokens estimatedCost =
     (if rp_metric policy = ''requests'' then
        if \<not> first \<and> rp_scopeKind policy \<noteq> ''connection'' then Inr None else Inr (Some (1, False))
      else if rp_metric policy = ''tokens'' then Inr (Some (estimatedTokens, True))
      else if rp_metric policy = ''spend'' then
        (case estimatedCost of
           None \<Rightarrow> Inl (Denial (rp_id policy) (rp_metric policy) ''a bounded price estimate is required'' None)
         | Some cost \<Rightarrow> Inr (Some (cost, True)))
      else if rp_metric policy = ''body_bytes'' then Inr (Some (ai_bodyBytes input, False))
      else if rp_metric policy = ''output_tokens'' then Inr (Some (ai_estimatedOutputTokens input, False))
      else if rp_metric policy = ''batch_items'' then Inr (Some (ai_batchItems input, False))
      else Inr (Some (0, False)))"

definition evaluatePolicy ::
  "runtime_policy \<Rightarrow> int \<Rightarrow> bool \<Rightarrow> string \<Rightarrow> string \<Rightarrow> admission_input \<Rightarrow> int \<Rightarrow> int option \<Rightarrow> counter_plan option tx" where
  "evaluatePolicy policy now first requestID attemptID input estimatedTokens estimatedCost =
     (if rp_metric policy = ''concurrency'' then evaluateConcurrency policy requestID attemptID
      else case planUnits policy first input estimatedTokens estimatedCost of
             Inl e \<Rightarrow> failT e
           | Inr None \<Rightarrow> returnT None
           | Inr (Some (units, reserve)) \<Rightarrow>
               if rp_algorithm policy = ''ceiling'' then
                 guardT (units > rp_limit policy) (Denial (rp_id policy) (rp_metric policy) ''request ceiling exceeded'' None)
                   (returnT None)
               else guardT (units < 0) (ErrMsg ''reservation units cannot be negative'') (
                 if units = 0 \<and> \<not> reserve then returnT None
                 else if rp_algorithm policy = ''token_bucket'' then evaluateBucket policy now units reserve
                 else evaluateWindow policy now units reserve))"

definition mergeBucket :: "bucket_row \<Rightarrow> bucket_row \<Rightarrow> bucket_row" where
  "mergeBucket old excluded = old\<lparr>bs_remaining := bs_remaining excluded, bs_remainder := bs_remainder excluded,
     bs_refillAt := bs_refillAt excluded, bs_effective := bs_effective excluded\<rparr>"

definition mergePeriod :: "period_row \<Rightarrow> period_row \<Rightarrow> period_row" where
  "mergePeriod old excluded = old\<lparr>qp_consumed := qp_consumed excluded, qp_reserved := qp_reserved excluded,
     qp_effective := max (qp_effective old) (qp_effective excluded)\<rparr>"

definition bookReservation :: "counter_plan \<Rightarrow> string \<Rightarrow> int \<Rightarrow> unit tx" where
  "bookReservation plan attemptID now =
     bindT randT (\<lambda>i.
       insertReservation \<lparr>rs_id = ''res_'' @ i, rs_attempt = attemptID, rs_policy = rp_id (cp_policy plan),
         rs_period = (if rp_algorithm (cp_policy plan) \<noteq> ''token_bucket'' then Some (cp_periodStart plan) else None),
         rs_units = cp_units plan, rs_state = ''active'', rs_created = now, rs_settled = None\<rparr>)"

definition bookCounter :: "counter_plan \<Rightarrow> int \<Rightarrow> unit tx" where
  "bookCounter plan now =
     (if rp_algorithm (cp_policy plan) = ''token_bucket'' then
        upsertBucket mergeBucket \<lparr>bs_policy = rp_id (cp_policy plan), bs_remaining = cp_bucketRemaining plan,
          bs_remainder = cp_bucketRemainder plan, bs_refillAt = cp_bucketRefillAt plan, bs_effective = cp_bucketRefillAt plan\<rparr>
      else
        upsertPeriod mergePeriod \<lparr>qp_policy = rp_id (cp_policy plan), qp_start = cp_periodStart plan, qp_end = cp_periodEnd plan,
          qp_consumed = cp_consumed plan, qp_reserved = cp_reserved plan, qp_effective = now\<rparr>)"

definition applyPlan :: "counter_plan \<Rightarrow> string \<Rightarrow> string \<Rightarrow> string \<Rightarrow> int \<Rightarrow> unit tx" where
  "applyPlan plan requestID attemptID epoch now =
     (if rp_metric (cp_policy plan) = ''concurrency'' then
        insertLease \<lparr>cl_policy = rp_id (cp_policy plan), cl_kind = cp_leaseKind plan, cl_lease = cp_leaseID plan,
          cl_request = requestID, cl_attempt = (if cp_leaseKind plan = ''attempt'' then Some attemptID else None),
          cl_epoch = epoch, cl_created = now\<rparr>
      else
        thenT (bookCounter plan now) (if cp_reserve plan then bookReservation plan attemptID now else returnT ()))"

section \<open>The outbox\<close>

definition maxPendingOutboxEvents :: int where
  "maxPendingOutboxEvents = 10000"

definition maxPendingOutboxBytes :: int where
  "maxPendingOutboxBytes = 67108864"

definition outboxEventAllowance :: int where
  "outboxEventAllowance = 1024"

definition nullableString :: "string \<Rightarrow> string option" where
  "nullableString v = (if v = [] then None else Some v)"

definition appendOutbox :: "string \<Rightarrow> string \<Rightarrow> string \<Rightarrow> (string \<times> json) list \<Rightarrow> int \<Rightarrow> unit tx" where
  "appendOutbox eventType requestID attemptID payload now =
     bindT randT (\<lambda>i.
       insertEvent \<lparr>eo_id = ''evt_'' @ i, eo_type = eventType, eo_request = nullableString requestID,
         eo_attempt = nullableString attemptID, eo_payload = jmap payload, eo_created = now, eo_delivered = None\<rparr>)"

definition pendingEvents :: "store \<Rightarrow> outbox_row list" where
  "pendingEvents s = filter (\<lambda>e. eo_delivered e = None) (event_outbox s)"

definition pendingBytes :: "store \<Rightarrow> int" where
  "pendingBytes s = sum_list (map (\<lambda>e. sqlLength (jsonText (eo_payload e))) (pendingEvents s))"

definition activeAttempts :: "store \<Rightarrow> int" where
  "activeAttempts s = int (length (filter (\<lambda>a. at_state a \<in> set activeStates) (attempts s)))"

definition outboxFits :: "int \<Rightarrow> store \<Rightarrow> bool" where
  "outboxFits additional s \<longleftrightarrow>
     (let reserved = activeAttempts s + additional in
      \<not> (int (length (pendingEvents s)) + reserved > maxPendingOutboxEvents \<or>
         pendingBytes s + reserved * outboxEventAllowance > maxPendingOutboxBytes))"

definition requireOutboxCapacity :: "int \<Rightarrow> unit tx" where
  "requireOutboxCapacity additional =
     bindT (queryT (outboxFits additional)) (\<lambda>fits.
       guardT (\<not> fits) (ErrMsg ''usage event outbox is full'') (returnT ()))"

section \<open>Giving units back\<close>

definition settlementUnits :: "string \<Rightarrow> int option \<Rightarrow> int option \<Rightarrow> int \<times> bool" where
  "settlementUnits metric tokens cost =
     (if metric = ''tokens'' \<and> tokens \<noteq> None then (the tokens, True)
      else if metric = ''spend'' \<and> cost \<noteq> None then (the cost, True)
      else (0, False))"

definition nextCounter :: "string \<Rightarrow> int \<Rightarrow> int \<Rightarrow> string + int" where
  "nextCounter name current delta =
     (case checkedAdd [current, delta] of
        None \<Rightarrow> Inl (name @ '' units overflow'')
      | Some v \<Rightarrow> if v < 0 \<or> v > maxSafeInteger then Inl (name @ '' units overflow'') else Inr v)"

definition updateQuotaPeriod :: "string \<Rightarrow> int \<Rightarrow> int \<Rightarrow> int \<Rightarrow> unit tx" where
  "updateQuotaPeriod policyID periodStart consumedDelta reservedDelta =
     bindT (oneT ErrNoRows quota_periods (\<lambda>q. qp_policy q = policyID \<and> qp_start q = periodStart)) (\<lambda>q.
     bindT (liftT (nextCounter ''consumed'' (qp_consumed q) consumedDelta)) (\<lambda>nextConsumed.
     bindT (liftT (nextCounter ''reserved'' (qp_reserved q) reservedDelta)) (\<lambda>nextReserved.
     bindT (updatePeriods
              (\<lambda>r. qp_policy r = policyID \<and> qp_start r = periodStart \<and> qp_consumed r = qp_consumed q \<and> qp_reserved r = qp_reserved q)
              (\<lambda>r. r\<lparr>qp_consumed := nextConsumed, qp_reserved := nextReserved\<rparr>)) (\<lambda>changed.
       guardT (changed \<noteq> 1) (ErrMsg ''quota period changed concurrently'') (returnT ())))))"

text \<open>A reservation joined with its policy, as the settlement queries scan it.\<close>

record held_item =
  hi_id :: string
  hi_policyID :: string
  hi_metric :: string
  hi_algorithm :: string
  hi_period :: "int option"
  hi_reserved :: int
  hi_limit :: int

definition heldItems :: "string \<Rightarrow> string \<Rightarrow> store \<Rightarrow> held_item list" where
  "heldItems attemptID state s =
     concat (map (\<lambda>r. map (\<lambda>p. \<lparr>hi_id = rs_id r, hi_policyID = rs_policy r, hi_metric = lp_metric p, hi_algorithm = lp_algorithm p,
         hi_period = rs_period r, hi_reserved = rs_units r, hi_limit = lp_limit p\<rparr>)
       (filter (\<lambda>p. lp_id p = rs_policy r) (limit_policies s)))
     (filter (\<lambda>r. rs_attempt r = attemptID \<and> rs_state r = state) (reservations s)))"

definition markReservation :: "string \<Rightarrow> string \<Rightarrow> int \<Rightarrow> nat tx" where
  "markReservation i state now =
     updateReservations (\<lambda>r. rs_id r = i) (\<lambda>r. r\<lparr>rs_state := state, rs_settled := Some now\<rparr>)"

definition releaseItem :: "int \<Rightarrow> held_item \<Rightarrow> unit tx" where
  "releaseItem now item =
     thenT (if hi_algorithm item = ''token_bucket''
            then updateBuckets (\<lambda>b. bs_policy b = hi_policyID item)
                   (\<lambda>b. b\<lparr>bs_remaining := min (hi_limit item) (bs_remaining b + hi_reserved item)\<rparr>)
            else updatePeriods
                   (\<lambda>q. qp_policy q = hi_policyID item \<and> qp_start q = (case hi_period item of None \<Rightarrow> 0 | Some p \<Rightarrow> p) \<and>
                        qp_reserved q \<ge> hi_reserved item)
                   (\<lambda>q. q\<lparr>qp_reserved := qp_reserved q - hi_reserved item\<rparr>)) (
     thenT (markReservation (hi_id item) ''released'' now) (returnT ()))"

definition releaseReservations :: "string \<Rightarrow> int \<Rightarrow> unit tx" where
  "releaseReservations attemptID now =
     bindT (queryT (heldItems attemptID ''active'')) (\<lambda>items. forT (releaseItem now) items)"

text \<open>Book the actual units of one reservation and mark it settled (\<^verbatim>\<open>Settle\<close> and \<^verbatim>\<open>ReconcileUnknown\<close>).\<close>

definition settleBucket :: "string \<Rightarrow> held_item \<Rightarrow> int \<Rightarrow> unit tx" where
  "settleBucket overflow item actual =
     bindT (oneT ErrNoRows bucket_state (\<lambda>b. bs_policy b = hi_policyID item)) (\<lambda>b.
     bindT (optionT (ErrMsg overflow) (checkedAdd [bs_remaining b, hi_reserved item, - actual])) (\<lambda>adjusted.
     thenT (updateBuckets (\<lambda>b. bs_policy b = hi_policyID item)
              (\<lambda>b. b\<lparr>bs_remaining := min_int64 (hi_limit item) adjusted\<rparr>)) (returnT ())))"

end
