(* ===== verification/Pricing.thy ===== *)
theory Pricing
  imports Limits
begin

text \<open>
  \<^verbatim>\<open>usage/pricing.go\<close>, first part: price versions. Costs of an attempt under a version,
  the version in force at an instant, and the operations that create, read and list versions.
  Creating a version closes the open version before it and never lets two versions of a model
  apply at the same instant.
\<close>

section \<open>Data\<close>

record price_version =
  prv_id :: string
  prv_connectionID :: string
  prv_modelID :: string
  prv_inputUSD :: string
  prv_outputUSD :: string
  prv_cacheReadUSD :: "string option"
  prv_webSearchUSD :: "string option"
  prv_source :: string
  prv_effectiveFrom :: string
  prv_effectiveTo :: "string option"
  prv_weekStart :: "int option"
  prv_weekEnd :: "int option"
  prv_createdAt :: string
  prv_inputNanos :: int
  prv_outputNanos :: int
  prv_cacheReadNanos :: "int option"
  prv_webSearchNanos :: "int option"
  prv_created :: int

record price_input =
  pri_connectionID :: string
  pri_modelID :: string
  pri_inputUSD :: string
  pri_outputUSD :: string
  pri_cacheReadUSD :: "string option"
  pri_webSearchUSD :: "string option"
  pri_source :: string
  pri_effectiveFrom :: string
  pri_effectiveTo :: string
  pri_weekStart :: "int option"
  pri_weekEnd :: "int option"

definition scanPrice :: "price_row \<Rightarrow> price_version" where
  "scanPrice r = \<lparr>prv_id = pv_id r, prv_connectionID = pv_connection r, prv_modelID = pv_model r,
     prv_inputUSD = FormatUSD (pv_input r), prv_outputUSD = FormatUSD (pv_output r),
     prv_cacheReadUSD = map_option FormatUSD (pv_cacheRead r), prv_webSearchUSD = map_option FormatUSD (pv_webSearch r),
     prv_source = pv_source r, prv_effectiveFrom = timeString (pv_from r), prv_effectiveTo = map_option timeString (pv_to r),
     prv_weekStart = pv_weekStart r,
     prv_weekEnd = (case pv_weekStart r of None \<Rightarrow> None | Some _ \<Rightarrow> Some (case pv_weekEnd r of None \<Rightarrow> 0 | Some e \<Rightarrow> e)),
     prv_createdAt = timeString (pv_created r), prv_inputNanos = pv_input r, prv_outputNanos = pv_output r,
     prv_cacheReadNanos = pv_cacheRead r, prv_webSearchNanos = pv_webSearch r, prv_created = pv_created r\<rparr>"

section \<open>Costs\<close>

definition validWeeklyWindow :: "int option \<Rightarrow> int option \<Rightarrow> bool" where
  "validWeeklyWindow start stop =
     (case (start, stop) of
        (None, None) \<Rightarrow> True
      | (Some a, Some b) \<Rightarrow> a \<ge> 0 \<and> a < b \<and> b \<le> 7 * 24 * 60
      | _ \<Rightarrow> False)"

definition VerifiedFreePrice :: "int \<Rightarrow> int \<Rightarrow> int option \<Rightarrow> string \<Rightarrow> int \<Rightarrow> int \<Rightarrow> bool" where
  "VerifiedFreePrice inputNanos outputNanos cacheReadNanos source verifiedAt now \<longleftrightarrow>
     inputNanos = 0 \<and> outputNanos = 0 \<and> cacheReadNanos = Some 0 \<and> TrimSpace source \<noteq> [] \<and>
     verifiedAt \<le> now \<and> verifiedAt \<ge> now - 86400000"

definition ConservativeInputRate :: "int \<Rightarrow> int option \<Rightarrow> int" where
  "ConservativeInputRate inputNanos cacheReadNanos =
     (case cacheReadNanos of None \<Rightarrow> inputNanos | Some c \<Rightarrow> if c > inputNanos then c else inputNanos)"

definition calculateCacheAwareCost :: "int \<Rightarrow> int \<Rightarrow> int \<Rightarrow> int \<Rightarrow> int \<Rightarrow> int option \<Rightarrow> string + int option" where
  "calculateCacheAwareCost inputTokens outputTokens cacheReadTokens inputRate outputRate cacheReadRate =
     (if inputTokens < 0 \<or> outputTokens < 0 \<or> cacheReadTokens < 0 \<or> cacheReadTokens > inputTokens
      then Inl ''cache-read tokens must be within total input tokens''
      else if cacheReadTokens > 0 \<and> cacheReadRate = None then Inr None
      else case tokenCost (inputTokens - cacheReadTokens) inputRate of
             Inl e \<Rightarrow> Inl e
           | Inr uncachedCost \<Rightarrow>
               (case (if cacheReadTokens > 0 then tokenCost cacheReadTokens (the cacheReadRate) else Inr 0) of
                  Inl e \<Rightarrow> Inl e
                | Inr cachedCost \<Rightarrow>
                    (case tokenCost outputTokens outputRate of
                       Inl e \<Rightarrow> Inl e
                     | Inr outputCost \<Rightarrow>
                         (case checkedAdd [uncachedCost, cachedCost, outputCost] of
                            None \<Rightarrow> Inl ''calculated cost is too large''
                          | Some all \<Rightarrow> if all < 0 then Inl ''calculated cost is too large'' else Inr (Some all)))))"

definition addWebSearchCost :: "int option \<Rightarrow> int option \<Rightarrow> int \<Rightarrow> string + int option" where
  "addWebSearchCost cost fee calls =
     (case cost of
        None \<Rightarrow> Inr None
      | Some c \<Rightarrow>
          if calls = 0 then Inr cost
          else if calls < 0 \<or> calls > 4 then Inl ''web search call count is out of range''
          else (case fee of
                  None \<Rightarrow> Inr None
                | Some f \<Rightarrow>
                    if f < 0 \<or> f > go_div MaxInt64 calls then Inl ''calculated cost is too large''
                    else (case checkedAdd [c, wrap64 (f * calls)] of
                            None \<Rightarrow> Inl ''calculated cost is too large''
                          | Some all \<Rightarrow> Inr (Some all))))"

definition priceCalculationVersion :: "bool \<Rightarrow> bool \<Rightarrow> int" where
  "priceCalculationVersion cacheRead webSearch = 1 + (if cacheRead then 1 else 0) + (if webSearch then 2 else 0)"

section \<open>The version in force\<close>

definition priceApplies :: "string \<Rightarrow> string \<Rightarrow> int \<Rightarrow> price_row \<Rightarrow> bool" where
  "priceApplies connectionID modelID at p =
     (let minute = UTCMinuteOfWeek at in
      pv_connection p = connectionID \<and> pv_model p = modelID \<and> pv_from p \<le> at \<and>
      (case pv_to p of None \<Rightarrow> True | Some t \<Rightarrow> t > at) \<and>
      (case pv_weekStart p of None \<Rightarrow> True
       | Some a \<Rightarrow> a \<le> minute \<and> (case pv_weekEnd p of None \<Rightarrow> False | Some b \<Rightarrow> b > minute)))"

definition priceOrder :: "price_row \<Rightarrow> int \<times> string" where
  "priceOrder p = (pv_from p, pv_id p)"

definition firstRow :: "'r list \<Rightarrow> 'r option" where
  "firstRow rs = (case rs of [] \<Rightarrow> None | r # _ \<Rightarrow> Some r)"

definition priceRowAt :: "string \<Rightarrow> string \<Rightarrow> int \<Rightarrow> store \<Rightarrow> price_row option" where
  "priceRowAt connectionID modelID at s =
     firstRow (orderByDesc priceOrder (filter (priceApplies connectionID modelID at) (price_versions s)))"

definition priceAt :: "string \<Rightarrow> string \<Rightarrow> int \<Rightarrow> price_version option tx" where
  "priceAt connectionID modelID at = queryT (\<lambda>s. map_option scanPrice (priceRowAt connectionID modelID at s))"

record price_quote =
  pq_id :: string
  pq_inputNanos :: int
  pq_outputNanos :: int
  pq_cacheReadNanos :: "int option"
  pq_source :: string
  pq_createdAt :: int
  pq_quotedAt :: int

definition EstimateCost :: "price_quote \<Rightarrow> int \<Rightarrow> int \<Rightarrow> int \<Rightarrow> string + int option" where
  "EstimateCost quote inputTokens outputTokens cacheReadTokens =
     calculateCacheAwareCost inputTokens outputTokens cacheReadTokens (pq_inputNanos quote) (pq_outputNanos quote) (pq_cacheReadNanos quote)"

definition QuotePrice :: "string \<Rightarrow> string \<Rightarrow> int \<Rightarrow> price_quote tx" where
  "QuotePrice connectionID modelID at =
     bindT (priceAt connectionID modelID at) (\<lambda>row.
     bindT (optionT ErrNoRows row) (\<lambda>price.
       returnT \<lparr>pq_id = prv_id price, pq_inputNanos = prv_inputNanos price, pq_outputNanos = prv_outputNanos price,
         pq_cacheReadNanos = prv_cacheReadNanos price, pq_source = prv_source price, pq_createdAt = prv_created price,
         pq_quotedAt = at\<rparr>))"

section \<open>Creating a version\<close>

text \<open>The checks before the transaction: rates, window, interval and names.\<close>

definition parseOptionalUSD :: "string \<Rightarrow> string option \<Rightarrow> string + int option" where
  "parseOptionalUSD what v =
     (case v of None \<Rightarrow> Inr None
      | Some t \<Rightarrow> (case ParseUSD t of Inl e \<Rightarrow> Inl (what @ e) | Inr n \<Rightarrow> Inr (Some n)))"

definition parseUSDAs :: "string \<Rightarrow> string \<Rightarrow> string + int" where
  "parseUSDAs what t = (case ParseUSD t of Inl e \<Rightarrow> Inl (what @ e) | Inr n \<Rightarrow> Inr n)"

definition parseInterval :: "price_input \<Rightarrow> string + int \<times> int option" where
  "parseInterval input =
     (case parseRFC3339 (pri_effectiveFrom input) of
        None \<Rightarrow> Inl ''effective_from must be RFC3339''
      | Some from \<Rightarrow>
          if pri_effectiveTo input = [] then Inr (unixMilliOfNanos from, None)
          else (case parseRFC3339 (pri_effectiveTo input) of
                  None \<Rightarrow> Inl ''effective_to must be later than effective_from''
                | Some to \<Rightarrow>
                    if \<not> to > from then Inl ''effective_to must be later than effective_from''
                    else Inr (unixMilliOfNanos from, Some (unixMilliOfNanos to))))"

text \<open>The weekly windows of a stored version and of the new one share a minute.\<close>

definition weeksOverlap :: "price_row \<Rightarrow> int option \<Rightarrow> int option \<Rightarrow> bool" where
  "weeksOverlap p start stop =
     (case (pv_weekStart p, start) of
        (None, _) \<Rightarrow> True
      | (_, None) \<Rightarrow> True
      | (Some a, Some c) \<Rightarrow>
          (case stop of None \<Rightarrow> False | Some d \<Rightarrow> a < d) \<and> (case pv_weekEnd p of None \<Rightarrow> False | Some b \<Rightarrow> b > c))"

definition closeVersion :: "auth_user \<Rightarrow> int \<Rightarrow> string \<Rightarrow> unit tx" where
  "closeVersion actor from previousID =
     bindT (queryT (\<lambda>s. length (filter (\<lambda>a. at_price a = Some previousID \<and>
              (case at_quoted a of None \<Rightarrow> at_started a | Some q \<Rightarrow> q) \<ge> from) (attempts s)))) (\<lambda>conflicting.
     guardT (conflicting \<noteq> 0) (ErrMsg ''new effective date would invalidate snapshotted attempts; use historical repricing'') (
     thenT (updatePrices (\<lambda>p. pv_id p = previousID \<and> pv_to p = None) (\<lambda>p. p\<lparr>pv_to := Some from\<rparr>)) (
     insertAudit (ua_id actor) ''price.close'' ''price'' previousID [(''effective_to'', jint from)])))"

definition openBefore :: "price_input \<Rightarrow> int \<Rightarrow> price_row \<Rightarrow> bool" where
  "openBefore input from p \<longleftrightarrow>
     pv_connection p = pri_connectionID input \<and> pv_model p = pri_modelID input \<and> pv_to p = None \<and> pv_from p < from \<and>
     weeksOverlap p (pri_weekStart input) (pri_weekEnd input)"

definition closePrevious :: "auth_user \<Rightarrow> price_input \<Rightarrow> int \<Rightarrow> unit tx" where
  "closePrevious actor input from =
     (if pri_effectiveTo input = [] then
        bindT (queryT (\<lambda>s. map pv_id (orderByDesc pv_from (filter (openBefore input from) (price_versions s)))))
          (\<lambda>previousIDs. forT (closeVersion actor from) previousIDs)
      else returnT ())"

definition overlapsVersion :: "price_input \<Rightarrow> int \<Rightarrow> int option \<Rightarrow> price_row \<Rightarrow> bool" where
  "overlapsVersion input from to p \<longleftrightarrow>
     pv_connection p = pri_connectionID input \<and> pv_model p = pri_modelID input \<and>
     pv_from p < (case to of None \<Rightarrow> MaxInt64 | Some t \<Rightarrow> t) \<and>
     (case pv_to p of None \<Rightarrow> True | Some t \<Rightarrow> t > from) \<and>
     weeksOverlap p (pri_weekStart input) (pri_weekEnd input)"

definition newPriceRow ::
  "string \<Rightarrow> price_input \<Rightarrow> int \<Rightarrow> int \<Rightarrow> int option \<Rightarrow> int option \<Rightarrow> int \<Rightarrow> int option \<Rightarrow> string \<Rightarrow> int \<Rightarrow> price_row" where
  "newPriceRow i input inputRate outputRate cacheReadRate webSearchFee from to creator now =
     \<lparr>pv_id = i, pv_connection = pri_connectionID input, pv_model = pri_modelID input, pv_input = inputRate,
      pv_output = outputRate, pv_cacheRead = cacheReadRate, pv_webSearch = webSearchFee, pv_source = pri_source input,
      pv_from = from, pv_to = to, pv_weekStart = pri_weekStart input, pv_weekEnd = pri_weekEnd input,
      pv_createdBy = Some creator, pv_created = now\<rparr>"

definition managerOnly :: "auth_user \<Rightarrow> 'a tx \<Rightarrow> 'a tx" where
  "managerOnly actor k = guardT (ua_role actor \<noteq> ''owner'' \<and> ua_role actor \<noteq> ''admin'') ErrDenied k"

definition createPriceTx :: "auth_user \<Rightarrow> price_input \<Rightarrow> (auth_user \<times> string) tx" where
  "createPriceTx actor0 input =
     bindT (liftT (parseUSDAs ''input price: '' (pri_inputUSD input))) (\<lambda>inputRate.
     bindT (liftT (parseUSDAs ''output price: '' (pri_outputUSD input))) (\<lambda>outputRate.
     bindT (liftT (parseOptionalUSD ''cache read price: '' (pri_cacheReadUSD input))) (\<lambda>cacheReadRate.
     bindT (liftT (parseOptionalUSD ''web search price: '' (pri_webSearchUSD input))) (\<lambda>webSearchFee.
     guardT (\<not> validWeeklyWindow (pri_weekStart input) (pri_weekEnd input))
       (ErrMsg ''weekly UTC window must be a half-open minute range within one week'') (
     bindT (liftT (parseInterval input)) (\<lambda>(from, to).
     guardT (pri_connectionID input = [] \<or> pri_modelID input = [] \<or> pri_source input = [] \<or> length (pri_connectionID input) > 200 \<or>
             length (pri_modelID input) > 200 \<or> length (pri_source input) > 500)
       (ErrMsg ''connection, model, and source are required'') (
     bindT (refreshUsageActor actor0) (\<lambda>actor.
     managerOnly actor (
     thenT (closePrevious actor input from) (
     bindT (queryT (\<lambda>s. list_ex (overlapsVersion input from to) (price_versions s))) (\<lambda>overlaps.
     guardT overlaps (ErrMsg ''price interval overlaps an existing version'') (
     bindT randT (\<lambda>i.
     bindT nowT (\<lambda>now.
     thenT (insertPrice (newPriceRow (''prc_'' @ i) input inputRate outputRate cacheReadRate webSearchFee from to (ua_id actor) now)) (
     thenT (insertAudit (ua_id actor) ''price.create'' ''price'' (''prc_'' @ i)
              [(''connection_id'', JStr (pri_connectionID input)), (''model_id'', JStr (pri_modelID input)), (''source'', JStr (pri_source input))]) (
     thenT commitT (returnT (actor, ''prc_'' @ i))))))))))))))))))"

definition GetPrice :: "auth_user \<Rightarrow> string \<Rightarrow> price_version tx" where
  "GetPrice actor0 i =
     bindT (refreshUsageActor actor0) (\<lambda>actor.
     managerOnly actor (
     bindT (oneT ErrNotFound price_versions (\<lambda>p. pv_id p = i)) (\<lambda>p. returnT (scanPrice p))))"

definition CreatePrice :: "auth_user \<Rightarrow> price_input \<Rightarrow> world \<Rightarrow> world \<Rightarrow> store \<Rightarrow> (goerr + price_version) \<times> store" where
  "CreatePrice actor input w w' s =
     (case atomicT (createPriceTx actor input) w s of
        (Inl e, s') \<Rightarrow> (Inl e, s')
      | (Inr (a, i), s') \<Rightarrow> autoT (GetPrice a i) w' s')"

section \<open>Listing\<close>

definition priceListPage :: "price_row list \<Rightarrow> string \<Rightarrow> string + price_row list \<times> string" where
  "priceListPage rows cursor =
     (case decodeCursor cursor of
        Inl e \<Rightarrow> Inl e
      | Inr (before, beforeID) \<Rightarrow>
          (case cutPage 50 (pageRows priceOrder 50 (if cursor \<noteq> [] then Some (before, beforeID) else None) rows) of
             (items, None) \<Rightarrow> Inr (items, [])
           | (items, Some p) \<Rightarrow> Inr (items, encodeCursor (parsedMillis (prv_effectiveFrom (scanPrice p))) (pv_id p))))"

definition ListPrices :: "auth_user \<Rightarrow> string \<Rightarrow> (price_version list \<times> string) tx" where
  "ListPrices actor0 cursor =
     bindT (refreshUsageActor actor0) (\<lambda>actor.
     managerOnly actor (
     bindT (liftT (decodeCursor cursor)) (\<lambda>_.
     bindT (queryT price_versions) (\<lambda>rows.
     bindT (liftT (priceListPage rows cursor)) (\<lambda>(items, nextCur).
       returnT (map scanPrice items, nextCur))))))"

section \<open>Costs are exact and bounded by the estimate\<close>

lemma ceilCost_mono: "0 \<le> t \<Longrightarrow> t \<le> t' \<Longrightarrow> 0 \<le> r \<Longrightarrow> r \<le> r' \<Longrightarrow> ceilCost t r \<le> ceilCost t' r'"
  unfolding ceilCost_def by (intro zdiv_mono1 add_right_mono mult_mono) simp_all

lemma ceil_split: "ceilCost a r + ceilCost b r \<le> ceilCost (a + b) r + 1"
proof -
  have lo: "k * (q div k) \<le> q" and hi: "q < k * (q div k) + k" if "0 < k" for k q :: int
    using that pos_mod_sign [of k q] pos_mod_bound [of k q] mult_div_mod_eq [of k q] by linarith+
  have "(x + 999999) div 1000000 + (y + 999999) div 1000000 \<le> (x + y + 999999) div 1000000 + (1 :: int)" for x y
  proof -
    define A B C where "A = (x + 999999) div 1000000" and "B = (y + 999999) div 1000000" and "C = (x + y + 999999) div (1000000 :: int)"
    have "1000000 * A \<le> x + 999999" "1000000 * B \<le> y + 999999" "x + y + 999999 < 1000000 * C + 1000000"
      unfolding A_def B_def C_def by (rule lo, simp, rule lo, simp, rule hi, simp)
    then show ?thesis unfolding A_def [symmetric] B_def [symmetric] C_def [symmetric] by linarith
  qed
  from this [of "a * r" "b * r"] show ?thesis by (simp add: ceilCost_def algebra_simps)
qed

lemma calculateCacheAwareCost_Some:
  assumes "calculateCacheAwareCost i out c ri ro rc = Inr (Some cost)"
  obtains u h g where "0 \<le> i" "0 \<le> out" "0 \<le> c" "c \<le> i" "tokenCost (i - c) ri = Inr u" "tokenCost out ro = Inr g"
    "if c > 0 then \<exists>r. rc = Some r \<and> tokenCost c r = Inr h else h = 0"
    "cost = u + h + g" "0 \<le> cost" "cost \<le> MaxInt64"
proof -
  from assms obtain u h g where
    b: "0 \<le> i" "0 \<le> out" "0 \<le> c" "c \<le> i" "\<not> (c > 0 \<and> rc = None)"
    and u: "tokenCost (i - c) ri = Inr u" and g: "tokenCost out ro = Inr g"
    and h: "(if c > 0 then tokenCost c (the rc) else Inr 0) = Inr h"
    and a: "checkedAdd [u, h, g] = Some cost"
    unfolding calculateCacheAwareCost_def by (auto split: if_splits sum.splits option.splits)
  have h0: "0 \<le> h \<and> h \<le> MaxInt64" using h tokenCost_nonneg by (auto simp: MaxInt64_def split: if_splits)
  note nn = tokenCost_nonneg [OF u] h0 tokenCost_nonneg [OF g]
  then have "cost = u + h + g" "cost \<le> MaxInt64"
    using a checkedAdd_all_nonneg [of "[u, h, g]"] by (auto split: if_splits)
  moreover have "if c > 0 then \<exists>r. rc = Some r \<and> tokenCost c r = Inr h else h = 0"
    using h b by (auto split: if_splits)
  ultimately show thesis using that b u g nn by simp
qed

lemma tokenCost_le_ceil: "tokenCost t r = Inr c \<Longrightarrow> 0 \<le> t \<and> 0 \<le> r \<and> c \<le> ceilCost t r"
proof -
  assume a: "tokenCost t r = Inr c"
  then have nn: "0 \<le> t" "0 \<le> r" by (auto simp: tokenCost_def split: if_splits)
  then have "0 \<le> ceilCost t r" by (simp add: ceilCost_def pos_imp_zdiv_nonneg_iff)
  then show ?thesis using a nn tokenCost_cases [OF nn] by (auto split: if_splits)
qed

section \<open>At most one version applies\<close>

definition weekContains :: "int option \<Rightarrow> int option \<Rightarrow> int \<Rightarrow> bool" where
  "weekContains start stop m = (case start of None \<Rightarrow> True
     | Some a \<Rightarrow> a \<le> m \<and> (case stop of None \<Rightarrow> False | Some b \<Rightarrow> b > m))"

text \<open>Two versions collide when some instant and some minute of the week lie in both.\<close>

definition pricesCollide :: "price_row \<Rightarrow> price_row \<Rightarrow> bool" where
  "pricesCollide p q \<longleftrightarrow>
     pv_connection p = pv_connection q \<and> pv_model p = pv_model q \<and>
     (case pv_to q of None \<Rightarrow> True | Some t \<Rightarrow> pv_from p < t) \<and> (case pv_to p of None \<Rightarrow> True | Some t \<Rightarrow> pv_from q < t) \<and>
     weeksOverlap p (pv_weekStart q) (pv_weekEnd q)"

definition disjointPrices :: "store \<Rightarrow> bool" where
  "disjointPrices s \<longleftrightarrow> sorted_wrt (\<lambda>p q. \<not> pricesCollide p q) (price_versions s) \<and>
     distinct (map pv_id (price_versions s)) \<and>
     list_all (\<lambda>p. priceCheck p \<and> pv_from p < MaxInt64) (price_versions s)"

lemma weeksOverlap_sym:
  "priceCheck p \<Longrightarrow> priceCheck q \<Longrightarrow> weeksOverlap p (pv_weekStart q) (pv_weekEnd q) \<longleftrightarrow> weeksOverlap q (pv_weekStart p) (pv_weekEnd p)"
  by (auto simp: weeksOverlap_def priceCheck_def split: option.splits)

lemma pricesCollide_sym: "priceCheck p \<Longrightarrow> priceCheck q \<Longrightarrow> pricesCollide p q \<longleftrightarrow> pricesCollide q p"
  using weeksOverlap_sym [of p q] unfolding pricesCollide_def by auto

lemma priceApplies_collide:
  assumes "priceApplies c m at p" "priceApplies c m at q"
  shows "pricesCollide p q"
  using assms unfolding priceApplies_def pricesCollide_def weeksOverlap_def Let_def
  by (auto split: option.splits)

lemma disjointPrices_unique:
  assumes "disjointPrices s" "p \<in> set (price_versions s)" "q \<in> set (price_versions s)"
    "priceApplies c m at p" "priceApplies c m at q"
  shows "p = q"
proof (rule ccontr)
  assume "p \<noteq> q"
  obtain i j where ij: "i < length (price_versions s)" "j < length (price_versions s)" "p = price_versions s ! i" "q = price_versions s ! j"
    using assms(2,3) by (auto simp: in_set_conv_nth)
  have ok: "priceCheck p" "priceCheck q" using assms(1-3) by (auto simp: disjointPrices_def list_all_iff)
  have w: "sorted_wrt (\<lambda>p q. \<not> pricesCollide p q) (price_versions s)" using assms(1) by (simp add: disjointPrices_def)
  have c: "pricesCollide p q" "pricesCollide q p"
    using priceApplies_collide [OF assms(4,5)] priceApplies_collide [OF assms(5,4)] by simp_all
  from \<open>p \<noteq> q\<close> ij consider "i < j" | "j < i" by (cases i j rule: linorder_cases) auto
  then show False using w ij c by cases (auto simp: sorted_wrt_iff_nth_less)
qed

lemma firstRow_SomeD: "firstRow rs = Some r \<Longrightarrow> r \<in> set rs"
  by (cases rs) (auto simp: firstRow_def)

lemma priceRowAt_Some: "priceRowAt c m at s = Some p \<Longrightarrow> p \<in> set (price_versions s) \<and> priceApplies c m at p"
  by (auto simp: priceRowAt_def dest!: firstRow_SomeD)

lemma priceRowAt_None: "priceRowAt c m at s = None \<longleftrightarrow> (\<forall>p \<in> set (price_versions s). \<not> priceApplies c m at p)"
proof -
  have "priceRowAt c m at s = None \<longleftrightarrow> set (orderByDesc priceOrder (filter (priceApplies c m at) (price_versions s))) = {}"
    unfolding priceRowAt_def firstRow_def set_empty by (simp split: list.split)
  then show ?thesis by auto
qed

section \<open>Creating a version keeps the versions disjoint\<close>

lemma pricesCollide_shrink:
  "pricesCollide (p\<lparr>pv_to := Some t\<rparr>) q \<Longrightarrow> pv_to p = None \<Longrightarrow> pricesCollide p q"
  "pricesCollide p (q\<lparr>pv_to := Some t\<rparr>) \<Longrightarrow> pv_to q = None \<Longrightarrow> pricesCollide p q"
  by (auto simp: pricesCollide_def weeksOverlap_def split: option.splits)

lemma sorted_wrt_updateWhere:
  assumes "sorted_wrt R xs" "\<And>a b. R a b \<Longrightarrow> R (if p a then f a else a) (if p b then f b else b)"
  shows "sorted_wrt R (updateWhere p f xs)"
  unfolding updateWhere_def sorted_wrt_map by (rule sorted_wrt_mono_rel [OF _ assms(1)]) (rule assms(2))

lemma disjointPrices_audit [simp]: "disjointPrices (audit_events_update f s) = disjointPrices s"
  by (simp add: disjointPrices_def)

lemma closeVersion_keeps: "keepsT disjointPrices (closeVersion actor from i)"
  unfolding keepsT_def okT_def
proof (intro allI impI)
  fix w n s x n' s'
  let ?p = "\<lambda>p. pv_id p = i \<and> pv_to p = None" and ?f = "\<lambda>p. p\<lparr>pv_to := Some from\<rparr>"
  assume inv: "disjointPrices s" and run: "closeVersion actor from i w (n, s) = Inr (x, n', s')"
  then obtain row where s': "s' = audit_events_update (\<lambda>rs. rs @ [row]) (price_versions_update (updateWhere ?p ?f) s)"
    and chk: "list_all (\<lambda>r. ?p r \<longrightarrow> priceCheck (?f r)) (price_versions s)"
    unfolding closeVersion_def statement_defs by (clarsimp simp: tx_inv elim!: tx_elim)
  have a: "sorted_wrt (\<lambda>p q. \<not> pricesCollide p q) (updateWhere ?p ?f (price_versions s))"
    using inv by (intro sorted_wrt_updateWhere) (auto simp: disjointPrices_def dest: pricesCollide_shrink)
  have b: "map pv_id (updateWhere ?p ?f (price_versions s)) = map pv_id (price_versions s)"
    by (rule map_updateWhere) simp
  have c: "list_all (\<lambda>p. priceCheck p \<and> pv_from p < MaxInt64) (updateWhere ?p ?f (price_versions s))"
    using inv chk by (auto simp: disjointPrices_def list_all_iff set_updateWhere)
  show "disjointPrices s'" using a b c inv unfolding s' by (simp add: disjointPrices_def)
qed

lemma closePrevious_keeps: "keepsT disjointPrices (closePrevious actor input from)"
  unfolding closePrevious_def by (intro keeps closeVersion_keeps)

lemma daysBeforeYear_bound: "0 \<le> y \<Longrightarrow> y \<le> 9999 \<Longrightarrow> daysBeforeYear y \<le> 3660000"
proof -
  assume y: "0 \<le> y" "y \<le> 9999"
  have "(y - 1) div 4 \<le> 9998 div 4" "(y - 1) div 400 \<le> 9998 div 400" "(- 1) div 100 \<le> (y - 1) div 100"
    using y by (intro zdiv_mono1; simp)+
  then show ?thesis using y by (simp add: daysBeforeYear_def)
qed

lemma getnum_bounds: "getnum f s = Some (n, r) \<Longrightarrow> 0 \<le> n \<and> n \<le> 99"
proof -
  assume g: "getnum f s = Some (n, r)"
  then obtain a r1 where s: "s = a # r1" "isDigit a" by (auto simp: getnum_def split: list.splits if_splits)
  note a = digitVal_bounds [OF s(2)]
  show ?thesis
  proof (cases r1)
    case Nil
    with g s a show ?thesis by (auto simp: getnum_def split: if_splits)
  next
    case (Cons b r2)
    with g s a digitVal_bounds [of b] show ?thesis by (auto simp: getnum_def split: if_splits)
  qed
qed

lemma bind_SomeE:
  assumes "Option.bind m f = Some v"
  obtains x where "m = Some x" "f x = Some v"
  using assms by (cases m) auto

lemma parseRFC3339_bound:
  assumes "parseRFC3339 s = Some n"
  shows "unixMilliOfNanos n < MaxInt64"
proof -
  from assms obtain y mo d h mi sec nanos off s0 s2 s4 s6 s8 s10 s11 s12 where
    y: "parseYear s = Some (y, s0)" and b: "mo \<le> 12" "h < 24" "mi < 60" "sec < 60"
    and d: "getnum True s4 = Some (d, s6)"
    and fr: "parseFraction s11 = (nanos, s12)" and z: "\<exists>rest. parseZone s12 = Some (off, rest)"
    and n: "n = ((dayOfCivil y mo d - unixEpochDay) * 86400 + h * 3600 + mi * 60 + sec - off) * 1000000000 + nanos"
    unfolding parseRFC3339_def
    by (clarsimp simp: not_le not_less elim!: bind_SomeE split: if_splits prod.splits)
  have yb: "0 \<le> y" "y \<le> 9999"
    using y digitsVal_bounds [of "take 4 s"] by (auto simp: parseYear_def split: if_splits)
  have db: "d \<le> 99" using getnum_bounds [OF d] by simp
  have mb: "daysBeforeMonth l mo \<le> 400" for l by (simp add: daysBeforeMonth_def)
  have ob: "- off \<le> 100000"
    using z by (auto simp: parseZone_def Let_def not_less dest!: getnum_bounds elim!: bind_SomeE split: list.splits if_splits prod.splits)
  have fb: "nanos < 1000000000"
  proof (cases "nanos = 0")
    case True
    then show ?thesis by simp
  next
    case False
    then obtain ds where ds: "nanos = digitsVal 0 (take 9 ds) * 10 ^ (9 - length (take 9 ds))" "list_all isDigit ds"
      using fr by (auto simp: parseFraction_def Let_def list_all_iff split: list.splits if_splits dest: set_takeWhileD)
    have dig: "list_all isDigit (take 9 ds)" using ds(2) by (auto simp: list_all_iff dest: in_set_takeD)
    let ?l = "length (take 9 ds)"
    have "digitsVal 0 (take 9 ds) < 10 ^ ?l" using digitsVal_bounds [OF dig] by simp
    then have "nanos < 10 ^ ?l * 10 ^ (9 - ?l)" unfolding ds(1) by (intro mult_strict_right_mono) simp_all
    also have "\<dots> = 10 ^ 9" by (simp add: power_add [symmetric])
    finally show ?thesis by simp
  qed
  have "dayOfCivil y mo d \<le> 3661000"
    using daysBeforeYear_bound [OF yb] mb [of "isLeap y"] db b(1) by (simp add: dayOfCivil_def)
  then have "n < 1000000 * MaxInt64" using n b ob fb by (simp add: unixEpochDay_def MaxInt64_def)
  then show ?thesis by (simp add: unixMilliOfNanos_def int_div_less_iff mult.commute)
qed

lemma parseInterval_bound: "parseInterval input = Inr (t0, t1) \<Longrightarrow> t0 < MaxInt64"
  by (auto simp: parseInterval_def parseRFC3339_bound split: option.splits if_splits)

lemma collide_overlaps:
  assumes "pricesCollide p (newPriceRow i input ir outr cr fee t0 t1 creator now)" "pv_from p < MaxInt64"
  shows "overlapsVersion input t0 t1 p"
  using assms by (auto simp: pricesCollide_def overlapsVersion_def newPriceRow_def split: option.splits)

lemma insertPrice_disjoint:
  assumes "disjointPrices s" "\<not> list_ex (overlapsVersion input t0 t1) (price_versions s)" "t0 < MaxInt64"
    and "r = newPriceRow i input ir outr cr fee t0 t1 creator now" "priceCheck r"
    and "\<not> list_ex (\<lambda>p. pv_id p = pv_id r) (price_versions s)"
  shows "disjointPrices (price_versions_update (\<lambda>rs. rs @ [r]) s)"
proof -
  have "\<not> pricesCollide p r" if "p \<in> set (price_versions s)" for p
    using collide_overlaps [of p i input ir outr cr fee t0 t1 creator now] assms that
    by (auto simp: disjointPrices_def list_ex_iff list_all_iff)
  moreover have "pv_from r < MaxInt64" using assms(3,4) by (simp add: newPriceRow_def)
  ultimately show ?thesis using assms(1,5,6)
    by (auto simp: disjointPrices_def sorted_wrt_append list_ex_iff)
qed

lemma createPriceTx_keeps: "keepsT disjointPrices (createPriceTx actor input)"
  unfolding keepsT_def okT_def
proof (intro allI impI)
  fix w n s x n' s'
  assume inv: "disjointPrices s" and "createPriceTx actor input w (n, s) = Inr (x, n', s')"
  then obtain t0 t1 a n1 s1 n2 i ir outr cr fee now row where
    iv: "parseInterval input = Inr (t0, t1)" and cl: "closePrevious a input t0 w (n1, s) = Inr ((), n2, s1)"
    and ov: "\<not> list_ex (overlapsVersion input t0 t1) (price_versions s1)"
    and ck: "priceCheck (newPriceRow (''prc_'' @ i) input ir outr cr fee t0 t1 (ua_id a) now)"
    and fr: "\<not> list_ex (\<lambda>p. pv_id p = pv_id (newPriceRow (''prc_'' @ i) input ir outr cr fee t0 t1 (ua_id a) now)) (price_versions s1)"
    and s': "s' = audit_events_update (\<lambda>rs. rs @ [row]) (price_versions_update
        (\<lambda>rs. rs @ [newPriceRow (''prc_'' @ i) input ir outr cr fee t0 t1 (ua_id a) now]) s1)"
    unfolding createPriceTx_def managerOnly_def statement_defs
    by (clarsimp simp: tx_inv elim!: tx_elim)
  have "disjointPrices s1" by (rule keepsT_D [OF closePrevious_keeps inv cl])
  from insertPrice_disjoint [OF this ov parseInterval_bound [OF iv] refl ck fr] show "disjointPrices s'"
    unfolding s' by simp
qed

section \<open>Properties\<close>

text \<open>
  (C30) No instant has two prices: \<^verbatim>\<open>CreatePrice\<close> keeps the versions of every connection and
  model disjoint (no two share an instant and a minute of the week), keeps their ids unique and
  their rows valid, whether it succeeds or fails and whatever the database and the clock do.
\<close>

theorem CreatePrice_keeps_disjoint:
  assumes "disjointPrices s"
  shows "disjointPrices (snd (CreatePrice actor input w w' s))"
proof (cases "atomicT (createPriceTx actor input) w s")
  case (Pair x s1)
  have s1: "disjointPrices s1" using keepsT_atomic [OF createPriceTx_keeps assms, of actor input w] Pair by simp
  have "keepsT disjointPrices (GetPrice a i)" for a i
    unfolding GetPrice_def managerOnly_def refreshUsageActor_def by (intro keeps)
  then have "disjointPrices (snd (autoT (GetPrice a i) w' s1))" for a i using s1 by (rule keepsT_auto)
  with s1 Pair show ?thesis by (cases x) (auto simp: CreatePrice_def split: prod.splits)
qed

definition samplePrice :: price_input where
  "samplePrice = \<lparr>pri_connectionID = ''con_1'', pri_modelID = ''m'', pri_inputUSD = ''1'', pri_outputUSD = ''2'',
     pri_cacheReadUSD = None, pri_webSearchUSD = None, pri_source = ''src'', pri_effectiveFrom = ''2024-01-01T00:00:00Z'',
     pri_effectiveTo = [], pri_weekStart = None, pri_weekEnd = None\<rparr>"

definition samplePriceRow :: "string \<Rightarrow> int \<Rightarrow> int option \<Rightarrow> price_row" where
  "samplePriceRow i from to = newPriceRow i samplePrice 1000000000 2000000000 None None from to ''usr_0'' 0"

definition samplePriceStore :: store where
  "samplePriceStore = sampleStore\<lparr>price_versions :=
     [samplePriceRow ''prc_1'' 1000 (Some 2000), samplePriceRow ''prc_2'' 2000 None]\<rparr>"

lemmas sample_price_defs = samplePriceStore_def samplePriceRow_def samplePrice_def newPriceRow_def

lemma samplePriceStore_disjoint: "disjointPrices samplePriceStore"
  by (simp add: disjointPrices_def sample_price_defs pricesCollide_def priceCheck_def nonnegOpt_def MaxInt64_def)

theorem CreatePrice_keeps_disjoint_witness:
  "disjointPrices (snd (CreatePrice (sampleActor ''usr_0'') samplePrice calmWorld calmWorld samplePriceStore))"
  by (rule CreatePrice_keeps_disjoint [OF samplePriceStore_disjoint])

text \<open>
  (C31) The price in force is unambiguous: while the versions are disjoint, \<^verbatim>\<open>priceAt\<close> (which takes
  the newest matching version) returns a version exactly when one applies at the instant, it is the
  only one that applies, and so the order of the query cannot matter.
\<close>

theorem priceAt_unique:
  assumes "disjointPrices s"
  shows "priceRowAt c m at s = Some p \<longleftrightarrow>
    p \<in> set (price_versions s) \<and> priceApplies c m at p \<and>
    (\<forall>q \<in> set (price_versions s). priceApplies c m at q \<longrightarrow> q = p)"
proof
  assume "priceRowAt c m at s = Some p"
  from priceRowAt_Some [OF this] show "p \<in> set (price_versions s) \<and> priceApplies c m at p \<and>
      (\<forall>q \<in> set (price_versions s). priceApplies c m at q \<longrightarrow> q = p)"
    using disjointPrices_unique [OF assms] by blast
next
  assume a: "p \<in> set (price_versions s) \<and> priceApplies c m at p \<and>
      (\<forall>q \<in> set (price_versions s). priceApplies c m at q \<longrightarrow> q = p)"
  then obtain q where "priceRowAt c m at s = Some q" using priceRowAt_None [of c m at s] by auto
  with priceRowAt_Some [OF this] a show "priceRowAt c m at s = Some p" by auto
qed

theorem priceAt_unique_witness:
  "priceRowAt ''con_1'' ''m'' 1500 samplePriceStore = Some (samplePriceRow ''prc_1'' 1000 (Some 2000))"
  using priceAt_unique [OF samplePriceStore_disjoint, of "''con_1''" "''m''" 1500 "samplePriceRow ''prc_1'' 1000 (Some 2000)"]
  by (simp add: sample_price_defs priceApplies_def Let_def)

text \<open>
  (C32) As long as an attempt uses no more input and output tokens than were estimated for it, its cost
  without a web-search fee exceeds the estimate by at most one nano-dollar, for any split of the input
  into cached and uncached tokens: the estimate prices all input at the conservative rate. (The extra
  nano-dollar is real: the two parts of the input are rounded up separately.) Assumed: both rounded parts of
  the estimate are below 2 to the 64, where \<^verbatim>\<open>tokenCost\<close> would wrap. An attempt that uses more tokens
  than estimated can cost more.
\<close>

theorem cost_within_estimate:
  assumes "calculateCacheAwareCost i out c ri ro rc = Inr (Some cost)"
    and "i \<le> i'" "out \<le> out'" "0 \<le> ri" "0 \<le> ro" "\<And>r. rc = Some r \<Longrightarrow> 0 \<le> r"
    and "ceilCost i' (ConservativeInputRate ri rc) < 2 ^ 64" "ceilCost out' ro < 2 ^ 64"
    and "CalculateCost i' out' (ConservativeInputRate ri rc) ro = Inr estimate"
  shows "cost \<le> estimate + 1"
proof -
  let ?R = "ConservativeInputRate ri rc"
  from assms(1) obtain u h g where b: "0 \<le> i" "0 \<le> out" "0 \<le> c" "c \<le> i"
    and u: "tokenCost (i - c) ri = Inr u" and g: "tokenCost out ro = Inr g"
    and h: "if c > 0 then \<exists>r. rc = Some r \<and> tokenCost c r = Inr h else h = 0" and cost: "cost = u + h + g"
    by (rule calculateCacheAwareCost_Some)
  have R: "ri \<le> ?R" "0 \<le> ?R" "\<And>r. rc = Some r \<Longrightarrow> r \<le> ?R"
    using assms(4) by (auto simp: ConservativeInputRate_def split: option.splits)
  have "u \<le> ceilCost (i - c) ?R"
    using tokenCost_le_ceil [OF u] ceilCost_mono [of "i - c" "i - c" ri ?R] R(1) by simp
  moreover have "h \<le> ceilCost c ?R"
  proof (cases "c > 0")
    case True
    then obtain r where r: "rc = Some r" "tokenCost c r = Inr h" using h by auto
    show ?thesis using tokenCost_le_ceil [OF r(2)] ceilCost_mono [of c c r ?R] R(3) [OF r(1)] by simp
  next
    case False
    then show ?thesis using h b by (simp add: ceilCost_def)
  qed
  moreover have "ceilCost (i - c) ?R + ceilCost c ?R \<le> ceilCost i ?R + 1" using ceil_split [of "i - c" ?R c] by simp
  moreover have "ceilCost i ?R \<le> ceilCost i' ?R" using b assms(2) R(2) by (intro ceilCost_mono) simp_all
  moreover have "g \<le> ceilCost out' ro"
    using tokenCost_le_ceil [OF g] ceilCost_mono [of out out' ro ro] assms(3) by simp
  moreover have "estimate = ceilCost i' ?R + ceilCost out' ro"
  proof -
    have nn: "0 \<le> i'" "0 \<le> out'" using b assms(2,3) by simp_all
    have pos: "0 \<le> ceilCost i' ?R" "0 \<le> ceilCost out' ro"
      using nn R(2) assms(5) by (simp_all add: ceilCost_def pos_imp_zdiv_nonneg_iff)
    from assms(9) obtain x y where x: "tokenCost i' ?R = Inr x" and y: "tokenCost out' ro = Inr y"
      and le: "\<not> x > wrap64 (MaxInt64 - y)" and e: "estimate = wrap64 (x + y)"
      by (auto simp: CalculateCost_def split: sum.splits if_splits)
    have xy: "x = ceilCost i' ?R" "y = ceilCost out' ro"
      using x y tokenCost_cases [OF nn(1) R(2)] tokenCost_cases [OF nn(2) assms(5)] assms(7,8) by (auto split: if_splits)
    note bx = tokenCost_nonneg [OF x] tokenCost_nonneg [OF y]
    then have "wrap64 (MaxInt64 - y) = MaxInt64 - y" by (simp add: int64_range_def int64_limits)
    with le bx have "wrap64 (x + y) = x + y" by (simp add: int64_range_def int64_limits)
    with e xy show ?thesis by simp
  qed
  ultimately show ?thesis using cost by simp
qed

theorem cost_within_estimate_witness:
  "\<exists>cost estimate. calculateCacheAwareCost 2 0 1 1 0 (Some 1) = Inr (Some cost) \<and>
     CalculateCost 2 0 (ConservativeInputRate 1 (Some 1)) 0 = Inr estimate \<and> cost \<le> estimate + 1 \<and> cost = 2 \<and> estimate = 1"
proof -
  have t: "tokenCost 1 1 = Inr 1" "tokenCost 2 1 = Inr 1" "tokenCost 0 0 = Inr 0"
    by (simp_all add: tokenCost_cases ceilCost_def MaxInt64_def)
  have c: "calculateCacheAwareCost 2 0 1 1 0 (Some 1) = Inr (Some 2)"
    by (simp add: calculateCacheAwareCost_def t checkedAdd_def wrap64_def int64_limits)
  have e: "CalculateCost 2 0 (ConservativeInputRate 1 (Some 1)) 0 = Inr 1"
    by (simp add: CalculateCost_def ConservativeInputRate_def t wrap64_def int64_limits)
  have "2 \<le> (1 :: int) + 1"
    by (rule cost_within_estimate [OF c _ _ _ _ _ _ _ e]) (simp_all add: ceilCost_def ConservativeInputRate_def)
  with c e show ?thesis by blast
qed

end
