(* ===== verification/Admission.thy ===== *)
theory Admission
  imports Pricing
begin

text \<open>
  \<^verbatim>\<open>usage/admission.go\<close>: admitting an attempt. One transaction checks the key, its grants and
  the routed target, prices the estimate, asks every matching policy and books the plans, the
  request, the attempt and an outbox event, or fails and leaves nothing behind.
\<close>

section \<open>Input\<close>

record admission =
  ad_requestID :: string
  ad_attemptID :: string
  ad_ordinal :: int
  ad_admittedAt :: string

definition normalizeAdmission :: "admission_input \<Rightarrow> admission_input" where
  "normalizeAdmission i =
     i\<lparr>ai_targetOperation := (if ai_targetOperation i = [] then ai_operation i else ai_targetOperation i),
       ai_targetDialect := (if ai_targetDialect i = [] then ai_dialect i else ai_targetDialect i),
       ai_rejectedCandidatesJSON :=
         (if ai_rejectedCandidatesJSON i = [] \<or> ai_rejectedCandidatesJSON i = ''null'' then ''[]'' else ai_rejectedCandidatesJSON i)\<rparr>"

definition invalidAdmission :: "admission_input \<Rightarrow> bool" where
  "invalidAdmission i \<longleftrightarrow>
     ai_keyID i = [] \<or> ai_connectionID i = [] \<or> ai_modelID i = [] \<or> ai_operation i = [] \<or> ai_targetOperation i = [] \<or>
     ai_scope i = [] \<or> ai_dialect i = [] \<or> ai_targetDialect i = [] \<or> length (ai_keyID i) > 200 \<or> length (ai_connectionID i) > 200 \<or>
     length (ai_modelID i) > 200 \<or> length (ai_operation i) > 100 \<or> length (ai_targetOperation i) > 300 \<or> length (ai_scope i) > 100 \<or>
     length (ai_dialect i) > 50 \<or> length (ai_targetDialect i) > 50 \<or> length (ai_selectionReason i) > 500 \<or>
     length (ai_rejectedCandidatesJSON i) > 16384 \<or> length (ai_requiredPriceVersionID i) > 200 \<or>
     (case ai_quotedPriceVersionID i of None \<Rightarrow> False | Some q \<Rightarrow> ai_priceQuoteAt i \<le> 0 \<or> length q > 200) \<or>
     ai_priceQuoteAt i < 0 \<or> ai_requireFreePrice i \<and> ai_requiredPriceVersionID i = [] \<or>
     \<not> json_Valid (ai_rejectedCandidatesJSON i) \<or> ai_bodyBytes i < 0 \<or> ai_batchItems i < 0 \<or> ai_requestToolCount i < 0 \<or>
     ai_webSearchMaxCalls i < 0 \<or> ai_webSearchMaxCalls i > 4 \<or> ai_estimatedInputTokens i < 0 \<or> ai_estimatedOutputTokens i < 0"

section \<open>Grants\<close>

primrec stringContains :: "string list \<Rightarrow> string \<Rightarrow> bool" where
  "stringContains [] target = False"
| "stringContains (v # vs) target = (if v = target then True else stringContains vs target)"

lemma stringContains_iff [simp]: "stringContains vs target \<longleftrightarrow> target \<in> set vs"
  by (induction vs) auto

primrec modelAllowed :: "string list \<Rightarrow> string \<Rightarrow> bool" where
  "modelAllowed [] model = False"
| "modelAllowed (pattern # patterns) model =
     (if path_Match pattern model = Some True then True else modelAllowed patterns model)"

lemma modelAllowed_iff: "modelAllowed patterns model \<longleftrightarrow> (\<exists>p \<in> set patterns. path_Match p model = Some True)"
  by (induction patterns) auto

text \<open>
  The six JSON lists are decoded in order and the first that does not decode is the error; then
  the key must grant scope, connection and model, and so must the user unless unrestricted.
\<close>

definition admissionGranted ::
  "admission_input \<Rightarrow> bool \<Rightarrow> string \<Rightarrow> string \<Rightarrow> string \<Rightarrow> string \<Rightarrow> string \<Rightarrow> string \<Rightarrow> bool option" where
  "admissionGranted input unrestricted keyScopesJSON keyModelsJSON keyConnectionsJSON userScopesJSON userModelsJSON userConnectionsJSON =
     Option.bind (unmarshalStrings keyScopesJSON) (\<lambda>keyScopes.
     Option.bind (unmarshalStrings keyModelsJSON) (\<lambda>keyModels.
     Option.bind (unmarshalStrings keyConnectionsJSON) (\<lambda>keyConnections.
     Option.bind (unmarshalStrings userScopesJSON) (\<lambda>userScopes.
     Option.bind (unmarshalStrings userModelsJSON) (\<lambda>userModels.
     Option.bind (unmarshalStrings userConnectionsJSON) (\<lambda>userConnections.
       Some (if \<not> stringContains keyScopes (ai_scope input) \<or> \<not> stringContains keyConnections (ai_connectionID input) \<or>
                \<not> modelAllowed keyModels (ai_modelID input)
             then False
             else unrestricted \<or> stringContains userScopes (ai_scope input) \<and>
                  stringContains userConnections (ai_connectionID input) \<and> modelAllowed userModels (ai_modelID input))))))))"

definition activeKey :: "string \<Rightarrow> int \<Rightarrow> store \<Rightarrow> (key_row \<times> user_row) option" where
  "activeKey keyID effective s =
     Option.bind (find (\<lambda>k. ak_id k = keyID \<and> ak_state k = ''active'' \<and>
         (case ak_expires k of None \<Rightarrow> True | Some e \<Rightarrow> e > effective)) (api_keys s)) (\<lambda>k.
       map_option (Pair k) (find (\<lambda>u. us_id u = ak_owner k \<and> us_status u = ''active'') (users s)))"

definition authorizeKey :: "admission_input \<Rightarrow> int \<Rightarrow> string tx" where
  "authorizeKey input effective =
     bindT (queryT (activeKey (ai_keyID input) effective)) (\<lambda>row.
     bindT (optionT ErrDenied row) (\<lambda>(k, u).
     bindT (optionT (ErrMsg ''invalid grants'') (admissionGranted input (us_unrestricted u) (ak_scopes k) (ak_models k) (ak_connections k)
              (us_scopes u) (us_models u) (us_connections u))) (\<lambda>allowed.
     guardT (\<not> allowed) ErrDenied (returnT (ak_owner k)))))"

text \<open>The routed target is still the one the router chose: revisions, ids and switches.\<close>

definition targetCurrent :: "admission_input \<Rightarrow> store \<Rightarrow> bool" where
  "targetCurrent i s =
     list_ex (\<lambda>m. pm_id m = ai_modelID i \<and> pm_revision m = ai_modelRevision i \<and> pm_active m \<and>
       list_ex (\<lambda>t. pt_model t = pm_id m \<and> pt_enabled t \<and>
         list_ex (\<lambda>u. um_id u = pt_upstream t \<and> um_id u = ai_upstreamModelRecordID i \<and> um_upstream u = ai_upstreamModelID i \<and> um_active u \<and>
           list_ex (\<lambda>c. pc_id c = um_connection u \<and> pc_id c = ai_connectionID i \<and> pc_enabled c \<and> pc_revision c = ai_connectionRevision i)
             (provider_connections s)) (upstream_models s)) (public_model_targets s)) (public_models s)"

definition checkTarget :: "admission_input \<Rightarrow> unit tx" where
  "checkTarget input =
     (if ai_upstreamModelRecordID input = [] then returnT ()
      else mapErrT (\<lambda>_. ErrDenied) (bindT (queryT (targetCurrent input)) (\<lambda>current. guardT (\<not> current) ErrDenied (returnT ()))))"

definition nextOrdinal :: "string \<Rightarrow> store \<Rightarrow> int" where
  "nextOrdinal requestID s = foldr max (map at_ordinal (filter (\<lambda>a. at_request a = requestID) (attempts s))) 0 + 1"

definition requestOrdinal :: "admission_input \<Rightarrow> bool \<Rightarrow> string \<Rightarrow> string \<Rightarrow> int tx" where
  "requestOrdinal input first requestID ownerID =
     (if first then returnT 1
      else bindT (oneT ErrNotFound requests (\<lambda>r. rq_id r = requestID)) (\<lambda>r.
           guardT (rq_key r \<noteq> ai_keyID input \<or> rq_owner r \<noteq> ownerID \<or> rq_model r \<noteq> ai_modelID input \<or> rq_operation r \<noteq> ai_operation input \<or>
                   rq_dialect r \<noteq> ai_dialect input \<or> rq_state r \<noteq> ''in_progress'') ErrDenied (
           queryT (nextOrdinal requestID))))"

definition matchingPolicies :: "string \<Rightarrow> string \<Rightarrow> string \<Rightarrow> store \<Rightarrow> runtime_policy list" where
  "matchingPolicies userID keyID connectionID s =
     map runtimePolicy (orderBy lp_id (filter (\<lambda>p. lp_enabled p \<and>
       (lp_scopeKind p = ''instance'' \<and> lp_scopeID p = [] \<or> lp_scopeKind p = ''user'' \<and> lp_scopeID p = userID \<or>
        lp_scopeKind p = ''key'' \<and> lp_scopeID p = keyID \<or> lp_scopeKind p = ''connection'' \<and> lp_scopeID p = connectionID))
       (limit_policies s)))"

text \<open>The first policy of the list whose metric needs a bound the request does not have.\<close>

definition unboundedDenial :: "admission_input \<Rightarrow> runtime_policy list \<Rightarrow> goerr option" where
  "unboundedDenial input policies =
     (case (if ai_enforceOutputBound input \<and> \<not> ai_outputBounded input
            then find (\<lambda>p. rp_metric p \<in> {''tokens'', ''output_tokens'', ''spend''}) policies else None) of
        Some p \<Rightarrow> Some (Denial (rp_id p) (rp_metric p) ''an explicit output token limit is required by the active policy'' None)
      | None \<Rightarrow>
          map_option (\<lambda>p. Denial (rp_id p) (rp_metric p) ''a bounded input token estimate is required by the active policy'' None)
            (if ai_enforceInputBound input \<and> \<not> ai_inputBounded input
             then find (\<lambda>p. rp_metric p \<in> {''tokens'', ''spend''}) policies else None))"

section \<open>The estimate\<close>

definition estimateCost :: "admission_input \<Rightarrow> price_version \<Rightarrow> string + int option" where
  "estimateCost input price =
     (if ai_snapshotPriceOnly input then Inr None
      else case CalculateCost (ai_estimatedInputTokens input) (ai_estimatedOutputTokens input)
                  (ConservativeInputRate (prv_inputNanos price) (prv_cacheReadNanos price)) (prv_outputNanos price) of
             Inl e \<Rightarrow> Inl e
           | Inr cost \<Rightarrow>
               if ai_webSearchMaxCalls input > 0 then
                 (if prv_cacheReadNanos price \<noteq> None
                  then addWebSearchCost (Some cost) (prv_webSearchNanos price) (ai_webSearchMaxCalls input) else Inr None)
               else Inr (Some cost))"

definition notFree :: "admission_input \<Rightarrow> price_version \<Rightarrow> int \<Rightarrow> bool" where
  "notFree input price at \<longleftrightarrow>
     prv_id price \<noteq> ai_requiredPriceVersionID input \<or>
     \<not> VerifiedFreePrice (prv_inputNanos price) (prv_outputNanos price) (prv_cacheReadNanos price) (prv_source price) (prv_created price) at \<or>
     ai_webSearchMaxCalls input > 0 \<and> prv_webSearchNanos price \<noteq> Some 0"

text \<open>The price version the attempt is booked under and the estimated cost, if both are known.\<close>

definition admissionPrice :: "admission_input \<Rightarrow> int \<Rightarrow> (string \<times> int option) tx" where
  "admissionPrice input effective =
     (if ai_priceUnavailable input then guardT (ai_requireFreePrice input) ErrDenied (returnT ([], None))
      else
        let at = (case ai_quotedPriceVersionID input of None \<Rightarrow> effective | Some _ \<Rightarrow> ai_priceQuoteAt input) in
        bindT (priceAt (ai_connectionID input) (ai_modelID input) at) (\<lambda>row.
        guardT (case ai_quotedPriceVersionID input of None \<Rightarrow> False
                | Some q \<Rightarrow> (case row of Some price \<Rightarrow> prv_id price \<noteq> q | None \<Rightarrow> q \<noteq> [])) ErrConflict (
        case row of
          None \<Rightarrow> guardT (ai_requireFreePrice input) ErrDenied (returnT ([], None))
        | Some price \<Rightarrow>
            guardT (ai_requireFreePrice input \<and> notFree input price at) ErrDenied (
            bindT (liftT (estimateCost input price)) (\<lambda>cost. returnT (prv_id price, cost))))))"

definition unpricedDenial :: "runtime_policy list \<Rightarrow> int option \<Rightarrow> goerr option" where
  "unpricedDenial policies estimatedCost =
     (if estimatedCost = None
      then map_option (\<lambda>p. Denial (rp_id p) (rp_metric p) ''a current price is required'' None)
             (find (\<lambda>p. rp_metric p = ''spend'') policies)
      else None)"

section \<open>Booking\<close>

primrec planAll ::
  "runtime_policy list \<Rightarrow> int \<Rightarrow> bool \<Rightarrow> string \<Rightarrow> string \<Rightarrow> admission_input \<Rightarrow> int \<Rightarrow> int option \<Rightarrow> counter_plan list tx" where
  "planAll [] now first requestID attemptID input tokens cost = returnT []"
| "planAll (p # ps) now first requestID attemptID input tokens cost =
     bindT (evaluatePolicy p now first requestID attemptID input tokens cost) (\<lambda>plan.
     bindT (planAll ps now first requestID attemptID input tokens cost) (\<lambda>plans.
       returnT (case plan of None \<Rightarrow> plans | Some q \<Rightarrow> q # plans)))"

definition openRequest :: "admission_input \<Rightarrow> bool \<Rightarrow> string \<Rightarrow> string \<Rightarrow> int \<Rightarrow> unit tx" where
  "openRequest input first requestID ownerID effective =
     (if first then
        insertRequest \<lparr>rq_id = requestID, rq_owner = ownerID, rq_key = ai_keyID input, rq_operation = ai_operation input,
          rq_dialect = ai_dialect input, rq_model = ai_modelID input, rq_state = ''reserved'', rq_started = effective,
          rq_finished = None, rq_streaming = ai_streaming input\<rparr>
      else thenT (updateRequests (\<lambda>r. rq_id r = requestID) (\<lambda>r. r\<lparr>rq_state := ''reserved'', rq_finished := None\<rparr>)) (returnT ()))"

definition newAttempt :: "admission_input \<Rightarrow> string \<Rightarrow> string \<Rightarrow> int \<Rightarrow> string \<Rightarrow> int \<Rightarrow> int option \<Rightarrow> int \<Rightarrow> attempt_row" where
  "newAttempt i attemptID requestID ordinal priceVersionID tokens cost effective =
     \<lparr>at_id = attemptID, at_request = requestID, at_ordinal = ordinal, at_connection = ai_connectionID i, at_model = ai_modelID i,
      at_upstreamRecord = ai_upstreamModelRecordID i, at_upstream = ai_upstreamModelID i, at_connectionRevision = ai_connectionRevision i,
      at_targetDialect = ai_targetDialect i, at_targetOperation = ai_targetOperation i, at_translation = ai_translationApplied i,
      at_toolCount = ai_requestToolCount i,
      at_webMax = (if ai_webSearchMaxCalls i = 0 then None else Some (ai_webSearchMaxCalls i)),
      at_webFetch = ai_webFetchPresent i, at_selection = ai_selectionReason i, at_rejected = ai_rejectedCandidatesJSON i,
      at_price = nullableString priceVersionID,
      at_quoted = (if ai_priceQuoteAt i = 0 then None else Some (ai_priceQuoteAt i)),
      at_state = ''reserved'', at_usage = ''pending'', at_estimatedTokens = tokens, at_estimatedCost = cost,
      at_input = None, at_output = None, at_cacheCreation = None, at_cacheRead = None, at_cache5m = None, at_cache1h = None,
      at_webCalls = None, at_recorded = None, at_restated = None, at_responseTools = 0, at_toolStatus = ''none'',
      at_firstByte = None, at_started = effective, at_finished = None\<rparr>"

definition bookAdmission ::
  "string \<Rightarrow> admission_input \<Rightarrow> bool \<Rightarrow> string \<Rightarrow> string \<Rightarrow> string \<Rightarrow> int \<Rightarrow> string \<Rightarrow> int \<Rightarrow> int option \<Rightarrow> counter_plan list \<Rightarrow> int \<Rightarrow> unit tx" where
  "bookAdmission epoch input first requestID attemptID ownerID ordinal priceVersionID tokens cost plans effective =
     thenT (openRequest input first requestID ownerID effective) (
     thenT (insertAttempt (newAttempt input attemptID requestID ordinal priceVersionID tokens cost effective)) (
     thenT (forT (\<lambda>plan. applyPlan plan requestID attemptID epoch effective) plans) (
     appendOutbox ''attempt.reserved'' requestID attemptID
       [(''owner_user_id'', JStr ownerID), (''key_id'', JStr (ai_keyID input)), (''connection_id'', JStr (ai_connectionID input)),
        (''model_id'', JStr (ai_modelID input)), (''ordinal'', jint ordinal)] effective)))"

definition admitChecked :: "string \<Rightarrow> admission_input \<Rightarrow> admission tx" where
  "admitChecked epoch input =
     bindT (optionT (ErrMsg ''estimated token count is too large'')
              (checkedAdd [ai_estimatedInputTokens input, ai_estimatedOutputTokens input])) (\<lambda>tokens.
     bindT randT (\<lambda>requestPart.
     bindT randT (\<lambda>attemptPart.
     let first = (ai_requestID input = []);
         requestID = (if first then ''req_'' @ requestPart else ai_requestID input);
         attemptID = ''att_'' @ attemptPart in
     bindT (effectiveTimeTxAtLeast epoch (ai_priceQuoteAt input)) (\<lambda>effective.
     bindT (authorizeKey input effective) (\<lambda>ownerID.
     thenT (checkTarget input) (
     bindT (requestOrdinal input first requestID ownerID) (\<lambda>ordinal.
     thenT (requireOutboxCapacity 2) (
     bindT (queryT (matchingPolicies ownerID (ai_keyID input) (ai_connectionID input))) (\<lambda>policies.
     bindT (case unboundedDenial input policies of None \<Rightarrow> returnT () | Some d \<Rightarrow> failT d) (\<lambda>_.
     bindT (admissionPrice input effective) (\<lambda>(priceVersionID, cost).
     bindT (case unpricedDenial policies cost of None \<Rightarrow> returnT () | Some d \<Rightarrow> failT d) (\<lambda>_.
     bindT (planAll policies effective first requestID attemptID input tokens cost) (\<lambda>plans.
     thenT (bookAdmission epoch input first requestID attemptID ownerID ordinal priceVersionID tokens cost plans effective) (
     thenT commitT (
       returnT \<lparr>ad_requestID = requestID, ad_attemptID = attemptID, ad_ordinal = ordinal, ad_admittedAt = timeString effective\<rparr>)))))))))))))))"

definition admitTx :: "string \<Rightarrow> admission_input \<Rightarrow> admission tx" where
  "admitTx epoch input0 =
     (let input = normalizeAdmission input0 in
      guardT (invalidAdmission input) (ErrMsg ''invalid admission input'')
        (admitChecked epoch (input\<lparr>ai_priceUnavailable :=
           (ai_priceUnavailable input \<or> ai_webSearchMaxCalls input > 0 \<and> ai_webFetchPresent input)\<rparr>)))"

definition Admit :: "string \<Rightarrow> admission_input \<Rightarrow> world \<Rightarrow> store \<Rightarrow> (goerr + admission) \<times> store" where
  "Admit epoch input = atomicT (admitTx epoch input)"

section \<open>Progress of an attempt\<close>

definition MarkDispatching :: "string \<Rightarrow> unit tx" where
  "MarkDispatching attemptID =
     bindT (updateAttempts (\<lambda>a. at_id a = attemptID \<and> at_state a = ''reserved'') (\<lambda>a. a\<lparr>at_state := ''dispatching''\<rparr>)) (\<lambda>changed.
       guardT (changed \<noteq> 1) ErrConflict (returnT ()))"

definition MarkStreaming :: "string \<Rightarrow> unit tx" where
  "MarkStreaming attemptID =
     bindT (updateAttempts (\<lambda>a. at_id a = attemptID \<and> at_state a = ''dispatching'') (\<lambda>a. a\<lparr>at_state := ''streaming''\<rparr>)) (\<lambda>changed.
       guardT (changed \<noteq> 1) (wrapErr ''mark streaming: '' ErrConflict) (returnT ()))"

definition debugCounters :: "string \<Rightarrow> (int \<times> int) tx" where
  "debugCounters policyID =
     queryT (\<lambda>s. let rows = filter (\<lambda>q. qp_policy q = policyID) (quota_periods s)
                 in (sum_list (map qp_consumed rows), sum_list (map qp_reserved rows)))"

end
