(* ===== verification/Settlement.thy ===== *)
theory Settlement
  imports Admission
begin

text \<open>
  \<^verbatim>\<open>usage/settlement.go\<close> and \<^verbatim>\<open>usage/repair.go\<close>: how an attempt ends. Settling books the
  actual usage against every reservation, exactly once per idempotency key; cancelling gives the
  reservations back; recovery after a crash and the stale-request repair close what was left
  open; reconciliation replaces unknown usage by known usage.
\<close>

section \<open>Data\<close>

record settlement_input =
  si_idempotencyKey :: string
  si_state :: string
  si_usageStatus :: string
  si_inputTokens :: "int option"
  si_outputTokens :: "int option"
  si_cacheCreationInputTokens :: "int option"
  si_cacheReadInputTokens :: "int option"
  si_cacheCreation5mTokens :: "int option"
  si_cacheCreation1hTokens :: "int option"
  si_costNanos :: "int option"
  si_webSearchCallCount :: "int option"
  si_responseToolCallCount :: int
  si_toolCallStatus :: string
  si_finalRequest :: bool
  si_firstByteAt :: "int option"

record reconciliation_input =
  ri_inputTokens :: "int option"
  ri_outputTokens :: "int option"
  ri_costNanos :: "int option"
  ri_usageStatus :: string
  ri_reason :: string
  ri_idempotencyKey :: string

section \<open>Helpers\<close>

definition nullableValue :: "int option \<Rightarrow> string" where
  "nullableValue v = (case v of None \<Rightarrow> ''null'' | Some n \<Rightarrow> decInt n)"

definition nullableEqual :: "int option \<Rightarrow> int option \<Rightarrow> bool" where
  "nullableEqual stored v \<longleftrightarrow> (stored \<noteq> None) = (v \<noteq> None) \<and> (stored = None \<or> the stored = the v)"

definition nullInt64Value :: "int option \<Rightarrow> int" where
  "nullInt64Value v = (case v of None \<Rightarrow> 0 | Some n \<Rightarrow> n)"

definition nullInt64Pointer :: "int option \<Rightarrow> int option" where
  "nullInt64Pointer v = v"

definition settlementSignature :: "settlement_input \<Rightarrow> string" where
  "settlementSignature i =
     ''state='' @ si_state i @ '';usage='' @ si_usageStatus i @ '';final='' @ (if si_finalRequest i then ''true'' else ''false'') @
     '';input='' @ nullableValue (si_inputTokens i) @ '';output='' @ nullableValue (si_outputTokens i) @
     '';cache_creation='' @ nullableValue (si_cacheCreationInputTokens i) @ '';cache_read='' @ nullableValue (si_cacheReadInputTokens i) @
     '';cache_5m='' @ nullableValue (si_cacheCreation5mTokens i) @ '';cache_1h='' @ nullableValue (si_cacheCreation1hTokens i) @
     '';web_search='' @ nullableValue (si_webSearchCallCount i) @ '';cost='' @ nullableValue (si_costNanos i) @
     '';tools='' @ decInt (si_responseToolCallCount i) @ '';tool_status='' @ si_toolCallStatus i"

definition nullableInt64Sum :: "int option \<Rightarrow> int option \<Rightarrow> string + int option" where
  "nullableInt64Sum left right =
     (case (left, right) of
        (Some a, Some b) \<Rightarrow>
          (case checkedAdd [a, b] of
             None \<Rightarrow> Inl ''settlement token count is too large''
           | Some v \<Rightarrow> if v > maxSafeInteger then Inl ''settlement token count is too large'' else Inr (Some v))
      | _ \<Rightarrow> Inr None)"

definition requestState :: "string \<Rightarrow> string" where
  "requestState attemptState =
     (if attemptState = ''succeeded'' then ''succeeded'' else if attemptState = ''cancelled'' then ''cancelled''
      else if attemptState = ''interrupted_unknown'' then ''interrupted_unknown'' else ''failed'')"

definition calculatedPriceCost ::
  "string \<Rightarrow> int option \<Rightarrow> int option \<Rightarrow> int option \<Rightarrow> int option \<Rightarrow> int option \<Rightarrow> int option tx" where
  "calculatedPriceCost priceID inputTokens outputTokens cacheCreationTokens cacheReadTokens webSearchCalls =
     (if inputTokens = None \<or> outputTokens = None then returnT None
      else if (case cacheCreationTokens of None \<Rightarrow> False | Some c \<Rightarrow> c > 0) then returnT None
      else
        bindT (oneT ErrNoRows price_versions (\<lambda>p. pv_id p = priceID)) (\<lambda>p.
        bindT (liftT (calculateCacheAwareCost (the inputTokens) (the outputTokens) (nullInt64Value cacheReadTokens)
                        (pv_input p) (pv_output p) (pv_cacheRead p))) (\<lambda>cost.
        case webSearchCalls of
          None \<Rightarrow> returnT cost
        | Some calls \<Rightarrow> liftT (addWebSearchCost cost (pv_webSearch p) calls))))"

definition calculatedAttemptCost ::
  "string \<Rightarrow> int option \<Rightarrow> int option \<Rightarrow> int option \<Rightarrow> int option \<Rightarrow> int option \<Rightarrow> int option tx" where
  "calculatedAttemptCost attemptID inputTokens outputTokens cacheCreationTokens cacheReadTokens webSearchCalls =
     bindT (oneT ErrNoRows attempts (\<lambda>a. at_id a = attemptID)) (\<lambda>a.
     case at_price a of
       None \<Rightarrow> returnT None
     | Some priceID \<Rightarrow> calculatedPriceCost priceID inputTokens outputTokens cacheCreationTokens cacheReadTokens webSearchCalls)"

text \<open>The attempt joined with its request.\<close>

definition attemptWithRequest :: "string \<Rightarrow> store \<Rightarrow> (attempt_row \<times> request_row) option" where
  "attemptWithRequest attemptID s =
     Option.bind (find (\<lambda>a. at_id a = attemptID) (attempts s)) (\<lambda>a.
       map_option (Pair a) (find (\<lambda>r. rq_id r = at_request a) (requests s)))"

definition joinedAttempt :: "goerr \<Rightarrow> string \<Rightarrow> (attempt_row \<times> request_row) tx" where
  "joinedAttempt e attemptID = bindT (queryT (attemptWithRequest attemptID)) (optionT e)"

section \<open>Closing and cancelling\<close>

definition closeFailedRequestTx :: "string \<Rightarrow> unit tx" where
  "closeFailedRequestTx requestID =
     bindT nowT (\<lambda>now.
     thenT (deleteLeases (\<lambda>l. cl_kind l = ''request'' \<and> cl_lease l = requestID)) (
     bindT (updateRequests (\<lambda>r. rq_id r = requestID \<and> rq_state r = ''in_progress'')
              (\<lambda>r. r\<lparr>rq_state := ''failed'', rq_finished := Some now\<rparr>)) (\<lambda>changed.
     guardT (changed \<noteq> 1) ErrConflict commitT)))"

definition CloseFailedRequest :: "string \<Rightarrow> world \<Rightarrow> store \<Rightarrow> (goerr + unit) \<times> store" where
  "CloseFailedRequest requestID = atomicT (closeFailedRequestTx requestID)"

definition cancelledPayload :: "string \<Rightarrow> string \<Rightarrow> string \<Rightarrow> string \<Rightarrow> int \<Rightarrow> (string \<times> json) list" where
  "cancelledPayload ownerID keyID modelID connectionID startedAt =
     [(''owner_user_id'', JStr ownerID), (''key_id'', JStr keyID), (''model_id'', JStr modelID),
      (''connection_id'', JStr connectionID), (''started_at'', jint startedAt)]"

definition cancelBeforeDispatchTx :: "string \<Rightarrow> unit tx" where
  "cancelBeforeDispatchTx attemptID =
     bindT (joinedAttempt ErrNoRows attemptID) (\<lambda>(a, r).
     guardT (at_state a \<noteq> ''reserved'') ErrNoRows (
     bindT nowT (\<lambda>now.
     thenT (releaseReservations attemptID now) (
     thenT (deleteLeases (\<lambda>l. cl_kind l = ''attempt'' \<and> cl_lease l = attemptID)) (
     thenT (deleteLeases (\<lambda>l. cl_kind l = ''request'' \<and> cl_lease l = at_request a)) (
     thenT (updateAttempts (\<lambda>x. at_id x = attemptID)
              (\<lambda>x. x\<lparr>at_state := ''cancelled_before_dispatch'', at_usage := ''estimated'', at_finished := Some now\<rparr>)) (
     thenT (updateRequests (\<lambda>x. rq_id x = at_request a) (\<lambda>x. x\<lparr>rq_state := ''cancelled'', rq_finished := Some now\<rparr>)) (
     thenT (appendOutbox ''request.cancelled_before_dispatch'' (at_request a) attemptID
              (cancelledPayload (rq_owner r) (rq_key r) (at_model a) (at_connection a) (at_started a)) now)
       commitT))))))))"

definition CancelBeforeDispatch :: "string \<Rightarrow> world \<Rightarrow> store \<Rightarrow> (goerr + unit) \<times> store" where
  "CancelBeforeDispatch attemptID = atomicT (cancelBeforeDispatchTx attemptID)"

section \<open>Settling\<close>

definition badRange :: "int option \<Rightarrow> bool" where
  "badRange v = (case v of None \<Rightarrow> False | Some n \<Rightarrow> n < 0 \<or> n > maxSafeInteger)"

text \<open>The checks before the transaction, in order.\<close>

definition settlementError :: "settlement_input \<Rightarrow> string option" where
  "settlementError i =
     (if si_idempotencyKey i = [] \<or> \<not> contains [''succeeded'', ''failed'', ''cancelled'', ''interrupted_unknown''] (si_state i) \<or>
         \<not> contains [''provider_reported'', ''estimated'', ''unknown''] (si_usageStatus i)
      then Some ''invalid settlement''
      else if si_responseToolCallCount i < 0 \<or> \<not> contains [''none'', ''completed'', ''incomplete''] (si_toolCallStatus i) \<or>
         si_responseToolCallCount i = 0 \<and> si_toolCallStatus i \<noteq> ''none'' \<or> si_responseToolCallCount i > 0 \<and> si_toolCallStatus i = ''none''
      then Some ''invalid tool call settlement''
      else if badRange (si_inputTokens i) \<or> badRange (si_outputTokens i) \<or> badRange (si_cacheCreationInputTokens i) \<or>
         badRange (si_cacheReadInputTokens i) \<or> badRange (si_cacheCreation5mTokens i) \<or> badRange (si_cacheCreation1hTokens i) \<or>
         (case si_costNanos i of None \<Rightarrow> False | Some c \<Rightarrow> c < 0) \<or>
         (case si_webSearchCallCount i of None \<Rightarrow> False | Some c \<Rightarrow> c < 0 \<or> c > 4)
      then Some ''settlement values cannot be negative''
      else
        let cacheInput = checkedAdd [nullInt64Value (si_cacheCreationInputTokens i), nullInt64Value (si_cacheReadInputTokens i)];
            cacheDetails = checkedAdd [nullInt64Value (si_cacheCreation5mTokens i), nullInt64Value (si_cacheCreation1hTokens i)]
        in if cacheInput = None \<or> cacheDetails = None \<or>
              (si_cacheCreationInputTokens i \<noteq> None \<or> si_cacheReadInputTokens i \<noteq> None) \<and> si_inputTokens i = None \<or>
              (case si_inputTokens i of None \<Rightarrow> False | Some t \<Rightarrow> the cacheInput > t) \<or>
              (si_cacheCreation5mTokens i \<noteq> None \<or> si_cacheCreation1hTokens i \<noteq> None) \<and>
                (si_cacheCreationInputTokens i = None \<or> the cacheDetails \<noteq> nullInt64Value (si_cacheCreationInputTokens i))
           then Some ''invalid cache usage settlement'' else None)"

definition badWebSearch :: "settlement_input \<Rightarrow> int option \<Rightarrow> bool" where
  "badWebSearch i webSearchMax \<longleftrightarrow>
     (let known = (si_state i = ''succeeded'' \<and> si_usageStatus i \<noteq> ''unknown'') in
      webSearchMax = None \<and> si_webSearchCallCount i \<noteq> None \<or>
      webSearchMax \<noteq> None \<and> \<not> known \<and> si_webSearchCallCount i \<noteq> None \<or>
      webSearchMax \<noteq> None \<and> known \<and> (si_webSearchCallCount i = None \<or> the (si_webSearchCallCount i) > the webSearchMax))"

definition replaySettlement :: "string \<Rightarrow> settlement_input \<Rightarrow> bool \<Rightarrow> bool \<Rightarrow> ledger_row \<Rightarrow> unit tx" where
  "replaySettlement attemptID input hasWebSearch combined entry =
     bindT (if si_costNanos input = None \<and> \<not> combined \<and> (\<not> hasWebSearch \<or> si_webSearchCallCount input \<noteq> None)
            then bindT (tryT (calculatedAttemptCost attemptID (si_inputTokens input) (si_outputTokens input)
                   (si_cacheCreationInputTokens input) (si_cacheReadInputTokens input) (si_webSearchCallCount input)))
                 (\<lambda>r. returnT (case r of None \<Rightarrow> None | Some c \<Rightarrow> c))
            else returnT (si_costNanos input)) (\<lambda>cost.
     bindT (liftT (nullableInt64Sum (si_inputTokens input) (si_outputTokens input))) (\<lambda>tokens.
     guardT (\<not> (ul_attempt entry = attemptID \<and> ul_type entry = ''settlement'' \<and> nullableEqual (ul_tokens entry) tokens \<and>
                nullableEqual (ul_cost entry) cost \<and> ul_reason entry = settlementSignature (input\<lparr>si_costNanos := cost\<rparr>)))
       ErrConflict (returnT ())))"

text \<open>One reservation of the settled attempt: uncertain when its units are not known, else booked.\<close>

definition settleQuota :: "string \<Rightarrow> (goerr \<Rightarrow> goerr) \<Rightarrow> held_item \<Rightarrow> int \<Rightarrow> unit tx" where
  "settleQuota noPeriod wrap item actual =
     bindT (optionT (ErrMsg noPeriod) (hi_period item)) (\<lambda>period.
       mapErrT wrap (updateQuotaPeriod (hi_policyID item) period actual (- hi_reserved item)))"

definition settleItem :: "string \<Rightarrow> int option \<Rightarrow> int option \<Rightarrow> int \<Rightarrow> held_item \<Rightarrow> unit tx" where
  "settleItem usageStatus tokenUnits cost now item =
     (case settlementUnits (hi_metric item) tokenUnits cost of (actual, known) \<Rightarrow>
        if usageStatus = ''unknown'' \<or> \<not> known
        then thenT (markReservation (hi_id item) ''uncertain'' now) (returnT ())
        else thenT (if hi_algorithm item = ''token_bucket'' then settleBucket ''bucket settlement overflow'' item actual
                    else settleQuota ''quota reservation has no period'' (wrapErr ''quota reservation state is inconsistent: '') item actual) (
             thenT (markReservation (hi_id item) ''settled'' now) (returnT ())))"

definition settledAttempt :: "settlement_input \<Rightarrow> int \<Rightarrow> attempt_row \<Rightarrow> attempt_row" where
  "settledAttempt i now a =
     a\<lparr>at_state := si_state i, at_usage := si_usageStatus i, at_input := si_inputTokens i, at_output := si_outputTokens i,
       at_cacheCreation := si_cacheCreationInputTokens i, at_cacheRead := si_cacheReadInputTokens i,
       at_cache5m := si_cacheCreation5mTokens i, at_cache1h := si_cacheCreation1hTokens i,
       at_recorded := si_costNanos i, at_restated := si_costNanos i, at_webCalls := si_webSearchCallCount i,
       at_responseTools := si_responseToolCallCount i, at_toolStatus := si_toolCallStatus i,
       at_firstByte := (case si_firstByteAt i of None \<Rightarrow> at_firstByte a | Some t \<Rightarrow> Some t), at_finished := Some now\<rparr>"

definition settledPayload :: "settlement_input \<Rightarrow> attempt_row \<Rightarrow> request_row \<Rightarrow> (string \<times> json) list" where
  "settledPayload i a r =
     cancelledPayload (rq_owner r) (rq_key r) (at_model a) (at_connection a) (at_started a) @
     [(''state'', JStr (si_state i)), (''usage_status'', JStr (si_usageStatus i)), (''input_tokens'', jintOpt (si_inputTokens i)),
      (''output_tokens'', jintOpt (si_outputTokens i)), (''cache_creation_input_tokens'', jintOpt (si_cacheCreationInputTokens i)),
      (''cache_read_input_tokens'', jintOpt (si_cacheReadInputTokens i)),
      (''cache_creation_5m_input_tokens'', jintOpt (si_cacheCreation5mTokens i)),
      (''cache_creation_1h_input_tokens'', jintOpt (si_cacheCreation1hTokens i)),
      (''web_search_call_count'', jintOpt (si_webSearchCallCount i)), (''cost_nanos'', jintOpt (si_costNanos i))]"

definition recordAssessment :: "settlement_input \<Rightarrow> string option \<Rightarrow> string \<Rightarrow> bool \<Rightarrow> int \<Rightarrow> unit tx" where
  "recordAssessment i priceVersionID attemptID hasWebSearch now =
     (case (priceVersionID, si_costNanos i) of
        (Some priceID, Some cost) \<Rightarrow>
          bindT randT (\<lambda>k.
            insertAssessment \<lparr>ca_id = ''ass_'' @ k, ca_attempt = attemptID, ca_price = priceID,
              ca_version = priceCalculationVersion (si_cacheReadInputTokens i \<noteq> None) hasWebSearch, ca_kind = ''recorded'',
              ca_amount = cost, ca_delta = 0, ca_created = now\<rparr>)
      | _ \<Rightarrow> returnT ())"

definition closeAttempt :: "settlement_input \<Rightarrow> attempt_row \<Rightarrow> request_row \<Rightarrow> string \<Rightarrow> int \<Rightarrow> unit tx" where
  "closeAttempt i a r attemptID now =
     thenT (deleteLeases (\<lambda>l. cl_kind l = ''attempt'' \<and> cl_lease l = attemptID)) (
     thenT (if si_finalRequest i then
              thenT (deleteLeases (\<lambda>l. cl_kind l = ''request'' \<and> cl_lease l = at_request a))
                (updateRequests (\<lambda>x. rq_id x = at_request a) (\<lambda>x. x\<lparr>rq_state := requestState (si_state i), rq_finished := Some now\<rparr>))
            else updateRequests (\<lambda>x. rq_id x = at_request a) (\<lambda>x. x\<lparr>rq_state := ''in_progress''\<rparr>))
       (appendOutbox ''attempt.settled'' (at_request a) attemptID (settledPayload i a r) now))"

definition settleFresh :: "string \<Rightarrow> settlement_input \<Rightarrow> bool \<Rightarrow> bool \<Rightarrow> unit tx" where
  "settleFresh attemptID input0 hasWebSearch combined =
     bindT (joinedAttempt ErrNotFound attemptID) (\<lambda>(a, r).
     guardT (\<not> contains [''reserved'', ''dispatching'', ''streaming''] (at_state a)) ErrConflict (
     bindT (case at_price a of
              Some priceID \<Rightarrow>
                if si_costNanos input0 = None \<and> \<not> combined \<and> (\<not> hasWebSearch \<or> si_webSearchCallCount input0 \<noteq> None)
                then calculatedPriceCost priceID (si_inputTokens input0) (si_outputTokens input0) (si_cacheCreationInputTokens input0)
                       (si_cacheReadInputTokens input0) (si_webSearchCallCount input0)
                else returnT (si_costNanos input0)
            | None \<Rightarrow> returnT (si_costNanos input0)) (\<lambda>cost.
     let input = input0\<lparr>si_costNanos := cost\<rparr> in
     bindT randT (\<lambda>ledgerID.
     bindT (liftT (nullableInt64Sum (si_inputTokens input) (si_outputTokens input))) (\<lambda>tokenUnits.
     bindT nowT (\<lambda>ledgerAt.
     thenT (insertLedger \<lparr>ul_id = ''led_'' @ ledgerID, ul_attempt = attemptID, ul_type = ''settlement'', ul_tokens = tokenUnits,
              ul_cost = cost, ul_key = si_idempotencyKey input, ul_actor = None, ul_reason = settlementSignature input, ul_created = ledgerAt\<rparr>) (
     bindT (queryT (heldItems attemptID ''active'')) (\<lambda>items.
     bindT nowT (\<lambda>now.
     thenT (forT (settleItem (si_usageStatus input) tokenUnits cost now) items) (
     thenT (updateAttempts (\<lambda>x. at_id x = attemptID) (settledAttempt input now)) (
     thenT (recordAssessment input (at_price a) attemptID hasWebSearch now) (
     thenT (closeAttempt input a r attemptID now) commitT))))))))))))"

definition settleTx :: "string \<Rightarrow> settlement_input \<Rightarrow> unit tx" where
  "settleTx attemptID input0 =
     (let input = (if si_toolCallStatus input0 = [] then input0\<lparr>si_toolCallStatus := ''none''\<rparr> else input0) in
      case settlementError input of
        Some e \<Rightarrow> failT (ErrMsg e)
      | None \<Rightarrow>
          bindT (oneT ErrNotFound attempts (\<lambda>a. at_id a = attemptID)) (\<lambda>a.
          guardT (badWebSearch input (at_webMax a)) (ErrMsg ''invalid web search settlement'') (
          bindT (rowT usage_ledger (\<lambda>l. ul_key l = si_idempotencyKey input)) (\<lambda>entry.
          case entry of
            Some l \<Rightarrow> replaySettlement attemptID input (at_webMax a \<noteq> None) (at_webMax a \<noteq> None \<and> at_webFetch a) l
          | None \<Rightarrow> settleFresh attemptID input (at_webMax a \<noteq> None) (at_webMax a \<noteq> None \<and> at_webFetch a)))))"

definition Settle :: "string \<Rightarrow> settlement_input \<Rightarrow> world \<Rightarrow> store \<Rightarrow> (goerr + unit) \<times> store" where
  "Settle attemptID input = atomicT (settleTx attemptID input)"

section \<open>Finalizing a request\<close>

definition FinalizeRequestTx :: "string \<Rightarrow> string \<Rightarrow> unit tx" where
  "FinalizeRequestTx requestID state =
     guardT (\<not> contains [''succeeded'', ''failed'', ''cancelled'', ''interrupted_unknown''] state) (ErrMsg ''invalid final request state'') (
     bindT (queryT (\<lambda>s. length (filter (\<lambda>a. at_request a = requestID \<and> at_state a \<in> set activeStates) (attempts s)))) (\<lambda>active.
     guardT (active \<noteq> 0) ErrConflict (
     bindT nowT (\<lambda>now.
     bindT (updateRequests (\<lambda>r. rq_id r = requestID \<and> rq_state r = ''in_progress'')
              (\<lambda>r. r\<lparr>rq_state := state, rq_finished := Some now\<rparr>)) (\<lambda>changed.
     guardT (changed \<noteq> 1) ErrConflict (
     thenT (deleteLeases (\<lambda>l. cl_kind l = ''request'' \<and> cl_request l = requestID)) (returnT ())))))))"

definition FinalizeRequest :: "string \<Rightarrow> string \<Rightarrow> world \<Rightarrow> store \<Rightarrow> (goerr + unit) \<times> store" where
  "FinalizeRequest requestID state =
     atomicT (guardT (\<not> contains [''succeeded'', ''failed'', ''cancelled'', ''interrupted_unknown''] state) (ErrMsg ''invalid final request state'')
       (thenT (FinalizeRequestTx requestID state) commitT))"

text \<open>
  Three tries, each in its own world. \<open>ctxError n\<close>: the error of try \<open>n\<close> is a context error;
  \<open>ctxDone n\<close>: the context ends during the wait after it.
\<close>

fun finalizeTries :: "nat \<Rightarrow> nat \<Rightarrow> (nat \<Rightarrow> world) \<Rightarrow> (nat \<Rightarrow> bool) \<Rightarrow> (nat \<Rightarrow> bool) \<Rightarrow> string \<Rightarrow> goerr \<Rightarrow> store \<Rightarrow> (goerr + unit) \<times> store" where
  "finalizeTries 0 n ws ctxError ctxDone requestID lastErr s = (Inl lastErr, s)"
| "finalizeTries (Suc k) n ws ctxError ctxDone requestID lastErr s =
     (case FinalizeRequest requestID ''failed'' (ws n) s of
        (Inr u, s') \<Rightarrow> (Inr u, s')
      | (Inl e, s') \<Rightarrow>
          if e = ErrConflict \<or> ctxError n then (Inl e, s')
          else if k > 0 \<and> ctxDone n then (Inl ErrDriver, s')
          else finalizeTries k (Suc n) ws ctxError ctxDone requestID e s')"

definition FinalizeFailedRequest :: "(nat \<Rightarrow> world) \<Rightarrow> (nat \<Rightarrow> bool) \<Rightarrow> (nat \<Rightarrow> bool) \<Rightarrow> string \<Rightarrow> store \<Rightarrow> (goerr + unit) \<times> store" where
  "FinalizeFailedRequest ws ctxError ctxDone requestID s = finalizeTries 3 0 ws ctxError ctxDone requestID ErrDriver s"

end
