(* ===== verification/Recovery.thy ===== *)
theory Recovery
  imports Settlement
begin

text \<open>
  What repairs the books of \<^verbatim>\<open>usage/settlement.go\<close>, \<^verbatim>\<open>usage/repair.go\<close> and the second part of
  \<^verbatim>\<open>usage/pricing.go\<close>: recovery at start-up, the stale-request sweep, reconciliation of unknown
  usage, historical repricing and manual cost adjustment.
\<close>

section \<open>Recovery at start-up\<close>

definition interruptedPayload :: "attempt_row \<Rightarrow> request_row \<Rightarrow> (string \<times> json) list" where
  "interruptedPayload a r =
     cancelledPayload (rq_owner r) (rq_key r) (at_model a) (at_connection a) (at_started a) @
     [(''state'', JStr ''interrupted_unknown''), (''usage_status'', JStr ''unknown''), (''input_tokens'', JNull),
      (''output_tokens'', JNull), (''cost_nanos'', JNull)]"

definition recoverItem :: "int \<Rightarrow> attempt_row \<times> request_row \<Rightarrow> unit tx" where
  "recoverItem now item =
     (case item of (a, r) \<Rightarrow>
        if at_state a = ''reserved'' then
          thenT (releaseReservations (at_id a) now) (
          thenT (updateAttempts (\<lambda>x. at_id x = at_id a)
                   (\<lambda>x. x\<lparr>at_state := ''cancelled_before_dispatch'', at_usage := ''estimated'', at_finished := Some now\<rparr>)) (
          thenT (updateRequests (\<lambda>x. rq_id x = at_request a) (\<lambda>x. x\<lparr>rq_state := ''cancelled'', rq_finished := Some now\<rparr>)) (
          appendOutbox ''request.cancelled_before_dispatch'' (at_request a) (at_id a)
            (cancelledPayload (rq_owner r) (rq_key r) (at_model a) (at_connection a) (at_started a)) now)))
        else
          thenT (updateReservations (\<lambda>x. rs_attempt x = at_id a \<and> rs_state x = ''active'')
                   (\<lambda>x. x\<lparr>rs_state := ''uncertain'', rs_settled := Some now\<rparr>)) (
          thenT (updateAttempts (\<lambda>x. at_id x = at_id a)
                   (\<lambda>x. x\<lparr>at_state := ''interrupted_unknown'', at_usage := ''unknown'', at_finished := Some now\<rparr>)) (
          thenT (updateRequests (\<lambda>x. rq_id x = at_request a) (\<lambda>x. x\<lparr>rq_state := ''interrupted_unknown'', rq_finished := Some now\<rparr>)) (
          appendOutbox ''attempt.settled'' (at_request a) (at_id a) (interruptedPayload a r) now))))"

definition activeItems :: "store \<Rightarrow> (attempt_row \<times> request_row) list" where
  "activeItems s =
     concat (map (\<lambda>a. map (Pair a) (filter (\<lambda>r. rq_id r = at_request a) (requests s)))
       (filter (\<lambda>a. at_state a \<in> set activeStates) (attempts s)))"

definition hasActiveAttempt :: "store \<Rightarrow> string \<Rightarrow> bool" where
  "hasActiveAttempt s requestID = list_ex (\<lambda>a. at_request a = requestID \<and> at_state a \<in> set activeStates) (attempts s)"

text \<open>An \<^verbatim>\<open>UPDATE\<close> whose condition looks at other tables.\<close>

definition updateRequestsWhere :: "(store \<Rightarrow> request_row \<Rightarrow> bool) \<Rightarrow> (request_row \<Rightarrow> request_row) \<Rightarrow> nat tx" where
  "updateRequestsWhere p f = bindT (queryT p) (\<lambda>q. updateRequests q f)"

definition recoverTx :: "string \<Rightarrow> unit tx" where
  "recoverTx epoch =
     bindT (queryT activeItems) (\<lambda>items.
     bindT nowT (\<lambda>now.
     thenT (forT (recoverItem now) items) (
     thenT (updateRequestsWhere (\<lambda>s r. rq_state r = ''in_progress'' \<and> \<not> hasActiveAttempt s (rq_id r))
              (\<lambda>r. r\<lparr>rq_state := ''failed'', rq_finished := Some now\<rparr>)) (
     thenT (deleteLeases (\<lambda>l. True)) (
     thenT (raiseClock now epoch) commitT)))))"

definition Recover :: "string \<Rightarrow> world \<Rightarrow> store \<Rightarrow> (goerr + unit) \<times> store" where
  "Recover epoch = atomicT (recoverTx epoch)"

section \<open>The stale-request sweep\<close>

definition staleRequestRepairAge :: int where
  "staleRequestRepairAge = 300000"

definition hasWork :: "(store \<Rightarrow> work_row list) \<Rightarrow> string list \<Rightarrow> store \<Rightarrow> string \<Rightarrow> bool" where
  "hasWork tbl states s requestID = list_ex (\<lambda>k. wk_request k = Some requestID \<and> wk_state k \<in> set states) (tbl s)"

definition staleRequest :: "int \<Rightarrow> store \<Rightarrow> request_row \<Rightarrow> bool" where
  "staleRequest cutoff s r \<longleftrightarrow>
     (let mine = filter (\<lambda>a. at_request a = rq_id r) (attempts s) in
      rq_state r = ''in_progress'' \<and>
      \<not> hasActiveAttempt s (rq_id r) \<and>
      \<not> hasWork stored_responses [''queued'', ''running''] s (rq_id r) \<and>
      \<not> hasWork message_batch_items [''queued'', ''claimed'', ''dispatching'', ''settling''] s (rq_id r) \<and>
      \<not> hasWork openai_batch_items [''queued'', ''claimed'', ''dispatching'', ''settling''] s (rq_id r) \<and>
      (mine = [] \<and> rq_started r \<le> cutoff \<or>
       mine \<noteq> [] \<and> \<not> list_ex (\<lambda>a. case at_finished a of None \<Rightarrow> True | Some t \<Rightarrow> t > cutoff) mine))"

definition repairRequest :: "int \<Rightarrow> int \<Rightarrow> string \<Rightarrow> int \<Rightarrow> int tx" where
  "repairRequest now cutoff requestID repaired =
     bindT (updateRequestsWhere (\<lambda>s r. rq_id r = requestID \<and> staleRequest cutoff s r)
              (\<lambda>r. r\<lparr>rq_state := ''failed'', rq_finished := Some now\<rparr>)) (\<lambda>changed.
     if changed = 0 then returnT repaired
     else thenT (deleteLeases (\<lambda>l. cl_kind l = ''request'' \<and> cl_request l = requestID)) (returnT (repaired + int changed)))"

definition repairStaleTx :: "int tx" where
  "repairStaleTx =
     bindT nowT (\<lambda>now.
     let cutoff = now - staleRequestRepairAge in
     bindT (queryT (\<lambda>s. take 100 (map rq_id (orderBy (\<lambda>r. (rq_started r, rq_id r)) (filter (staleRequest cutoff s) (requests s)))))) (\<lambda>requestIDs.
     bindT (foldT (repairRequest now cutoff) requestIDs 0) (\<lambda>repaired.
     thenT commitT (returnT repaired))))"

definition RepairStaleRequests :: "world \<Rightarrow> store \<Rightarrow> (goerr + int) \<times> store" where
  "RepairStaleRequests = atomicT repairStaleTx"

section \<open>Reconciliation\<close>

definition badReconciliation :: "reconciliation_input \<Rightarrow> bool" where
  "badReconciliation i \<longleftrightarrow>
     ri_inputTokens i = None \<or> ri_outputTokens i = None \<or> badRange (ri_inputTokens i) \<or> badRange (ri_outputTokens i) \<or>
     (case ri_costNanos i of None \<Rightarrow> False | Some c \<Rightarrow> c < 0) \<or> \<not> contains [''provider_reported'', ''estimated''] (ri_usageStatus i) \<or>
     length (ri_reason i) < 3 \<or> length (ri_reason i) > 500 \<or> ri_idempotencyKey i = [] \<or> length (ri_idempotencyKey i) > 200"

definition reconcileSignature :: "reconciliation_input \<Rightarrow> string" where
  "reconcileSignature i =
     ''reconcile:'' @ ri_usageStatus i @ '':'' @ ri_reason i @ '':'' @ nullableValue (ri_inputTokens i) @ '':'' @
     nullableValue (ri_outputTokens i) @ '':'' @ nullableValue (ri_costNanos i)"

definition knownCost :: "attempt_row \<Rightarrow> int option" where
  "knownCost a = (case at_restated a of None \<Rightarrow> at_recorded a | Some c \<Rightarrow> Some c)"

text \<open>An attempt may be reconciled while its usage is unknown or something about it is still open.\<close>

definition reconcilable :: "string \<Rightarrow> attempt_row \<Rightarrow> unit tx" where
  "reconcilable attemptID a =
     (if at_state a \<noteq> ''interrupted_unknown'' \<or> at_usage a \<noteq> ''unknown'' then
        bindT (queryT (\<lambda>s. length (filter (\<lambda>r. rs_attempt r = attemptID \<and> rs_state r = ''uncertain'') (reservations s)))) (\<lambda>uncertain.
        guardT (\<not> contains [''succeeded'', ''failed'', ''cancelled'', ''interrupted_unknown''] (at_state a) \<or>
                uncertain = 0 \<and> at_input a \<noteq> None \<and> at_output a \<noteq> None \<and> knownCost a \<noteq> None) ErrConflict (returnT ()))
      else returnT ())"

definition requireMemberOwner :: "auth_user \<Rightarrow> string \<Rightarrow> unit tx" where
  "requireMemberOwner actor ownerID =
     (if ua_role actor = ''admin'' \<and> ownerID \<noteq> ua_id actor then
        bindT (oneT ErrNoRows users (\<lambda>u. us_id u = ownerID)) (\<lambda>u.
        guardT (us_role u \<noteq> ''member'') ErrDenied (returnT ()))
      else returnT ())"

definition reconcileItem :: "int option \<Rightarrow> int option \<Rightarrow> held_item \<Rightarrow> unit tx" where
  "reconcileItem tokens cost item =
     (case settlementUnits (hi_metric item) tokens cost of (actual, known) \<Rightarrow>
        if \<not> known then returnT ()
        else thenT (if hi_algorithm item = ''token_bucket'' then settleBucket ''bucket reconciliation overflow'' item actual
                    else settleQuota ''quota reconciliation has no period'' id item actual) (
             bindT nowT (\<lambda>now. thenT (markReservation (hi_id item) ''settled'' now) (returnT ()))))"

definition reconcileCost :: "reconciliation_input \<Rightarrow> attempt_row \<Rightarrow> int option tx" where
  "reconcileCost input a =
     (if ri_costNanos input = None \<and> knownCost a = None \<and> at_webMax a = None then
        (case at_price a of
           None \<Rightarrow> returnT None
         | Some priceID \<Rightarrow> calculatedPriceCost priceID (ri_inputTokens input) (ri_outputTokens input) (nullInt64Pointer (at_cacheCreation a))
                            (nullInt64Pointer (at_cacheRead a)) None)
      else returnT (ri_costNanos input))"

definition reconciledAttempt :: "string \<Rightarrow> reconciliation_input \<Rightarrow> int option \<Rightarrow> attempt_row \<Rightarrow> attempt_row" where
  "reconciledAttempt usageStatus input cost a =
     a\<lparr>at_usage := usageStatus, at_input := ri_inputTokens input, at_output := ri_outputTokens input,
       at_recorded := (case cost of None \<Rightarrow> at_recorded a | Some c \<Rightarrow> Some c),
       at_restated := (case cost of None \<Rightarrow> at_restated a | Some c \<Rightarrow> Some c)\<rparr>"

definition reconcileBooks ::
  "auth_user \<Rightarrow> string \<Rightarrow> reconciliation_input \<Rightarrow> string \<Rightarrow> int option \<Rightarrow> int option \<Rightarrow> attempt_row \<Rightarrow> request_row \<Rightarrow> unit tx" where
  "reconcileBooks actor attemptID input signature tokens cost a r =
     (let effectiveCost = (case cost of None \<Rightarrow> knownCost a | Some c \<Rightarrow> Some c);
          nextUsageStatus = (if effectiveCost \<noteq> None then ri_usageStatus input else ''unknown'') in
      bindT (queryT (heldItems attemptID ''uncertain'')) (\<lambda>items.
      thenT (forT (reconcileItem tokens effectiveCost) items) (
      thenT (updateAttempts (\<lambda>x. at_id x = attemptID) (reconciledAttempt nextUsageStatus input cost)) (
      let inputDelta = checkedAdd [the (ri_inputTokens input), - nullInt64Value (at_input a)];
          outputDelta = checkedAdd [the (ri_outputTokens input), - nullInt64Value (at_output a)];
          costDelta = (case cost of None \<Rightarrow> Some 0 | Some c \<Rightarrow> checkedAdd [c, - nullInt64Value (knownCost a)]);
          wasUnknown = (at_usage a = ''unknown'' \<or> knownCost a = None);
          unknownDelta = (if wasUnknown \<and> nextUsageStatus \<noteq> ''unknown'' \<and> effectiveCost \<noteq> None then - 1 else 0) in
      guardT (inputDelta = None \<or> outputDelta = None \<or> costDelta = None) (ErrMsg ''reconciliation delta overflow'') (
      bindT (optionT (ErrMsg ''reconciliation token delta overflow'') (checkedAdd [the inputDelta, the outputDelta])) (\<lambda>tokenDelta.
      bindT randT (\<lambda>ledgerID.
      bindT nowT (\<lambda>ledgerAt.
      thenT (insertLedger \<lparr>ul_id = ''led_'' @ ledgerID, ul_attempt = attemptID, ul_type = ''reconciliation'', ul_tokens = Some tokenDelta,
               ul_cost = (case cost of None \<Rightarrow> None | Some _ \<Rightarrow> costDelta), ul_key = ri_idempotencyKey input, ul_actor = Some (ua_id actor),
               ul_reason = signature, ul_created = ledgerAt\<rparr>) (
      bindT nowT (\<lambda>eventAt.
      thenT (appendOutbox ''attempt.reconciled'' (at_request a) attemptID
               (cancelledPayload (rq_owner r) (rq_key r) (at_model a) (at_connection a) (at_started a) @
                [(''input_tokens'', jint (the inputDelta)), (''output_tokens'', jint (the outputDelta)),
                 (''cost_nanos'', jint (the costDelta)), (''unknown_delta'', jint unknownDelta)]) eventAt) (
      thenT (insertAudit (ua_id actor) ''usage.reconcile'' ''attempt'' attemptID [(''reason'', JStr (ri_reason input))])
        commitT)))))))))))"

definition reconcileFresh :: "auth_user \<Rightarrow> string \<Rightarrow> reconciliation_input \<Rightarrow> string \<Rightarrow> int option \<Rightarrow> unit tx" where
  "reconcileFresh actor attemptID input signature tokens =
     bindT (joinedAttempt ErrNotFound attemptID) (\<lambda>(a, r).
     guardT (case checkedAdd [nullInt64Value (at_cacheCreation a), nullInt64Value (at_cacheRead a)] of
               None \<Rightarrow> True | Some cacheTotal \<Rightarrow> the (ri_inputTokens input) < cacheTotal)
       (ErrMsg ''reconciled input tokens cannot be less than the recorded cache-token breakdown'') (
     thenT (reconcilable attemptID a) (
     bindT (queryT (\<lambda>s. length (filter (\<lambda>l. ul_attempt l = attemptID \<and> ul_type l = ''reconciliation'') (usage_ledger s)))) (\<lambda>prior.
     guardT (prior > 0 \<and> (at_input a \<noteq> None \<and> at_input a \<noteq> ri_inputTokens input \<or> at_output a \<noteq> None \<and> at_output a \<noteq> ri_outputTokens input))
       ErrConflict (
     bindT (reconcileCost input a) (\<lambda>cost.
     thenT (requireMemberOwner actor (rq_owner r)) (
     thenT (requireOutboxCapacity 1) (
     reconcileBooks actor attemptID input signature tokens cost a r))))))))"

definition reconcileUnknownTx :: "auth_user \<Rightarrow> string \<Rightarrow> reconciliation_input \<Rightarrow> unit tx" where
  "reconcileUnknownTx actor0 attemptID input =
     guardT (badReconciliation input) (ErrMsg ''known tokens, usage_status, reason, and idempotency_key are required'') (
     bindT (liftT (nullableInt64Sum (ri_inputTokens input) (ri_outputTokens input))) (\<lambda>tokens.
     bindT (refreshUsageActor actor0) (\<lambda>actor.
     managerOnly actor (
     bindT (rowT usage_ledger (\<lambda>l. ul_key l = ri_idempotencyKey input)) (\<lambda>entry.
     case entry of
       Some l \<Rightarrow> guardT (\<not> (ul_attempt l = attemptID \<and> ul_type l = ''reconciliation'' \<and> ul_reason l = reconcileSignature input))
                   ErrConflict (returnT ())
     | None \<Rightarrow> reconcileFresh actor attemptID input (reconcileSignature input) tokens)))))"

definition ReconcileUnknown :: "auth_user \<Rightarrow> string \<Rightarrow> reconciliation_input \<Rightarrow> world \<Rightarrow> store \<Rightarrow> (goerr + unit) \<times> store" where
  "ReconcileUnknown actor attemptID input = atomicT (reconcileUnknownTx actor attemptID input)"

end
