(* ===== verification/Repricing.thy ===== *)
theory Repricing
  imports Recovery
begin

text \<open>
  \<^verbatim>\<open>usage/pricing.go\<close>, second part: previewing and applying a historical reprice over a range of
  attempts, and adjusting the cost of one attempt by hand. Both keep the spend counters of the
  periods the attempt was charged to in step with its cost.
\<close>

section \<open>Reprice items\<close>

record reprice_input =
  rpi_connectionID :: string
  rpi_modelID :: string
  rpi_from :: string
  rpi_to :: string
  rpi_idempotencyKey :: string

record reprice_preview =
  rpv_affectedAttempts :: int
  rpv_missingPrices :: int
  rpv_deltaUSD :: string

record reprice_item =
  rit_attemptID :: string
  rit_priceID :: string
  rit_ownerID :: string
  rit_keyID :: string
  rit_modelID :: string
  rit_connectionID :: string
  rit_startedAt :: int
  rit_amount :: int
  rit_delta :: int
  rit_version :: int
  rit_resolveUnknown :: bool

definition repriceRange :: "reprice_input \<Rightarrow> string + int \<times> int" where
  "repriceRange input =
     (case parseRFC3339 (rpi_from input) of
        None \<Rightarrow> Inl ''from must be RFC3339''
      | Some from \<Rightarrow>
          (case parseRFC3339 (rpi_to input) of
             None \<Rightarrow> Inl ''to must be later than from and within 366 days''
           | Some to \<Rightarrow>
               if \<not> to > from \<or> to - from > 366 * 86400 * 1000000000 then Inl ''to must be later than from and within 366 days''
               else if rpi_connectionID input = [] \<or> rpi_modelID input = [] \<or> length (rpi_connectionID input) > 200 \<or>
                       length (rpi_modelID input) > 200
               then Inl ''connection and model are required''
               else Inr (unixMilliOfNanos from, unixMilliOfNanos to)))"

definition adjustmentSum :: "store \<Rightarrow> string \<Rightarrow> int" where
  "adjustmentSum s attemptID =
     sum_list (map (\<lambda>l. case ul_cost l of None \<Rightarrow> 0 | Some c \<Rightarrow> c)
       (filter (\<lambda>l. ul_attempt l = attemptID \<and> ul_type l = ''adjustment'') (usage_ledger s)))"

text \<open>The attempts of the range whose token usage is fully known and priceable.\<close>

definition repriceable :: "string \<Rightarrow> string \<Rightarrow> int \<Rightarrow> int \<Rightarrow> attempt_row \<Rightarrow> bool" where
  "repriceable connectionID modelID from to a \<longleftrightarrow>
     at_connection a = connectionID \<and> at_model a = modelID \<and> at_started a \<ge> from \<and> at_started a < to \<and>
     at_input a \<noteq> None \<and> at_output a \<noteq> None \<and> nullInt64Value (at_cacheCreation a) = 0 \<and> nullInt64Value (at_cache5m a) = 0 \<and>
     nullInt64Value (at_cache1h a) = 0 \<and> (at_webMax a = None \<or> at_webCalls a \<noteq> None \<and> \<not> at_webFetch a) \<and> at_usage a \<noteq> ''unknown''"

definition rawItems :: "string \<Rightarrow> string \<Rightarrow> int \<Rightarrow> int \<Rightarrow> store \<Rightarrow> (attempt_row \<times> request_row \<times> int) list" where
  "rawItems connectionID modelID from to s =
     take 10001 (concat (map (\<lambda>a. map (\<lambda>r. (a, r, adjustmentSum s (at_id a))) (filter (\<lambda>r. rq_id r = at_request a) (requests s)))
       (orderBy (\<lambda>a. (at_started a, at_id a)) (filter (repriceable connectionID modelID from to) (attempts s)))))"

definition repriceAmount :: "attempt_row \<Rightarrow> price_version \<Rightarrow> string + int option" where
  "repriceAmount a price =
     (case calculateCacheAwareCost (the (at_input a)) (the (at_output a)) (nullInt64Value (at_cacheRead a))
             (prv_inputNanos price) (prv_outputNanos price) (prv_cacheReadNanos price) of
        Inl e \<Rightarrow> Inl e
      | Inr amount \<Rightarrow>
          if at_webMax a \<noteq> None then addWebSearchCost amount (prv_webSearchNanos price) (nullInt64Value (at_webCalls a))
          else Inr amount)"

definition repriceOne :: "attempt_row \<times> request_row \<times> int \<Rightarrow> price_version \<Rightarrow> string + reprice_item option" where
  "repriceOne raw price =
     (case raw of (a, r, adjustments) \<Rightarrow>
        case repriceAmount a price of
          Inl e \<Rightarrow> Inl e
        | Inr None \<Rightarrow> Inr None
        | Inr (Some amount) \<Rightarrow>
            (case checkedAdd [amount, adjustments] of
               None \<Rightarrow> Inl ''repriced cost is too large''
             | Some target \<Rightarrow>
                 if target < 0 then Inl ''repriced cost is too large''
                 else Inr (Some \<lparr>rit_attemptID = at_id a, rit_priceID = prv_id price, rit_ownerID = rq_owner r, rit_keyID = rq_key r,
                        rit_modelID = at_model a, rit_connectionID = at_connection a, rit_startedAt = at_started a, rit_amount = target,
                        rit_delta = wrap64 (target - nullInt64Value (knownCost a)),
                        rit_version = priceCalculationVersion (at_cacheRead a \<noteq> None) (at_webMax a \<noteq> None),
                        rit_resolveUnknown = (at_restated a = None \<and> at_recorded a = None \<and> at_usage a \<noteq> ''unknown'')\<rparr>)))"

primrec repriceList ::
  "string \<Rightarrow> string \<Rightarrow> (attempt_row \<times> request_row \<times> int) list \<Rightarrow> (reprice_item list \<times> int) tx" where
  "repriceList connectionID modelID [] = returnT ([], 0)"
| "repriceList connectionID modelID (raw # raws) =
     bindT (priceAt connectionID modelID (case at_quoted (fst raw) of None \<Rightarrow> at_started (fst raw) | Some q \<Rightarrow> q)) (\<lambda>row.
     bindT (case row of None \<Rightarrow> returnT None | Some price \<Rightarrow> liftT (repriceOne raw price)) (\<lambda>item.
     bindT (repriceList connectionID modelID raws) (\<lambda>(items, missing).
       returnT (case item of None \<Rightarrow> (items, missing + 1) | Some i \<Rightarrow> (i # items, missing)))))"

definition repriceItems :: "string \<Rightarrow> string \<Rightarrow> int \<Rightarrow> int \<Rightarrow> (reprice_item list \<times> int) tx" where
  "repriceItems connectionID modelID from to =
     bindT (queryT (rawItems connectionID modelID from to)) (\<lambda>raws.
     guardT (length raws > 10000) (ErrMsg ''repricing range exceeds 10000 attempts'') (
     repriceList connectionID modelID raws))"

section \<open>Preview\<close>

fun addDeltas :: "int \<Rightarrow> reprice_item list \<Rightarrow> string + int" where
  "addDeltas delta [] = Inr delta"
| "addDeltas delta (i # is) =
     (case checkedAdd [delta, rit_delta i] of None \<Rightarrow> Inl ''repricing delta is too large'' | Some v \<Rightarrow> addDeltas v is)"

definition PreviewReprice :: "auth_user \<Rightarrow> reprice_input \<Rightarrow> reprice_preview tx" where
  "PreviewReprice actor0 input =
     bindT (refreshUsageActor actor0) (\<lambda>actor.
     managerOnly actor (
     bindT (liftT (repriceRange input)) (\<lambda>(from, to).
     bindT (repriceItems (rpi_connectionID input) (rpi_modelID input) from to) (\<lambda>(items, missing).
     bindT (liftT (addDeltas 0 items)) (\<lambda>delta.
       returnT \<lparr>rpv_affectedAttempts = int (length items), rpv_missingPrices = missing, rpv_deltaUSD = FormatUSD delta\<rparr>)))))"

section \<open>Spend counters\<close>

definition spendItems :: "string \<Rightarrow> store \<Rightarrow> (string \<times> string \<times> int \<times> int \<times> string) list" where
  "spendItems attemptID s =
     concat (map (\<lambda>r. map (\<lambda>p. (rs_id r, rs_policy r, (case rs_period r of None \<Rightarrow> 0 | Some t \<Rightarrow> t), rs_units r, rs_state r))
         (filter (\<lambda>p. lp_id p = rs_policy r \<and> lp_metric p = ''spend'') (limit_policies s)))
       (filter (\<lambda>r. rs_attempt r = attemptID \<and> rs_state r \<in> {''settled'', ''uncertain''} \<and> rs_period r \<noteq> None) (reservations s)))"

definition reconcileSpend :: "int \<Rightarrow> int \<Rightarrow> int \<Rightarrow> string \<times> string \<times> int \<times> int \<times> string \<Rightarrow> unit tx" where
  "reconcileSpend delta actual now item =
     (case item of (i, policyID, start, reserved, state) \<Rightarrow>
        let change = (if state = ''uncertain'' then actual else delta);
            release = (if state = ''uncertain'' then reserved else 0)
        in if change = 0 \<and> release = 0 then returnT ()
           else thenT (mapErrT (\<lambda>_. ErrMsg ''repricing would corrupt a spend period'') (updateQuotaPeriod policyID start change (- release))) (
                if state = ''uncertain''
                then thenT (updateReservations (\<lambda>r. rs_id r = i \<and> rs_state r = ''uncertain'')
                             (\<lambda>r. r\<lparr>rs_state := ''settled'', rs_settled := Some now\<rparr>)) (returnT ())
                else returnT ()))"

definition reconcileSpendPeriods :: "string \<Rightarrow> int \<Rightarrow> int \<Rightarrow> int \<Rightarrow> unit tx" where
  "reconcileSpendPeriods attemptID delta actual now =
     bindT (queryT (spendItems attemptID)) (\<lambda>periods. forT (reconcileSpend delta actual now) periods)"

section \<open>Applying a reprice\<close>

text \<open>\<^verbatim>\<open>Scan\<close> of a NULL \<^verbatim>\<open>actor_user_id\<close> into a Go string.\<close>

definition scanNull :: goerr where
  "scanNull = ErrMsg ''converting NULL to string is unsupported''"

definition adjustedPayload :: "string \<Rightarrow> string \<Rightarrow> string \<Rightarrow> string \<Rightarrow> int \<Rightarrow> int \<Rightarrow> int \<Rightarrow> (string \<times> json) list" where
  "adjustedPayload ownerID keyID modelID connectionID startedAt delta unknownDelta =
     cancelledPayload ownerID keyID modelID connectionID startedAt @
     [(''delta_nanos'', jint delta), (''unknown_delta'', jint unknownDelta)]"

definition applyItem :: "auth_user \<Rightarrow> reprice_item \<Rightarrow> int \<times> int \<Rightarrow> (int \<times> int) tx" where
  "applyItem actor item acc =
     (case acc of (delta, applied) \<Rightarrow>
        bindT randT (\<lambda>assessmentID.
        bindT nowT (\<lambda>assessedAt.
        bindT (insertAssessmentOrIgnore \<lparr>ca_id = ''ass_'' @ assessmentID, ca_attempt = rit_attemptID item, ca_price = rit_priceID item,
                 ca_version = rit_version item, ca_kind = ''restated'', ca_amount = rit_amount item, ca_delta = rit_delta item,
                 ca_created = assessedAt\<rparr>) (\<lambda>inserted.
        if inserted = 0 then returnT acc
        else
          bindT randT (\<lambda>ledgerID.
          bindT nowT (\<lambda>ledgerAt.
          thenT (insertLedger \<lparr>ul_id = ''led_'' @ ledgerID, ul_attempt = rit_attemptID item, ul_type = ''reprice'', ul_tokens = None,
                   ul_cost = Some (rit_delta item),
                   ul_key = ''reprice:'' @ rit_attemptID item @ '':'' @ rit_priceID item @ '':'' @ decInt (rit_version item),
                   ul_actor = Some (ua_id actor), ul_reason = ''historical price version'', ul_created = ledgerAt\<rparr>) (
          thenT (updateAttempts (\<lambda>a. at_id a = rit_attemptID item) (\<lambda>a. a\<lparr>at_restated := Some (rit_amount item)\<rparr>)) (
          bindT nowT (\<lambda>spendAt.
          thenT (reconcileSpendPeriods (rit_attemptID item) (rit_delta item) (rit_amount item) spendAt) (
          bindT nowT (\<lambda>eventAt.
          thenT (appendOutbox ''attempt.cost_adjusted'' [] (rit_attemptID item)
                   (adjustedPayload (rit_ownerID item) (rit_keyID item) (rit_modelID item) (rit_connectionID item) (rit_startedAt item)
                      (rit_delta item) (if rit_resolveUnknown item then - 1 else 0)) eventAt) (
          bindT (optionT (ErrMsg ''repricing delta is too large'') (checkedAdd [delta, rit_delta item])) (\<lambda>v.
            returnT (v, applied + 1))))))))))))))"

definition repriceJob :: "auth_user \<Rightarrow> reprice_input \<Rightarrow> int \<Rightarrow> int \<Rightarrow> reprice_preview tx" where
  "repriceJob actor input from to =
     bindT (repriceItems (rpi_connectionID input) (rpi_modelID input) from to) (\<lambda>(items, missing).
     thenT (requireOutboxCapacity (int (length items))) (
     bindT (foldT (applyItem actor) items (0, 0)) (\<lambda>(delta, applied).
     bindT randT (\<lambda>jobID.
     bindT nowT (\<lambda>now.
     thenT (insertJob \<lparr>pj_id = ''job_'' @ jobID, pj_key = rpi_idempotencyKey input, pj_actor = Some (ua_id actor), pj_model = rpi_modelID input,
              pj_connection = rpi_connectionID input, pj_from = from, pj_to = to, pj_state = ''completed'', pj_affected = applied,
              pj_missing = missing, pj_delta = delta, pj_created = now, pj_completed = Some now\<rparr>) (
     thenT (insertAudit (ua_id actor) ''usage.reprice'' ''pricing_job'' (''job_'' @ jobID)
              [(''affected_attempts'', jint applied), (''missing_prices'', jint missing), (''delta_nanos'', jint delta)]) (
     thenT commitT (
       returnT \<lparr>rpv_affectedAttempts = applied, rpv_missingPrices = missing, rpv_deltaUSD = FormatUSD delta\<rparr>))))))))"

definition applyRepriceTx :: "auth_user \<Rightarrow> reprice_input \<Rightarrow> reprice_preview tx" where
  "applyRepriceTx actor0 input =
     guardT (rpi_idempotencyKey input = [] \<or> length (rpi_idempotencyKey input) > 200) (ErrMsg ''idempotency_key is required'') (
     bindT (liftT (repriceRange input)) (\<lambda>(from, to).
     bindT (refreshUsageActor actor0) (\<lambda>actor.
     guardT (ua_role actor \<noteq> ''owner'') ErrDenied (
     bindT (rowT pricing_jobs (\<lambda>j. pj_key j = rpi_idempotencyKey input)) (\<lambda>job.
     case job of
       Some j \<Rightarrow>
         guardT (pj_actor j = None) scanNull (
         guardT (pj_actor j \<noteq> Some (ua_id actor) \<or> pj_model j \<noteq> rpi_modelID input \<or> pj_connection j \<noteq> rpi_connectionID input \<or>
                 pj_from j \<noteq> from \<or> pj_to j \<noteq> to) ErrConflict (
         returnT \<lparr>rpv_affectedAttempts = pj_affected j, rpv_missingPrices = pj_missing j, rpv_deltaUSD = FormatUSD (pj_delta j)\<rparr>))
     | None \<Rightarrow> repriceJob actor input from to)))))"

definition ApplyReprice :: "auth_user \<Rightarrow> reprice_input \<Rightarrow> world \<Rightarrow> store \<Rightarrow> (goerr + reprice_preview) \<times> store" where
  "ApplyReprice actor input = atomicT (applyRepriceTx actor input)"

section \<open>Adjusting a cost\<close>

definition adjustBooks :: "auth_user \<Rightarrow> string \<Rightarrow> int \<Rightarrow> string \<Rightarrow> string \<Rightarrow> attempt_row \<Rightarrow> request_row \<Rightarrow> int \<Rightarrow> string tx" where
  "adjustBooks actor attemptID delta reason idempotencyKey a r current =
     bindT (optionT (ErrMsg ''adjustment would make cost negative or overflow'') (checkedAdd [current, delta])) (\<lambda>next_cost.
     guardT (next_cost < 0) (ErrMsg ''adjustment would make cost negative or overflow'') (
     thenT (requireOutboxCapacity 1) (
     bindT randT (\<lambda>ledgerID.
     bindT nowT (\<lambda>ledgerAt.
     thenT (insertLedger \<lparr>ul_id = ''led_'' @ ledgerID, ul_attempt = attemptID, ul_type = ''adjustment'', ul_tokens = None, ul_cost = Some delta,
              ul_key = idempotencyKey, ul_actor = Some (ua_id actor), ul_reason = reason, ul_created = ledgerAt\<rparr>) (
     thenT (updateAttempts (\<lambda>x. at_id x = attemptID) (\<lambda>x. x\<lparr>at_restated := Some next_cost\<rparr>)) (
     bindT nowT (\<lambda>spendAt.
     thenT (reconcileSpendPeriods attemptID delta next_cost spendAt) (
     thenT (insertAudit (ua_id actor) ''usage.adjust'' ''attempt'' attemptID [(''delta_nanos'', jint delta), (''reason'', JStr reason)]) (
     bindT nowT (\<lambda>eventAt.
     thenT (appendOutbox ''attempt.cost_adjusted'' [] attemptID
              (adjustedPayload (rq_owner r) (rq_key r) (at_model a) (at_connection a) (at_started a) delta
                 (if at_restated a = None \<and> at_recorded a = None \<and> at_usage a \<noteq> ''unknown'' then - 1 else 0)) eventAt) (
     thenT commitT (returnT (FormatUSD next_cost))))))))))))))"

definition adjustCostTx :: "auth_user \<Rightarrow> string \<Rightarrow> string \<Rightarrow> string \<Rightarrow> string \<Rightarrow> string tx" where
  "adjustCostTx actor0 attemptID deltaUSD reason idempotencyKey =
     guardT (length reason < 3 \<or> length reason > 500 \<or> idempotencyKey = [] \<or> length idempotencyKey > 200)
       (ErrMsg ''reason and idempotency_key are required'') (
     bindT (mapErrT (\<lambda>_. ErrMsg ''delta_usd must be a non-zero USD decimal'') (liftT (parseSignedUSD deltaUSD))) (\<lambda>delta.
     guardT (delta = 0) (ErrMsg ''delta_usd must be a non-zero USD decimal'') (
     bindT (refreshUsageActor actor0) (\<lambda>actor.
     managerOnly actor (
     bindT (joinedAttempt ErrNotFound attemptID) (\<lambda>(a, r).
     guardT (\<not> contains [''succeeded'', ''failed'', ''cancelled'', ''interrupted_unknown''] (at_state a)) ErrConflict (
     guardT (at_usage a = ''unknown'') (ErrMsg ''reconcile unknown usage before adjusting its cost'') (
     thenT (requireMemberOwner actor (rq_owner r)) (
     bindT (rowT usage_ledger (\<lambda>l. ul_key l = idempotencyKey)) (\<lambda>entry.
     let current = nullInt64Value (knownCost a) in
     case entry of
       Some l \<Rightarrow>
         guardT (ul_actor l = None) scanNull (
         guardT (\<not> (ul_attempt l = attemptID \<and> ul_type l = ''adjustment'' \<and> ul_actor l = Some (ua_id actor) \<and> ul_reason l = reason \<and>
                    ul_cost l = Some delta)) ErrConflict (returnT (FormatUSD current)))
     | None \<Rightarrow> adjustBooks actor attemptID delta reason idempotencyKey a r current))))))))))"

definition AdjustCost :: "auth_user \<Rightarrow> string \<Rightarrow> string \<Rightarrow> string \<Rightarrow> string \<Rightarrow> world \<Rightarrow> store \<Rightarrow> (goerr + string) \<times> store" where
  "AdjustCost actor attemptID deltaUSD reason idempotencyKey = atomicT (adjustCostTx actor attemptID deltaUSD reason idempotencyKey)"

end
