(* ===== verification/Runs.thy ===== *)
theory Runs
  imports Repricing
begin

text \<open>
  What a successful run of each operation of the usage service does to the tables, one lemma per
  operation: the rows it appends, the rows it rewrites and the loops it runs over the reservations.
  The invariants of the later theories are proved from these descriptions, so that no proof opens a
  transaction twice.
\<close>

section \<open>Statements\<close>

lemma appendOutbox_Inr [tx_inv]:
  "appendOutbox eventType requestID attemptID payload now w (n, s) = Inr (x, n', s') \<longleftrightarrow>
   (\<exists>i e. w_rand w n = Some i \<and> \<not> w_fault w (Suc n) \<and> n' = Suc (Suc n) \<and> outboxCheck e \<and>
     e = \<lparr>eo_id = ''evt_'' @ i, eo_type = eventType, eo_request = nullableString requestID,
         eo_attempt = nullableString attemptID, eo_payload = jmap payload, eo_created = now, eo_delivered = None\<rparr> \<and>
     \<not> list_ex (\<lambda>e'. eo_id e' = eo_id e) (event_outbox s) \<and> s' = event_outbox_update (\<lambda>es. es @ [e]) s)"
  by (auto simp: appendOutbox_def insertEvent_def bindT_def insertT_def stmtT_def randT_def split: option.splits)

lemma joinedAttempt_Inr [tx_inv]:
  "joinedAttempt e attemptID w (n, s) = Inr (x, n', s') \<longleftrightarrow>
     \<not> w_fault w n \<and> attemptWithRequest attemptID s = Some x \<and> n' = Suc n \<and> s' = s"
  by (auto simp: joinedAttempt_def bindT_def tx_defs split: option.splits)

lemma attemptWithRequest_Some:
  "attemptWithRequest attemptID s = Some (a, r) \<longleftrightarrow>
     find (\<lambda>a. at_id a = attemptID) (attempts s) = Some a \<and> find (\<lambda>r. rq_id r = at_request a) (requests s) = Some r"
  by (auto simp: attemptWithRequest_def bind_eq_Some_conv)

lemma requireOutboxCapacity_Inr [tx_inv]:
  "requireOutboxCapacity k w (n, s) = Inr (x, n', s') \<longleftrightarrow> \<not> w_fault w n \<and> outboxFits k s \<and> n' = Suc n \<and> s' = s"
  by (auto simp: requireOutboxCapacity_def bindT_def tx_defs)

lemma checkedAddFrom_range: "int64_range acc \<Longrightarrow> checkedAddFrom acc vs = Some r \<Longrightarrow> int64_range r"
  by (induction vs arbitrary: acc) (simp, metis checkedAddFrom.simps(2) option.distinct(1) wrap64_range)

lemma checkedAdd_range: "checkedAdd vs = Some r \<Longrightarrow> int64_range r"
  unfolding checkedAdd_def by (erule checkedAddFrom_range [rotated]) (simp add: int64_range_def int64_limits)

lemma bex_updateWhere: "(\<And>x. P (f x) = P x) \<Longrightarrow> (\<exists>x \<in> set (updateWhere q f xs). P x) = (\<exists>x \<in> set xs. P x)"
  by (induction xs) auto

lemma ball_updateWhere: "(\<And>x. P (f x) = P x) \<Longrightarrow> (\<forall>x \<in> set (updateWhere q f xs). P x) = (\<forall>x \<in> set xs. P x)"
  by (induction xs) auto

section \<open>Frames\<close>

text \<open>Only the counters and the reservations change.\<close>

definition countersOnly :: "store \<Rightarrow> store \<Rightarrow> bool" where
  "countersOnly s s' \<longleftrightarrow> (\<exists>bs qs rs. s' = s\<lparr>bucket_state := bs, quota_periods := qs, reservations := rs\<rparr>)"

lemma countersOnly_refl [simp]: "countersOnly s s"
  unfolding countersOnly_def by (intro exI [of _ "bucket_state s"] exI [of _ "quota_periods s"] exI [of _ "reservations s"]) simp

lemma countersOnly_sel:
  assumes "countersOnly s s'"
  shows "limit_policies s' = limit_policies s" "attempts s' = attempts s" "requests s' = requests s"
    "concurrency_leases s' = concurrency_leases s" "usage_ledger s' = usage_ledger s" "cost_assessments s' = cost_assessments s"
    "event_outbox s' = event_outbox s" "price_versions s' = price_versions s" "users s' = users s" "admission_clock s' = admission_clock s"
  using assms by (auto simp: countersOnly_def)

lemma countersOnly_upd:
  assumes "countersOnly s s'"
  shows "countersOnly s (bucket_state_update f s')" "countersOnly s (quota_periods_update g s')" "countersOnly s (reservations_update h s')"
  using assms unfolding countersOnly_def by (cases s; cases s'; auto)+

lemma keepsT_counters:
  "keepsT (countersOnly s) (updateBuckets p f)" "keepsT (countersOnly s) (updatePeriods q g)" "keepsT (countersOnly s) (updateReservations r h)"
  unfolding keepsT_def updateBuckets_def updatePeriods_def updateReservations_def
  by (intro okT_update; erule countersOnly_upd)+

lemmas counter_keeps = keeps keepsT_counters

lemma countersOnly_updateQuotaPeriod: "keepsT (countersOnly s) (updateQuotaPeriod policyID start dc dr)"
  unfolding updateQuotaPeriod_def by (intro counter_keeps)

lemma countersOnly_settleBucket: "keepsT (countersOnly s) (settleBucket overflow item actual)"
  unfolding settleBucket_def by (intro counter_keeps)

lemma countersOnly_releaseItem: "keepsT (countersOnly s) (releaseItem now item)"
  unfolding releaseItem_def markReservation_def by (intro counter_keeps)

lemma countersOnly_settleItem: "keepsT (countersOnly s) (settleItem status tokens cost now item)"
  unfolding settleItem_def settleQuota_def markReservation_def
  by (intro counter_keeps countersOnly_settleBucket countersOnly_updateQuotaPeriod)

lemma countersOnly_reconcileItem: "keepsT (countersOnly s) (reconcileItem tokens cost item)"
  unfolding reconcileItem_def settleQuota_def markReservation_def
  by (intro counter_keeps countersOnly_settleBucket countersOnly_updateQuotaPeriod)

lemma countersOnly_reconcileSpend: "keepsT (countersOnly s) (reconcileSpend delta actual now item)"
  unfolding reconcileSpend_def by (intro counter_keeps countersOnly_updateQuotaPeriod)

lemmas countersOnly_items = countersOnly_releaseItem countersOnly_settleItem countersOnly_reconcileItem countersOnly_reconcileSpend

lemma countersOnly_loop:
  assumes "\<And>x. keepsT (countersOnly s) (f x)" "forT f xs w (n, s) = Inr (y, n', s')"
  shows "countersOnly s s'"
  using keepsT_D [OF keepsT_for [OF assms(1)] _ assms(2)] by simp

section \<open>Settling\<close>

lemma heldItems_ledger [simp]: "heldItems attemptID state (usage_ledger_update f s) = heldItems attemptID state s"
  by (simp add: heldItems_def)

text \<open>What the end of an attempt does to its request and to the leases.\<close>

definition closedRequest :: "settlement_input \<Rightarrow> int \<Rightarrow> request_row \<Rightarrow> request_row" where
  "closedRequest i now x =
     (if si_finalRequest i then x\<lparr>rq_state := requestState (si_state i), rq_finished := Some now\<rparr> else x\<lparr>rq_state := ''in_progress''\<rparr>)"

lemma closedRequest_cost [simp]: "closedRequest (i\<lparr>si_costNanos := c\<rparr>) now = closedRequest i now"
  by (rule ext) (simp add: closedRequest_def)

definition leaseKept :: "bool \<Rightarrow> string \<Rightarrow> string \<Rightarrow> lease_row \<Rightarrow> bool" where
  "leaseKept final requestID attemptID l \<longleftrightarrow>
     \<not> (cl_kind l = ''attempt'' \<and> cl_lease l = attemptID) \<and> \<not> (final \<and> cl_kind l = ''request'' \<and> cl_lease l = requestID)"

lemma leaseKept_fold:
  "filter (\<lambda>l. (cl_kind l = ''attempt'' \<longrightarrow> cl_lease l \<noteq> attemptID) \<and> (cl_kind l = ''request'' \<longrightarrow> cl_lease l \<noteq> requestID)) =
   filter (leaseKept True requestID attemptID)"
  by (simp add: leaseKept_def [abs_def])

lemma closeAttempt_Inr:
  assumes "closeAttempt i a r attemptID now w (n, s) = Inr (x, n', s')"
  shows "\<exists>e. s' = event_outbox_update (\<lambda>es. es @ [e]) (requests_update (updateWhere (\<lambda>x. rq_id x = at_request a) (closedRequest i now))
           (concurrency_leases_update (filter (leaseKept (si_finalRequest i) (at_request a) attemptID)) s))"
proof (cases "si_finalRequest i")
  case True
  with assms show ?thesis
    unfolding closeAttempt_def updateRequests_def deleteLeases_def
    by (clarsimp simp: tx_inv closedRequest_def [abs_def] leaseKept_def [abs_def] elim!: tx_elim) (auto simp: comp_def conj_commute)
next
  case False
  with assms show ?thesis
    unfolding closeAttempt_def updateRequests_def deleteLeases_def
    by (clarsimp simp: tx_inv closedRequest_def [abs_def] leaseKept_def [abs_def] elim!: tx_elim) auto
qed

lemma no_assessment: "\<exists>f. s = cost_assessments_update f s"
  by (intro exI [of _ id]) simp

lemma recordAssessment_Inr:
  assumes "recordAssessment i priceID attemptID hw now w (n, s) = Inr (x, n', s')"
  shows "\<exists>f. s' = cost_assessments_update f s"
proof (cases "priceID = None \<or> si_costNanos i = None")
  case True
  with assms have "s' = s" by (auto simp: recordAssessment_def returnT_Inr split: option.splits)
  with no_assessment show ?thesis by simp
next
  case False
  with assms show ?thesis
    by (clarsimp simp: recordAssessment_def insertAssessment_def insertT_Inr randT_Inr elim!: tx_elim) (rule exI, rule refl)
qed

lemma cost_ranges:
  "calculateCacheAwareCost i j k l m n = Inr (Some c) \<Longrightarrow> int64_range c"
  "addWebSearchCost (Some v) fee calls = Inr (Some c) \<Longrightarrow> int64_range v \<Longrightarrow> int64_range c"
  by (auto simp: calculateCacheAwareCost_def addWebSearchCost_def intro: checkedAdd_range split: if_splits sum.splits option.splits)

lemma addWebSearchCost_None [simp]: "addWebSearchCost None fee calls = Inr None"
  by (simp add: addWebSearchCost_def)

lemma calculatedPriceCost_Inr:
  assumes "calculatedPriceCost p a b c d e w (n, s) = Inr (x, n', s')"
  shows "s' = s \<and> (\<forall>v. x = Some v \<longrightarrow> int64_range v)"
proof -
  have "int64_range v" if "calculateCacheAwareCost i j k l m q = Inr y" "addWebSearchCost y fee calls = Inr (Some v)" for i j k l m q y fee calls v
    using that cost_ranges by (cases y) auto
  with assms cost_ranges(1) show ?thesis
    unfolding calculatedPriceCost_def by (auto simp: tx_inv elim!: tx_elim split: if_splits option.splits)
qed

lemma calculatedAttemptCost_state: "calculatedAttemptCost p a b c d e w (n, s) = Inr (x, n', s') \<Longrightarrow> s' = s"
  unfolding calculatedAttemptCost_def
  by (auto simp: tx_inv dest: calculatedPriceCost_Inr elim!: tx_elim split: option.splits)

lemma replaySettlement_state:
  assumes "replaySettlement attemptID input hw comb entry w (n, s) = Inr (x, n', s')"
  shows "s' = s"
proof -
  have "keepsT (\<lambda>s'. s' = s) (calculatedAttemptCost p a b c d e)" for p a b c d e
    unfolding keepsT_def by (rule okT_I) (simp add: calculatedAttemptCost_state)
  then have "keepsT (\<lambda>s'. s' = s) (replaySettlement attemptID input hw comb entry)"
    unfolding replaySettlement_def by (intro keeps)
  from keepsT_D [OF this refl assms] show ?thesis .
qed

text \<open>The tool status an absent one stands for.\<close>

definition normalSettlement :: "settlement_input \<Rightarrow> settlement_input" where
  "normalSettlement i = (if si_toolCallStatus i = [] then i\<lparr>si_toolCallStatus := ''none''\<rparr> else i)"

lemma settleCost_Inr:
  "(case p of Some priceID \<Rightarrow> if b then calculatedPriceCost priceID i j k l m else returnT c | None \<Rightarrow> returnT c) w (n, s) = Inr (x, n', s') \<Longrightarrow>
   s' = s \<and> (\<forall>v. x = Some v \<longrightarrow> int64_range v \<or> c = Some v)"
  by (auto simp: returnT_Inr dest: calculatedPriceCost_Inr split: option.splits if_splits)

lemma settleFresh_Inr:
  assumes "settleFresh attemptID input0 hw comb w (n, s) = Inr (x, n', s')"
  obtains a r cost tokens now led e f n1 n2 s1 where
    "attemptWithRequest attemptID s = Some (a, r)"
    "forT (settleItem (si_usageStatus input0) tokens cost now) (heldItems attemptID ''active'' s) w (n1, usage_ledger_update (\<lambda>ls. ls @ [led]) s) =
       Inr ((), n2, s1)"
    "s' = event_outbox_update (\<lambda>es. es @ [e]) (requests_update (updateWhere (\<lambda>x. rq_id x = at_request a) (closedRequest input0 now))
       (concurrency_leases_update (filter (leaseKept (si_finalRequest input0) (at_request a) attemptID))
       (cost_assessments_update f (attempts_update (updateWhere (\<lambda>x. at_id x = attemptID) (settledAttempt (input0\<lparr>si_costNanos := cost\<rparr>) now)) s1))))"
    "at_state a \<in> set activeStates" "nullableInt64Sum (si_inputTokens input0) (si_outputTokens input0) = Inr tokens"
    "ul_attempt led = attemptID" "ul_type led = ''settlement''" "ul_tokens led = tokens" "ul_cost led = cost"
    "ul_key led = si_idempotencyKey input0" "ul_reason led = settlementSignature (input0\<lparr>si_costNanos := cost\<rparr>)"
    "\<forall>l \<in> set (usage_ledger s). ul_id l \<noteq> ul_id led \<and> ul_key l \<noteq> ul_key led"
    "\<forall>v. cost = Some v \<longrightarrow> int64_range v \<or> si_costNanos input0 = Some v"
    "\<forall>x \<in> set (attempts s1). at_id x = attemptID \<longrightarrow> attemptCheck (settledAttempt (input0\<lparr>si_costNanos := cost\<rparr>) now x)"
  using assms unfolding settleFresh_def insertLedger_def updateAttempts_def
  apply (clarsimp simp: tx_inv Let_def list_ex_iff list_all_iff elim!: tx_elim)
  apply (drule settleCost_Inr, drule closeAttempt_Inr, drule recordAssessment_Inr)
  apply clarsimp
  apply (rule that, assumption, assumption, assumption)
  by (auto simp: activeStates_def)

lemma settleTx_cases:
  assumes "settleTx attemptID input w (n, s) = Inr (x, n', s')"
  obtains (replay) "s' = s"
  | (fresh) hw comb m where "settleFresh attemptID (normalSettlement input) hw comb w (m, s) = Inr (x, n', s')"
      "settlementError (normalSettlement input) = None"
  using assms unfolding settleTx_def
  by (auto simp: tx_inv Let_def normalSettlement_def dest!: replaySettlement_state elim!: tx_elim split: option.splits if_splits)

section \<open>Cancelling and closing\<close>

lemma cancelBeforeDispatchTx_Inr:
  assumes "cancelBeforeDispatchTx attemptID w (n, s) = Inr (x, n', s')"
  obtains a r now e n1 n2 s1 where "attemptWithRequest attemptID s = Some (a, r)"
    "forT (releaseItem now) (heldItems attemptID ''active'' s) w (n1, s) = Inr ((), n2, s1)"
    "s' = event_outbox_update (\<lambda>es. es @ [e]) (requests_update (updateWhere (\<lambda>x. rq_id x = at_request a)
         (\<lambda>x. x\<lparr>rq_state := ''cancelled'', rq_finished := Some now\<rparr>))
       (attempts_update (updateWhere (\<lambda>x. at_id x = attemptID)
         (\<lambda>x. x\<lparr>at_state := ''cancelled_before_dispatch'', at_usage := ''estimated'', at_finished := Some now\<rparr>))
       (concurrency_leases_update (filter (leaseKept True (at_request a) attemptID)) s1)))"
    "at_state a = ''reserved''"
  using assms unfolding cancelBeforeDispatchTx_def releaseReservations_def deleteLeases_def updateAttempts_def updateRequests_def
  by (clarsimp simp: tx_inv comp_def leaseKept_fold elim!: tx_elim)

lemma closeFailedRequestTx_Inr:
  assumes "closeFailedRequestTx requestID w (n, s) = Inr (x, n', s')"
  obtains now where
    "s' = requests_update (updateWhere (\<lambda>r. rq_id r = requestID \<and> rq_state r = ''in_progress'') (\<lambda>r. r\<lparr>rq_state := ''failed'', rq_finished := Some now\<rparr>))
       (concurrency_leases_update (filter (\<lambda>l. \<not> (cl_kind l = ''request'' \<and> cl_lease l = requestID))) s)"
    "length (filter (\<lambda>r. rq_id r = requestID \<and> rq_state r = ''in_progress'') (requests s)) = 1"
  using assms unfolding closeFailedRequestTx_def deleteLeases_def updateRequests_def
  by (auto simp: tx_inv elim!: tx_elim)

lemma FinalizeRequestTx_Inr:
  assumes "FinalizeRequestTx requestID state w (n, s) = Inr (x, n', s')"
  obtains now where
    "s' = concurrency_leases_update (filter (\<lambda>l. \<not> (cl_kind l = ''request'' \<and> cl_request l = requestID)))
       (requests_update (updateWhere (\<lambda>r. rq_id r = requestID \<and> rq_state r = ''in_progress'') (\<lambda>r. r\<lparr>rq_state := state, rq_finished := Some now\<rparr>)) s)"
    "state \<in> {''succeeded'', ''failed'', ''cancelled'', ''interrupted_unknown''}"
    "length (filter (\<lambda>r. rq_id r = requestID \<and> rq_state r = ''in_progress'') (requests s)) = 1"
    "\<forall>a \<in> set (attempts s). at_request a = requestID \<longrightarrow> at_state a \<notin> set activeStates"
  using assms unfolding FinalizeRequestTx_def deleteLeases_def updateRequests_def
  by (auto simp: tx_inv filter_empty_conv elim!: tx_elim)

section \<open>Recovery\<close>

lemma recoverItem_Inr:
  assumes "recoverItem now (a, r) w (n, s) = Inr (x, n', s')"
  obtains (cancelled) e n1 s1 where "at_state a = ''reserved''"
      "forT (releaseItem now) (heldItems (at_id a) ''active'' s) w (Suc n, s) = Inr ((), n1, s1)"
      "s' = event_outbox_update (\<lambda>es. es @ [e]) (requests_update (updateWhere (\<lambda>x. rq_id x = at_request a)
           (\<lambda>x. x\<lparr>rq_state := ''cancelled'', rq_finished := Some now\<rparr>))
         (attempts_update (updateWhere (\<lambda>x. at_id x = at_id a)
           (\<lambda>x. x\<lparr>at_state := ''cancelled_before_dispatch'', at_usage := ''estimated'', at_finished := Some now\<rparr>)) s1))"
  | (interrupted) e where "at_state a \<noteq> ''reserved''"
      "s' = event_outbox_update (\<lambda>es. es @ [e]) (requests_update (updateWhere (\<lambda>x. rq_id x = at_request a)
           (\<lambda>x. x\<lparr>rq_state := ''interrupted_unknown'', rq_finished := Some now\<rparr>))
         (attempts_update (updateWhere (\<lambda>x. at_id x = at_id a)
           (\<lambda>x. x\<lparr>at_state := ''interrupted_unknown'', at_usage := ''unknown'', at_finished := Some now\<rparr>))
         (reservations_update (updateWhere (\<lambda>x. rs_attempt x = at_id a \<and> rs_state x = ''active'')
           (\<lambda>x. x\<lparr>rs_state := ''uncertain'', rs_settled := Some now\<rparr>)) s)))"
  using assms unfolding recoverItem_def releaseReservations_def updateAttempts_def updateRequests_def updateReservations_def
  by (cases "at_state a = ''reserved''") (auto simp: tx_inv elim!: tx_elim)

lemma recoverTx_Inr:
  assumes "recoverTx epoch w (n, s) = Inr (x, n', s')"
  obtains now n1 n2 s1 where "forT (recoverItem now) (activeItems s) w (n1, s) = Inr ((), n2, s1)"
    "s' = admission_clock_update (\<lambda>c. Some (case c of None \<Rightarrow> now | Some (t, _) \<Rightarrow> max t now, epoch)) (concurrency_leases_update (\<lambda>ls. [])
       (requests_update (updateWhere (\<lambda>r. rq_state r = ''in_progress'' \<and> \<not> hasActiveAttempt s1 (rq_id r))
         (\<lambda>r. r\<lparr>rq_state := ''failed'', rq_finished := Some now\<rparr>)) s1))"
  using assms unfolding recoverTx_def updateRequestsWhere_def updateRequests_def deleteLeases_def
  by (clarsimp simp: tx_inv elim!: tx_elim)

section \<open>The stale-request sweep\<close>

lemma repairRequest_Inr:
  assumes "repairRequest now cutoff requestID repaired w (n, s) = Inr (x, n', s')"
  obtains (fresh) "s' = s" | (stale) r where "r \<in> set (requests s)" "rq_id r = requestID" "staleRequest cutoff s r"
    "s' = concurrency_leases_update (filter (\<lambda>l. \<not> (cl_kind l = ''request'' \<and> cl_request l = requestID)))
       (requests_update (updateWhere (\<lambda>r. rq_id r = requestID \<and> staleRequest cutoff s r)
         (\<lambda>r. r\<lparr>rq_state := ''failed'', rq_finished := Some now\<rparr>)) s)"
proof (cases "\<exists>r \<in> set (requests s). rq_id r = requestID \<and> staleRequest cutoff s r")
  case True
  with assms stale show ?thesis
    unfolding repairRequest_def updateRequestsWhere_def updateRequests_def deleteLeases_def
    by (fastforce simp: tx_inv filter_empty_conv elim!: tx_elim split: if_splits)
next
  case False
  then have none: "filter (\<lambda>r. rq_id r = requestID \<and> staleRequest cutoff s r) (requests s) = []"
    "updateWhere (\<lambda>r. rq_id r = requestID \<and> staleRequest cutoff s r) f (requests s) = requests s" for f
    by (auto simp: filter_empty_conv intro: updateWhere_none)
  from assms have "\<exists>f. s' = requests_update (updateWhere (\<lambda>r. rq_id r = requestID \<and> staleRequest cutoff s r) f) s"
    unfolding repairRequest_def updateRequestsWhere_def updateRequests_def deleteLeases_def
    by (auto simp: tx_inv none elim!: tx_elim split: if_splits)
  then obtain f where "s' = requests_update (updateWhere (\<lambda>r. rq_id r = requestID \<and> staleRequest cutoff s r) f) s" ..
  also have "\<dots> = s" using none(2) [of f] by (cases s) simp
  finally show ?thesis by (rule fresh)
qed

section \<open>Reconciliation\<close>

lemma reconcileCost_Inr:
  "reconcileCost input a w (n, s) = Inr (x, n', s') \<Longrightarrow> s' = s \<and> (\<forall>v. x = Some v \<longrightarrow> int64_range v \<or> ri_costNanos input = Some v)"
  unfolding reconcileCost_def by (auto simp: tx_inv dest: calculatedPriceCost_Inr split: option.splits if_splits)

lemma reconcilable_Inr:
  "reconcilable attemptID a w (n, s) = Inr (x, n', s') \<Longrightarrow>
     s' = s \<and> at_state a \<in> {''succeeded'', ''failed'', ''cancelled'', ''interrupted_unknown''}"
  unfolding reconcilable_def by (auto simp: tx_inv elim!: tx_elim split: if_splits)

lemma requireMemberOwner_state: "requireMemberOwner actor ownerID w (n, s) = Inr (x, n', s') \<Longrightarrow> s' = s"
  unfolding requireMemberOwner_def by (auto simp: tx_inv elim!: tx_elim split: if_splits)

lemma managerOnly_Inr [tx_inv]: "managerOnly actor k w c = Inr r \<longleftrightarrow> ua_role actor \<in> {''owner'', ''admin''} \<and> k w c = Inr r"
  by (auto simp: managerOnly_def guardT_def failT_def)

lemma reconcileBooks_Inr:
  assumes "reconcileBooks actor attemptID input signature tokens cost a r w (n, s) = Inr (x, n', s')"
  obtains led e f status n1 n2 s1 where
    "forT (reconcileItem tokens (case cost of None \<Rightarrow> knownCost a | Some c \<Rightarrow> Some c)) (heldItems attemptID ''uncertain'' s) w (n1, s) = Inr ((), n2, s1)"
    "s' = audit_events_update f (event_outbox_update (\<lambda>es. es @ [e]) (usage_ledger_update (\<lambda>ls. ls @ [led])
       (attempts_update (updateWhere (\<lambda>x. at_id x = attemptID) (reconciledAttempt status input cost)) s1)))"
    "ul_attempt led = attemptID" "ul_type led = ''reconciliation''"
    "case cost of None \<Rightarrow> ul_cost led = None | Some c \<Rightarrow> ul_cost led = checkedAdd [c, - nullInt64Value (knownCost a)] \<and> ul_cost led \<noteq> None"
    "\<forall>x \<in> set (attempts s1). at_id x = attemptID \<longrightarrow> attemptCheck (reconciledAttempt status input cost x)"
  using assms unfolding reconcileBooks_def updateAttempts_def insertLedger_def
  by (clarsimp simp: tx_inv Let_def list_all_iff elim!: tx_elim) (rule that, assumption, assumption, simp_all split: option.splits)

lemma reconcileUnknownTx_cases:
  assumes "reconcileUnknownTx actor0 attemptID input w (n, s) = Inr (x, n', s')"
  obtains (replay) "s' = s"
  | (fresh) actor tokens cost a r m where "attemptWithRequest attemptID s = Some (a, r)"
      "at_state a \<in> {''succeeded'', ''failed'', ''cancelled'', ''interrupted_unknown''}"
      "reconcileBooks actor attemptID input (reconcileSignature input) tokens cost a r w (m, s) = Inr ((), n', s')"
      "\<forall>v. cost = Some v \<longrightarrow> int64_range v \<or> ri_costNanos input = Some v"
proof -
  from assms have "s' = s \<or> (\<exists>actor tokens m. reconcileFresh actor attemptID input (reconcileSignature input) tokens w (m, s) = Inr (x, n', s'))"
    unfolding reconcileUnknownTx_def by (clarsimp simp: tx_inv elim!: tx_elim split: option.splits)
  then show ?thesis
  proof (elim disjE exE)
    fix actor tokens m
    assume "reconcileFresh actor attemptID input (reconcileSignature input) tokens w (m, s) = Inr (x, n', s')"
    then show ?thesis
      unfolding reconcileFresh_def
      by (clarsimp simp: tx_inv elim!: tx_elim)
         ((drule reconcilable_Inr reconcileCost_Inr requireMemberOwner_state, clarsimp)+, rule fresh, assumption, simp, assumption, simp)
  qed (rule replay)
qed

section \<open>Repricing and adjusting\<close>

lemma reconcileSpendPeriods_Inr [tx_inv]:
  "reconcileSpendPeriods attemptID delta actual now w (n, s) = Inr (x, n', s') \<longleftrightarrow>
     \<not> w_fault w n \<and> forT (reconcileSpend delta actual now) (spendItems attemptID s) w (Suc n, s) = Inr (x, n', s')"
  by (auto simp: reconcileSpendPeriods_def bindT_def queryT_def stmtT_def)

lemma applyItem_Inr:
  assumes "applyItem actor item acc w (n, s) = Inr (x, n', s')"
  obtains (known) "s' = s" | (applied) led e f now n1 n2 s1 where
    "forT (reconcileSpend (rit_delta item) (rit_amount item) now) (spendItems (rit_attemptID item) s) w
       (n1, attempts_update (updateWhere (\<lambda>a. at_id a = rit_attemptID item) (\<lambda>a. a\<lparr>at_restated := Some (rit_amount item)\<rparr>))
          (usage_ledger_update (\<lambda>ls. ls @ [led]) (cost_assessments_update f s))) = Inr ((), n2, s1)"
    "s' = event_outbox_update (\<lambda>es. es @ [e]) s1"
    "ul_attempt led = rit_attemptID item" "ul_type led = ''reprice''" "ul_cost led = Some (rit_delta item)"
  using assms unfolding applyItem_def insertAssessmentOrIgnore_def insertLedger_def updateAttempts_def
  by (clarsimp simp: tx_inv split_def spendItems_def elim!: tx_elim split: if_splits)

lemma priceAt_state: "priceAt c m at w (n, s) = Inr (x, n', s') \<Longrightarrow> s' = s"
  unfolding priceAt_def by (auto simp: tx_inv elim!: tx_elim)

lemma repriceList_state: "repriceList c m raws w (n, s) = Inr (x, n', s') \<Longrightarrow> s' = s"
proof (induction raws arbitrary: n x n' s')
  case (Cons raw raws)
  then show ?case
    by (auto simp: tx_inv split_def dest!: priceAt_state elim!: tx_elim split: option.splits)
qed (simp add: returnT_Inr)

lemma applyRepriceTx_cases:
  assumes "applyRepriceTx actor0 input w (n, s) = Inr (x, n', s')"
  obtains (replay) "s' = s"
  | (fresh) actor items raws acc missing f g i j n1 n2 n3 n4 s1 where "raws = rawItems (rpi_connectionID input) (rpi_modelID input) i j s"
      "repriceList (rpi_connectionID input) (rpi_modelID input) raws w (n1, s) = Inr ((items, missing), n2, s)"
      "foldT (applyItem actor) items (0, 0) w (n3, s) = Inr (acc, n4, s1)"
      "s' = audit_events_update f (pricing_jobs_update g s1)"
proof -
  from assms have "s' = s \<or> (\<exists>actor i j m. repriceJob actor input i j w (m, s) = Inr (x, n', s'))"
    unfolding applyRepriceTx_def by (clarsimp simp: tx_inv elim!: tx_elim split: option.splits)
  then show ?thesis
  proof (elim disjE exE)
    fix actor i j m
    assume "repriceJob actor input i j w (m, s) = Inr (x, n', s')"
    then show ?thesis
      unfolding repriceJob_def repriceItems_def insertJob_def
      by (clarsimp simp: tx_inv elim!: tx_elim) (frule repriceList_state, clarsimp, rule fresh [OF refl], assumption+)
  qed (rule replay)
qed

lemma adjustCostTx_cases:
  assumes "adjustCostTx actor0 attemptID deltaUSD reason key w (n, s) = Inr (x, n', s')"
  obtains (replay) "s' = s"
  | (fresh) a r delta amount led e f now n1 n2 s1 where "attemptWithRequest attemptID s = Some (a, r)"
      "forT (reconcileSpend delta amount now) (spendItems attemptID s) w
       (n1, attempts_update (updateWhere (\<lambda>x. at_id x = attemptID) (\<lambda>a. a\<lparr>at_restated := Some amount\<rparr>))
          (usage_ledger_update (\<lambda>ls. ls @ [led]) s)) = Inr ((), n2, s1)"
      "s' = event_outbox_update (\<lambda>es. es @ [e]) (audit_events_update f s1)"
      "ul_attempt led = attemptID" "ul_type led = ''adjustment''" "ul_cost led = Some delta"
      "checkedAdd [nullInt64Value (knownCost a), delta] = Some amount" "0 \<le> amount"
      "at_state a \<in> {''succeeded'', ''failed'', ''cancelled'', ''interrupted_unknown''}" "parseSignedUSD deltaUSD = Inr delta"
      "x = FormatUSD amount"
  using assms unfolding adjustCostTx_def adjustBooks_def insertLedger_def updateAttempts_def
  by (clarsimp simp: tx_inv Let_def spendItems_def dest!: requireMemberOwner_state elim!: tx_elim split: option.splits)

section \<open>Admission\<close>

text \<open>The effective time is at least the floor, and the clock row never goes back.\<close>

lemma effectiveTimeTxAtLeast_Inr:
  "effectiveTimeTxAtLeast epoch floorAt w (n, s) = Inr (effective, n', s') \<Longrightarrow>
     s' = s\<lparr>admission_clock := Some (effective, epoch)\<rparr> \<and> floorAt \<le> effective \<and> (\<forall>t e. admission_clock s = Some (t, e) \<longrightarrow> t \<le> effective)"
  unfolding effectiveTimeTxAtLeast_def
  by (clarsimp simp: tx_inv Let_def elim!: tx_elim split: option.splits) linarith

lemma authorizeKey_Inr:
  "authorizeKey input effective w (n, s) = Inr (ownerID, n', s') \<Longrightarrow> s' = s \<and>
     (\<exists>k u. activeKey (ai_keyID input) effective s = Some (k, u) \<and> ownerID = ak_owner k \<and>
       admissionGranted input (us_unrestricted u) (ak_scopes k) (ak_models k) (ak_connections k) (us_scopes u) (us_models u) (us_connections u) = Some True)"
  unfolding authorizeKey_def by (clarsimp simp: tx_inv elim!: tx_elim)

lemma checkTarget_Inr:
  "checkTarget input w (n, s) = Inr (x, n', s') \<Longrightarrow> s' = s \<and> (ai_upstreamModelRecordID input = [] \<or> targetCurrent input s)"
  unfolding checkTarget_def by (auto simp: tx_inv elim!: tx_elim split: if_splits)

lemma requestOrdinal_Inr:
  "requestOrdinal input first requestID ownerID w (n, s) = Inr (x, n', s') \<Longrightarrow> s' = s \<and>
     (if first then x = 1 else x = nextOrdinal requestID s \<and>
        (\<exists>r. find (\<lambda>r. rq_id r = requestID) (requests s) = Some r \<and> rq_state r = ''in_progress'' \<and> rq_key r = ai_keyID input \<and> rq_owner r = ownerID))"
  unfolding requestOrdinal_def by (auto simp: tx_inv elim!: tx_elim split: if_splits)

lemma estimateCost_range: "estimateCost input price = Inr (Some cost) \<Longrightarrow> int64_range cost"
  unfolding estimateCost_def CalculateCost_def addWebSearchCost_def
  by (auto simp: wrap64_range checkedAdd_range split: if_splits sum.splits option.splits simp del: wrap64_id)

lemma admissionPrice_Inr:
  "admissionPrice input effective w (n, s) = Inr ((priceID, cost), n', s') \<Longrightarrow> s' = s \<and> (\<forall>c. cost = Some c \<longrightarrow> int64_range c)"
  unfolding admissionPrice_def
  by (auto simp: tx_inv Let_def dest!: priceAt_state estimateCost_range elim!: tx_elim split: if_splits option.splits)

lemma denial_Inr [tx_inv]:
  "(case d of None \<Rightarrow> returnT () | Some e \<Rightarrow> failT e) w (n, s) = Inr (x, n', s') \<longleftrightarrow> d = None \<and> n' = n \<and> s' = s"
  by (auto simp: returnT_Inr failT_Inr split: option.splits)

lemma evaluatePolicy_state: "evaluatePolicy policy now first requestID attemptID input tokens cost w (n, s) = Inr (x, n', s') \<Longrightarrow> s' = s"
  unfolding evaluatePolicy_def evaluateConcurrency_def evaluateBucket_def evaluateWindow_def
  by (auto simp: tx_inv Let_def elim!: tx_elim split: if_splits option.splits sum.splits prod.splits)

lemma planAll_state: "planAll ps now first requestID attemptID input tokens cost w (n, s) = Inr (x, n', s') \<Longrightarrow> s' = s"
proof (induction ps arbitrary: n x n' s')
  case (Cons p ps)
  then show ?case by (auto simp: tx_inv dest!: evaluatePolicy_state elim!: tx_elim)
qed (simp add: returnT_Inr)

lemma planAll_Cons_Inr:
  assumes "planAll (p # ps) now first requestID attemptID input tokens cost w (n, s) = Inr (plans, n', s')"
  shows "\<exists>plan m rest m'. evaluatePolicy p now first requestID attemptID input tokens cost w (n, s) = Inr (plan, m, s) \<and>
     planAll ps now first requestID attemptID input tokens cost w (m, s) = Inr (rest, m', s) \<and>
     plans = (case plan of None \<Rightarrow> rest | Some q \<Rightarrow> q # rest)"
proof -
  from assms obtain plan m s1 rest where one: "evaluatePolicy p now first requestID attemptID input tokens cost w (n, s) = Inr (plan, m, s1)"
      and more: "planAll ps now first requestID attemptID input tokens cost w (m, s1) = Inr (rest, n', s')"
      and "plans = (case plan of None \<Rightarrow> rest | Some q \<Rightarrow> q # rest)"
    by (auto simp: returnT_Inr elim!: tx_elim)
  moreover from one have "s1 = s" by (rule evaluatePolicy_state)
  moreover from more have "s' = s1" by (rule planAll_state)
  ultimately show ?thesis by blast
qed

lemma newAttempt_sel [simp]:
  "at_id (newAttempt i attemptID requestID ordinal price tokens cost effective) = attemptID"
  "at_request (newAttempt i attemptID requestID ordinal price tokens cost effective) = requestID"
  "at_state (newAttempt i attemptID requestID ordinal price tokens cost effective) = ''reserved''"
  "at_input (newAttempt i attemptID requestID ordinal price tokens cost effective) = None"
  "at_recorded (newAttempt i attemptID requestID ordinal price tokens cost effective) = None"
  "at_restated (newAttempt i attemptID requestID ordinal price tokens cost effective) = None"
  by (simp_all add: newAttempt_def)

lemma bookAdmission_Inr:
  assumes "bookAdmission epoch input first requestID attemptID ownerID ordinal price tokens cost plans effective w (n, s) = Inr (x, n', s')"
  obtains f e n1 n2 s1 where
    "forT (\<lambda>plan. applyPlan plan requestID attemptID epoch effective) plans w
       (n1, attempts_update (\<lambda>as. as @ [newAttempt input attemptID requestID ordinal price tokens cost effective]) (requests_update f s)) = Inr ((), n2, s1)"
    "s' = event_outbox_update (\<lambda>es. es @ [e]) s1"
    "if first then (\<forall>r \<in> set (requests s). rq_id r \<noteq> requestID) \<and> (\<exists>r. f = (\<lambda>rs. rs @ [r]) \<and> rq_id r = requestID \<and> rq_state r = ''reserved'')
     else f = updateWhere (\<lambda>r. rq_id r = requestID) (\<lambda>r. r\<lparr>rq_state := ''reserved'', rq_finished := None\<rparr>)"
    "\<forall>a \<in> set (attempts s). at_id a \<noteq> attemptID" "attemptCheck (newAttempt input attemptID requestID ordinal price tokens cost effective)"
    "eo_type e = ''attempt.reserved''"
proof (cases first)
  case True
  with assms show ?thesis
    unfolding bookAdmission_def openRequest_def insertRequest_def insertAttempt_def
    apply (clarsimp simp: tx_inv list_ex_iff elim!: tx_elim)
    apply (rule that, assumption, assumption)
    apply auto
    done
next
  case False
  with assms show ?thesis
    unfolding bookAdmission_def openRequest_def updateRequests_def insertAttempt_def
    apply (clarsimp simp: tx_inv list_ex_iff elim!: tx_elim)
    apply (rule that, assumption, assumption)
    apply auto
    done
qed

text \<open>The input as it is booked.\<close>

definition bookedInput :: "admission_input \<Rightarrow> admission_input" where
  "bookedInput i = (normalizeAdmission i)\<lparr>ai_priceUnavailable := (ai_priceUnavailable (normalizeAdmission i) \<or>
     ai_webSearchMaxCalls (normalizeAdmission i) > 0 \<and> ai_webFetchPresent (normalizeAdmission i))\<rparr>"

lemma bookedInput_sel [simp]:
  "ai_keyID (bookedInput i) = ai_keyID i" "ai_connectionID (bookedInput i) = ai_connectionID i" "ai_modelID (bookedInput i) = ai_modelID i"
  "ai_scope (bookedInput i) = ai_scope i" "ai_requestID (bookedInput i) = ai_requestID i"
  by (simp_all add: bookedInput_def normalizeAdmission_def)

lemma queries_clock [simp]:
  "activeKey k t (s\<lparr>admission_clock := c\<rparr>) = activeKey k t s" "targetCurrent i (s\<lparr>admission_clock := c\<rparr>) = targetCurrent i s"
  "matchingPolicies u k p (s\<lparr>admission_clock := c\<rparr>) = matchingPolicies u k p s"
  by (simp_all add: activeKey_def targetCurrent_def matchingPolicies_def)

lemma admitTx_Inr:
  assumes "admitTx epoch input0 w (n, s) = Inr (x, n', s')"
  shows "\<not> invalidAdmission (normalizeAdmission input0) \<and> admitChecked epoch (bookedInput input0) w (n, s) = Inr (x, n', s')"
  using assms by (simp add: admitTx_def bookedInput_def Let_def guardT_Inr)

lemma admitChecked_Inr:
  assumes "admitChecked epoch input w (n, s) = Inr (x, n', s')"
  obtains first requestID attemptID ownerID ordinal priceID tokens cost plans effective n1 n2 n3 n4 s0 where
    "planAll (matchingPolicies ownerID (ai_keyID input) (ai_connectionID input) s) effective first requestID attemptID input tokens cost w (n1, s0) =
       Inr (plans, n2, s0)"
    "bookAdmission epoch input first requestID attemptID ownerID ordinal priceID tokens cost plans effective w (n3, s0) = Inr ((), n4, s')"
    "s0 = s\<lparr>admission_clock := Some (effective, epoch)\<rparr>"
    "first \<longleftrightarrow> ai_requestID input = []" "\<not> first \<longrightarrow> requestID = ai_requestID input"
    "\<exists>k u. activeKey (ai_keyID input) effective s = Some (k, u) \<and> ownerID = ak_owner k \<and>
       admissionGranted input (us_unrestricted u) (ak_scopes k) (ak_models k) (ak_connections k) (us_scopes u) (us_models u) (us_connections u) = Some True"
    "ai_upstreamModelRecordID input = [] \<or> targetCurrent input s"
    "\<not> first \<longrightarrow> (\<exists>r. find (\<lambda>r. rq_id r = requestID) (requests s) = Some r \<and> rq_state r = ''in_progress'')"
    "int64_range tokens" "\<forall>c. cost = Some c \<longrightarrow> int64_range c"
    "\<forall>t e. admission_clock s = Some (t, e) \<longrightarrow> t \<le> effective"
    "ad_requestID x = requestID" "ad_attemptID x = attemptID"
    "checkedAdd [ai_estimatedInputTokens input, ai_estimatedOutputTokens input] = Some tokens"
  using assms unfolding admitChecked_def
  apply (clarsimp simp: tx_inv Let_def elim!: tx_elim split del: if_split
      dest!: effectiveTimeTxAtLeast_Inr authorizeKey_Inr checkTarget_Inr requestOrdinal_Inr admissionPrice_Inr)
  apply (frule planAll_state)
  apply (frule checkedAdd_range)
  apply (clarsimp split del: if_split)
  apply (rule that, assumption, assumption)
  apply (auto split: if_splits)
  done

end
