(* ===== verification/Books.thy ===== *)
theory Books
  imports Runs
begin

text \<open>
  Conservation of reserved units. A quota or window counter keeps the units reserved in a period as
  one number, while the table of reservations keeps them one by one; no constraint of the schema
  ties the two. The books balance when, for every policy and period, the number is the sum of the
  reservations still held (active or uncertain). Every operation of the usage service keeps the
  books balanced: the proofs go through \<open>item_loop\<close>, the contract of a loop over rows read before
  it, which is interpreted on each of the loops of the code that moves units.
\<close>

section \<open>Loops over items\<close>

text \<open>
  A loop over items that a query has returned: each step keeps the invariant as long as its own item
  still holds, and leaves the other items alone.
\<close>

locale item_loop =
  fixes step :: "'x \<Rightarrow> ('s, unit) txm"
    and ident :: "'x \<Rightarrow> 'k"
    and holds :: "'x \<Rightarrow> 's \<Rightarrow> bool"
    and I :: "'s \<Rightarrow> bool"
  assumes step_keeps: "okT (\<lambda>s. I s \<and> holds x s) (step x) (\<lambda>_. I)"
    and step_frame: "ident y \<noteq> ident x \<Longrightarrow> okT (\<lambda>s. I s \<and> holds x s \<and> holds y s) (step x) (\<lambda>_. holds y)"
begin

lemma loop_keeps:
  "distinct (map ident xs) \<Longrightarrow> okT (\<lambda>s. I s \<and> (\<forall>x \<in> set xs. holds x s)) (forT step xs) (\<lambda>_. I)"
proof (induction xs)
  case Nil
  then show ?case by (auto intro!: okT_return)
next
  case (Cons x xs)
  have "okT (\<lambda>s. I s \<and> (\<forall>y \<in> set (x # xs). holds y s)) (step x) (\<lambda>_ s. I s \<and> (\<forall>y \<in> set xs. holds y s))"
  proof (rule okT_I)
    fix w n s r n' s'
    assume s: "I s \<and> (\<forall>y \<in> set (x # xs). holds y s)" and run: "step x w (n, s) = Inr (r, n', s')"
    then have "I s'" using okT_D [OF step_keeps] by fastforce
    moreover have "holds y s'" if y: "y \<in> set xs" for y
    proof -
      from Cons.prems y have "ident y \<noteq> ident x" by (auto simp: image_iff)
      from okT_D [OF step_frame [OF this] _ run] s y show ?thesis by simp
    qed
    ultimately show "I s' \<and> (\<forall>y \<in> set xs. holds y s')" by blast
  qed
  with Cons show ?case by (auto intro: okT_then)
qed

end

text \<open>
  A loop that also works something off: \<open>pending s\<close> is what is left to do in \<open>s\<close>, and each step
  takes away what belongs to its own item.
\<close>

locale draining_loop = item_loop step ident holds I
  for step :: "'x \<Rightarrow> ('s, unit) txm" and ident :: "'x \<Rightarrow> 'k" and holds :: "'x \<Rightarrow> 's \<Rightarrow> bool" and I :: "'s \<Rightarrow> bool" +
  fixes pending :: "'s \<Rightarrow> 'p set"
    and key :: "'p \<Rightarrow> 'k"
  assumes step_drains: "I s \<Longrightarrow> holds x s \<Longrightarrow> step x w (n, s) = Inr (u, n', s') \<Longrightarrow> pending s' \<subseteq> {p \<in> pending s. key p \<noteq> ident x}"
begin

lemma loop_drains:
  assumes "distinct (map ident xs)" "I s" "\<forall>x \<in> set xs. holds x s" "forT step xs w (n, s) = Inr (u, n', s')"
  shows "pending s' \<subseteq> {p \<in> pending s. key p \<notin> ident ` set xs}"
  using assms
proof (induction xs arbitrary: n s)
  case (Cons x xs)
  from Cons.prems(4) obtain m s1 where one: "step x w (n, s) = Inr ((), m, s1)" and more: "forT step xs w (m, s1) = Inr (u, n', s')"
    by (auto elim!: tx_elim)
  have "I s1" using okT_D [OF step_keeps _ one] Cons.prems(2,3) by simp
  moreover have "holds y s1" if y: "y \<in> set xs" for y
  proof -
    from Cons.prems(1) y have "ident y \<noteq> ident x" by (auto simp: image_iff)
    from okT_D [OF step_frame [OF this] _ one] Cons.prems(2,3) y show ?thesis by simp
  qed
  ultimately have "pending s' \<subseteq> {p \<in> pending s1. key p \<notin> ident ` set xs}"
    using Cons.IH [OF _ _ _ more] Cons.prems(1) by simp
  moreover have "pending s1 \<subseteq> {p \<in> pending s. key p \<noteq> ident x}"
    using Cons.prems(2,3) one by (intro step_drains) auto
  ultimately show ?case by auto
qed (simp add: returnT_Inr)

end

lemma item_loopI:
  assumes "\<And>x w n s r n' s'. I s \<Longrightarrow> holds x s \<Longrightarrow> step x w (n, s) = Inr (r, n', s') \<Longrightarrow>
             I s' \<and> (\<forall>y. ident y \<noteq> ident x \<longrightarrow> holds y s \<longrightarrow> holds y s')"
  shows "item_loop step ident holds I"
proof
  show "okT (\<lambda>s. I s \<and> holds x s) (step x) (\<lambda>_. I)" for x
    using assms [of _ x] by (intro okT_I) blast
  show "okT (\<lambda>s. I s \<and> holds x s \<and> holds y s) (step x) (\<lambda>_. holds y)" if "ident y \<noteq> ident x" for x y
    using assms [of _ x] that by (intro okT_I) blast
qed

text \<open>A join on a key keeps the rows of the first table apart.\<close>

lemma filter_key_once: "distinct (map key xs) \<Longrightarrow> length (filter (\<lambda>x. key x = k) xs) \<le> Suc 0"
proof (induction xs)
  case (Cons x xs)
  then have "filter (\<lambda>y. key y = k) xs = []" if "key x = k"
    using that by (auto simp: filter_empty_conv image_iff)
  with Cons show ?case by auto
qed simp

lemma filter_key_once_and: "distinct (map key xs) \<Longrightarrow> length (filter (\<lambda>x. key x = k \<and> P x) xs) \<le> Suc 0"
  using filter_key_once [of key xs k] length_filter_le [of P "filter (\<lambda>x. key x = k) xs"] by (simp add: conj_commute)

lemma distinct_join:
  assumes "distinct (map k xs)" "\<And>x. length (ys x) \<le> Suc 0" "\<And>x y. x \<in> set xs \<Longrightarrow> y \<in> set (ys x) \<Longrightarrow> h y = k x"
  shows "distinct (map h (concat (map ys xs)))"
  using assms(1,3)
proof (induction xs)
  case (Cons x xs)
  have "distinct (map h (ys x))"
    using assms(2) [of x] by (cases "ys x") auto
  moreover have "h ` set (ys x) \<inter> h ` set (concat (map ys xs)) = {}"
    using Cons.prems by (fastforce simp: image_iff)
  ultimately show ?case using Cons by auto
qed simp

section \<open>The invariant\<close>

definition heldState :: "string \<Rightarrow> bool" where
  "heldState state \<longleftrightarrow> state = ''active'' \<or> state = ''uncertain''"

text \<open>The units of the reservations still held under a policy in a period.\<close>

definition heldUnits :: "string \<Rightarrow> int \<Rightarrow> reservation_row list \<Rightarrow> int" where
  "heldUnits policyID start rs =
     sum_list (map (\<lambda>r. if rs_policy r = policyID \<and> rs_period r = Some start \<and> heldState (rs_state r) then rs_units r else 0) rs)"

text \<open>The units the counter of that period says are reserved; a period without a row has none.\<close>

definition periodOf :: "string \<Rightarrow> int \<Rightarrow> period_row list \<Rightarrow> period_row option" where
  "periodOf policyID start qs = find (\<lambda>q. qp_policy q = policyID \<and> qp_start q = start) qs"

definition reservedUnits :: "string \<Rightarrow> int \<Rightarrow> period_row list \<Rightarrow> int" where
  "reservedUnits policyID start qs = (case periodOf policyID start qs of None \<Rightarrow> 0 | Some q \<Rightarrow> qp_reserved q)"

definition countable :: "int \<Rightarrow> bool" where
  "countable v \<longleftrightarrow> 0 \<le> v \<and> v \<le> MaxInt64"

text \<open>A reservation names a policy, and it has a period unless the policy is a token bucket.\<close>

definition reservationTyped :: "policy_row list \<Rightarrow> reservation_row \<Rightarrow> bool" where
  "reservationTyped ps r \<longleftrightarrow> countable (rs_units r) \<and>
     (\<exists>p \<in> set ps. lp_id p = rs_policy r \<and> (lp_algorithm p = ''token_bucket'' \<longleftrightarrow> rs_period r = None))"

definition periodsTyped :: "period_row list \<Rightarrow> bool" where
  "periodsTyped qs \<longleftrightarrow> distinct (map (\<lambda>q. (qp_policy q, qp_start q)) qs) \<and>
     (\<forall>q \<in> set qs. countable (qp_consumed q) \<and> countable (qp_reserved q))"

definition booksTyped :: "store \<Rightarrow> bool" where
  "booksTyped s \<longleftrightarrow>
     distinct (map lp_id (limit_policies s)) \<and> distinct (map rs_id (reservations s)) \<and>
     periodsTyped (quota_periods s) \<and>
     (\<forall>r \<in> set (reservations s). reservationTyped (limit_policies s) r)"

definition booksBalanced :: "store \<Rightarrow> bool" where
  "booksBalanced s \<longleftrightarrow> booksTyped s \<and>
     (\<forall>policyID start. reservedUnits policyID start (quota_periods s) = heldUnits policyID start (reservations s))"

text \<open>Only the policies, the periods and the reservations matter.\<close>

lemma booksBalanced_cong:
  "limit_policies s' = limit_policies s \<Longrightarrow> quota_periods s' = quota_periods s \<Longrightarrow> reservations s' = reservations s \<Longrightarrow>
   booksBalanced s' = booksBalanced s"
  by (simp add: booksBalanced_def booksTyped_def)

lemma countable_range: "countable v \<Longrightarrow> int64_range v \<and> int64_range (- v)"
  by (simp add: countable_def int64_range_def int64_limits)

lemma nextCounter_Inr:
  assumes "nextCounter name current delta = Inr v"
  shows "countable v" and "int64_range current \<Longrightarrow> int64_range delta \<Longrightarrow> v = current + delta"
proof -
  from assms have c: "checkedAdd [current, delta] = Some v" and "0 \<le> v" "v \<le> maxSafeInteger"
    by (auto simp: nextCounter_def split: option.splits if_splits)
  then show "countable v" by (simp add: countable_def maxSafeInteger_def int64_limits)
  show "v = current + delta" if "int64_range current" "int64_range delta"
    using checkedAdd_sound [OF _ c] that by simp
qed

section \<open>Held units\<close>

lemma heldUnits_nonneg: "(\<And>r. r \<in> set rs \<Longrightarrow> 0 \<le> rs_units r) \<Longrightarrow> 0 \<le> heldUnits p t rs"
  by (auto simp: heldUnits_def intro!: sum_list_nonneg)

lemma heldUnits_append [simp]:
  "heldUnits p t [] = 0"
  "heldUnits p t (rs @ rs') = heldUnits p t rs + heldUnits p t rs'"
  "heldUnits p t (r # rs) =
     (if rs_policy r = p \<and> rs_period r = Some t \<and> heldState (rs_state r) then rs_units r else 0) + heldUnits p t rs"
  by (simp_all add: heldUnits_def)

text \<open>Taking one reservation out of the held states takes its units out of the sum, and only there.\<close>

lemma heldUnits_drop:
  assumes "distinct (map rs_id rs)" "r \<in> set rs" "heldState (rs_state r)"
    and f: "\<And>x. rs_policy (f x) = rs_policy x \<and> rs_period (f x) = rs_period x \<and> \<not> heldState (rs_state (f x))"
    and p: "\<And>x. x \<in> set rs \<Longrightarrow> q x \<longleftrightarrow> rs_id x = rs_id r"
  shows "heldUnits p t (updateWhere q f rs) =
         heldUnits p t rs - (if rs_policy r = p \<and> rs_period r = Some t then rs_units r else 0)"
  using assms(1,2,3) p
proof (induction rs)
  case (Cons x xs)
  have same: "updateWhere q f xs = xs" if "x = r"
    using Cons.prems that by (intro updateWhere_none) (auto simp: image_iff)
  show ?case
  proof (cases "x = r")
    case True
    with same f [of x] Cons.prems show ?thesis by auto
  next
    case False
    with Cons.prems have "rs_id x \<noteq> rs_id r" "r \<in> set xs" by auto
    with False Cons show ?thesis by simp
  qed
qed simp

lemma heldUnits_same:
  assumes "\<And>x. x \<in> set rs \<Longrightarrow> q x \<Longrightarrow> rs_policy (f x) = rs_policy x \<and> rs_period (f x) = rs_period x \<and>
                heldState (rs_state (f x)) = heldState (rs_state x) \<and> rs_units (f x) = rs_units x"
  shows "heldUnits p t (updateWhere q f rs) = heldUnits p t rs"
  using assms by (induction rs) auto

lemma heldUnits_ge:
  assumes "r \<in> set rs" "heldState (rs_state r)" "rs_period r = Some t" "\<And>x. x \<in> set rs \<Longrightarrow> 0 \<le> rs_units x"
  shows "rs_units r \<le> heldUnits (rs_policy r) t rs"
  using assms
proof (induction rs)
  case (Cons x xs)
  then have "0 \<le> heldUnits (rs_policy r) t xs" by (intro heldUnits_nonneg) auto
  with Cons show ?case by fastforce
qed simp

section \<open>Period rows\<close>

lemma periodOf_updateWhere:
  assumes "\<And>q. qp_policy (f q) = qp_policy q \<and> qp_start (f q) = qp_start q"
  shows "periodOf p t (updateWhere P f qs) = map_option (\<lambda>q. if P q then f q else q) (periodOf p t qs)"
  unfolding periodOf_def by (rule find_updateWhere) (simp add: assms)

lemma periodOf_Some: "periodOf p t qs = Some q \<Longrightarrow> q \<in> set qs \<and> qp_policy q = p \<and> qp_start q = t"
  unfolding periodOf_def by (drule find_SomeD) auto

lemma periodOf_append: "periodOf p t (qs @ qs') = (case periodOf p t qs of None \<Rightarrow> periodOf p t qs' | Some q \<Rightarrow> Some q)"
  unfolding periodOf_def by (rule find_append)

text \<open>Setting the reserved units of one period changes what is reserved there, and only there.\<close>

lemma reservedUnits_set:
  assumes "periodOf p0 t0 qs = Some q0" "P q0" "\<And>q. P q \<Longrightarrow> qp_policy q = p0 \<and> qp_start q = t0"
    and f: "\<And>q. qp_policy (f q) = qp_policy q \<and> qp_start (f q) = qp_start q"
  shows "reservedUnits p t (updateWhere P f qs) =
         (if p = p0 \<and> t = t0 then qp_reserved (f q0) else reservedUnits p t qs)"
proof -
  have "periodOf p t (updateWhere P f qs) = map_option (\<lambda>q. if P q then f q else q) (periodOf p t qs)"
    using f by (rule periodOf_updateWhere)
  then show ?thesis
    using assms(1-3) by (auto simp: reservedUnits_def split: option.splits dest!: periodOf_Some)
qed

lemma periodsTyped_update:
  assumes "periodsTyped qs"
    and "\<And>q. qp_policy (f q) = qp_policy q \<and> qp_start (f q) = qp_start q"
    and "\<And>q. q \<in> set qs \<Longrightarrow> P q \<Longrightarrow> countable (qp_consumed (f q)) \<and> countable (qp_reserved (f q))"
  shows "periodsTyped (updateWhere P f qs)"
  using assms by (auto simp: periodsTyped_def map_updateWhere set_updateWhere)

section \<open>Items in hand\<close>

text \<open>An item scanned from the table is in hand while its reservation is still held with those values.\<close>

definition itemHeld :: "held_item \<Rightarrow> store \<Rightarrow> bool" where
  "itemHeld item s \<longleftrightarrow>
     (\<exists>r \<in> set (reservations s). rs_id r = hi_id item \<and> rs_policy r = hi_policyID item \<and> rs_period r = hi_period item \<and>
        rs_units r = hi_reserved item \<and> heldState (rs_state r)) \<and>
     (\<exists>p \<in> set (limit_policies s). lp_id p = hi_policyID item \<and> lp_algorithm p = hi_algorithm item)"

lemma heldItems_held: "item \<in> set (heldItems attemptID state s) \<Longrightarrow> heldState state \<Longrightarrow> itemHeld item s"
  by (auto simp: heldItems_def itemHeld_def)

lemma distinct_heldItems:
  assumes "distinct (map rs_id (reservations s))" "distinct (map lp_id (limit_policies s))"
  shows "distinct (map hi_id (heldItems attemptID state s))"
  unfolding heldItems_def
  by (rule distinct_join [where k = rs_id]) (auto simp: assms distinct_map_filter filter_key_once)

text \<open>
  One item leaves the books: its reservation is no longer held and its units have left its period,
  if it has one.
\<close>

lemma booksBalanced_drop:
  assumes B: "booksBalanced s" and held: "itemHeld item s"
    and "limit_policies s' = limit_policies s"
    and rs: "reservations s' = updateWhere q f (reservations s)"
    and q: "\<And>x. x \<in> set (reservations s) \<Longrightarrow> q x \<longleftrightarrow> rs_id x = hi_id item"
    and f: "\<And>x. rs_id (f x) = rs_id x \<and> rs_policy (f x) = rs_policy x \<and> rs_period (f x) = rs_period x \<and>
                rs_units (f x) = rs_units x \<and> \<not> heldState (rs_state (f x))"
    and qs: "periodsTyped (quota_periods s')"
    and moved: "\<And>p t. reservedUnits p t (quota_periods s') = reservedUnits p t (quota_periods s) -
                  (if p = hi_policyID item \<and> hi_period item = Some t then hi_reserved item else 0)"
  shows "booksBalanced s'"
proof -
  from held obtain r where r: "r \<in> set (reservations s)" "rs_id r = hi_id item" "rs_policy r = hi_policyID item"
      "rs_period r = hi_period item" "rs_units r = hi_reserved item" "heldState (rs_state r)"
    by (auto simp: itemHeld_def)
  have "heldUnits p t (reservations s') = heldUnits p t (reservations s) -
      (if rs_policy r = p \<and> rs_period r = Some t then rs_units r else 0)" for p t
    unfolding rs using B r q f by (intro heldUnits_drop) (auto simp: booksBalanced_def booksTyped_def)
  moreover have "booksTyped s'"
    using B assms(3) rs f qs
    by (auto simp: booksBalanced_def booksTyped_def map_updateWhere set_updateWhere reservationTyped_def)
  ultimately show ?thesis
    using B moved r by (auto simp: booksBalanced_def)
qed

lemma itemHeld_frame:
  assumes "itemHeld y s" and "hi_id y \<noteq> i"
    and "limit_policies s' = limit_policies s"
    and "reservations s' = updateWhere q f (reservations s)"
    and "\<And>x. q x \<Longrightarrow> rs_id x = i"
  shows "itemHeld y s'"
proof -
  from assms(1) obtain r where r: "r \<in> set (reservations s)" "rs_id r = hi_id y" "rs_policy r = hi_policyID y"
      "rs_period r = hi_period y" "rs_units r = hi_reserved y" "heldState (rs_state r)"
    by (auto simp: itemHeld_def)
  with assms(2,5) have "\<not> q r" by auto
  with r(1) have "r \<in> set (updateWhere q f (reservations s))"
    unfolding set_updateWhere by (rule_tac image_eqI) auto
  with r assms(1,3,4) show ?thesis by (auto simp: itemHeld_def)
qed

section \<open>Statements that move units\<close>

lemma set_buckets: "bucket_state_update f s = s\<lparr>bucket_state := f (bucket_state s)\<rparr>"
  by (cases s) simp

lemma updateQuotaPeriod_Inr:
  "updateQuotaPeriod policyID start dc dr w (n, s) = Inr (x, n', s') \<Longrightarrow>
   \<exists>q c v. periodOf policyID start (quota_periods s) = Some q \<and>
     nextCounter ''consumed'' (qp_consumed q) dc = Inr c \<and> nextCounter ''reserved'' (qp_reserved q) dr = Inr v \<and>
     s' = s\<lparr>quota_periods := updateWhere (\<lambda>r. qp_policy r = policyID \<and> qp_start r = start \<and> qp_consumed r = qp_consumed q \<and>
            qp_reserved r = qp_reserved q) (\<lambda>r. r\<lparr>qp_consumed := c, qp_reserved := v\<rparr>) (quota_periods s)\<rparr>"
  unfolding updateQuotaPeriod_def updatePeriods_def periodOf_def
  by (clarsimp simp: tx_inv elim!: tx_elim)

text \<open>What the compare-and-set of a period row does to the reserved units of every period.\<close>

lemma updateQuotaPeriod_books:
  assumes B: "booksTyped s" and u: "countable u"
    and run: "updateQuotaPeriod policyID start dc (- u) w (n, s) = Inr (x, n', s')"
  shows "\<exists>qs. s' = s\<lparr>quota_periods := qs\<rparr> \<and> periodsTyped qs \<and>
     (\<forall>p t. reservedUnits p t qs = reservedUnits p t (quota_periods s) - (if p = policyID \<and> t = start then u else 0))"
proof -
  from updateQuotaPeriod_Inr [OF run] obtain q c v where q: "periodOf policyID start (quota_periods s) = Some q"
    and c: "nextCounter ''consumed'' (qp_consumed q) dc = Inr c" and v: "nextCounter ''reserved'' (qp_reserved q) (- u) = Inr v"
    and s': "s' = s\<lparr>quota_periods := updateWhere (\<lambda>r. qp_policy r = policyID \<and> qp_start r = start \<and> qp_consumed r = qp_consumed q \<and>
            qp_reserved r = qp_reserved q) (\<lambda>r. r\<lparr>qp_consumed := c, qp_reserved := v\<rparr>) (quota_periods s)\<rparr>" (is "_ = s\<lparr>quota_periods := ?qs\<rparr>")
    by blast
  from periodOf_Some [OF q] B have "countable (qp_reserved q)" and key: "qp_policy q = policyID" "qp_start q = start"
    by (auto simp: booksTyped_def periodsTyped_def)
  with nextCounter_Inr(2) [OF v] countable_range u have v': "v = qp_reserved q - u" by fastforce
  have "periodsTyped ?qs"
    using B nextCounter_Inr(1) [OF c] nextCounter_Inr(1) [OF v] by (intro periodsTyped_update) (auto simp: booksTyped_def)
  moreover have "reservedUnits p t ?qs = reservedUnits p t (quota_periods s) - (if p = policyID \<and> t = start then u else 0)" for p t
    using q key by (subst reservedUnits_set [OF q]) (auto simp: reservedUnits_def v')
  ultimately show ?thesis using s' by blast
qed

lemma markReservation_Inr [tx_inv]:
  "markReservation i state now w (n, s) = Inr (x, n', s') \<longleftrightarrow>
     \<not> w_fault w n \<and> list_all (\<lambda>r. rs_id r = i \<longrightarrow> reservationCheck (r\<lparr>rs_state := state, rs_settled := Some now\<rparr>)) (reservations s) \<and>
     x = length (filter (\<lambda>r. rs_id r = i) (reservations s)) \<and> n' = Suc n \<and>
     s' = reservations_update (updateWhere (\<lambda>r. rs_id r = i) (\<lambda>r. r\<lparr>rs_state := state, rs_settled := Some now\<rparr>)) s"
  by (simp add: markReservation_def updateReservations_def updateT_Inr)

lemma settleBucket_frame:
  "settleBucket overflow item actual w (n, s) = Inr (x, n', s') \<Longrightarrow> \<exists>bs. s' = s\<lparr>bucket_state := bs\<rparr>"
  unfolding settleBucket_def updateBuckets_def by (clarsimp simp: tx_inv elim!: tx_elim) (metis set_buckets)

text \<open>The item's units leave the counter: what \<open>settleBucket\<close> and \<open>settleQuota\<close> have in common.\<close>

definition counterPaid :: "held_item \<Rightarrow> store \<Rightarrow> store \<Rightarrow> bool" where
  "counterPaid item s s' \<longleftrightarrow> (\<exists>bs qs. s' = s\<lparr>bucket_state := bs, quota_periods := qs\<rparr> \<and> periodsTyped qs \<and>
     (\<forall>p t. reservedUnits p t qs = reservedUnits p t (quota_periods s) -
        (if p = hi_policyID item \<and> hi_period item = Some t then hi_reserved item else 0)))"

lemma itemHeld_typed:
  assumes "booksBalanced s" "itemHeld item s"
  shows "countable (hi_reserved item)" and "hi_algorithm item = ''token_bucket'' \<longleftrightarrow> hi_period item = None"
proof -
  from assms(2) obtain r p where r: "r \<in> set (reservations s)" "rs_policy r = hi_policyID item" "rs_period r = hi_period item"
      "rs_units r = hi_reserved item" and p: "p \<in> set (limit_policies s)" "lp_id p = hi_policyID item" "lp_algorithm p = hi_algorithm item"
    by (auto simp: itemHeld_def)
  from assms(1) r(1) have "reservationTyped (limit_policies s) r"
    by (simp add: booksBalanced_def booksTyped_def)
  then obtain p' where p': "countable (rs_units r)" "p' \<in> set (limit_policies s)" "lp_id p' = rs_policy r"
      "lp_algorithm p' = ''token_bucket'' \<longleftrightarrow> rs_period r = None"
    by (auto simp: reservationTyped_def)
  moreover have "p' = p"
    using assms(1) p p' r by (intro inj_onD [of lp_id "set (limit_policies s)"]) (auto simp: booksBalanced_def booksTyped_def distinct_map)
  ultimately show "countable (hi_reserved item)" "hi_algorithm item = ''token_bucket'' \<longleftrightarrow> hi_period item = None"
    using r p by auto
qed

lemma bucket_paid:
  assumes "booksBalanced s" "itemHeld item s" "hi_algorithm item = ''token_bucket''" "s' = s\<lparr>bucket_state := bs\<rparr>"
  shows "counterPaid item s s'"
  using assms itemHeld_typed(2) [OF assms(1,2)]
  by (auto simp: counterPaid_def booksBalanced_def booksTyped_def intro!: exI [of _ bs] exI [of _ "quota_periods s"])

lemma quota_paid:
  assumes "booksBalanced s" "itemHeld item s"
    and run: "settleQuota noPeriod wrap item actual w (n, s) = Inr (x, n', s')"
  shows "counterPaid item s s'"
proof -
  from run obtain t m where t: "hi_period item = Some t"
    and u: "updateQuotaPeriod (hi_policyID item) t actual (- hi_reserved item) w (m, s) = Inr (x, n', s')"
    unfolding settleQuota_def by (clarsimp simp: tx_inv elim!: tx_elim)
  from updateQuotaPeriod_books [OF _ itemHeld_typed(1) [OF assms(1,2)] u] assms(1)
  obtain qs where "s' = s\<lparr>quota_periods := qs\<rparr>" "periodsTyped qs"
    "\<forall>p t'. reservedUnits p t' qs = reservedUnits p t' (quota_periods s) - (if p = hi_policyID item \<and> t' = t then hi_reserved item else 0)"
    by (auto simp: booksBalanced_def)
  with t show ?thesis
    by (auto simp: counterPaid_def intro!: exI [of _ "bucket_state s"] exI [of _ qs])
qed

text \<open>Paying the counter and marking the reservation: the item leaves the books, the others stay.\<close>

lemma paid_and_marked:
  assumes "booksBalanced s" "itemHeld item s" "counterPaid item s s1"
    and mark: "markReservation (hi_id item) state now w (n, s1) = Inr (x, n', s')" and "\<not> heldState state"
  shows "booksBalanced s'" and "hi_id y \<noteq> hi_id item \<Longrightarrow> itemHeld y s \<Longrightarrow> itemHeld y s'"
proof -
  from assms(3) obtain bs qs where s1: "s1 = s\<lparr>bucket_state := bs, quota_periods := qs\<rparr>" "periodsTyped qs"
    and moved: "\<And>p t. reservedUnits p t qs = reservedUnits p t (quota_periods s) -
        (if p = hi_policyID item \<and> hi_period item = Some t then hi_reserved item else 0)"
    by (auto simp: counterPaid_def)
  from mark s1 have s': "limit_policies s' = limit_policies s" "quota_periods s' = qs"
      "reservations s' = updateWhere (\<lambda>r. rs_id r = hi_id item) (\<lambda>r. r\<lparr>rs_state := state, rs_settled := Some now\<rparr>) (reservations s)"
    by (auto simp: tx_inv)
  show "booksBalanced s'"
    using assms(5) s1 s' moved by (intro booksBalanced_drop [OF assms(1,2) s'(1,3)]) auto
  show "itemHeld y s'" if "hi_id y \<noteq> hi_id item" "itemHeld y s"
    using that(2,1) s'(1,3) by (rule itemHeld_frame) simp
qed

text \<open>A reservation that becomes uncertain is still held.\<close>

lemma marked_uncertain:
  assumes "booksBalanced s" and mark: "markReservation i ''uncertain'' now w (n, s) = Inr (x, n', s')"
    and "\<And>r. r \<in> set (reservations s) \<Longrightarrow> rs_id r = i \<Longrightarrow> heldState (rs_state r)"
  shows "booksBalanced s'"
proof -
  from mark have s': "limit_policies s' = limit_policies s" "quota_periods s' = quota_periods s"
      "reservations s' = updateWhere (\<lambda>r. rs_id r = i) (\<lambda>r. r\<lparr>rs_state := ''uncertain'', rs_settled := Some now\<rparr>) (reservations s)"
    by (auto simp: tx_inv)
  have "heldUnits p t (reservations s') = heldUnits p t (reservations s)" for p t
    unfolding s'(3) using assms(3) by (intro heldUnits_same) (simp add: heldState_def)
  with assms(1) s' show ?thesis
    by (auto simp: booksBalanced_def booksTyped_def map_updateWhere set_updateWhere reservationTyped_def)
qed

lemma itemHeld_state:
  assumes "booksBalanced s" "itemHeld item s" "r \<in> set (reservations s)" "rs_id r = hi_id item"
  shows "heldState (rs_state r)"
proof -
  from assms(2) obtain r' where "r' \<in> set (reservations s)" "rs_id r' = hi_id item" "heldState (rs_state r')"
    by (auto simp: itemHeld_def)
  moreover have "inj_on rs_id (set (reservations s))"
    using assms(1) by (simp add: booksBalanced_def booksTyped_def distinct_map)
  ultimately show ?thesis using assms(3,4) by (metis inj_onD)
qed

section \<open>The loops\<close>

text \<open>The release of a period row is a conditional update; balanced books make its condition true.\<close>

lemma release_paid:
  assumes B: "booksBalanced s" and held: "itemHeld item s" and quota: "hi_algorithm item \<noteq> ''token_bucket''"
    and s1: "s1 = quota_periods_update (updateWhere (\<lambda>q. qp_policy q = hi_policyID item \<and>
               qp_start q = (case hi_period item of None \<Rightarrow> 0 | Some p \<Rightarrow> p) \<and> qp_reserved q \<ge> hi_reserved item)
               (\<lambda>q. q\<lparr>qp_reserved := qp_reserved q - hi_reserved item\<rparr>)) s"
  shows "counterPaid item s s1"
proof -
  from itemHeld_typed [OF B held] quota obtain t where t: "hi_period item = Some t" and u: "countable (hi_reserved item)" by auto
  let ?P = "\<lambda>q. qp_policy q = hi_policyID item \<and> qp_start q = t \<and> qp_reserved q \<ge> hi_reserved item"
  let ?f = "\<lambda>q. q\<lparr>qp_reserved := qp_reserved q - hi_reserved item\<rparr>"
  let ?qs = "updateWhere ?P ?f (quota_periods s)"
  have typed: "periodsTyped (quota_periods s)" using B by (simp add: booksBalanced_def booksTyped_def)
  have "periodsTyped ?qs"
    using typed u by (intro periodsTyped_update) (auto simp: periodsTyped_def countable_def)
  moreover have "reservedUnits p t' ?qs = reservedUnits p t' (quota_periods s) -
      (if p = hi_policyID item \<and> t' = t then hi_reserved item else 0)" for p t'
  proof -
    from held obtain r where "r \<in> set (reservations s)" "rs_policy r = hi_policyID item" "rs_period r = Some t"
        "rs_units r = hi_reserved item" "heldState (rs_state r)"
      using t by (auto simp: itemHeld_def)
    then have "hi_reserved item \<le> heldUnits (hi_policyID item) t (reservations s)"
      using heldUnits_ge [of r "reservations s" t] B
      by (auto simp: booksBalanced_def booksTyped_def reservationTyped_def countable_def)
    then have le: "hi_reserved item \<le> reservedUnits (hi_policyID item) t (quota_periods s)"
      using B by (simp add: booksBalanced_def)
    show ?thesis
    proof (cases "periodOf (hi_policyID item) t (quota_periods s)")
      case None
      with le u have zero: "hi_reserved item = 0" by (simp add: reservedUnits_def countable_def)
      then show ?thesis
        by (simp add: reservedUnits_def periodOf_updateWhere) (simp add: option.case_eq_if option.map_sel)
    next
      case (Some q)
      with le have "?P q" by (auto simp: reservedUnits_def dest: periodOf_Some)
      then show ?thesis
        using Some by (subst reservedUnits_set [OF Some]) (auto simp: reservedUnits_def)
    qed
  qed
  moreover have "s1 = s\<lparr>bucket_state := bucket_state s, quota_periods := ?qs\<rparr>"
    using s1 t by (cases s) simp
  ultimately show ?thesis using t unfolding counterPaid_def by fastforce
qed

text \<open>A step that pays the counter and then marks the reservation.\<close>

lemma pay_and_mark_step:
  assumes "booksBalanced s" "itemHeld item s" and run: "thenT pay k w (n, s) = Inr (x, n', s')"
    and paid: "\<And>y m s1. pay w (n, s) = Inr (y, m, s1) \<Longrightarrow> counterPaid item s s1"
    and mark: "\<And>m s1. k w (m, s1) = Inr (x, n', s') \<Longrightarrow> \<exists>now m' y. markReservation (hi_id item) state now w (m', s1) = Inr (y, n', s')"
    and "\<not> heldState state"
  shows "booksBalanced s' \<and> (\<forall>y. hi_id y \<noteq> hi_id item \<longrightarrow> itemHeld y s \<longrightarrow> itemHeld y s')"
proof -
  from run obtain y m s1 where "pay w (n, s) = Inr (y, m, s1)" "k w (m, s1) = Inr (x, n', s')" by (rule thenT_E)
  with paid mark obtain now m' z where "counterPaid item s s1" "markReservation (hi_id item) state now w (m', s1) = Inr (z, n', s')" by blast
  then show ?thesis
    using paid_and_marked [OF assms(1,2)] assms(6) by blast
qed

lemma settle_paid:
  assumes "booksBalanced s" "itemHeld item s"
    and "(if hi_algorithm item = ''token_bucket'' then settleBucket overflow item actual else settleQuota noPeriod wrap item actual) w (n, s) =
         Inr (x, n', s')"
  shows "counterPaid item s s'"
proof (cases "hi_algorithm item = ''token_bucket''")
  case True
  with assms(3) obtain bs where "s' = s\<lparr>bucket_state := bs\<rparr>" by (auto dest: settleBucket_frame)
  with bucket_paid [OF assms(1,2) True] show ?thesis by blast
qed (use assms in \<open>auto intro: quota_paid\<close>)

lemma releaseItem_step:
  assumes "booksBalanced s" "itemHeld item s" and run: "releaseItem now item w (n, s) = Inr (x, n', s')"
  shows "booksBalanced s' \<and> (\<forall>y. hi_id y \<noteq> hi_id item \<longrightarrow> itemHeld y s \<longrightarrow> itemHeld y s')"
  using assms(1,2) run unfolding releaseItem_def
proof (rule pay_and_mark_step [where state = "''released''"])
  fix y m s1
  assume "(if hi_algorithm item = ''token_bucket''
       then updateBuckets (\<lambda>b. bs_policy b = hi_policyID item) (\<lambda>b. b\<lparr>bs_remaining := min (hi_limit item) (bs_remaining b + hi_reserved item)\<rparr>)
       else updatePeriods (\<lambda>q. qp_policy q = hi_policyID item \<and> qp_start q = (case hi_period item of None \<Rightarrow> 0 | Some p \<Rightarrow> p) \<and>
              qp_reserved q \<ge> hi_reserved item) (\<lambda>q. q\<lparr>qp_reserved := qp_reserved q - hi_reserved item\<rparr>)) w (n, s) = Inr (y, m, s1)"
  then show "counterPaid item s s1"
    using bucket_paid [OF assms(1,2) _ set_buckets] release_paid [OF assms(1,2)]
    by (cases "hi_algorithm item = ''token_bucket''") (auto simp: updateBuckets_def updatePeriods_def updateT_Inr)
qed (fastforce simp: returnT_Inr elim!: tx_elim, simp add: heldState_def)

lemma settleItem_step:
  assumes "booksBalanced s" "itemHeld item s" and run: "settleItem status tokens cost now item w (n, s) = Inr (x, n', s')"
  shows "booksBalanced s' \<and> (\<forall>y. hi_id y \<noteq> hi_id item \<longrightarrow> itemHeld y s \<longrightarrow> itemHeld y s')"
proof -
  obtain actual known where units: "settlementUnits (hi_metric item) tokens cost = (actual, known)" by fastforce
  show ?thesis
  proof (cases "status = ''unknown'' \<or> \<not> known")
    case True
    then obtain x' where mark: "markReservation (hi_id item) ''uncertain'' now w (n, s) = Inr (x', n', s')"
      using run units by (auto simp: settleItem_def returnT_Inr elim!: tx_elim)
    then have s': "limit_policies s' = limit_policies s"
        "reservations s' = updateWhere (\<lambda>r. rs_id r = hi_id item) (\<lambda>r. r\<lparr>rs_state := ''uncertain'', rs_settled := Some now\<rparr>) (reservations s)"
      by (auto simp: tx_inv)
    have "itemHeld y s'" if "hi_id y \<noteq> hi_id item" "itemHeld y s" for y
      using that(2,1) s' by (rule itemHeld_frame) simp
    with marked_uncertain [OF assms(1) mark] itemHeld_state [OF assms(1,2)] show ?thesis by blast
  next
    case False
    with run units have "thenT (if hi_algorithm item = ''token_bucket'' then settleBucket ''bucket settlement overflow'' item actual
        else settleQuota ''quota reservation has no period'' (wrapErr ''quota reservation state is inconsistent: '') item actual)
        (thenT (markReservation (hi_id item) ''settled'' now) (returnT ())) w (n, s) = Inr (x, n', s')"
      by (simp add: settleItem_def)
    then show ?thesis
      by (rule pay_and_mark_step [where state = "''settled''", OF assms(1,2)])
         (erule settle_paid [OF assms(1,2)], fastforce simp: returnT_Inr nowT_Inr elim!: tx_elim, simp add: heldState_def)
  qed
qed

lemma reconcileItem_step:
  assumes "booksBalanced s" "itemHeld item s" and run: "reconcileItem tokens cost item w (n, s) = Inr (x, n', s')"
  shows "booksBalanced s' \<and> (\<forall>y. hi_id y \<noteq> hi_id item \<longrightarrow> itemHeld y s \<longrightarrow> itemHeld y s')"
proof -
  obtain actual known where units: "settlementUnits (hi_metric item) tokens cost = (actual, known)" by fastforce
  show ?thesis
  proof (cases known)
    case False
    with run units assms(1) show ?thesis by (auto simp: reconcileItem_def returnT_Inr)
  next
    case True
    with run units have "thenT (if hi_algorithm item = ''token_bucket'' then settleBucket ''bucket reconciliation overflow'' item actual
        else settleQuota ''quota reconciliation has no period'' id item actual)
        (bindT nowT (\<lambda>now. thenT (markReservation (hi_id item) ''settled'' now) (returnT ()))) w (n, s) = Inr (x, n', s')"
      by (simp add: reconcileItem_def)
    then show ?thesis
      by (rule pay_and_mark_step [where state = "''settled''", OF assms(1,2)])
         (erule settle_paid [OF assms(1,2)], fastforce simp: returnT_Inr nowT_Inr elim!: tx_elim, simp add: heldState_def)
  qed
qed

interpretation release: item_loop "releaseItem now" hi_id itemHeld booksBalanced for now
  using releaseItem_step by (rule item_loopI)

interpretation settle: item_loop "settleItem status tokens cost now" hi_id itemHeld booksBalanced for status tokens cost now
  using settleItem_step by (rule item_loopI)

interpretation reconcile: item_loop "reconcileItem tokens cost" hi_id itemHeld booksBalanced for tokens cost
  using reconcileItem_step by (rule item_loopI)

text \<open>
  The spend counters of a repriced or adjusted attempt: a settled reservation only has its consumed
  units corrected, an uncertain one is settled on the way.
\<close>

definition spendHeld :: "string \<times> string \<times> int \<times> int \<times> string \<Rightarrow> store \<Rightarrow> bool" where
  "spendHeld item s \<longleftrightarrow> (case item of (i, policyID, start, reserved, state) \<Rightarrow>
     \<exists>r \<in> set (reservations s). rs_id r = i \<and> rs_policy r = policyID \<and> rs_period r = Some start \<and> rs_units r = reserved \<and>
       rs_state r = state \<and> state \<in> {''settled'', ''uncertain''})"

lemma spendItems_held: "item \<in> set (spendItems attemptID s) \<Longrightarrow> spendHeld item s"
  by (auto simp: spendItems_def spendHeld_def)

lemma distinct_spendItems:
  assumes "distinct (map rs_id (reservations s))" "distinct (map lp_id (limit_policies s))"
  shows "distinct (map fst (spendItems attemptID s))"
  unfolding spendItems_def
  by (rule distinct_join [where k = rs_id]) (auto simp: assms distinct_map_filter filter_key_once_and)

lemma booksTyped_reservation:
  assumes "booksBalanced s" "r \<in> set (reservations s)"
  obtains p where "countable (rs_units r)" "p \<in> set (limit_policies s)" "lp_id p = rs_policy r"
    "lp_algorithm p = ''token_bucket'' \<longleftrightarrow> rs_period r = None"
  using assms by (fastforce simp: booksBalanced_def booksTyped_def reservationTyped_def)

lemma same_reservation:
  "booksBalanced s \<Longrightarrow> r \<in> set (reservations s) \<Longrightarrow> r' \<in> set (reservations s) \<Longrightarrow> rs_id r = rs_id r' \<Longrightarrow> r = r'"
  by (rule inj_onD [of rs_id "set (reservations s)"]) (simp_all add: booksBalanced_def booksTyped_def distinct_map)

lemma spend_uncertain_step:
  assumes B: "booksBalanced s" and r: "r \<in> set (reservations s)" "rs_period r = Some start" "rs_state r = ''uncertain''"
    and u: "updateQuotaPeriod (rs_policy r) start change (- rs_units r) w (n, s) = Inr (x, n', s1)"
    and s': "s' = reservations_update (updateWhere (\<lambda>y. rs_id y = rs_id r \<and> rs_state y = ''uncertain'')
               (\<lambda>y. y\<lparr>rs_state := ''settled'', rs_settled := Some now\<rparr>)) s1"
  shows "booksBalanced s'"
proof -
  from B r(1) obtain p where c: "countable (rs_units r)" and p: "p \<in> set (limit_policies s)" "lp_id p = rs_policy r"
    by (rule booksTyped_reservation)
  define item where "item = \<lparr>hi_id = rs_id r, hi_policyID = rs_policy r, hi_metric = lp_metric p, hi_algorithm = lp_algorithm p,
    hi_period = rs_period r, hi_reserved = rs_units r, hi_limit = lp_limit p\<rparr>"
  have held: "itemHeld item s" using r p by (auto simp: itemHeld_def item_def heldState_def)
  from updateQuotaPeriod_books [OF _ c u] B obtain qs where s1: "s1 = s\<lparr>quota_periods := qs\<rparr>" "periodsTyped qs"
    "\<And>p t. reservedUnits p t qs = reservedUnits p t (quota_periods s) - (if p = rs_policy r \<and> t = start then rs_units r else 0)"
    by (auto simp: booksBalanced_def)
  have lp: "limit_policies s' = limit_policies s"
    and rs: "reservations s' = updateWhere (\<lambda>y. rs_id y = rs_id r \<and> rs_state y = ''uncertain'')
               (\<lambda>y. y\<lparr>rs_state := ''settled'', rs_settled := Some now\<rparr>) (reservations s)"
    and "quota_periods s' = qs"
    using s' s1 by simp_all
  with s1 r show ?thesis
    by (intro booksBalanced_drop [OF B held lp rs]) (auto simp: item_def heldState_def dest: same_reservation [OF B r(1)])
qed

lemma spend_settled_step:
  assumes B: "booksBalanced s" and u: "updateQuotaPeriod policyID start change 0 w (n, s) = Inr (x, n', s')"
  shows "booksBalanced s'"
proof -
  from u have u': "updateQuotaPeriod policyID start change (- 0) w (n, s) = Inr (x, n', s')" by simp
  from updateQuotaPeriod_books [OF _ _ u'] B show ?thesis
    by (auto simp: booksBalanced_def booksTyped_def countable_def MaxInt64_def)
qed

lemma updateQuotaPeriod_frame:
  "updateQuotaPeriod policyID start dc dr w (n, s) = Inr (x, n', s') \<Longrightarrow> \<exists>qs. s' = s\<lparr>quota_periods := qs\<rparr>"
  by (auto dest: updateQuotaPeriod_Inr)

lemma reconcileSpend_Inr:
  assumes "reconcileSpend delta actual now (i, policyID, start, reserved, state) w (n, s) = Inr (x, n', s')"
  obtains (idle) "s' = s" | (settled) m where "state \<noteq> ''uncertain''" "updateQuotaPeriod policyID start delta 0 w (n, s) = Inr ((), m, s')"
    | (uncertain) m s1 where "state = ''uncertain''" "updateQuotaPeriod policyID start actual (- reserved) w (n, s) = Inr ((), m, s1)"
        "s' = reservations_update (updateWhere (\<lambda>y. rs_id y = i \<and> rs_state y = ''uncertain'')
               (\<lambda>y. y\<lparr>rs_state := ''settled'', rs_settled := Some now\<rparr>)) s1"
  using assms unfolding reconcileSpend_def updateReservations_def
  by (auto simp: Let_def tx_inv elim!: tx_elim split: if_splits)

lemma spendHeld_frame:
  assumes "spendHeld y s" and "fst y \<noteq> i"
    and "reservations s' = reservations s \<or>
         reservations s' = updateWhere (\<lambda>x. rs_id x = i \<and> rs_state x = ''uncertain'') f (reservations s)"
  shows "spendHeld y s'"
proof -
  obtain j p t u st where y: "y = (j, p, t, u, st)" by (cases y) auto
  with assms(1) obtain r where "r \<in> set (reservations s)" "rs_id r = j" "rs_policy r = p" "rs_period r = Some t" "rs_units r = u"
      "rs_state r = st" "st \<in> {''settled'', ''uncertain''}"
    by (auto simp: spendHeld_def)
  moreover from this assms(2,3) y have "r \<in> set (reservations s')"
    by (auto simp: set_updateWhere intro!: image_eqI [of _ _ r])
  ultimately show ?thesis using y by (auto simp: spendHeld_def)
qed

lemma reconcileSpend_step:
  assumes B: "booksBalanced s" and held: "spendHeld item s" and run: "reconcileSpend delta actual now item w (n, s) = Inr (x, n', s')"
  shows "booksBalanced s' \<and> (\<forall>y. fst y \<noteq> fst item \<longrightarrow> spendHeld y s \<longrightarrow> spendHeld y s')"
proof -
  obtain i p t u st where item: "item = (i, p, t, u, st)" by (cases item) auto
  with held obtain r where r: "r \<in> set (reservations s)" "rs_id r = i" "rs_policy r = p" "rs_period r = Some t" "rs_units r = u" "rs_state r = st"
    by (auto simp: spendHeld_def)
  from run item have "reconcileSpend delta actual now (i, p, t, u, st) w (n, s) = Inr (x, n', s')" by simp
  then show ?thesis
  proof (cases rule: reconcileSpend_Inr)
    case idle
    with B show ?thesis by simp
  next
    case (settled m)
    from updateQuotaPeriod_frame [OF settled(2)] have "reservations s' = reservations s" by auto
    with spend_settled_step [OF B settled(2)] spendHeld_frame [of _ s i s'] item show ?thesis by simp
  next
    case (uncertain m s1)
    with r have b: "booksBalanced s'" by (intro spend_uncertain_step [OF B r(1,4)]) auto
    from uncertain updateQuotaPeriod_frame [OF uncertain(2)]
    have "reservations s' = updateWhere (\<lambda>x. rs_id x = i \<and> rs_state x = ''uncertain'')
        (\<lambda>y. y\<lparr>rs_state := ''settled'', rs_settled := Some now\<rparr>) (reservations s)" by auto
    from spendHeld_frame [OF _ _ disjI2 [OF this]] b item show ?thesis by simp
  qed
qed

interpretation spend: item_loop "reconcileSpend delta actual now" fst spendHeld booksBalanced for delta actual now
  using reconcileSpend_step by (rule item_loopI)

section \<open>Booking a plan\<close>

text \<open>
  A plan made from the store still fits it: for a window it would write the reserved units found there
  plus its own, and for a reservation its units are a count.
\<close>

definition planFits :: "counter_plan \<Rightarrow> store \<Rightarrow> bool" where
  "planFits plan s \<longleftrightarrow> rp_metric (cp_policy plan) \<noteq> ''concurrency'' \<longrightarrow>
     (\<exists>p \<in> set (limit_policies s). lp_id p = rp_id (cp_policy plan) \<and> lp_algorithm p = rp_algorithm (cp_policy plan)) \<and>
     (cp_reserve plan \<longrightarrow> countable (cp_units plan)) \<and>
     (rp_algorithm (cp_policy plan) \<noteq> ''token_bucket'' \<longrightarrow>
        int64_range (cp_consumed plan) \<and> int64_range (cp_reserved plan) \<and>
        cp_reserved plan = reservedUnits (rp_id (cp_policy plan)) (cp_periodStart plan) (quota_periods s) +
          (if cp_reserve plan then cp_units plan else 0))"

text \<open>The period row a window plan writes.\<close>

definition bookedPeriod :: "counter_plan \<Rightarrow> int \<Rightarrow> period_row" where
  "bookedPeriod plan now = \<lparr>qp_policy = rp_id (cp_policy plan), qp_start = cp_periodStart plan, qp_end = cp_periodEnd plan,
     qp_consumed = cp_consumed plan, qp_reserved = cp_reserved plan, qp_effective = now\<rparr>"

definition upsertedPeriods :: "period_row \<Rightarrow> period_row list \<Rightarrow> period_row list" where
  "upsertedPeriods q qs =
     (if list_ex (\<lambda>q'. samePeriod q' q) qs then updateWhere (\<lambda>q'. samePeriod q' q) (\<lambda>q'. mergePeriod q' q) qs else qs @ [q])"

lemma upsertPeriod_Inr:
  "upsertPeriod mergePeriod q w (n, s) = Inr (x, n', s') \<Longrightarrow>
     periodCheck q \<and> s' = s\<lparr>quota_periods := upsertedPeriods q (quota_periods s)\<rparr>"
  by (cases s) (auto simp: upsertPeriod_def upsertT_Inr upsertedPeriods_def split: if_splits)

lemma upserted_books:
  assumes "periodsTyped qs" "countable (qp_consumed q)" "countable (qp_reserved q)"
  shows "periodsTyped (upsertedPeriods q qs)"
    and "reservedUnits p t (upsertedPeriods q qs) =
         (if p = qp_policy q \<and> t = qp_start q then qp_reserved q else reservedUnits p t qs)"
proof -
  show "periodsTyped (upsertedPeriods q qs)"
  proof (cases "list_ex (\<lambda>q'. samePeriod q' q) qs")
    case True
    with assms show ?thesis
      unfolding upsertedPeriods_def by (auto simp: mergePeriod_def intro: periodsTyped_update)
  next
    case False
    with assms show ?thesis
      by (auto simp: upsertedPeriods_def periodsTyped_def list_ex_iff samePeriod_def)
  qed
  show "reservedUnits p t (upsertedPeriods q qs) =
      (if p = qp_policy q \<and> t = qp_start q then qp_reserved q else reservedUnits p t qs)"
  proof (cases "periodOf (qp_policy q) (qp_start q) qs")
    case None
    then have "\<not> list_ex (\<lambda>q'. samePeriod q' q) qs"
      by (auto simp: periodOf_def find_None_iff list_ex_iff samePeriod_def)
    with None show ?thesis
      by (auto simp: upsertedPeriods_def reservedUnits_def periodOf_append split: option.splits) (auto simp: periodOf_def)
  next
    case (Some q0)
    then have "samePeriod q0 q" "list_ex (\<lambda>q'. samePeriod q' q) qs"
      by (auto simp: samePeriod_def list_ex_iff dest!: periodOf_Some)
    moreover from this have "reservedUnits p t (updateWhere (\<lambda>q'. samePeriod q' q) (\<lambda>q'. mergePeriod q' q) qs) =
        (if p = qp_policy q \<and> t = qp_start q then qp_reserved (mergePeriod q0 q) else reservedUnits p t qs)"
      by (intro reservedUnits_set [OF Some]) (auto simp: samePeriod_def mergePeriod_def)
    ultimately show ?thesis by (simp add: upsertedPeriods_def mergePeriod_def)
  qed
qed

lemma bookCounter_Inr:
  assumes "bookCounter plan now w (n, s) = Inr (x, n', s')"
  shows "if rp_algorithm (cp_policy plan) = ''token_bucket'' then \<exists>bs. s' = s\<lparr>bucket_state := bs\<rparr>
         else periodCheck (bookedPeriod plan now) \<and> s' = s\<lparr>quota_periods := upsertedPeriods (bookedPeriod plan now) (quota_periods s)\<rparr>"
proof (cases "rp_algorithm (cp_policy plan) = ''token_bucket''")
  case True
  with assms obtain f where "s' = bucket_state_update f s"
    by (auto simp: bookCounter_def upsertBucket_def upsertT_Inr split: if_splits)
  with set_buckets [of f s] have "s' = s\<lparr>bucket_state := f (bucket_state s)\<rparr>" by simp
  with True show ?thesis by auto
next
  case False
  with assms show ?thesis
    by (auto simp: bookCounter_def bookedPeriod_def dest: upsertPeriod_Inr)
qed

lemma bookReservation_Inr:
  "bookReservation plan attemptID now w (n, s) = Inr (x, n', s') \<Longrightarrow>
   \<exists>r. s' = s\<lparr>reservations := reservations s @ [r]\<rparr> \<and> (\<forall>r' \<in> set (reservations s). rs_id r' \<noteq> rs_id r) \<and>
     rs_attempt r = attemptID \<and> rs_policy r = rp_id (cp_policy plan) \<and> rs_units r = cp_units plan \<and> rs_state r = ''active'' \<and>
     rs_period r = (if rp_algorithm (cp_policy plan) \<noteq> ''token_bucket'' then Some (cp_periodStart plan) else None)"
  by (cases s) (auto simp: bookReservation_def insertReservation_def list_ex_iff randT_Inr insertT_Inr elim!: tx_elim)

lemma planFits_frame:
  assumes "planFits y s" "rp_id (cp_policy y) \<noteq> i" "limit_policies s' = limit_policies s"
    and "\<And>p t. p \<noteq> i \<Longrightarrow> reservedUnits p t (quota_periods s') = reservedUnits p t (quota_periods s)"
  shows "planFits y s'"
  using assms by (auto simp: planFits_def)

text \<open>The reserved units of every period after the counter of a plan is booked.\<close>

lemma bookCounter_books:
  assumes B: "booksTyped s" and fits: "planFits plan s" and m: "rp_metric (cp_policy plan) \<noteq> ''concurrency''"
    and run: "bookCounter plan now w (n, s) = Inr (x, n', s')"
  shows "\<exists>bs qs. s' = s\<lparr>bucket_state := bs, quota_periods := qs\<rparr> \<and> periodsTyped qs \<and>
     (\<forall>p t. reservedUnits p t qs = reservedUnits p t (quota_periods s) +
        (if rp_algorithm (cp_policy plan) \<noteq> ''token_bucket'' \<and> cp_reserve plan \<and> p = rp_id (cp_policy plan) \<and> t = cp_periodStart plan
         then cp_units plan else 0))"
proof (cases "rp_algorithm (cp_policy plan) = ''token_bucket''")
  case True
  with bookCounter_Inr [OF run] obtain bs where "s' = s\<lparr>bucket_state := bs\<rparr>" by auto
  with B True show ?thesis
    by (intro exI [of _ bs] exI [of _ "quota_periods s"]) (simp add: booksTyped_def)
next
  case False
  let ?q = "bookedPeriod plan now"
  from bookCounter_Inr [OF run] False have check: "periodCheck ?q"
    and s': "s' = s\<lparr>quota_periods := upsertedPeriods ?q (quota_periods s)\<rparr>" by auto
  from fits m False have range: "int64_range (cp_consumed plan)" "int64_range (cp_reserved plan)"
    and res: "cp_reserved plan = reservedUnits (rp_id (cp_policy plan)) (cp_periodStart plan) (quota_periods s) +
      (if cp_reserve plan then cp_units plan else 0)"
    by (auto simp: planFits_def)
  have c: "countable (qp_consumed ?q)" "countable (qp_reserved ?q)"
    using check range by (auto simp: periodCheck_def bookedPeriod_def countable_def int64_range_def)
  have "periodsTyped (quota_periods s)" using B by (simp add: booksTyped_def)
  from upserted_books [OF this c] show ?thesis
    using s' False res
    by (intro exI [of _ "bucket_state s"] exI [of _ "upsertedPeriods ?q (quota_periods s)"]) (auto simp: bookedPeriod_def)
qed

lemma applyPlan_step:
  assumes B: "booksBalanced s" and fits: "planFits plan s" and run: "applyPlan plan requestID attemptID epoch now w (n, s) = Inr (x, n', s')"
  shows "booksBalanced s' \<and> (\<forall>y. rp_id (cp_policy y) \<noteq> rp_id (cp_policy plan) \<longrightarrow> planFits y s \<longrightarrow> planFits y s')"
proof (cases "rp_metric (cp_policy plan) = ''concurrency''")
  case True
  with run obtain f where "s' = concurrency_leases_update f s"
    by (auto simp: applyPlan_def insertLease_def insertT_Inr)
  with B show ?thesis by (auto simp: planFits_def intro: booksBalanced_cong [THEN iffD2])
next
  case False
  with run obtain m s1 where c: "bookCounter plan now w (n, s) = Inr ((), m, s1)"
    and r: "(if cp_reserve plan then bookReservation plan attemptID now else returnT ()) w (m, s1) = Inr (x, n', s')"
    by (auto simp: applyPlan_def elim!: tx_elim)
  from bookCounter_books [OF _ fits False c] B obtain bs qs where s1: "s1 = s\<lparr>bucket_state := bs, quota_periods := qs\<rparr>" "periodsTyped qs"
    and qs: "\<And>p t. reservedUnits p t qs = reservedUnits p t (quota_periods s) +
        (if rp_algorithm (cp_policy plan) \<noteq> ''token_bucket'' \<and> cp_reserve plan \<and> p = rp_id (cp_policy plan) \<and> t = cp_periodStart plan
         then cp_units plan else 0)"
    by (auto simp: booksBalanced_def)
  have "booksBalanced s' \<and> limit_policies s' = limit_policies s \<and> quota_periods s' = qs"
  proof (cases "cp_reserve plan")
    case False
    with r s1 qs B show ?thesis by (auto simp: returnT_Inr booksBalanced_def booksTyped_def)
  next
    case True
    with r have "bookReservation plan attemptID now w (m, s1) = Inr (x, n', s')" by simp
    from bookReservation_Inr [OF this] obtain rr where s': "s' = s1\<lparr>reservations := reservations s1 @ [rr]\<rparr>"
      and new: "\<forall>r' \<in> set (reservations s1). rs_id r' \<noteq> rs_id rr" "rs_policy rr = rp_id (cp_policy plan)" "rs_units rr = cp_units plan"
        "rs_state rr = ''active''" "rs_period rr = (if rp_algorithm (cp_policy plan) \<noteq> ''token_bucket'' then Some (cp_periodStart plan) else None)"
      by blast
    from fits \<open>rp_metric (cp_policy plan) \<noteq> ''concurrency''\<close> True new have "reservationTyped (limit_policies s) rr"
      by (auto simp: planFits_def reservationTyped_def)
    with B s1 s' new qs True show ?thesis
      by (auto simp: booksBalanced_def booksTyped_def heldState_def)
  qed
  then show ?thesis using planFits_frame [of _ s _ s'] qs by auto
qed

interpretation booking: item_loop "\<lambda>plan. applyPlan plan requestID attemptID epoch now" "\<lambda>plan. rp_id (cp_policy plan)" planFits booksBalanced
  for requestID attemptID epoch now
  using applyPlan_step by (rule item_loopI)

section \<open>Planning\<close>

lemma windowStep_Inr:
  assumes "windowStep policy periodEnd (consumed, reserved) now units reserve = Inr (c', r')"
    and "countable consumed" "countable reserved" "countable units"
  shows "c' = (if reserve then consumed else consumed + units)" and "r' = (if reserve then reserved + units else reserved)"
    and "c' + r' \<le> rp_limit policy" and "countable c'" and "countable r'"
proof -
  from assms(1) obtain used where used: "checkedAdd [consumed, reserved, units] = Some used" "used \<le> rp_limit policy"
    and res: "(c', r') = (if reserve then (consumed, wrap64 (reserved + units)) else (wrap64 (consumed + units), reserved))"
    by (auto simp: windowStep_def split: option.splits if_splits)
  from used(1) assms(2-4) have sum: "used = consumed + reserved + units" "used \<le> MaxInt64"
    by (auto simp: checkedAdd_all_nonneg countable_def split: if_splits)
  with assms(2-4) have "wrap64 (reserved + units) = reserved + units" "wrap64 (consumed + units) = consumed + units"
    by (auto simp: countable_def int64_range_def int64_limits)
  with res sum used(2) assms(2-4) show "c' = (if reserve then consumed else consumed + units)" "r' = (if reserve then reserved + units else reserved)"
    "c' + r' \<le> rp_limit policy" "countable c'" "countable r'"
    by (auto simp: countable_def split: if_splits)
qed

lemma windowStep_plain:
  assumes "windowStep policy periodEnd (consumed, reserved) now units reserve = Inr (c', r')" "\<not> reserve"
  shows "r' = reserved" and "int64_range c'"
  using assms wrap64_range [of "consumed + units"] by (auto simp: windowStep_def simp del: wrap64_id split: option.splits if_splits)

lemma planUnits_reserve:
  "planUnits policy first input tokens cost = Inr (Some (units, True)) \<Longrightarrow> rp_metric policy \<noteq> ''concurrency'' \<and> (units = tokens \<or> cost = Some units)"
  by (auto simp: planUnits_def split: if_splits option.splits)

text \<open>The row a policy is evaluated against, as counts.\<close>

lemma period_counts:
  assumes "periodsTyped qs"
  shows "countable (case periodOf p t qs of None \<Rightarrow> 0 | Some q \<Rightarrow> qp_consumed q)" and "countable (reservedUnits p t qs)"
  using assms periodOf_Some by (fastforce simp: reservedUnits_def countable_def MaxInt64_def periodsTyped_def split: option.splits)+

lemma evaluateWindow_Inr:
  assumes "evaluateWindow policy now units reserve w (n, s) = Inr (x, n', s')"
  obtains start periodEnd c r where "periodBounds policy now = (start, periodEnd)"
    "windowStep policy periodEnd (case periodOf (rp_id policy) start (quota_periods s) of None \<Rightarrow> 0 | Some q \<Rightarrow> qp_consumed q,
       reservedUnits (rp_id policy) start (quota_periods s)) now units reserve = Inr (c, r)"
    "x = Some ((emptyPlan policy)\<lparr>cp_units := units, cp_reserve := reserve, cp_periodStart := start, cp_periodEnd := periodEnd,
       cp_consumed := c, cp_reserved := r\<rparr>)"
proof -
  obtain start periodEnd where pb: "periodBounds policy now = (start, periodEnd)" by fastforce
  have row: "(case periodOf (rp_id policy) start (quota_periods s) of None \<Rightarrow> (0, 0) | Some q \<Rightarrow> (qp_consumed q, qp_reserved q)) =
      (case periodOf (rp_id policy) start (quota_periods s) of None \<Rightarrow> 0 | Some q \<Rightarrow> qp_consumed q,
       reservedUnits (rp_id policy) start (quota_periods s))"
    by (simp add: reservedUnits_def split: option.splits)
  from assms pb that [OF pb] show ?thesis
    unfolding evaluateWindow_def
    by (auto simp: tx_inv row [unfolded periodOf_def] periodOf_def elim!: tx_elim split: sum.splits)
qed

lemma evaluatePolicy_fits:
  assumes P: "periodsTyped (quota_periods s)" and p: "p \<in> set (limit_policies s)" "policy = runtimePolicy p"
    and ranges: "int64_range tokens" "\<And>c. cost = Some c \<Longrightarrow> int64_range c"
    and run: "evaluatePolicy policy now first requestID attemptID input tokens cost w (n, s) = Inr (Some plan, n', s')"
  shows "cp_policy plan = policy \<and> planFits plan s"
proof (cases "rp_metric policy = ''concurrency''")
  case True
  with run show ?thesis
    by (auto simp: evaluatePolicy_def evaluateConcurrency_def Let_def tx_inv planFits_def emptyPlan_def elim!: tx_elim split: if_splits)
next
  case False
  with run obtain units reserve where units: "planUnits policy first input tokens cost = Inr (Some (units, reserve))" "0 \<le> units"
    and step: "(if rp_algorithm policy = ''token_bucket'' then evaluateBucket policy now units reserve else evaluateWindow policy now units reserve) w (n, s) =
      Inr (Some plan, n', s')"
    by (auto simp: evaluatePolicy_def tx_inv split: sum.splits option.splits if_splits)
  have c: "countable units" if reserve
  proof -
    from units(1) that planUnits_reserve have "units = tokens \<or> cost = Some units" by auto
    with ranges units(2) show ?thesis by (auto simp: countable_def int64_range_def)
  qed
  have found: "\<exists>p \<in> set (limit_policies s). lp_id p = rp_id policy \<and> lp_algorithm p = rp_algorithm policy"
    using p by (auto simp: runtimePolicy_def)
  show ?thesis
  proof (cases "rp_algorithm policy = ''token_bucket''")
    case True
    with step c found show ?thesis
      by (auto simp: evaluateBucket_def tx_inv planFits_def emptyPlan_def elim!: tx_elim split: sum.splits) blast+
  next
    case False
    with step have "evaluateWindow policy now units reserve w (n, s) = Inr (Some plan, n', s')" by simp
    then show ?thesis
    proof (rule evaluateWindow_Inr)
      fix start periodEnd c' r'
      assume w: "windowStep policy periodEnd (case periodOf (rp_id policy) start (quota_periods s) of None \<Rightarrow> 0 | Some q \<Rightarrow> qp_consumed q,
          reservedUnits (rp_id policy) start (quota_periods s)) now units reserve = Inr (c', r')"
        and plan: "Some plan = Some ((emptyPlan policy)\<lparr>cp_units := units, cp_reserve := reserve, cp_periodStart := start, cp_periodEnd := periodEnd,
          cp_consumed := c', cp_reserved := r'\<rparr>)"
      have "int64_range c' \<and> int64_range r' \<and> r' = reservedUnits (rp_id policy) start (quota_periods s) + (if reserve then units else 0)"
      proof (cases reserve)
        case True
        from windowStep_Inr [OF w period_counts [OF P] c [OF True]] True countable_range show ?thesis by simp
      next
        case False
        from windowStep_plain [OF w False] countable_range [OF period_counts(2) [OF P]] False show ?thesis by simp
      qed
      with plan c found show ?thesis by (auto simp: planFits_def emptyPlan_def)
    qed
  qed
qed

lemma planAll_fits:
  assumes "periodsTyped (quota_periods s)" "int64_range tokens" "\<And>c. cost = Some c \<Longrightarrow> int64_range c"
    and "set ps \<subseteq> runtimePolicy ` set (limit_policies s)" "distinct (map rp_id ps)"
    and "planAll ps now first requestID attemptID input tokens cost w (n, s) = Inr (plans, n', s')"
  shows "(\<forall>plan \<in> set plans. planFits plan s \<and> cp_policy plan \<in> set ps) \<and> distinct (map (\<lambda>plan. rp_id (cp_policy plan)) plans)"
  using assms(4-6)
proof (induction ps arbitrary: n plans n' s')
  case (Cons p ps)
  from planAll_Cons_Inr [OF Cons.prems(3)] obtain plan m rest m' where
    one: "evaluatePolicy p now first requestID attemptID input tokens cost w (n, s) = Inr (plan, m, s)"
    and more: "planAll ps now first requestID attemptID input tokens cost w (m, s) = Inr (rest, m', s)"
    and plans: "plans = (case plan of None \<Rightarrow> rest | Some q \<Rightarrow> q # rest)"
    by blast
  from Cons.IH [OF _ _ more] Cons.prems have IH: "\<forall>plan \<in> set rest. planFits plan s \<and> cp_policy plan \<in> set ps"
      "distinct (map (\<lambda>plan. rp_id (cp_policy plan)) rest)"
    by auto
  show ?case
  proof (cases plan)
    case None
    with plans IH show ?thesis by auto
  next
    case (Some q)
    from Cons.prems(1) obtain row where "row \<in> set (limit_policies s)" "p = runtimePolicy row" by auto
    with evaluatePolicy_fits [OF assms(1) _ _ assms(2,3)] one Some have q: "cp_policy q = p" "planFits q s" by auto
    moreover have "rp_id p \<notin> (\<lambda>plan. rp_id (cp_policy plan)) ` set rest"
      using IH(1) Cons.prems(2) by auto
    ultimately show ?thesis using plans Some IH by auto
  qed
qed (simp add: returnT_Inr)

lemma matchingPolicies_policies:
  assumes "distinct (map lp_id (limit_policies s))"
  shows "set (matchingPolicies u k c s) \<subseteq> runtimePolicy ` set (limit_policies s)" and "distinct (map rp_id (matchingPolicies u k c s))"
proof -
  show "set (matchingPolicies u k c s) \<subseteq> runtimePolicy ` set (limit_policies s)"
    by (auto simp: matchingPolicies_def)
  have "distinct (map lp_id (sort_key lp_id (filter Q (limit_policies s))))" for Q
    using assms by (simp add: distinct_map distinct_sort inj_on_def)
  then show "distinct (map rp_id (matchingPolicies u k c s))"
    by (simp add: matchingPolicies_def orderBy_def comp_def runtimePolicy_def)
qed

section \<open>Every operation keeps the books\<close>

lemma booksTyped_keys:
  "booksBalanced s \<Longrightarrow> distinct (map rs_id (reservations s)) \<and> distinct (map lp_id (limit_policies s)) \<and> periodsTyped (quota_periods s)"
  by (simp add: booksBalanced_def booksTyped_def)

text \<open>The loops, run over the items they read.\<close>

lemma release_books:
  "booksBalanced s \<Longrightarrow> items = heldItems attemptID ''active'' s \<Longrightarrow> forT (releaseItem now) items w (n, s) = Inr (x, n', s') \<Longrightarrow> booksBalanced s'"
  by (rule okT_D [OF release.loop_keeps [OF distinct_heldItems]])
     (auto simp: booksTyped_keys heldState_def intro: heldItems_held)

lemma settle_books:
  "booksBalanced s \<Longrightarrow> items = heldItems attemptID ''active'' s \<Longrightarrow> forT (settleItem status tokens cost now) items w (n, s) = Inr (x, n', s') \<Longrightarrow> booksBalanced s'"
  by (rule okT_D [OF settle.loop_keeps [OF distinct_heldItems]])
     (auto simp: booksTyped_keys heldState_def intro: heldItems_held)

lemma reconcile_books:
  "booksBalanced s \<Longrightarrow> items = heldItems attemptID ''uncertain'' s \<Longrightarrow> forT (reconcileItem tokens cost) items w (n, s) = Inr (x, n', s') \<Longrightarrow> booksBalanced s'"
  by (rule okT_D [OF reconcile.loop_keeps [OF distinct_heldItems]])
     (auto simp: booksTyped_keys heldState_def intro: heldItems_held)

lemma spend_books:
  "booksBalanced s \<Longrightarrow> items = spendItems attemptID s \<Longrightarrow> forT (reconcileSpend delta actual now) items w (n, s) = Inr (x, n', s') \<Longrightarrow> booksBalanced s'"
  by (rule okT_D [OF spend.loop_keeps [OF distinct_spendItems]])
     (auto simp: booksTyped_keys intro: spendItems_held)

lemma books_frame [simp]:
  "booksBalanced (requests_update f1 s) = booksBalanced s" "booksBalanced (attempts_update f2 s) = booksBalanced s"
  "booksBalanced (concurrency_leases_update f3 s) = booksBalanced s" "booksBalanced (usage_ledger_update f4 s) = booksBalanced s"
  "booksBalanced (cost_assessments_update f5 s) = booksBalanced s" "booksBalanced (event_outbox_update f6 s) = booksBalanced s"
  "booksBalanced (audit_events_update f7 s) = booksBalanced s" "booksBalanced (pricing_jobs_update f8 s) = booksBalanced s"
  "booksBalanced (admission_clock_update f9 s) = booksBalanced s" "booksBalanced (price_versions_update f10 s) = booksBalanced s"
  by (intro booksBalanced_cong; simp)+

lemma items_frame [simp]:
  "heldItems attemptID state (attempts_update f1 s) = heldItems attemptID state s"
  "spendItems attemptID (attempts_update f1 s) = spendItems attemptID s" "spendItems attemptID (usage_ledger_update f2 s) = spendItems attemptID s"
  "spendItems attemptID (cost_assessments_update f3 s) = spendItems attemptID s"
  by (simp_all add: heldItems_def spendItems_def)

lemma settleTx_books: "keepsT booksBalanced (settleTx attemptID input)"
  unfolding keepsT_def
proof (rule okT_I)
  fix w n s x n' s'
  assume B: "booksBalanced s" and run: "settleTx attemptID input w (n, s) = Inr (x, n', s')"
  from run show "booksBalanced s'"
  proof (cases rule: settleTx_cases)
    case (fresh hw comb m)
    from fresh(1) show ?thesis
      by (rule settleFresh_Inr) (use B in \<open>auto intro: settle_books [rotated 2]\<close>)
  qed (simp add: B)
qed

lemma cancelTx_books: "keepsT booksBalanced (cancelBeforeDispatchTx attemptID)"
  unfolding keepsT_def by (rule okT_I, erule cancelBeforeDispatchTx_Inr) (auto intro: release_books)

lemma recoverItem_books: "keepsT booksBalanced (recoverItem now item)"
  unfolding keepsT_def
proof (rule okT_I)
  fix w n s x n' s'
  assume B: "booksBalanced s" and run: "recoverItem now item w (n, s) = Inr (x, n', s')"
  obtain a r where "item = (a, r)" by fastforce
  with run have "recoverItem now (a, r) w (n, s) = Inr (x, n', s')" by simp
  then show "booksBalanced s'"
  proof (cases rule: recoverItem_Inr)
    case (cancelled e n1 s1)
    with B show ?thesis by (auto intro: release_books)
  next
    case (interrupted e)
    have "heldUnits p t (updateWhere (\<lambda>x. rs_attempt x = at_id a \<and> rs_state x = ''active'')
        (\<lambda>x. x\<lparr>rs_state := ''uncertain'', rs_settled := Some now\<rparr>) (reservations s)) = heldUnits p t (reservations s)" for p t
      by (intro heldUnits_same) (auto simp: heldState_def)
    with B interrupted show ?thesis
      by (auto simp: booksBalanced_def booksTyped_def map_updateWhere set_updateWhere reservationTyped_def)
  qed
qed

lemma recoverTx_books: "keepsT booksBalanced (recoverTx epoch)"
  unfolding keepsT_def
  by (rule okT_I, erule recoverTx_Inr) (use keepsT_D [OF keepsT_for [OF recoverItem_books]] in auto)

lemma reconcileTx_books: "keepsT booksBalanced (reconcileUnknownTx actor attemptID input)"
  unfolding keepsT_def
proof (rule okT_I)
  fix w n s x n' s'
  assume B: "booksBalanced s" and run: "reconcileUnknownTx actor attemptID input w (n, s) = Inr (x, n', s')"
  from run show "booksBalanced s'"
  proof (cases rule: reconcileUnknownTx_cases)
    case (fresh actor tokens cost a r m)
    from fresh(3) show ?thesis
      by (rule reconcileBooks_Inr) (use B in \<open>auto intro: reconcile_books\<close>)
  qed (simp add: B)
qed

lemma applyItem_books: "keepsT booksBalanced (applyItem actor item acc)"
  unfolding keepsT_def
proof (rule okT_I)
  fix w n s x n' s'
  assume B: "booksBalanced s" and run: "applyItem actor item acc w (n, s) = Inr (x, n', s')"
  from run show "booksBalanced s'"
  proof (cases rule: applyItem_Inr)
    case (applied led e f now n1 n2 s1)
    have "booksBalanced s1" using B by (intro spend_books [OF _ _ applied(1)]) simp_all
    with applied show ?thesis by simp
  qed (simp add: B)
qed

lemma applyRepriceTx_books: "keepsT booksBalanced (applyRepriceTx actor input)"
  unfolding keepsT_def
proof (rule okT_I)
  fix w n s x n' s'
  assume B: "booksBalanced s" and run: "applyRepriceTx actor input w (n, s) = Inr (x, n', s')"
  from run show "booksBalanced s'"
    by (cases rule: applyRepriceTx_cases) (use B keepsT_D [OF keepsT_fold [OF applyItem_books]] in auto)
qed

lemma adjustCostTx_books: "keepsT booksBalanced (adjustCostTx actor attemptID deltaUSD reason key)"
  unfolding keepsT_def
proof (rule okT_I)
  fix w n s x n' s'
  assume B: "booksBalanced s" and run: "adjustCostTx actor attemptID deltaUSD reason key w (n, s) = Inr (x, n', s')"
  from run show "booksBalanced s'"
  proof (cases rule: adjustCostTx_cases)
    case (fresh a r delta amount led e f now n1 n2 s1)
    have "booksBalanced s1" using B by (intro spend_books [OF _ _ fresh(2)]) simp_all
    with fresh show ?thesis by simp
  qed (simp add: B)
qed

lemma planFits_cong:
  "limit_policies s' = limit_policies s \<Longrightarrow> quota_periods s' = quota_periods s \<Longrightarrow> planFits plan s' = planFits plan s"
  by (simp add: planFits_def)

lemma admitTx_books: "keepsT booksBalanced (admitTx epoch input0)"
  unfolding keepsT_def
proof (rule okT_I)
  fix w n s x n' s'
  assume B: "booksBalanced s" and run: "admitTx epoch input0 w (n, s) = Inr (x, n', s')"
  from admitTx_Inr [OF run] have "admitChecked epoch (bookedInput input0) w (n, s) = Inr (x, n', s')" by simp
  then show "booksBalanced s'"
  proof (rule admitChecked_Inr)
    fix first requestID attemptID ownerID ordinal priceID tokens cost plans effective n1 n2 n3 n4 s0
    assume plan: "planAll (matchingPolicies ownerID (ai_keyID (bookedInput input0)) (ai_connectionID (bookedInput input0)) s) effective first requestID attemptID
        (bookedInput input0) tokens cost w (n1, s0) = Inr (plans, n2, s0)"
      and book: "bookAdmission epoch (bookedInput input0) first requestID attemptID ownerID ordinal priceID tokens cost plans effective w (n3, s0) = Inr ((), n4, s')"
      and s0: "s0 = s\<lparr>admission_clock := Some (effective, epoch)\<rparr>" and ranges: "int64_range tokens" "\<forall>c. cost = Some c \<longrightarrow> int64_range c"
    have fits: "(\<forall>plan \<in> set plans. planFits plan s0) \<and> distinct (map (\<lambda>plan. rp_id (cp_policy plan)) plans)"
      using planAll_fits [OF _ ranges(1) _ _ _ plan] booksTyped_keys [OF B] ranges(2) matchingPolicies_policies [of s] by (simp add: s0)
    from book show ?thesis
    proof (rule bookAdmission_Inr)
      fix f e m1 m2 s1
      let ?s = "attempts_update (\<lambda>as. as @ [newAttempt (bookedInput input0) attemptID requestID ordinal priceID tokens cost effective]) (requests_update f s0)"
      assume loop: "forT (\<lambda>plan. applyPlan plan requestID attemptID epoch effective) plans w (m1, ?s) = Inr ((), m2, s1)"
        and s': "s' = event_outbox_update (\<lambda>es. es @ [e]) s1"
      have "booksBalanced ?s" using B s0 by simp
      moreover have "\<forall>plan \<in> set plans. planFits plan ?s"
        using fits planFits_cong [of ?s s0] by simp
      ultimately have "booksBalanced s1"
        using okT_D [OF booking.loop_keeps _ loop] fits by blast
      with s' show ?thesis by simp
    qed
  qed
qed

text \<open>The operations that move no units.\<close>

lemma closeFailedRequestTx_books: "keepsT booksBalanced (closeFailedRequestTx requestID)"
  unfolding keepsT_def by (rule okT_I, erule closeFailedRequestTx_Inr) simp

lemma FinalizeRequestTx_books: "keepsT booksBalanced (FinalizeRequestTx requestID state)"
  unfolding keepsT_def by (rule okT_I, erule FinalizeRequestTx_Inr) simp

lemma repairRequest_books: "keepsT booksBalanced (repairRequest now cutoff requestID repaired)"
  unfolding keepsT_def by (rule okT_I, erule repairRequest_Inr) simp_all

lemma repairStaleTx_books: "keepsT booksBalanced repairStaleTx"
  unfolding repairStaleTx_def by (intro keeps repairRequest_books)

lemma Mark_books: "keepsT booksBalanced (MarkDispatching attemptID)" "keepsT booksBalanced (MarkStreaming attemptID)"
  unfolding MarkDispatching_def MarkStreaming_def updateAttempts_def
  by (intro keeps; simp add: keepsT_def okT_update)+

lemma createPolicyTx_books: "keepsT booksBalanced (createPolicyTx actor input0)"
  unfolding keepsT_def
proof (rule okT_I)
  fix w n s x n' s'
  assume B: "booksBalanced s" and run: "createPolicyTx actor input0 w (n, s) = Inr (x, n', s')"
  from createPolicyTx_Inr [OF run] obtain row p where s': "s' = audit_events_update (\<lambda>rs. rs @ [row]) (limit_policies_update (\<lambda>rs. rs @ [p]) s)"
    and new: "\<not> list_ex (\<lambda>q. policyClash q p) (limit_policies s)" by blast
  with B show "booksBalanced s'"
    by (fastforce simp: booksBalanced_def booksTyped_def reservationTyped_def list_ex_iff policyClash_def)
qed

text \<open>A policy's algorithm never changes, so the kind of its reservations stays right.\<close>

lemma updatePolicyTx_books: "keepsT booksBalanced (updatePolicyTx actor i revision units usd enabled)"
  unfolding keepsT_def
proof (rule okT_I)
  fix w n s x n' s'
  assume B: "booksBalanced s" and run: "updatePolicyTx actor i revision units usd enabled w (n, s) = Inr (x, n', s')"
  from updatePolicyTx_Inr [OF run] obtain limit now row where s': "s' = audit_events_update (\<lambda>rs. rs @ [row]) (limit_policies_update
        (updateWhere (\<lambda>p. lp_id p = i \<and> lp_revision p = revision)
          (\<lambda>p. p\<lparr>lp_limit := limit, lp_enabled := enabled, lp_revision := lp_revision p + 1, lp_updated := now\<rparr>)) s)" by blast
  have "reservationTyped (updateWhere q (\<lambda>p. p\<lparr>lp_limit := limit, lp_enabled := enabled, lp_revision := lp_revision p + 1, lp_updated := now\<rparr>) ps) r"
    if "reservationTyped ps r" for q ps r
    using that by (simp add: reservationTyped_def bex_updateWhere)
  with B s' show "booksBalanced s'"
    by (auto simp: booksBalanced_def booksTyped_def map_updateWhere)
qed

lemma createPriceTx_books: "keepsT booksBalanced (createPriceTx actor input)"
proof -
  have "keepsT booksBalanced (updatePrices p f)" for p f
    by (simp add: updatePrices_def keepsT_def okT_update)
  moreover have "keepsT booksBalanced (insertPrice r)" for r
    by (simp add: insertPrice_def keepsT_def okT_insert)
  moreover have "keepsT booksBalanced (insertAuditEvent r)" for r
    by (simp add: insertAuditEvent_def keepsT_def okT_insert)
  ultimately show ?thesis
    unfolding createPriceTx_def managerOnly_def closePrevious_def closeVersion_def insertAudit_def refreshUsageActor_def by (intro keeps)
qed

end
