(* ===== verification/Lifecycle.thy ===== *)
theory Lifecycle
  imports Books
begin

text \<open>
  The life of requests and attempts. An attempt is active from its reservation until it is settled,
  cancelled or interrupted; a request is \<^verbatim>\<open>reserved\<close> exactly while it has an active attempt, and it
  never has two. Concurrency leases belong to open requests and active attempts, and active
  reservations to active attempts, so that neither a slot nor units can leak. Every operation of the
  usage service keeps this; start-up recovery restores it for the leases.
\<close>

section \<open>The invariant\<close>

definition activeAttempt :: "attempt_row \<Rightarrow> bool" where
  "activeAttempt a \<longleftrightarrow> at_state a \<in> set activeStates"

definition flightOK :: "store \<Rightarrow> bool" where
  "flightOK s \<longleftrightarrow>
     distinct (map at_id (attempts s)) \<and> distinct (map rq_id (requests s)) \<and>
     (\<forall>a \<in> set (attempts s). \<exists>r \<in> set (requests s). rq_id r = at_request a) \<and>
     (\<forall>r \<in> set (requests s). rq_state r = ''reserved'' \<longleftrightarrow> (\<exists>a \<in> set (attempts s). at_request a = rq_id r \<and> activeAttempt a)) \<and>
     (\<forall>a \<in> set (attempts s). \<forall>b \<in> set (attempts s). activeAttempt a \<and> activeAttempt b \<and> at_request a = at_request b \<longrightarrow> a = b)"

definition openRequestState :: "string \<Rightarrow> bool" where
  "openRequestState state \<longleftrightarrow> state = ''reserved'' \<or> state = ''in_progress''"

definition leaseOwned :: "store \<Rightarrow> lease_row \<Rightarrow> bool" where
  "leaseOwned s l \<longleftrightarrow> leaseCheck l \<and>
     (if cl_kind l = ''request'' then \<exists>r \<in> set (requests s). rq_id r = cl_lease l \<and> openRequestState (rq_state r)
      else \<exists>a \<in> set (attempts s). at_id a = cl_lease l \<and> activeAttempt a)"

definition leasesOK :: "store \<Rightarrow> bool" where
  "leasesOK s \<longleftrightarrow> (\<forall>l \<in> set (concurrency_leases s). leaseOwned s l)"

definition activeUnits :: "store \<Rightarrow> (string \<times> string) set" where
  "activeUnits s = (\<lambda>r. (rs_id r, rs_attempt r)) ` {r \<in> set (reservations s). rs_state r = ''active''}"

definition unitsOK :: "store \<Rightarrow> bool" where
  "unitsOK s \<longleftrightarrow> (\<forall>p \<in> activeUnits s. \<exists>a \<in> set (attempts s). at_id a = snd p \<and> activeAttempt a)"

definition lifecycleOK :: "store \<Rightarrow> bool" where
  "lifecycleOK s \<longleftrightarrow> booksBalanced s \<and> flightOK s \<and> leasesOK s \<and> unitsOK s"

section \<open>The end of an attempt\<close>

lemma same_attempt: "flightOK s \<Longrightarrow> a \<in> set (attempts s) \<Longrightarrow> b \<in> set (attempts s) \<Longrightarrow> at_id a = at_id b \<Longrightarrow> a = b"
  by (rule inj_onD [of at_id "set (attempts s)"]) (simp_all add: flightOK_def distinct_map)

lemma same_request: "flightOK s \<Longrightarrow> r \<in> set (requests s) \<Longrightarrow> q \<in> set (requests s) \<Longrightarrow> rq_id r = rq_id q \<Longrightarrow> r = q"
  by (rule inj_onD [of rq_id "set (requests s)"]) (simp_all add: flightOK_def distinct_map)

text \<open>
  What settling, cancelling and recovering have in common: one active attempt stops being active and
  its request leaves the reserved state.
\<close>

definition attemptEnded :: "attempt_row \<Rightarrow> store \<Rightarrow> store \<Rightarrow> bool" where
  "attemptEnded a s s' \<longleftrightarrow> a \<in> set (attempts s) \<and> activeAttempt a \<and>
     (\<exists>f g. attempts s' = updateWhere (\<lambda>x. at_id x = at_id a) f (attempts s) \<and>
        (\<forall>x. at_id (f x) = at_id x \<and> at_request (f x) = at_request x \<and> \<not> activeAttempt (f x)) \<and>
        requests s' = updateWhere (\<lambda>x. rq_id x = at_request a) g (requests s) \<and>
        (\<forall>x. rq_id (g x) = rq_id x \<and> rq_state (g x) \<noteq> ''reserved''))"

lemma attemptEnded_attempts:
  assumes "flightOK s" "attemptEnded a s s'"
  shows "x \<in> set (attempts s') \<and> activeAttempt x \<longleftrightarrow> x \<in> set (attempts s) \<and> activeAttempt x \<and> at_id x \<noteq> at_id a"
  using assms by (auto simp: attemptEnded_def set_updateWhere)

lemma attemptEnded_requests:
  assumes "flightOK s" "attemptEnded a s s'" "r \<in> set (requests s)" "rq_id r \<noteq> at_request a"
  shows "r \<in> set (requests s')"
  using assms by (auto simp: attemptEnded_def set_updateWhere intro: rev_image_eqI)

lemma flight_end:
  assumes F: "flightOK s" and E: "attemptEnded a s s'"
  shows "flightOK s'"
proof -
  from E obtain f g where a: "a \<in> set (attempts s)" "activeAttempt a"
    and att: "attempts s' = updateWhere (\<lambda>x. at_id x = at_id a) f (attempts s)"
    and f: "\<And>x. at_id (f x) = at_id x \<and> at_request (f x) = at_request x \<and> \<not> activeAttempt (f x)"
    and req: "requests s' = updateWhere (\<lambda>x. rq_id x = at_request a) g (requests s)"
    and g: "\<And>x. rq_id (g x) = rq_id x \<and> rq_state (g x) \<noteq> ''reserved''"
    unfolding attemptEnded_def by blast
  have keys: "distinct (map at_id (attempts s'))" "distinct (map rq_id (requests s'))"
    using F f g unfolding flightOK_def att req by (simp_all add: map_updateWhere)
  have refs: "\<forall>x \<in> set (attempts s'). \<exists>r \<in> set (requests s'). rq_id r = at_request x"
    using F f g unfolding flightOK_def att req by (simp add: ball_updateWhere bex_updateWhere)
  have live: "x \<in> set (attempts s') \<and> activeAttempt x \<longleftrightarrow> x \<in> set (attempts s) \<and> activeAttempt x \<and> at_id x \<noteq> at_id a" for x
    using attemptEnded_attempts [OF F E] .
  have one: "\<forall>x \<in> set (attempts s'). \<forall>y \<in> set (attempts s'). activeAttempt x \<and> activeAttempt y \<and> at_request x = at_request y \<longrightarrow> x = y"
    using F live unfolding flightOK_def by blast
  have "rq_state r = ''reserved'' \<longleftrightarrow> (\<exists>x \<in> set (attempts s'). at_request x = rq_id r \<and> activeAttempt x)" if r: "r \<in> set (requests s')" for r
  proof (cases "rq_id r = at_request a")
    case True
    with r g req have "rq_state r \<noteq> ''reserved''" by (auto simp: set_updateWhere)
    moreover have "at_id x = at_id a" if "x \<in> set (attempts s)" "activeAttempt x" "at_request x = rq_id r" for x
      using F a that True unfolding flightOK_def by metis
    ultimately show ?thesis using live by blast
  next
    case False
    with r g req have "r \<in> set (requests s)" by (auto simp: set_updateWhere)
    with F have "rq_state r = ''reserved'' \<longleftrightarrow> (\<exists>x \<in> set (attempts s). at_request x = rq_id r \<and> activeAttempt x)"
      by (simp add: flightOK_def)
    moreover have "at_id x \<noteq> at_id a" if "x \<in> set (attempts s)" "at_request x = rq_id r" for x
      using that False same_attempt [OF F that(1) a(1)] by auto
    ultimately show ?thesis using live by blast
  qed
  with keys refs one show ?thesis unfolding flightOK_def by blast
qed

lemma leases_end:
  assumes F: "flightOK s" and L: "leasesOK s" and E: "attemptEnded a s s'"
    and leases: "set (concurrency_leases s') \<subseteq> set (concurrency_leases s)"
    and gone: "\<And>l. l \<in> set (concurrency_leases s') \<Longrightarrow> cl_kind l \<noteq> ''request'' \<Longrightarrow> cl_lease l \<noteq> at_id a"
    and req: "\<And>l r. l \<in> set (concurrency_leases s') \<Longrightarrow> cl_kind l = ''request'' \<Longrightarrow> cl_lease l = at_request a \<Longrightarrow>
       r \<in> set (requests s') \<Longrightarrow> rq_id r = at_request a \<Longrightarrow> openRequestState (rq_state r)"
  shows "leasesOK s'"
  unfolding leasesOK_def
proof
  fix l
  assume l: "l \<in> set (concurrency_leases s')"
  with leases L have own: "leaseOwned s l" by (auto simp: leasesOK_def)
  show "leaseOwned s' l"
  proof (cases "cl_kind l = ''request''")
    case True
    with own obtain r where r: "r \<in> set (requests s)" "rq_id r = cl_lease l" "openRequestState (rq_state r)"
      by (auto simp: leaseOwned_def)
    have "\<exists>r \<in> set (requests s'). rq_id r = cl_lease l \<and> openRequestState (rq_state r)"
    proof (cases "cl_lease l = at_request a")
      case same: True
      from E obtain g where "requests s' = updateWhere (\<lambda>x. rq_id x = at_request a) g (requests s)" "\<And>x. rq_id (g x) = rq_id x"
        unfolding attemptEnded_def by blast
      with r(1,2) have "\<exists>r' \<in> set (requests s'). rq_id r' = cl_lease l" by (auto simp: bex_updateWhere)
      then obtain r' where "r' \<in> set (requests s')" "rq_id r' = cl_lease l" ..
      with req [OF l True same] same show ?thesis by auto
    next
      case False
      with r attemptEnded_requests [OF F E r(1)] show ?thesis by auto
    qed
    with True own show ?thesis by (simp add: leaseOwned_def)
  next
    case False
    with own have "\<exists>x \<in> set (attempts s). at_id x = cl_lease l \<and> activeAttempt x" by (simp add: leaseOwned_def)
    then obtain x where x: "x \<in> set (attempts s)" "at_id x = cl_lease l" "activeAttempt x" by blast
    with attemptEnded_attempts [OF F E, of x] gone [OF l False] have "x \<in> set (attempts s')" by simp
    with x have "\<exists>x \<in> set (attempts s'). at_id x = cl_lease l \<and> activeAttempt x" by blast
    with False own show ?thesis by (simp add: leaseOwned_def)
  qed
qed

lemma units_end:
  assumes F: "flightOK s" and U: "unitsOK s" and E: "attemptEnded a s s'"
    and res: "activeUnits s' \<subseteq> {p \<in> activeUnits s. snd p \<noteq> at_id a}"
  shows "unitsOK s'"
  unfolding unitsOK_def
proof
  fix p
  assume "p \<in> activeUnits s'"
  with res have p: "p \<in> activeUnits s" "snd p \<noteq> at_id a" by auto
  with U obtain x where "x \<in> set (attempts s)" "at_id x = snd p" "activeAttempt x" by (auto simp: unitsOK_def)
  then show "\<exists>x \<in> set (attempts s'). at_id x = snd p \<and> activeAttempt x"
    using p(2) attemptEnded_attempts [OF F E, of x] by auto
qed

section \<open>Working off the active reservations\<close>

lemma activeUnits_marked:
  assumes "reservations s' = updateWhere (\<lambda>r. rs_id r = i) (\<lambda>r. r\<lparr>rs_state := state, rs_settled := at\<rparr>) (reservations s)" "state \<noteq> ''active''"
  shows "activeUnits s' \<subseteq> {p \<in> activeUnits s. fst p \<noteq> i}"
  using assms(2) unfolding activeUnits_def assms(1) by (auto simp: set_updateWhere split: if_splits)

text \<open>Paying a counter leaves the reservations alone.\<close>

lemma pay_reservations:
  "keepsT (\<lambda>s'. reservations s' = rs) (updateBuckets p f)" "keepsT (\<lambda>s'. reservations s' = rs) (updatePeriods q g)"
  by (simp_all add: updateBuckets_def updatePeriods_def keepsT_def okT_update)

lemma settle_reservations:
  "keepsT (\<lambda>s'. reservations s' = rs) (settleBucket overflow item actual)" "keepsT (\<lambda>s'. reservations s' = rs) (settleQuota noPeriod wrap item actual)"
  unfolding settleBucket_def settleQuota_def updateQuotaPeriod_def by (intro keeps pay_reservations)+

lemma mark_after_pay:
  assumes "thenT pay (thenT (markReservation i state now) (returnT ())) w (n, s) = Inr (x, n', s')"
    and "keepsT (\<lambda>s'. reservations s' = reservations s) pay" and "state \<noteq> ''active''"
  shows "activeUnits s' \<subseteq> {p \<in> activeUnits s. fst p \<noteq> i}"
proof -
  from assms(1) obtain y m s1 z m' where pay: "pay w (n, s) = Inr (y, m, s1)" and mark: "markReservation i state now w (m, s1) = Inr (z, m', s')"
    by (auto simp: returnT_Inr elim!: thenT_E)
  from keepsT_D [OF assms(2) refl pay] mark
  have "reservations s' = updateWhere (\<lambda>r. rs_id r = i) (\<lambda>r. r\<lparr>rs_state := state, rs_settled := Some now\<rparr>) (reservations s)"
    by (auto simp: markReservation_Inr)
  then show ?thesis using assms(3) by (rule activeUnits_marked)
qed

lemma releaseItem_drains:
  "releaseItem now item w (n, s) = Inr (x, n', s') \<Longrightarrow> activeUnits s' \<subseteq> {p \<in> activeUnits s. fst p \<noteq> hi_id item}"
  unfolding releaseItem_def by (erule mark_after_pay) (intro keeps pay_reservations, simp)

lemma settleItem_drains:
  assumes "settleItem status tokens cost now item w (n, s) = Inr (x, n', s')"
  shows "activeUnits s' \<subseteq> {p \<in> activeUnits s. fst p \<noteq> hi_id item}"
proof -
  obtain actual known where units: "settlementUnits (hi_metric item) tokens cost = (actual, known)" by fastforce
  show ?thesis
  proof (cases "status = ''unknown'' \<or> \<not> known")
    case True
    then obtain z m where "markReservation (hi_id item) ''uncertain'' now w (n, s) = Inr (z, m, s')"
      using assms units by (auto simp: settleItem_def returnT_Inr elim!: thenT_E)
    then show ?thesis
      by (intro activeUnits_marked [where state = "''uncertain''" and at = "Some now"]) (auto simp: markReservation_Inr)
  next
    case False
    with assms units show ?thesis
      by (simp add: settleItem_def) (erule mark_after_pay, intro keeps settle_reservations, simp)
  qed
qed

interpretation releasing: draining_loop "releaseItem now" hi_id itemHeld booksBalanced activeUnits fst for now
  by unfold_locales (rule releaseItem_drains)

interpretation settling: draining_loop "settleItem status tokens cost now" hi_id itemHeld booksBalanced activeUnits fst for status tokens cost now
  by unfold_locales (rule settleItem_drains)

text \<open>The items a loop reads are all the active reservations of the attempt.\<close>

lemma heldItems_active:
  assumes B: "booksBalanced s" and p: "p \<in> activeUnits s" "snd p = attemptID"
  shows "fst p \<in> hi_id ` set (heldItems attemptID ''active'' s)"
proof -
  from p obtain r where r: "r \<in> set (reservations s)" "rs_state r = ''active''" "rs_attempt r = attemptID" "fst p = rs_id r"
    by (auto simp: activeUnits_def)
  from B r(1) obtain q where "q \<in> set (limit_policies s)" "lp_id q = rs_policy r" by (rule booksTyped_reservation)
  with r show ?thesis by (force simp: heldItems_def)
qed

lemma release_drains:
  assumes "booksBalanced s" and "forT (releaseItem now) (heldItems attemptID ''active'' s) w (n, s) = Inr (x, n', s')"
  shows "activeUnits s' \<subseteq> {p \<in> activeUnits s. snd p \<noteq> attemptID}"
proof -
  have "activeUnits s' \<subseteq> {p \<in> activeUnits s. fst p \<notin> hi_id ` set (heldItems attemptID ''active'' s)}"
    using assms(1) by (intro releasing.loop_drains [OF distinct_heldItems _ _ assms(2)])
      (auto simp: booksTyped_keys heldState_def intro: heldItems_held)
  then show ?thesis using heldItems_active [OF assms(1)] by auto
qed

lemma settle_drains:
  assumes "booksBalanced s" and "items = heldItems attemptID ''active'' s" and "forT (settleItem status tokens cost now) items w (n, s) = Inr (x, n', s')"
  shows "activeUnits s' \<subseteq> {p \<in> activeUnits s. snd p \<noteq> attemptID}"
proof -
  have "activeUnits s' \<subseteq> {p \<in> activeUnits s. fst p \<notin> hi_id ` set items}"
    using assms(1,2) by (intro settling.loop_drains [OF _ _ _ assms(3)])
      (auto simp: booksTyped_keys heldState_def distinct_heldItems intro: heldItems_held)
  then show ?thesis using heldItems_active [OF assms(1)] assms(2) by auto
qed

section \<open>Operations that end an attempt\<close>

lemma attemptWithRequest_member:
  "attemptWithRequest attemptID s = Some (a, r) \<Longrightarrow> a \<in> set (attempts s) \<and> at_id a = attemptID \<and> r \<in> set (requests s) \<and> rq_id r = at_request a"
  by (auto simp: attemptWithRequest_Some dest!: find_SomeD)

lemma leaseKept_end:
  assumes "flightOK s" "leasesOK s" "attemptEnded a s s'"
    and "concurrency_leases s' = filter (leaseKept final (at_request a) (at_id a)) (concurrency_leases s)"
    and "\<not> final \<Longrightarrow> (\<And>r. r \<in> set (requests s') \<Longrightarrow> rq_id r = at_request a \<Longrightarrow> openRequestState (rq_state r))"
  shows "leasesOK s'"
proof (rule leases_end [OF assms(1-3)])
  show "set (concurrency_leases s') \<subseteq> set (concurrency_leases s)" using assms(4) by auto
  show "cl_lease l \<noteq> at_id a" if "l \<in> set (concurrency_leases s')" "cl_kind l \<noteq> ''request''" for l
    using that assms(2,4) by (auto simp: leaseKept_def leasesOK_def leaseOwned_def leaseCheck_def)
  show "openRequestState (rq_state r)" if "l \<in> set (concurrency_leases s')" "cl_kind l = ''request''" "cl_lease l = at_request a"
      "r \<in> set (requests s')" "rq_id r = at_request a" for l r
    using that assms(4,5) by (auto simp: leaseKept_def)
qed

lemma activeUnits_cong: "reservations s' = reservations s \<Longrightarrow> activeUnits s' = activeUnits s"
  by (simp add: activeUnits_def)

lemma requestState_final: "requestState state \<noteq> ''reserved''"
  by (simp add: requestState_def)

lemma closedRequest_sel [simp]:
  "rq_id (closedRequest i now x) = rq_id x"
  "rq_state (closedRequest i now x) = (if si_finalRequest i then requestState (si_state i) else ''in_progress'')"
  by (simp_all add: closedRequest_def)

lemma settleFresh_ended:
  assumes run: "settleFresh attemptID input hw comb w (n, s) = Inr (x, n', s')" and final: "si_state input \<notin> set activeStates"
    and inv: "booksBalanced s" "flightOK s" "leasesOK s" "unitsOK s"
  shows "flightOK s' \<and> leasesOK s' \<and> unitsOK s'"
  using run
proof (rule settleFresh_Inr)
  fix a r cost tokens now led e f n1 n2 s1
  let ?s = "usage_ledger_update (\<lambda>ls. ls @ [led]) s"
  assume found: "attemptWithRequest attemptID s = Some (a, r)" and act: "at_state a \<in> set activeStates"
    and loop: "forT (settleItem (si_usageStatus input) tokens cost now) (heldItems attemptID ''active'' s) w (n1, ?s) = Inr ((), n2, s1)"
    and s': "s' = event_outbox_update (\<lambda>es. es @ [e]) (requests_update (updateWhere (\<lambda>x. rq_id x = at_request a) (closedRequest input now))
       (concurrency_leases_update (filter (leaseKept (si_finalRequest input) (at_request a) attemptID))
       (cost_assessments_update f (attempts_update (updateWhere (\<lambda>x. at_id x = attemptID) (settledAttempt (input\<lparr>si_costNanos := cost\<rparr>) now)) s1))))"
  from countersOnly_loop [OF countersOnly_settleItem loop] have frame: "countersOnly ?s s1" .
  from attemptWithRequest_member [OF found] have a: "a \<in> set (attempts s)" "at_id a = attemptID" by auto
  have ended: "attemptEnded a s s'"
    unfolding attemptEnded_def
    using a act final s' countersOnly_sel [OF frame]
    by (auto simp: activeAttempt_def settledAttempt_def requestState_final
        intro!: exI [of _ "settledAttempt (input\<lparr>si_costNanos := cost\<rparr>) now"] exI [of _ "closedRequest input now"] split: if_splits)
  have "leasesOK s'"
    using s' a countersOnly_sel [OF frame]
    by (intro leaseKept_end [OF inv(2,3) ended, where final = "si_finalRequest input"])
       (auto simp: set_updateWhere openRequestState_def)
  moreover have "activeUnits s1 \<subseteq> {p \<in> activeUnits ?s. snd p \<noteq> attemptID}"
    using inv(1) loop by (intro settle_drains) auto
  then have "activeUnits s' \<subseteq> {p \<in> activeUnits s. snd p \<noteq> at_id a}"
    using a s' by (simp add: activeUnits_def)
  ultimately show ?thesis
    using flight_end [OF inv(2) ended] units_end [OF inv(2,4) ended] by blast
qed

lemma settlementError_state: "settlementError i = None \<Longrightarrow> si_state i \<notin> set activeStates"
  by (auto simp: settlementError_def activeStates_def split: if_splits)

lemma settleTx_lifecycle: "keepsT lifecycleOK (settleTx attemptID input)"
  unfolding keepsT_def
proof (rule okT_I)
  fix w n s x n' s'
  assume L: "lifecycleOK s" and run: "settleTx attemptID input w (n, s) = Inr (x, n', s')"
  from L keepsT_D [OF settleTx_books _ run] have B: "booksBalanced s'" by (simp add: lifecycleOK_def)
  from run show "lifecycleOK s'"
  proof (cases rule: settleTx_cases)
    case (fresh hw comb m)
    with settleFresh_ended [OF fresh(1) settlementError_state] L B show ?thesis by (auto simp: lifecycleOK_def)
  qed (simp add: L)
qed

lemma cancelTx_lifecycle: "keepsT lifecycleOK (cancelBeforeDispatchTx attemptID)"
  unfolding keepsT_def
proof (rule okT_I)
  fix w n s x n' s'
  assume L: "lifecycleOK s" and run: "cancelBeforeDispatchTx attemptID w (n, s) = Inr (x, n', s')"
  then have inv: "booksBalanced s" "flightOK s" "leasesOK s" "unitsOK s" by (auto simp: lifecycleOK_def)
  from keepsT_D [OF cancelTx_books inv(1) run] have B: "booksBalanced s'" .
  from run show "lifecycleOK s'"
  proof (rule cancelBeforeDispatchTx_Inr)
    fix a r now e n1 n2 s1
    assume found: "attemptWithRequest attemptID s = Some (a, r)" and act: "at_state a = ''reserved''"
      and loop: "forT (releaseItem now) (heldItems attemptID ''active'' s) w (n1, s) = Inr ((), n2, s1)"
      and s': "s' = event_outbox_update (\<lambda>es. es @ [e]) (requests_update (updateWhere (\<lambda>x. rq_id x = at_request a)
         (\<lambda>x. x\<lparr>rq_state := ''cancelled'', rq_finished := Some now\<rparr>))
       (attempts_update (updateWhere (\<lambda>x. at_id x = attemptID)
         (\<lambda>x. x\<lparr>at_state := ''cancelled_before_dispatch'', at_usage := ''estimated'', at_finished := Some now\<rparr>))
       (concurrency_leases_update (filter (leaseKept True (at_request a) attemptID)) s1)))"
    from countersOnly_loop [OF countersOnly_releaseItem loop] have frame: "countersOnly s s1" .
    from attemptWithRequest_member [OF found] have a: "a \<in> set (attempts s)" "at_id a = attemptID" by auto
    have ended: "attemptEnded a s s'"
      unfolding attemptEnded_def using a act s' countersOnly_sel [OF frame]
      by (auto simp: activeAttempt_def activeStates_def
        intro!: exI [of _ "\<lambda>x. x\<lparr>at_state := ''cancelled_before_dispatch'', at_usage := ''estimated'', at_finished := Some now\<rparr>"]
          exI [of _ "\<lambda>x. x\<lparr>rq_state := ''cancelled'', rq_finished := Some now\<rparr>"])
    have "leasesOK s'"
      using s' a countersOnly_sel [OF frame] by (intro leaseKept_end [OF inv(2,3) ended, where final = True]) auto
    moreover have "activeUnits s' \<subseteq> {p \<in> activeUnits s. snd p \<noteq> at_id a}"
      using release_drains [OF inv(1) loop] a s' by (simp add: activeUnits_def)
    ultimately show ?thesis
      using B flight_end [OF inv(2) ended] units_end [OF inv(2,4) ended] by (simp add: lifecycleOK_def)
  qed
qed

section \<open>Recovery\<close>

text \<open>
  Recovery works off the active attempts one by one; the leases are wrong in between and deleted at the
  end, so its loop keeps the rest of the invariant.
\<close>

definition recoveringOK :: "store \<Rightarrow> bool" where
  "recoveringOK s \<longleftrightarrow> booksBalanced s \<and> flightOK s \<and> unitsOK s"

definition attemptHeld :: "attempt_row \<times> request_row \<Rightarrow> store \<Rightarrow> bool" where
  "attemptHeld item s \<longleftrightarrow> fst item \<in> set (attempts s) \<and> activeAttempt (fst item)"

definition activeIDs :: "store \<Rightarrow> string set" where
  "activeIDs s = at_id ` {a \<in> set (attempts s). activeAttempt a}"

lemma recoverItem_ended:
  assumes inv: "recoveringOK s" and held: "attemptHeld item s" and run: "recoverItem now item w (n, s) = Inr (x, n', s')"
  shows "attemptEnded (fst item) s s' \<and> activeUnits s' \<subseteq> {p \<in> activeUnits s. snd p \<noteq> at_id (fst item)}"
proof -
  obtain a r where item: "item = (a, r)" by fastforce
  with held have a: "a \<in> set (attempts s)" "activeAttempt a" by (auto simp: attemptHeld_def)
  from run item have "recoverItem now (a, r) w (n, s) = Inr (x, n', s')" by simp
  then show ?thesis
  proof (cases rule: recoverItem_Inr)
    case (cancelled e n1 s1)
    from countersOnly_loop [OF countersOnly_releaseItem cancelled(2)] have frame: "countersOnly s s1" .
    have "attemptEnded a s s'"
      unfolding attemptEnded_def using a cancelled(3) countersOnly_sel [OF frame]
      by (auto simp: activeAttempt_def activeStates_def
        intro!: exI [of _ "\<lambda>x. x\<lparr>at_state := ''cancelled_before_dispatch'', at_usage := ''estimated'', at_finished := Some now\<rparr>"]
          exI [of _ "\<lambda>x. x\<lparr>rq_state := ''cancelled'', rq_finished := Some now\<rparr>"])
    moreover have "activeUnits s' \<subseteq> {p \<in> activeUnits s. snd p \<noteq> at_id a}"
      using release_drains [OF _ cancelled(2)] cancelled(3) inv by (simp add: activeUnits_def recoveringOK_def)
    ultimately show ?thesis using item by simp
  next
    case (interrupted e)
    then have "attemptEnded a s s'"
      unfolding attemptEnded_def using a
      by (auto simp: activeAttempt_def activeStates_def
        intro!: exI [of _ "\<lambda>x. x\<lparr>at_state := ''interrupted_unknown'', at_usage := ''unknown'', at_finished := Some now\<rparr>"]
          exI [of _ "\<lambda>x. x\<lparr>rq_state := ''interrupted_unknown'', rq_finished := Some now\<rparr>"])
    moreover have "activeUnits s' \<subseteq> {p \<in> activeUnits s. snd p \<noteq> at_id a}"
      using interrupted(2) by (auto simp: activeUnits_def set_updateWhere split: if_splits)
    ultimately show ?thesis using item by simp
  qed
qed

lemma recoverItem_step:
  assumes inv: "recoveringOK s" and held: "attemptHeld item s" and run: "recoverItem now item w (n, s) = Inr (x, n', s')"
  shows "recoveringOK s' \<and> (\<forall>y. at_id (fst y) \<noteq> at_id (fst item) \<longrightarrow> attemptHeld y s \<longrightarrow> attemptHeld y s')"
proof -
  from recoverItem_ended [OF assms] have E: "attemptEnded (fst item) s s'" and U: "activeUnits s' \<subseteq> {p \<in> activeUnits s. snd p \<noteq> at_id (fst item)}" by auto
  from inv have I: "booksBalanced s" "flightOK s" "unitsOK s" by (auto simp: recoveringOK_def)
  have "recoveringOK s'"
    using keepsT_D [OF recoverItem_books I(1) run] flight_end [OF I(2) E] units_end [OF I(2,3) E U] by (simp add: recoveringOK_def)
  then show ?thesis using attemptEnded_attempts [OF I(2) E] by (auto simp: attemptHeld_def)
qed

lemma recoverItem_drains:
  assumes "recoveringOK s" "attemptHeld item s" "recoverItem now item w (n, s) = Inr (x, n', s')"
  shows "activeIDs s' \<subseteq> {i \<in> activeIDs s. i \<noteq> at_id (fst item)}"
proof -
  from recoverItem_ended [OF assms] assms(1) have "attemptEnded (fst item) s s'" "flightOK s" by (auto simp: recoveringOK_def)
  from attemptEnded_attempts [OF this(2,1)] show ?thesis by (auto simp: activeIDs_def)
qed

interpretation recovering: draining_loop "recoverItem now" "\<lambda>item. at_id (fst item)" attemptHeld recoveringOK activeIDs id for now
proof (rule draining_loop.intro)
  show "item_loop (recoverItem now) (\<lambda>item. at_id (fst item)) attemptHeld recoveringOK"
    using recoverItem_step by (rule item_loopI)
  show "draining_loop_axioms (recoverItem now) (\<lambda>item. at_id (fst item)) attemptHeld recoveringOK activeIDs id"
    by (rule draining_loop_axioms.intro) (simp add: recoverItem_drains)
qed

lemma activeItems_held: "item \<in> set (activeItems s) \<Longrightarrow> attemptHeld item s"
  by (auto simp: activeItems_def attemptHeld_def activeAttempt_def)

lemma distinct_activeItems:
  assumes "flightOK s"
  shows "distinct (map (\<lambda>item. at_id (fst item)) (activeItems s))"
  unfolding activeItems_def
  by (rule distinct_join [where k = at_id])
     (use assms in \<open>auto simp: flightOK_def distinct_map_filter filter_key_once\<close>)

lemma activeItems_all:
  assumes "flightOK s" "i \<in> activeIDs s"
  shows "i \<in> (\<lambda>item. at_id (fst item)) ` set (activeItems s)"
proof -
  from assms(2) obtain a where a: "a \<in> set (attempts s)" "activeAttempt a" "i = at_id a" by (auto simp: activeIDs_def)
  with assms(1) obtain r where "r \<in> set (requests s)" "rq_id r = at_request a" by (auto simp: flightOK_def)
  with a show ?thesis by (force simp: activeItems_def activeAttempt_def)
qed

text \<open>After the loop no attempt is active and no reservation either.\<close>

lemma recover_loop:
  assumes "recoveringOK s" "forT (recoverItem now) (activeItems s) w (n, s) = Inr (x, n', s')"
  shows "recoveringOK s' \<and> activeIDs s' = {}"
proof -
  from assms(1) have F: "flightOK s" by (simp add: recoveringOK_def)
  have held: "\<forall>item \<in> set (activeItems s). attemptHeld item s" using activeItems_held by blast
  have "recoveringOK s'"
    using okT_D [OF recovering.loop_keeps [OF distinct_activeItems [OF F]] _ assms(2)] assms(1) held by blast
  moreover have "activeIDs s' \<subseteq> {i \<in> activeIDs s. id i \<notin> (\<lambda>item. at_id (fst item)) ` set (activeItems s)}"
    by (rule recovering.loop_drains [OF distinct_activeItems [OF F] assms(1) held assms(2)])
  ultimately show ?thesis using activeItems_all [OF F] by auto
qed

section \<open>Operations that close a request\<close>

lemma flight_requests:
  assumes F: "flightOK s" and att: "attempts s' = attempts s" and req: "requests s' = updateWhere q g (requests s)"
    and g: "\<And>r. rq_id (g r) = rq_id r \<and> rq_state (g r) \<noteq> ''reserved''" and q: "\<And>r. q r \<Longrightarrow> rq_state r \<noteq> ''reserved''"
  shows "flightOK s'"
proof -
  define h where "h r = (if q r then g r else r)" for r
  have h: "rq_id (h r) = rq_id r" "(rq_state (h r) = ''reserved'') = (rq_state r = ''reserved'')" for r
    using g q by (auto simp: h_def)
  have req': "requests s' = map h (requests s)" using req by (simp add: updateWhere_def h_def)
  from F show ?thesis
    unfolding flightOK_def att req' by (simp add: comp_def h)
qed

lemma leases_close:
  assumes L: "leasesOK s" and att: "attempts s' = attempts s" and req: "requests s' = updateWhere q g (requests s)"
    and q: "\<And>r. q r \<Longrightarrow> rq_id r = requestID"
    and leases: "\<And>l. l \<in> set (concurrency_leases s') \<Longrightarrow> l \<in> set (concurrency_leases s) \<and> (cl_kind l = ''request'' \<longrightarrow> cl_lease l \<noteq> requestID)"
  shows "leasesOK s'"
  unfolding leasesOK_def
proof
  fix l
  assume "l \<in> set (concurrency_leases s')"
  with leases have l: "l \<in> set (concurrency_leases s)" "cl_kind l = ''request'' \<longrightarrow> cl_lease l \<noteq> requestID" by auto
  with L have own: "leaseOwned s l" by (simp add: leasesOK_def)
  show "leaseOwned s' l"
  proof (cases "cl_kind l = ''request''")
    case True
    with own obtain r where r: "r \<in> set (requests s)" "rq_id r = cl_lease l" "openRequestState (rq_state r)" by (auto simp: leaseOwned_def)
    with l True q have "\<not> q r" by auto
    with r(1) have "r \<in> set (requests s')" unfolding req set_updateWhere by (rule_tac image_eqI) auto
    with r own True show ?thesis by (auto simp: leaseOwned_def)
  next
    case False
    with own att show ?thesis by (simp add: leaseOwned_def)
  qed
qed

lemma unitsOK_cong: "attempts s' = attempts s \<Longrightarrow> reservations s' = reservations s \<Longrightarrow> unitsOK s' = unitsOK s"
  by (simp add: unitsOK_def activeUnits_def)

lemma request_closed:
  assumes L: "lifecycleOK s" and "booksBalanced s'" and same: "attempts s' = attempts s" "reservations s' = reservations s"
    and req: "requests s' = updateWhere q g (requests s)"
    and g: "\<And>r. rq_id (g r) = rq_id r \<and> rq_state (g r) \<noteq> ''reserved''"
    and q: "\<And>r. q r \<Longrightarrow> rq_id r = requestID \<and> rq_state r \<noteq> ''reserved''"
    and leases: "\<And>l. l \<in> set (concurrency_leases s') \<Longrightarrow> l \<in> set (concurrency_leases s) \<and> \<not> (cl_kind l = ''request'' \<and> cl_request l = requestID)"
  shows "lifecycleOK s'"
proof -
  from L have inv: "flightOK s" "leasesOK s" "unitsOK s" by (auto simp: lifecycleOK_def)
  have "l \<in> set (concurrency_leases s) \<and> (cl_kind l = ''request'' \<longrightarrow> cl_lease l \<noteq> requestID)" if "l \<in> set (concurrency_leases s')" for l
    using leases [OF that] inv(2) by (auto simp: leasesOK_def leaseOwned_def leaseCheck_def)
  with leases_close [OF inv(2) same(1) req] q have "leasesOK s'" by blast
  moreover have "flightOK s'" using flight_requests [OF inv(1) same(1) req g] q by blast
  ultimately show ?thesis using assms(2) inv(3) unitsOK_cong [OF same] by (simp add: lifecycleOK_def)
qed

lemma closeFailedRequestTx_lifecycle: "keepsT lifecycleOK (closeFailedRequestTx requestID)"
  unfolding keepsT_def
proof (rule okT_I)
  fix w n s x n' s'
  assume L: "lifecycleOK s" and run: "closeFailedRequestTx requestID w (n, s) = Inr (x, n', s')"
  from L keepsT_D [OF closeFailedRequestTx_books _ run] have B: "booksBalanced s'" by (simp add: lifecycleOK_def)
  have own: "cl_lease l = cl_request l" if "l \<in> set (concurrency_leases s)" "cl_kind l = ''request''" for l
    using L that by (auto simp: lifecycleOK_def leasesOK_def leaseOwned_def leaseCheck_def)
  from run show "lifecycleOK s'"
  proof (rule closeFailedRequestTx_Inr)
    fix now
    assume s': "s' = requests_update (updateWhere (\<lambda>r. rq_id r = requestID \<and> rq_state r = ''in_progress'') (\<lambda>r. r\<lparr>rq_state := ''failed'', rq_finished := Some now\<rparr>))
       (concurrency_leases_update (filter (\<lambda>l. \<not> (cl_kind l = ''request'' \<and> cl_lease l = requestID))) s)"
    then have req: "requests s' = updateWhere (\<lambda>r. rq_id r = requestID \<and> rq_state r = ''in_progress'')
        (\<lambda>r. r\<lparr>rq_state := ''failed'', rq_finished := Some now\<rparr>) (requests s)" by simp
    show ?thesis by (rule request_closed [OF L B _ _ req]) (use s' own in auto)
  qed
qed

lemma FinalizeRequestTx_lifecycle: "keepsT lifecycleOK (FinalizeRequestTx requestID state)"
  unfolding keepsT_def
proof (rule okT_I)
  fix w n s x n' s'
  assume L: "lifecycleOK s" and run: "FinalizeRequestTx requestID state w (n, s) = Inr (x, n', s')"
  from L keepsT_D [OF FinalizeRequestTx_books _ run] have B: "booksBalanced s'" by (simp add: lifecycleOK_def)
  from run show "lifecycleOK s'"
  proof (rule FinalizeRequestTx_Inr)
    fix now
    assume s': "s' = concurrency_leases_update (filter (\<lambda>l. \<not> (cl_kind l = ''request'' \<and> cl_request l = requestID)))
       (requests_update (updateWhere (\<lambda>r. rq_id r = requestID \<and> rq_state r = ''in_progress'') (\<lambda>r. r\<lparr>rq_state := state, rq_finished := Some now\<rparr>)) s)"
      and state: "state \<in> {''succeeded'', ''failed'', ''cancelled'', ''interrupted_unknown''}"
    then have req: "requests s' = updateWhere (\<lambda>r. rq_id r = requestID \<and> rq_state r = ''in_progress'')
        (\<lambda>r. r\<lparr>rq_state := state, rq_finished := Some now\<rparr>) (requests s)" by simp
    show ?thesis by (rule request_closed [OF L B _ _ req]) (use s' state in auto)
  qed
qed

lemma staleRequest_open: "staleRequest cutoff s r \<Longrightarrow> rq_state r = ''in_progress''"
  by (simp add: staleRequest_def Let_def)

lemma repairRequest_lifecycle: "keepsT lifecycleOK (repairRequest now cutoff requestID repaired)"
  unfolding keepsT_def
proof (rule okT_I)
  fix w n s x n' s'
  assume L: "lifecycleOK s" and run: "repairRequest now cutoff requestID repaired w (n, s) = Inr (x, n', s')"
  from L keepsT_D [OF repairRequest_books _ run] have B: "booksBalanced s'" by (simp add: lifecycleOK_def)
  from run show "lifecycleOK s'"
  proof (cases rule: repairRequest_Inr)
    case (stale r)
    then have req: "requests s' = updateWhere (\<lambda>r. rq_id r = requestID \<and> staleRequest cutoff s r)
         (\<lambda>r. r\<lparr>rq_state := ''failed'', rq_finished := Some now\<rparr>) (requests s)" by simp
    show ?thesis by (rule request_closed [OF L B _ _ req]) (use stale(4) in \<open>auto dest: staleRequest_open\<close>)
  qed (simp add: L)
qed

lemma repairStaleTx_lifecycle: "keepsT lifecycleOK repairStaleTx"
  unfolding repairStaleTx_def by (intro keeps repairRequest_lifecycle)

lemma recoverTx_Inr_lifecycle:
  assumes L: "recoveringOK s" and run: "recoverTx epoch w (n, s) = Inr (x, n', s')"
  shows "lifecycleOK s' \<and> concurrency_leases s' = [] \<and> activeIDs s' = {} \<and> (\<forall>r \<in> set (requests s'). \<not> openRequestState (rq_state r))"
proof -
  from run obtain now n1 n2 s1 where loop: "forT (recoverItem now) (activeItems s) w (n1, s) = Inr ((), n2, s1)"
    and s': "s' = admission_clock_update (\<lambda>c. Some (case c of None \<Rightarrow> now | Some (t, _) \<Rightarrow> max t now, epoch)) (concurrency_leases_update (\<lambda>ls. [])
       (requests_update (updateWhere (\<lambda>r. rq_state r = ''in_progress'' \<and> \<not> hasActiveAttempt s1 (rq_id r))
         (\<lambda>r. r\<lparr>rq_state := ''failed'', rq_finished := Some now\<rparr>)) s1))"
    by (rule recoverTx_Inr)
  from recover_loop [OF L loop] have R: "booksBalanced s1" "flightOK s1" "unitsOK s1" and none: "activeIDs s1 = {}"
    by (auto simp: recoveringOK_def)
  from none have idle: "\<not> hasActiveAttempt s1 i" for i
    by (auto simp: hasActiveAttempt_def list_ex_iff activeIDs_def activeAttempt_def)
  have req: "requests s' = updateWhere (\<lambda>r. rq_state r = ''in_progress'' \<and> \<not> hasActiveAttempt s1 (rq_id r))
      (\<lambda>r. r\<lparr>rq_state := ''failed'', rq_finished := Some now\<rparr>) (requests s1)" using s' by simp
  have "flightOK s'" by (rule flight_requests [OF R(2) _ req]) (use s' in auto)
  moreover have "rq_state r \<noteq> ''reserved''" if "r \<in> set (requests s1)" for r
    using R(2) none that by (auto simp: flightOK_def activeIDs_def)
  then have "\<forall>r \<in> set (requests s'). \<not> openRequestState (rq_state r)"
    using s' idle by (auto simp: set_updateWhere openRequestState_def)
  moreover have "unitsOK s'" "activeIDs s' = {}" using R(3) none s' by (auto simp: unitsOK_def activeUnits_def activeIDs_def)
  ultimately show ?thesis using R(1) s' by (simp add: lifecycleOK_def leasesOK_def)
qed

lemma recoverTx_lifecycle: "keepsT lifecycleOK (recoverTx epoch)"
  unfolding keepsT_def
proof (rule okT_I)
  fix w n s x n' s'
  assume "lifecycleOK s" and run: "recoverTx epoch w (n, s) = Inr (x, n', s')"
  then have "recoveringOK s" by (simp add: recoveringOK_def lifecycleOK_def)
  from recoverTx_Inr_lifecycle [OF this run] show "lifecycleOK s'" by blast
qed

section \<open>Operations that leave the attempts where they are\<close>

text \<open>An update of attempts that keeps who is active.\<close>

lemma attempts_progress:
  assumes L: "lifecycleOK s" and B: "booksBalanced s'" and same: "requests s' = requests s" "concurrency_leases s' = concurrency_leases s"
    and att: "attempts s' = updateWhere q f (attempts s)"
    and f: "\<And>a. q a \<Longrightarrow> at_id (f a) = at_id a \<and> at_request (f a) = at_request a \<and> activeAttempt (f a) = activeAttempt a"
    and units: "activeUnits s' \<subseteq> activeUnits s"
  shows "lifecycleOK s'"
proof -
  define h where "h a = (if q a then f a else a)" for a
  have h: "at_id (h a) = at_id a" "at_request (h a) = at_request a" "activeAttempt (h a) = activeAttempt a" for a
    using f by (auto simp: h_def)
  have att': "attempts s' = map h (attempts s)" using att by (simp add: updateWhere_def h_def)
  from L have inv: "flightOK s" "leasesOK s" "unitsOK s" by (auto simp: lifecycleOK_def)
  have "flightOK s'"
    using inv(1) unfolding flightOK_def att' same by (simp add: comp_def h) metis
  moreover have "leasesOK s'"
    using inv(2) unfolding leasesOK_def leaseOwned_def att' same by (simp add: h)
  moreover have "unitsOK s'"
    using inv(3) units unfolding unitsOK_def att' by (auto simp: h)
  ultimately show ?thesis using B by (simp add: lifecycleOK_def)
qed

lemma units_loop:
  assumes "\<And>x. keepsT (\<lambda>s'. activeUnits s' \<subseteq> U) (f x)" "forT f xs w (n, s) = Inr (y, n', s')" "activeUnits s \<subseteq> U"
  shows "activeUnits s' \<subseteq> U"
  using keepsT_D [OF keepsT_for [OF assms(1)] assms(3,2)] .

lemma units_counters:
  "keepsT (\<lambda>s'. activeUnits s' \<subseteq> U) (updateBuckets p f)" "keepsT (\<lambda>s'. activeUnits s' \<subseteq> U) (updatePeriods q g)"
  by (simp_all add: updateBuckets_def updatePeriods_def keepsT_def okT_update activeUnits_def)

lemma units_updateReservations:
  assumes "\<And>r. rs_id (f r) = rs_id r \<and> rs_attempt (f r) = rs_attempt r \<and> rs_state (f r) \<noteq> ''active''"
  shows "keepsT (\<lambda>s'. activeUnits s' \<subseteq> U) (updateReservations q f)"
  unfolding updateReservations_def keepsT_def
  by (rule okT_update) (use assms in \<open>auto simp: activeUnits_def set_updateWhere split: if_splits\<close>)

lemma units_items:
  "keepsT (\<lambda>s'. activeUnits s' \<subseteq> U) (reconcileItem tokens cost item)"
  "keepsT (\<lambda>s'. activeUnits s' \<subseteq> U) (reconcileSpend delta actual now sitem)"
  unfolding reconcileItem_def settleBucket_def settleQuota_def markReservation_def reconcileSpend_def updateQuotaPeriod_def
  by (intro keeps units_counters units_updateReservations; simp)+

lemma reconcileTx_lifecycle: "keepsT lifecycleOK (reconcileUnknownTx actor attemptID input)"
  unfolding keepsT_def
proof (rule okT_I)
  fix w n s x n' s'
  assume L: "lifecycleOK s" and run: "reconcileUnknownTx actor attemptID input w (n, s) = Inr (x, n', s')"
  from L keepsT_D [OF reconcileTx_books _ run] have B: "booksBalanced s'" by (simp add: lifecycleOK_def)
  from run show "lifecycleOK s'"
  proof (cases rule: reconcileUnknownTx_cases)
    case (fresh actor tokens cost a r m)
    from fresh(3) show ?thesis
    proof (rule reconcileBooks_Inr)
      fix led e f status n1 n2 s1
      assume loop: "forT (reconcileItem tokens (case cost of None \<Rightarrow> knownCost a | Some c \<Rightarrow> Some c)) (heldItems attemptID ''uncertain'' s) w (n1, s) = Inr ((), n2, s1)"
        and s': "s' = audit_events_update f (event_outbox_update (\<lambda>es. es @ [e]) (usage_ledger_update (\<lambda>ls. ls @ [led])
       (attempts_update (updateWhere (\<lambda>x. at_id x = attemptID) (reconciledAttempt status input cost)) s1)))"
      from countersOnly_sel [OF countersOnly_loop [OF countersOnly_reconcileItem loop]] s'
      have same: "requests s' = requests s" "concurrency_leases s' = concurrency_leases s"
        and att: "attempts s' = updateWhere (\<lambda>x. at_id x = attemptID) (reconciledAttempt status input cost) (attempts s)" by simp_all
      show ?thesis
        by (rule attempts_progress [OF L B same att])
           (use units_loop [OF units_items(1) loop order.refl] s' in \<open>auto simp: reconciledAttempt_def activeAttempt_def activeUnits_def\<close>)
    qed
  qed (simp add: L)
qed

lemma restated_lifecycle:
  assumes L: "lifecycleOK s" and B: "booksBalanced s'"
    and s0: "requests s0 = requests s" "concurrency_leases s0 = concurrency_leases s" "reservations s0 = reservations s"
      "attempts s0 = updateWhere (\<lambda>a. at_id a = attemptID) (\<lambda>a. a\<lparr>at_restated := Some amount\<rparr>) (attempts s)"
    and loop: "forT (reconcileSpend delta actual now) items w (n, s0) = Inr ((), n', s1)"
    and s': "requests s' = requests s1" "concurrency_leases s' = concurrency_leases s1" "reservations s' = reservations s1" "attempts s' = attempts s1"
  shows "lifecycleOK s'"
proof -
  note frame = countersOnly_sel [OF countersOnly_loop [OF countersOnly_reconcileSpend loop]]
  have same: "requests s' = requests s" "concurrency_leases s' = concurrency_leases s" using frame s0 s' by simp_all
  have att: "attempts s' = updateWhere (\<lambda>a. at_id a = attemptID) (\<lambda>a. a\<lparr>at_restated := Some amount\<rparr>) (attempts s)"
    using frame s0 s' by simp
  show ?thesis
    by (rule attempts_progress [OF L B same att])
       (use units_loop [OF units_items(2) loop order.refl] s0 s' in \<open>auto simp: activeAttempt_def activeUnits_def\<close>)
qed

lemma applyItem_lifecycle: "keepsT lifecycleOK (applyItem actor item acc)"
  unfolding keepsT_def
proof (rule okT_I)
  fix w n s x n' s'
  assume L: "lifecycleOK s" and run: "applyItem actor item acc w (n, s) = Inr (x, n', s')"
  from L keepsT_D [OF applyItem_books _ run] have B: "booksBalanced s'" by (simp add: lifecycleOK_def)
  from run show "lifecycleOK s'"
  proof (cases rule: applyItem_Inr)
    case (applied led e f now n1 n2 s1)
    then show ?thesis by (intro restated_lifecycle [OF L B _ _ _ _ applied(1)]) simp_all
  qed (simp add: L)
qed

lemma lifecycle_frame [simp]:
  "lifecycleOK (audit_events_update f1 s) = lifecycleOK s" "lifecycleOK (pricing_jobs_update f2 s) = lifecycleOK s"
  "lifecycleOK (price_versions_update f3 s) = lifecycleOK s" "lifecycleOK (event_outbox_update f4 s) = lifecycleOK s"
  by (simp_all add: lifecycleOK_def flightOK_def leasesOK_def leaseOwned_def unitsOK_def activeUnits_def)

lemma applyRepriceTx_lifecycle: "keepsT lifecycleOK (applyRepriceTx actor input)"
  unfolding keepsT_def
proof (rule okT_I)
  fix w n s x n' s'
  assume L: "lifecycleOK s" and run: "applyRepriceTx actor input w (n, s) = Inr (x, n', s')"
  from run show "lifecycleOK s'"
    by (cases rule: applyRepriceTx_cases) (use L keepsT_D [OF keepsT_fold [OF applyItem_lifecycle]] in auto)
qed

lemma adjustCostTx_lifecycle: "keepsT lifecycleOK (adjustCostTx actor attemptID deltaUSD reason key)"
  unfolding keepsT_def
proof (rule okT_I)
  fix w n s x n' s'
  assume L: "lifecycleOK s" and run: "adjustCostTx actor attemptID deltaUSD reason key w (n, s) = Inr (x, n', s')"
  from L keepsT_D [OF adjustCostTx_books _ run] have B: "booksBalanced s'" by (simp add: lifecycleOK_def)
  from run show "lifecycleOK s'"
  proof (cases rule: adjustCostTx_cases)
    case (fresh a r delta amount led e f now n1 n2 s1)
    then show ?thesis by (intro restated_lifecycle [OF L B _ _ _ _ fresh(2)]) simp_all
  qed (simp add: L)
qed

lemma Mark_Inr:
  "MarkDispatching attemptID w (n, s) = Inr (x, n', s') \<Longrightarrow>
     s' = attempts_update (updateWhere (\<lambda>a. at_id a = attemptID \<and> at_state a = ''reserved'') (\<lambda>a. a\<lparr>at_state := ''dispatching''\<rparr>)) s"
  "MarkStreaming attemptID w (n, s) = Inr (x, n', s') \<Longrightarrow>
     s' = attempts_update (updateWhere (\<lambda>a. at_id a = attemptID \<and> at_state a = ''dispatching'') (\<lambda>a. a\<lparr>at_state := ''streaming''\<rparr>)) s"
  unfolding MarkDispatching_def MarkStreaming_def updateAttempts_def by (auto simp: tx_inv elim!: tx_elim)

lemma marked_lifecycle:
  assumes L: "lifecycleOK s" and s': "s' = attempts_update (updateWhere (\<lambda>a. at_id a = attemptID \<and> at_state a = old) (\<lambda>a. a\<lparr>at_state := new\<rparr>)) s"
    and "old \<in> set activeStates" "new \<in> set activeStates"
  shows "lifecycleOK s'"
proof -
  have att: "attempts s' = updateWhere (\<lambda>a. at_id a = attemptID \<and> at_state a = old) (\<lambda>a. a\<lparr>at_state := new\<rparr>) (attempts s)" using s' by simp
  show ?thesis
    by (rule attempts_progress [OF L _ _ _ att]) (use L s' assms(3,4) in \<open>auto simp: lifecycleOK_def activeAttempt_def activeUnits_def\<close>)
qed

lemma Mark_lifecycle: "keepsT lifecycleOK (MarkDispatching attemptID)" "keepsT lifecycleOK (MarkStreaming attemptID)"
  unfolding keepsT_def by (rule okT_I, erule marked_lifecycle, erule Mark_Inr, simp_all add: activeStates_def)+

lemma createPolicyTx_lifecycle: "keepsT lifecycleOK (createPolicyTx actor input)"
  unfolding keepsT_def
proof (rule okT_I)
  fix w n s x n' s'
  assume L: "lifecycleOK s" and run: "createPolicyTx actor input w (n, s) = Inr (x, n', s')"
  from L keepsT_D [OF createPolicyTx_books _ run] have "booksBalanced s'" by (simp add: lifecycleOK_def)
  moreover from createPolicyTx_Inr [OF run] obtain row p where "s' = audit_events_update (\<lambda>rs. rs @ [row]) (limit_policies_update (\<lambda>rs. rs @ [p]) s)" by blast
  ultimately show "lifecycleOK s'"
    using L by (simp add: lifecycleOK_def flightOK_def leasesOK_def leaseOwned_def unitsOK_def activeUnits_def)
qed

lemma updatePolicyTx_lifecycle: "keepsT lifecycleOK (updatePolicyTx actor i revision units usd enabled)"
  unfolding keepsT_def
proof (rule okT_I)
  fix w n s x n' s'
  assume L: "lifecycleOK s" and run: "updatePolicyTx actor i revision units usd enabled w (n, s) = Inr (x, n', s')"
  from L keepsT_D [OF updatePolicyTx_books _ run] have "booksBalanced s'" by (simp add: lifecycleOK_def)
  moreover from updatePolicyTx_Inr [OF run] obtain f row where "s' = audit_events_update (\<lambda>rs. rs @ [row]) (limit_policies_update f s)" by blast
  ultimately show "lifecycleOK s'"
    using L by (simp add: lifecycleOK_def flightOK_def leasesOK_def leaseOwned_def unitsOK_def activeUnits_def)
qed

lemma createPriceTx_lifecycle: "keepsT lifecycleOK (createPriceTx actor input)"
proof -
  have "keepsT lifecycleOK (updatePrices p f)" for p f
    by (simp add: updatePrices_def keepsT_def okT_update)
  moreover have "keepsT lifecycleOK (insertPrice r)" for r
    by (simp add: insertPrice_def keepsT_def okT_insert)
  moreover have "keepsT lifecycleOK (insertAuditEvent r)" for r
    by (simp add: insertAuditEvent_def keepsT_def okT_insert)
  ultimately show ?thesis
    unfolding createPriceTx_def managerOnly_def closePrevious_def closeVersion_def insertAudit_def refreshUsageActor_def by (intro keeps)
qed

section \<open>Admission\<close>

text \<open>Booking the plans of a new attempt: its leases and reservations have an owner from the start.\<close>

definition bookedOK :: "request_row list \<Rightarrow> attempt_row list \<Rightarrow> store \<Rightarrow> bool" where
  "bookedOK rs as s \<longleftrightarrow> requests s = rs \<and> attempts s = as \<and> leasesOK s \<and> unitsOK s"

lemma applyPlan_booked:
  assumes req: "\<exists>r \<in> set rs. rq_id r = requestID \<and> openRequestState (rq_state r)" and att: "\<exists>a \<in> set as. at_id a = attemptID \<and> activeAttempt a"
  shows "keepsT (bookedOK rs as) (applyPlan plan requestID attemptID epoch now)"
  unfolding keepsT_def
proof (rule okT_I)
  fix w n s x n' s'
  assume B: "bookedOK rs as s" and run: "applyPlan plan requestID attemptID epoch now w (n, s) = Inr (x, n', s')"
  show "bookedOK rs as s'"
  proof (cases "rp_metric (cp_policy plan) = ''concurrency''")
    case True
    with run obtain l where "leaseCheck l" "s' = concurrency_leases_update (\<lambda>ls. ls @ [l]) s" "cl_request l = requestID"
        "cl_attempt l = None \<or> cl_attempt l = Some attemptID"
      by (auto simp: applyPlan_def insertLease_def insertT_Inr)
    moreover from this req att have "if cl_kind l = ''request'' then \<exists>r \<in> set rs. rq_id r = cl_lease l \<and> openRequestState (rq_state r)
        else \<exists>a \<in> set as. at_id a = cl_lease l \<and> activeAttempt a"
      by (auto simp: leaseCheck_def)
    ultimately show ?thesis using B by (auto simp: bookedOK_def leasesOK_def leaseOwned_def unitsOK_def activeUnits_def)
  next
    case False
    with run obtain m s1 where c: "bookCounter plan now w (n, s) = Inr ((), m, s1)"
      and r: "(if cp_reserve plan then bookReservation plan attemptID now else returnT ()) w (m, s1) = Inr (x, n', s')"
      by (auto simp: applyPlan_def elim!: tx_elim)
    from bookCounter_Inr [OF c] have "requests s1 = requests s" "attempts s1 = attempts s" "concurrency_leases s1 = concurrency_leases s" "reservations s1 = reservations s"
      by (auto split: if_splits)
    moreover have "s' = s1 \<or> (\<exists>rr. s' = s1\<lparr>reservations := reservations s1 @ [rr]\<rparr> \<and> rs_attempt rr = attemptID)"
    proof (cases "cp_reserve plan")
      case True
      with r have "bookReservation plan attemptID now w (m, s1) = Inr (x, n', s')" by simp
      from bookReservation_Inr [OF this] show ?thesis by blast
    qed (use r in \<open>simp add: returnT_Inr\<close>)
    ultimately show ?thesis
      using B att by (elim disjE exE conjE) (auto simp: bookedOK_def leasesOK_def leaseOwned_def unitsOK_def activeUnits_def)
  qed
qed

lemma admitted_flight:
  assumes F: "flightOK s" and new: "at_id a \<notin> at_id ` set (attempts s)" "at_request a = requestID" "activeAttempt a"
    and att: "attempts s' = attempts s @ [a]"
    and req: "(\<exists>r. requests s' = requests s @ [r] \<and> rq_id r = requestID \<and> rq_state r = ''reserved'' \<and> requestID \<notin> rq_id ` set (requests s)) \<or>
       (\<exists>r \<in> set (requests s). rq_id r = requestID \<and> rq_state r = ''in_progress'') \<and>
       requests s' = updateWhere (\<lambda>r. rq_id r = requestID) (\<lambda>r. r\<lparr>rq_state := ''reserved'', rq_finished := None\<rparr>) (requests s)"
  shows "flightOK s'"
proof -
  have idle: "\<not> activeAttempt b" if b: "b \<in> set (attempts s)" "at_request b = requestID" for b
  proof
    assume "activeAttempt b"
    from F b obtain r where r: "r \<in> set (requests s)" "rq_id r = requestID" by (auto simp: flightOK_def)
    with F \<open>activeAttempt b\<close> b have "rq_state r = ''reserved''" by (auto simp: flightOK_def)
    moreover from req r obtain r' where "r' \<in> set (requests s)" "rq_id r' = requestID" "rq_state r' = ''in_progress''" by auto
    ultimately show False using same_request [OF F r(1)] r(2) by auto
  qed
  from req show ?thesis
  proof (elim disjE exE conjE bexE)
    fix r
    assume "requests s' = requests s @ [r]" "rq_id r = requestID" "rq_state r = ''reserved''" "requestID \<notin> rq_id ` set (requests s)"
    with F new att idle show ?thesis by (auto simp: flightOK_def)
  next
    fix r
    assume "r \<in> set (requests s)" "rq_id r = requestID" and r': "requests s' = updateWhere (\<lambda>r. rq_id r = requestID) (\<lambda>r. r\<lparr>rq_state := ''reserved'', rq_finished := None\<rparr>) (requests s)"
    define h where "h (r :: request_row) = (if rq_id r = requestID then r\<lparr>rq_state := ''reserved'', rq_finished := None\<rparr> else r)" for r
    have h: "rq_id (h r) = rq_id r" "(rq_state (h r) = ''reserved'') = (rq_id r = requestID \<or> rq_state r = ''reserved'')" for r
      by (auto simp: h_def)
    have req': "requests s' = map h (requests s)" using r' by (simp add: updateWhere_def h_def)
    have "\<exists>r \<in> set (requests s). rq_id r = requestID" using \<open>r \<in> set (requests s)\<close> \<open>rq_id r = requestID\<close> by blast
    then show ?thesis
      using F new idle unfolding flightOK_def att req' by (simp add: comp_def h) blast
  qed
qed

lemma leasesOK_mono:
  assumes "leasesOK s" "concurrency_leases s' = concurrency_leases s" "set (attempts s) \<subseteq> set (attempts s')"
    and "\<And>r. r \<in> set (requests s) \<Longrightarrow> openRequestState (rq_state r) \<Longrightarrow> \<exists>r' \<in> set (requests s'). rq_id r' = rq_id r \<and> openRequestState (rq_state r')"
  shows "leasesOK s'"
  unfolding leasesOK_def assms(2)
proof
  fix l
  assume "l \<in> set (concurrency_leases s)"
  with assms(1) have own: "leaseOwned s l" by (simp add: leasesOK_def)
  show "leaseOwned s' l"
  proof (cases "cl_kind l = ''request''")
    case True
    with own obtain r where "r \<in> set (requests s)" "rq_id r = cl_lease l" "openRequestState (rq_state r)" by (auto simp: leaseOwned_def)
    with assms(4) [of r] have "\<exists>r' \<in> set (requests s'). rq_id r' = cl_lease l \<and> openRequestState (rq_state r')" by simp
    with own True show ?thesis by (simp add: leaseOwned_def)
  next
    case False
    with own assms(3) show ?thesis by (simp add: leaseOwned_def) blast
  qed
qed

lemma flightOK_cong: "attempts s' = attempts s \<Longrightarrow> requests s' = requests s \<Longrightarrow> flightOK s' = flightOK s"
  by (simp add: flightOK_def)

lemma lifecycle_parts:
  "flightOK (event_outbox_update f s) = flightOK s" "leasesOK (event_outbox_update f s) = leasesOK s" "unitsOK (event_outbox_update f s) = unitsOK s"
  by (simp_all add: flightOK_def leasesOK_def leaseOwned_def unitsOK_def activeUnits_def)

lemma admitted_requests:
  assumes "(\<exists>r. rs' = rs @ [r] \<and> rq_id r = requestID \<and> rq_state r = ''reserved'' \<and> requestID \<notin> rq_id ` set rs) \<or>
       (\<exists>r \<in> set rs. rq_id r = requestID \<and> rq_state r = ''in_progress'') \<and>
       rs' = updateWhere (\<lambda>r. rq_id r = requestID) (\<lambda>r. r\<lparr>rq_state := ''reserved'', rq_finished := None\<rparr>) rs"
  shows "\<exists>r \<in> set rs'. rq_id r = requestID \<and> openRequestState (rq_state r)"
    and "q \<in> set rs \<Longrightarrow> openRequestState (rq_state q) \<Longrightarrow> \<exists>r' \<in> set rs'. rq_id r' = rq_id q \<and> openRequestState (rq_state r')"
proof -
  let ?g = "\<lambda>r. if rq_id r = requestID then r\<lparr>rq_state := ''reserved'', rq_finished := None\<rparr> else r"
  have g: "rq_id (?g r) = rq_id r" "openRequestState (rq_state r) \<or> rq_id r = requestID \<Longrightarrow> openRequestState (rq_state (?g r))" for r
    by (auto simp: openRequestState_def)
  consider (new) r where "rs' = rs @ [r]" "rq_id r = requestID" "openRequestState (rq_state r)"
    | (old) r where "r \<in> set rs" "rq_id r = requestID" "rs' = map ?g rs"
    using assms by (auto simp: openRequestState_def updateWhere_def)
  then show "\<exists>r \<in> set rs'. rq_id r = requestID \<and> openRequestState (rq_state r)"
  proof cases
    case (old r)
    with g [of r] show ?thesis by (intro bexI [of _ "?g r"]) auto
  qed auto
  assume q: "q \<in> set rs" "openRequestState (rq_state q)"
  from assms have "rs' = map ?g rs \<or> (\<exists>r. rs' = rs @ [r])" by (auto simp: updateWhere_def)
  then show "\<exists>r' \<in> set rs'. rq_id r' = rq_id q \<and> openRequestState (rq_state r')"
  proof
    assume "rs' = map ?g rs"
    with q g [of q] show ?thesis by (intro bexI [of _ "?g q"]) auto
  qed (use q in auto)
qed

lemma admitTx_lifecycle: "keepsT lifecycleOK (admitTx epoch input0)"
  unfolding keepsT_def
proof (rule okT_I)
  fix w n s x n' s'
  assume L: "lifecycleOK s" and run: "admitTx epoch input0 w (n, s) = Inr (x, n', s')"
  then have inv: "booksBalanced s" "flightOK s" "leasesOK s" "unitsOK s" by (auto simp: lifecycleOK_def)
  from keepsT_D [OF admitTx_books inv(1) run] have B: "booksBalanced s'" .
  from admitTx_Inr [OF run] have "admitChecked epoch (bookedInput input0) w (n, s) = Inr (x, n', s')" by simp
  then show "lifecycleOK s'"
  proof (rule admitChecked_Inr)
    fix first requestID attemptID ownerID ordinal priceID tokens cost plans effective n1 n2 n3 n4 s0
    assume book: "bookAdmission epoch (bookedInput input0) first requestID attemptID ownerID ordinal priceID tokens cost plans effective w (n3, s0) = Inr ((), n4, s')"
      and s0: "s0 = s\<lparr>admission_clock := Some (effective, epoch)\<rparr>"
      and retry: "\<not> first \<longrightarrow> (\<exists>r. find (\<lambda>r. rq_id r = requestID) (requests s) = Some r \<and> rq_state r = ''in_progress'')"
    from book show ?thesis
    proof (rule bookAdmission_Inr)
      fix f e m1 m2 s1
      let ?a = "newAttempt (bookedInput input0) attemptID requestID ordinal priceID tokens cost effective"
      let ?s = "attempts_update (\<lambda>as. as @ [?a]) (requests_update f s0)"
      assume loop: "forT (\<lambda>plan. applyPlan plan requestID attemptID epoch effective) plans w (m1, ?s) = Inr ((), m2, s1)"
        and s': "s' = event_outbox_update (\<lambda>es. es @ [e]) s1" and fresh: "\<forall>a \<in> set (attempts s0). at_id a \<noteq> attemptID"
        and f: "if first then (\<forall>r \<in> set (requests s0). rq_id r \<noteq> requestID) \<and> (\<exists>r. f = (\<lambda>rs. rs @ [r]) \<and> rq_id r = requestID \<and> rq_state r = ''reserved'')
          else f = updateWhere (\<lambda>r. rq_id r = requestID) (\<lambda>r. r\<lparr>rq_state := ''reserved'', rq_finished := None\<rparr>)"
      have cases: "(\<exists>r. requests ?s = requests s @ [r] \<and> rq_id r = requestID \<and> rq_state r = ''reserved'' \<and> requestID \<notin> rq_id ` set (requests s)) \<or>
         (\<exists>r \<in> set (requests s). rq_id r = requestID \<and> rq_state r = ''in_progress'') \<and>
         requests ?s = updateWhere (\<lambda>r. rq_id r = requestID) (\<lambda>r. r\<lparr>rq_state := ''reserved'', rq_finished := None\<rparr>) (requests s)"
      proof (cases first)
        case True
        with f obtain r where "f = (\<lambda>rs. rs @ [r])" "rq_id r = requestID" "rq_state r = ''reserved''" and "\<forall>r \<in> set (requests s0). rq_id r \<noteq> requestID" by auto
        then show ?thesis using s0 by (intro disjI1 exI [of _ r]) (auto simp: image_iff)
      next
        case False
        with f s0 retry show ?thesis by (auto dest!: find_SomeD)
      qed
      have act: "activeAttempt ?a" by (simp add: activeAttempt_def activeStates_def)
      have F: "flightOK ?s"
        using fresh s0 act by (intro admitted_flight [OF inv(2) _ _ _ _ cases]) auto
      have req: "\<exists>r \<in> set (requests ?s). rq_id r = requestID \<and> openRequestState (rq_state r)"
        using cases by (rule admitted_requests(1))
      have "leasesOK ?s"
        by (rule leasesOK_mono [OF inv(3) _ _ admitted_requests(2) [OF cases]]) (use s0 in auto)
      moreover have "unitsOK ?s"
        using inv(4) s0 by (auto simp: unitsOK_def activeUnits_def)
      ultimately have "bookedOK (requests ?s) (attempts ?s) ?s" by (simp add: bookedOK_def)
      moreover have "keepsT (bookedOK (requests ?s) (attempts ?s)) (applyPlan plan requestID attemptID epoch effective)" for plan
        using act by (intro applyPlan_booked [OF req]) auto
      ultimately have booked: "bookedOK (requests ?s) (attempts ?s) s1"
        using keepsT_D [OF keepsT_for _ loop] by blast
      with F flightOK_cong [of s1 ?s] have "flightOK s1" by (simp only: bookedOK_def)
      with booked B s' show ?thesis by (simp add: bookedOK_def lifecycleOK_def lifecycle_parts)
    qed
  qed
qed

end
