(* ===== verification/Attempts.thy ===== *)
theory Attempts
  imports Lifecycle
begin

text \<open>
  The state machine of an attempt, as an abstract specification, and the refinement: every operation
  of the usage service moves each stored attempt along the machine, keeps its id and its request, and
  loses none.
\<close>

section \<open>The machine\<close>

inductive attemptStep :: "string \<Rightarrow> string \<Rightarrow> bool" where
  dispatch: "attemptStep ''reserved'' ''dispatching''"
| stream: "attemptStep ''dispatching'' ''streaming''"
| cancel: "attemptStep ''reserved'' ''cancelled_before_dispatch''"
| settle: "a \<in> set activeStates \<Longrightarrow> t \<in> {''succeeded'', ''failed'', ''cancelled'', ''interrupted_unknown''} \<Longrightarrow> attemptStep a t"

inductive_simps attemptStep_iff: "attemptStep a t"

lemma terminal_stuck: "a \<in> set terminalStates \<Longrightarrow> \<not> attemptStep a t"
  by (auto simp: attemptStep_iff terminalStates_def activeStates_def)

lemma terminal_final: "attemptStep\<^sup>*\<^sup>* a t \<Longrightarrow> a \<in> set terminalStates \<Longrightarrow> t = a"
  by (induction rule: rtranclp_induct) (auto dest: terminal_stuck)

section \<open>Advancing stores\<close>

definition attemptsAdvance :: "store \<Rightarrow> store \<Rightarrow> bool" where
  "attemptsAdvance s s' \<longleftrightarrow> (\<forall>a \<in> set (attempts s). \<exists>a' \<in> set (attempts s').
     at_id a' = at_id a \<and> at_request a' = at_request a \<and> attemptStep\<^sup>*\<^sup>* (at_state a) (at_state a'))"

lemma advance_same: "attempts s' = attempts s \<Longrightarrow> attemptsAdvance s s'"
  by (auto simp: attemptsAdvance_def)

lemma advance_trans: "attemptsAdvance s s' \<Longrightarrow> attemptsAdvance s' s'' \<Longrightarrow> attemptsAdvance s s''"
  unfolding attemptsAdvance_def by (metis rtranclp_trans)

lemma advance_append: "attempts s' = attempts s @ as \<Longrightarrow> attemptsAdvance s s'"
  by (auto simp: attemptsAdvance_def)

lemma advance_update:
  assumes "attempts s' = updateWhere q f (attempts s)"
    and "\<And>a. a \<in> set (attempts s) \<Longrightarrow> q a \<Longrightarrow> at_id (f a) = at_id a \<and> at_request (f a) = at_request a \<and> attemptStep\<^sup>*\<^sup>* (at_state a) (at_state (f a))"
  shows "attemptsAdvance s s'"
  unfolding attemptsAdvance_def
proof
  fix a
  assume a: "a \<in> set (attempts s)"
  let ?a = "if q a then f a else a"
  have "?a \<in> set (attempts s')" using a unfolding assms(1) set_updateWhere by (rule imageI)
  moreover have "at_id ?a = at_id a \<and> at_request ?a = at_request a \<and> attemptStep\<^sup>*\<^sup>* (at_state a) (at_state ?a)"
    using assms(2) [OF a] by simp
  ultimately show "\<exists>a' \<in> set (attempts s'). at_id a' = at_id a \<and> at_request a' = at_request a \<and> attemptStep\<^sup>*\<^sup>* (at_state a) (at_state a')" by blast
qed

text \<open>The one attempt an operation found is the one it updates.\<close>

lemma advance_found:
  assumes F: "flightOK s" and a: "a \<in> set (attempts s)" and step: "attemptStep (at_state a) t"
    and att: "attempts s' = updateWhere (\<lambda>x. at_id x = at_id a) f (attempts s)"
    and f: "\<And>x. at_id (f x) = at_id x \<and> at_request (f x) = at_request x \<and> at_state (f x) = t"
  shows "attemptsAdvance s s'"
  using att
proof (rule advance_update)
  fix x
  assume "x \<in> set (attempts s)" "at_id x = at_id a"
  with same_attempt [OF F _ a] have "x = a" by simp
  with f step show "at_id (f x) = at_id x \<and> at_request (f x) = at_request x \<and> attemptStep\<^sup>*\<^sup>* (at_state x) (at_state (f x))" by auto
qed

lemma settleFresh_advance:
  assumes run: "settleFresh attemptID input hw comb w (n, s) = Inr (x, n', s')" and F: "flightOK s"
    and state: "si_state input \<in> {''succeeded'', ''failed'', ''cancelled'', ''interrupted_unknown''}"
  shows "attemptsAdvance s s'"
  using run
proof (rule settleFresh_Inr)
  fix a r cost tokens now led e f n1 n2 s1
  assume found: "attemptWithRequest attemptID s = Some (a, r)" and act: "at_state a \<in> set activeStates"
    and loop: "forT (settleItem (si_usageStatus input) tokens cost now) (heldItems attemptID ''active'' s) w (n1, usage_ledger_update (\<lambda>ls. ls @ [led]) s) = Inr ((), n2, s1)"
    and s': "s' = event_outbox_update (\<lambda>es. es @ [e]) (requests_update (updateWhere (\<lambda>x. rq_id x = at_request a) (closedRequest input now))
       (concurrency_leases_update (filter (leaseKept (si_finalRequest input) (at_request a) attemptID))
       (cost_assessments_update f (attempts_update (updateWhere (\<lambda>x. at_id x = attemptID) (settledAttempt (input\<lparr>si_costNanos := cost\<rparr>) now)) s1))))"
  from attemptWithRequest_member [OF found] have a: "a \<in> set (attempts s)" "at_id a = attemptID" by auto
  have att: "attempts s' = updateWhere (\<lambda>x. at_id x = at_id a) (settledAttempt (input\<lparr>si_costNanos := cost\<rparr>) now) (attempts s)"
    using s' a countersOnly_sel [OF countersOnly_loop [OF countersOnly_settleItem loop]] by simp
  show ?thesis
    by (rule advance_found [OF F a(1) attemptStep.settle [OF act state] att]) (simp add: settledAttempt_def)
qed

lemma settlementError_final:
  "settlementError i = None \<Longrightarrow> si_state i \<in> {''succeeded'', ''failed'', ''cancelled'', ''interrupted_unknown''}"
  by (auto simp: settlementError_def split: if_splits)

section \<open>Every operation advances\<close>

definition advancedOK :: "store \<Rightarrow> store \<Rightarrow> bool" where
  "advancedOK s0 s \<longleftrightarrow> lifecycleOK s \<and> attemptsAdvance s0 s"

lemma keepsT_advanced:
  assumes L: "keepsT lifecycleOK m"
    and A: "\<And>w n s x n' s'. lifecycleOK s \<Longrightarrow> m w (n, s) = Inr (x, n', s') \<Longrightarrow> attemptsAdvance s s'"
  shows "keepsT (advancedOK s0) m"
  unfolding keepsT_def advancedOK_def
  using keepsT_D [OF L] A advance_trans by (intro okT_I) blast

text \<open>Bodies that do not touch the attempts.\<close>

lemma keepsT_idle:
  assumes "keepsT lifecycleOK m" and "\<And>w n s x n' s'. m w (n, s) = Inr (x, n', s') \<Longrightarrow> attempts s' = attempts s"
  shows "keepsT (advancedOK s0) m"
  using assms(1) by (rule keepsT_advanced) (auto intro: advance_same dest: assms(2))

lemma settleTx_advanced: "keepsT (advancedOK s0) (settleTx attemptID input)"
proof (rule keepsT_advanced [OF settleTx_lifecycle])
  fix w n s x n' s'
  assume L: "lifecycleOK s" and "settleTx attemptID input w (n, s) = Inr (x, n', s')"
  from this(2) show "attemptsAdvance s s'"
  proof (cases rule: settleTx_cases)
    case (fresh hw comb m)
    with L settlementError_final [OF fresh(2)] show ?thesis
      by (intro settleFresh_advance [OF fresh(1)]) (auto simp: lifecycleOK_def)
  qed (simp add: advance_same)
qed

lemma cancelTx_advanced: "keepsT (advancedOK s0) (cancelBeforeDispatchTx attemptID)"
proof (rule keepsT_advanced [OF cancelTx_lifecycle])
  fix w n s x n' s'
  assume L: "lifecycleOK s" and run: "cancelBeforeDispatchTx attemptID w (n, s) = Inr (x, n', s')"
  from run show "attemptsAdvance s s'"
  proof (rule cancelBeforeDispatchTx_Inr)
    fix a r now e n1 n2 s1
    assume found: "attemptWithRequest attemptID s = Some (a, r)" and act: "at_state a = ''reserved''"
      and loop: "forT (releaseItem now) (heldItems attemptID ''active'' s) w (n1, s) = Inr ((), n2, s1)"
      and s': "s' = event_outbox_update (\<lambda>es. es @ [e]) (requests_update (updateWhere (\<lambda>x. rq_id x = at_request a)
         (\<lambda>x. x\<lparr>rq_state := ''cancelled'', rq_finished := Some now\<rparr>))
       (attempts_update (updateWhere (\<lambda>x. at_id x = attemptID)
         (\<lambda>x. x\<lparr>at_state := ''cancelled_before_dispatch'', at_usage := ''estimated'', at_finished := Some now\<rparr>))
       (concurrency_leases_update (filter (leaseKept True (at_request a) attemptID)) s1)))"
    from attemptWithRequest_member [OF found] have a: "a \<in> set (attempts s)" "at_id a = attemptID" by auto
    have att: "attempts s' = updateWhere (\<lambda>x. at_id x = at_id a)
        (\<lambda>x. x\<lparr>at_state := ''cancelled_before_dispatch'', at_usage := ''estimated'', at_finished := Some now\<rparr>) (attempts s)"
      using s' a countersOnly_sel [OF countersOnly_loop [OF countersOnly_releaseItem loop]] by simp
    have step: "attemptStep (at_state a) ''cancelled_before_dispatch''" unfolding act by (rule attemptStep.cancel)
    show ?thesis
      by (rule advance_found [OF _ a(1) step att]) (use L in \<open>auto simp: lifecycleOK_def\<close>)
  qed
qed

lemma Mark_advanced: "keepsT (advancedOK s0) (MarkDispatching attemptID)" "keepsT (advancedOK s0) (MarkStreaming attemptID)"
  by (rule keepsT_advanced [OF Mark_lifecycle(1)], drule Mark_Inr, rule advance_update, simp, auto intro: attemptStep.dispatch)
     (rule keepsT_advanced [OF Mark_lifecycle(2)], drule Mark_Inr, rule advance_update, simp, auto intro: attemptStep.stream)

lemma recoverItem_advance:
  assumes inv: "recoveringOK s" and held: "attemptHeld item s" and run: "recoverItem now item w (n, s) = Inr (x, n', s')"
  shows "attemptsAdvance s s'"
proof -
  obtain a r where item: "item = (a, r)" by fastforce
  with held have a: "a \<in> set (attempts s)" "activeAttempt a" by (auto simp: attemptHeld_def)
  from inv have F: "flightOK s" by (simp add: recoveringOK_def)
  from run item have "recoverItem now (a, r) w (n, s) = Inr (x, n', s')" by simp
  then show ?thesis
  proof (cases rule: recoverItem_Inr)
    case (cancelled e n1 s1)
    have step: "attemptStep (at_state a) ''cancelled_before_dispatch''" unfolding cancelled(1) by (rule attemptStep.cancel)
    have att: "attempts s' = updateWhere (\<lambda>x. at_id x = at_id a)
        (\<lambda>x. x\<lparr>at_state := ''cancelled_before_dispatch'', at_usage := ''estimated'', at_finished := Some now\<rparr>) (attempts s)"
      using cancelled(3) countersOnly_sel [OF countersOnly_loop [OF countersOnly_releaseItem cancelled(2)]] by simp
    show ?thesis by (rule advance_found [OF F a(1) step att]) simp
  next
    case (interrupted e)
    have step: "attemptStep (at_state a) ''interrupted_unknown''" using a(2) by (intro attemptStep.settle) (auto simp: activeAttempt_def)
    have att: "attempts s' = updateWhere (\<lambda>x. at_id x = at_id a)
        (\<lambda>x. x\<lparr>at_state := ''interrupted_unknown'', at_usage := ''unknown'', at_finished := Some now\<rparr>) (attempts s)"
      using interrupted(2) by simp
    show ?thesis by (rule advance_found [OF F a(1) step att]) simp
  qed
qed

interpretation advancing: item_loop "recoverItem now" "\<lambda>item. at_id (fst item)" attemptHeld "\<lambda>s. recoveringOK s \<and> attemptsAdvance s0 s" for now s0
proof (rule item_loopI)
  fix item w n s x n' s'
  assume I: "recoveringOK s \<and> attemptsAdvance s0 s" and held: "attemptHeld item s" and run: "recoverItem now item w (n, s) = Inr (x, n', s')"
  from I have "recoveringOK s" "attemptsAdvance s0 s" by auto
  with recoverItem_step [OF _ held run] advance_trans [OF _ recoverItem_advance [OF _ held run]]
  show "(recoveringOK s' \<and> attemptsAdvance s0 s') \<and> (\<forall>y. at_id (fst y) \<noteq> at_id (fst item) \<longrightarrow> attemptHeld y s \<longrightarrow> attemptHeld y s')" by blast
qed

lemma recoverTx_advanced: "keepsT (advancedOK s0) (recoverTx epoch)"
proof (rule keepsT_advanced [OF recoverTx_lifecycle])
  fix w n s x n' s'
  assume L: "lifecycleOK s" and run: "recoverTx epoch w (n, s) = Inr (x, n', s')"
  then have R: "recoveringOK s" by (simp add: recoveringOK_def lifecycleOK_def)
  from run show "attemptsAdvance s s'"
  proof (rule recoverTx_Inr)
    fix now n1 n2 s1
    assume loop: "forT (recoverItem now) (activeItems s) w (n1, s) = Inr ((), n2, s1)"
      and s': "s' = admission_clock_update (\<lambda>c. Some (case c of None \<Rightarrow> now | Some (t, _) \<Rightarrow> max t now, epoch)) (concurrency_leases_update (\<lambda>ls. [])
       (requests_update (updateWhere (\<lambda>r. rq_state r = ''in_progress'' \<and> \<not> hasActiveAttempt s1 (rq_id r))
         (\<lambda>r. r\<lparr>rq_state := ''failed'', rq_finished := Some now\<rparr>)) s1))"
    have "flightOK s" using R by (simp add: recoveringOK_def)
    then have "recoveringOK s1 \<and> attemptsAdvance s s1"
      using R activeItems_held advance_same [of s s]
      by (intro okT_D [OF advancing.loop_keeps [OF distinct_activeItems] _ loop]) auto
    with s' show ?thesis by (auto intro: advance_trans [OF _ advance_same])
  qed
qed

lemma reconcileTx_advanced: "keepsT (advancedOK s0) (reconcileUnknownTx actor attemptID input)"
proof (rule keepsT_advanced [OF reconcileTx_lifecycle])
  fix w n s x n' s'
  assume "reconcileUnknownTx actor attemptID input w (n, s) = Inr (x, n', s')"
  then show "attemptsAdvance s s'"
  proof (cases rule: reconcileUnknownTx_cases)
    case (fresh actor tokens cost a r m)
    from fresh(3) show ?thesis
    proof (rule reconcileBooks_Inr)
      fix led e f status n1 n2 s1
      assume loop: "forT (reconcileItem tokens (case cost of None \<Rightarrow> knownCost a | Some c \<Rightarrow> Some c)) (heldItems attemptID ''uncertain'' s) w (n1, s) = Inr ((), n2, s1)"
        and s': "s' = audit_events_update f (event_outbox_update (\<lambda>es. es @ [e]) (usage_ledger_update (\<lambda>ls. ls @ [led])
       (attempts_update (updateWhere (\<lambda>x. at_id x = attemptID) (reconciledAttempt status input cost)) s1)))"
      have att: "attempts s' = updateWhere (\<lambda>x. at_id x = attemptID) (reconciledAttempt status input cost) (attempts s)"
        using s' countersOnly_sel [OF countersOnly_loop [OF countersOnly_reconcileItem loop]] by simp
      show ?thesis by (rule advance_update [OF att]) (simp add: reconciledAttempt_def)
    qed
  qed (simp add: advance_same)
qed

lemma restated_advance:
  assumes "attempts s0 = updateWhere (\<lambda>a. at_id a = attemptID) (\<lambda>a. a\<lparr>at_restated := Some amount\<rparr>) (attempts s)"
    and "forT (reconcileSpend delta actual now) items w (n, s0) = Inr ((), n', s1)" "attempts s' = attempts s1"
  shows "attemptsAdvance s s'"
proof -
  have att: "attempts s' = updateWhere (\<lambda>a. at_id a = attemptID) (\<lambda>a. a\<lparr>at_restated := Some amount\<rparr>) (attempts s)"
    using assms countersOnly_sel [OF countersOnly_loop [OF countersOnly_reconcileSpend assms(2)]] by simp
  show ?thesis by (rule advance_update [OF att]) simp
qed

lemma applyItem_advanced: "keepsT (advancedOK s0) (applyItem actor item acc)"
proof (rule keepsT_advanced [OF applyItem_lifecycle])
  fix w n s x n' s'
  assume "applyItem actor item acc w (n, s) = Inr (x, n', s')"
  then show "attemptsAdvance s s'"
  proof (cases rule: applyItem_Inr)
    case (applied led e f now n1 n2 s1)
    then show ?thesis by (intro restated_advance [OF _ applied(1)]) simp_all
  qed (simp add: advance_same)
qed

lemma advancedOK_frame [simp]:
  "advancedOK s0 (audit_events_update f s) = advancedOK s0 s" "advancedOK s0 (pricing_jobs_update g s) = advancedOK s0 s"
  by (simp_all add: advancedOK_def attemptsAdvance_def)

lemma applyRepriceTx_advanced: "keepsT (advancedOK s0) (applyRepriceTx actor input)"
  unfolding keepsT_def
proof (rule okT_I)
  fix w n s x n' s'
  assume L: "advancedOK s0 s" and run: "applyRepriceTx actor input w (n, s) = Inr (x, n', s')"
  from run show "advancedOK s0 s'"
    by (cases rule: applyRepriceTx_cases) (use L keepsT_D [OF keepsT_fold [OF applyItem_advanced]] in auto)
qed

lemma adjustCostTx_advanced: "keepsT (advancedOK s0) (adjustCostTx actor attemptID deltaUSD reason key)"
proof (rule keepsT_advanced [OF adjustCostTx_lifecycle])
  fix w n s x n' s'
  assume "adjustCostTx actor attemptID deltaUSD reason key w (n, s) = Inr (x, n', s')"
  then show "attemptsAdvance s s'"
  proof (cases rule: adjustCostTx_cases)
    case (fresh a r delta amount led e f now n1 n2 s1)
    then show ?thesis by (intro restated_advance [OF _ fresh(2)]) simp_all
  qed (simp add: advance_same)
qed

lemma admitTx_advanced: "keepsT (advancedOK s0) (admitTx epoch input0)"
proof (rule keepsT_advanced [OF admitTx_lifecycle])
  fix w n s x n' s'
  assume "admitTx epoch input0 w (n, s) = Inr (x, n', s')"
  then have "admitChecked epoch (bookedInput input0) w (n, s) = Inr (x, n', s')" using admitTx_Inr by blast
  then show "attemptsAdvance s s'"
  proof (rule admitChecked_Inr)
    fix first requestID attemptID ownerID ordinal priceID tokens cost plans effective n1 n2 n3 n4 s0
    assume book: "bookAdmission epoch (bookedInput input0) first requestID attemptID ownerID ordinal priceID tokens cost plans effective w (n3, s0) = Inr ((), n4, s')"
      and s0: "s0 = s\<lparr>admission_clock := Some (effective, epoch)\<rparr>"
    from book show ?thesis
    proof (rule bookAdmission_Inr)
      fix f e m1 m2 s1
      let ?a = "newAttempt (bookedInput input0) attemptID requestID ordinal priceID tokens cost effective"
      assume loop: "forT (\<lambda>plan. applyPlan plan requestID attemptID epoch effective) plans w
          (m1, attempts_update (\<lambda>as. as @ [?a]) (requests_update f s0)) = Inr ((), m2, s1)"
        and s': "s' = event_outbox_update (\<lambda>es. es @ [e]) s1"
      have "keepsT (\<lambda>s. attempts s = as) (applyPlan plan requestID attemptID epoch effective)" for plan as
        unfolding applyPlan_def bookCounter_def bookReservation_def statement_defs
        by (intro keeps; simp add: keepsT_def okT_upsert okT_insert)
      from keepsT_D [OF keepsT_for [OF this] refl loop] s' s0 show ?thesis by (auto intro: advance_append)
    qed
  qed
qed

text \<open>The bodies that leave every attempt as it is.\<close>

lemma idle_advanced:
  "keepsT (advancedOK s0) (closeFailedRequestTx requestID)" "keepsT (advancedOK s0) (FinalizeRequestTx requestID state)"
  "keepsT (advancedOK s0) (repairRequest now cutoff requestID repaired)"
  "keepsT (advancedOK s0) (createPolicyTx actor input1)" "keepsT (advancedOK s0) (updatePolicyTx actor i revision units usd enabled)"
  by (rule keepsT_idle [OF closeFailedRequestTx_lifecycle], erule closeFailedRequestTx_Inr, simp)
     (rule keepsT_idle [OF FinalizeRequestTx_lifecycle], erule FinalizeRequestTx_Inr, simp,
      rule keepsT_idle [OF repairRequest_lifecycle], erule repairRequest_Inr, simp, simp,
      rule keepsT_idle [OF createPolicyTx_lifecycle], drule createPolicyTx_Inr, force,
      rule keepsT_idle [OF updatePolicyTx_lifecycle], drule updatePolicyTx_Inr, force)

lemma repairStaleTx_advanced: "keepsT (advancedOK s0) repairStaleTx"
  unfolding repairStaleTx_def by (intro keeps idle_advanced)

lemma createPriceTx_advanced: "keepsT (advancedOK s0) (createPriceTx actor input)"
proof (rule keepsT_idle [OF createPriceTx_lifecycle])
  fix w n s x n' s'
  assume run: "createPriceTx actor input w (n, s) = Inr (x, n', s')"
  have "keepsT (\<lambda>s'. attempts s' = attempts s) (createPriceTx actor input)"
    unfolding createPriceTx_def managerOnly_def closePrevious_def closeVersion_def insertAudit_def refreshUsageActor_def statement_defs
    by (intro keeps; simp add: keepsT_def okT_update okT_insert)
  from keepsT_D [OF this refl run] show "attempts s' = attempts s" .
qed

end
