(* ===== verification/Costs.thy ===== *)
theory Costs
  imports Lifecycle
begin

text \<open>
  Double entry: the cost kept on an attempt is the sum of the ledger rows written for it. Settling
  writes the cost, reconciling and repricing write the difference to the cost known so far, and an
  adjustment writes its delta; an attempt that is still active has no ledger row and no cost. Every
  operation of the usage service keeps this.
\<close>

section \<open>The invariant\<close>

definition ledgerSum :: "string \<Rightarrow> ledger_row list \<Rightarrow> int" where
  "ledgerSum attemptID ls = sum_list (map (\<lambda>l. if ul_attempt l = attemptID then nullInt64Value (ul_cost l) else 0) ls)"

definition costExplained :: "ledger_row list \<Rightarrow> attempt_row \<Rightarrow> bool" where
  "costExplained ls a \<longleftrightarrow> ledgerSum (at_id a) ls = nullInt64Value (knownCost a) \<and> countable (nullInt64Value (knownCost a)) \<and>
     (activeAttempt a \<longrightarrow> knownCost a = None \<and> at_input a = None \<and> (\<forall>l \<in> set ls. ul_attempt l \<noteq> at_id a))"

definition costsOK :: "store \<Rightarrow> bool" where
  "costsOK s \<longleftrightarrow> flightOK s \<and>
     (\<forall>a \<in> set (attempts s). costExplained (usage_ledger s) a) \<and>
     (\<forall>l \<in> set (usage_ledger s). \<exists>a \<in> set (attempts s). at_id a = ul_attempt l)"

definition int64Opt :: "int option \<Rightarrow> bool" where
  "int64Opt v \<longleftrightarrow> (\<forall>c. v = Some c \<longrightarrow> int64_range c)"

lemma ledgerSum_append [simp]:
  "ledgerSum i [] = 0"
  "ledgerSum i (ls @ ls') = ledgerSum i ls + ledgerSum i ls'"
  "ledgerSum i (l # ls) = (if ul_attempt l = i then nullInt64Value (ul_cost l) else 0) + ledgerSum i ls"
  by (simp_all add: ledgerSum_def)

lemma ledgerSum_none: "(\<And>l. l \<in> set ls \<Longrightarrow> ul_attempt l \<noteq> i) \<Longrightarrow> ledgerSum i ls = 0"
  by (induction ls) auto

section \<open>One attempt is restated\<close>

text \<open>
  What every costing operation does: one ledger row for one attempt, whose cost becomes the old cost
  plus the row's.
\<close>

lemma costs_entry:
  assumes C: "costsOK s" and F: "flightOK s'" and a: "a \<in> set (attempts s)"
    and led: "usage_ledger s' = usage_ledger s @ [led]" "ul_attempt led = at_id a"
    and att: "attempts s' = updateWhere (\<lambda>x. at_id x = at_id a) f (attempts s)"
    and f: "at_id (f a) = at_id a" "\<not> activeAttempt (f a)"
    and cost: "nullInt64Value (knownCost (f a)) = nullInt64Value (knownCost a) + nullInt64Value (ul_cost led)"
      "countable (nullInt64Value (knownCost (f a)))"
  shows "costsOK s'"
proof -
  from C have S: "flightOK s" by (simp add: costsOK_def)
  have upd: "x \<in> set (attempts s') \<longleftrightarrow> x = f a \<or> x \<in> set (attempts s) \<and> at_id x \<noteq> at_id a" for x
    unfolding att set_updateWhere using a same_attempt [OF S _ a] by (auto simp: image_iff)
  have ids: "\<exists>y \<in> set (attempts s'). at_id y = at_id x" if "x \<in> set (attempts s)" for x
    using upd f(1) that by (cases "at_id x = at_id a") auto
  have "costExplained (usage_ledger s') x" if "x \<in> set (attempts s')" for x
    using that C a f cost led unfolding upd costsOK_def costExplained_def by auto
  moreover have "\<exists>y \<in> set (attempts s'). at_id y = ul_attempt l" if "l \<in> set (usage_ledger s')" for l
  proof -
    from that led C a have "\<exists>x \<in> set (attempts s). at_id x = ul_attempt l" by (auto simp: costsOK_def)
    with ids show ?thesis by metis
  qed
  ultimately show ?thesis using F by (simp add: costsOK_def)
qed

text \<open>An attempt that ends without a cost.\<close>

lemma costs_ended:
  assumes C: "costsOK s" and F: "flightOK s'" and led: "usage_ledger s' = usage_ledger s"
    and att: "attempts s' = updateWhere q f (attempts s)"
    and f: "\<And>x. at_id (f x) = at_id x \<and> at_input (f x) = at_input x \<and> at_recorded (f x) = at_recorded x \<and> at_restated (f x) = at_restated x"
    and act: "\<And>x. q x \<Longrightarrow> activeAttempt (f x) \<Longrightarrow> activeAttempt x"
  shows "costsOK s'"
proof -
  have k: "knownCost (f x) = knownCost x" for x using f [of x] by (simp add: knownCost_def split: option.splits)
  have "costExplained ls (f x)" if "costExplained ls x" "q x" for ls x
    using that f act k by (simp add: costExplained_def)
  with C have "\<forall>a \<in> set (attempts s'). costExplained (usage_ledger s') a"
    unfolding costsOK_def att led by (auto simp: set_updateWhere)
  with C F show ?thesis
    unfolding costsOK_def att led by (simp add: bex_updateWhere f)
qed

lemma costsOK_cong:
  "attempts s' = attempts s \<Longrightarrow> usage_ledger s' = usage_ledger s \<Longrightarrow> flightOK s' \<Longrightarrow> costsOK s \<Longrightarrow> costsOK s'"
  by (simp add: costsOK_def)

section \<open>Operations\<close>

definition costedOK :: "store \<Rightarrow> bool" where
  "costedOK s \<longleftrightarrow> lifecycleOK s \<and> costsOK s"

lemma keepsT_costed:
  assumes L: "keepsT lifecycleOK m"
    and C: "\<And>w n s x n' s'. lifecycleOK s \<Longrightarrow> lifecycleOK s' \<Longrightarrow> costsOK s \<Longrightarrow> m w (n, s) = Inr (x, n', s') \<Longrightarrow> costsOK s'"
  shows "keepsT costedOK m"
  unfolding keepsT_def costedOK_def using keepsT_D [OF L] C by (intro okT_I) blast

lemma keepsT_uncosted:
  assumes L: "keepsT lifecycleOK m"
    and idle: "\<And>w n s x n' s'. m w (n, s) = Inr (x, n', s') \<Longrightarrow> attempts s' = attempts s \<and> usage_ledger s' = usage_ledger s"
  shows "keepsT costedOK m"
  using L by (rule keepsT_costed) (auto dest!: idle intro: costsOK_cong simp: lifecycleOK_def)

lemma knownCost_settled: "knownCost (settledAttempt i now a) = si_costNanos i"
  by (simp add: knownCost_def settledAttempt_def split: option.splits)

lemma attemptCheck_known: "attemptCheck a \<Longrightarrow> 0 \<le> nullInt64Value (knownCost a)"
  by (auto simp: attemptCheck_def knownCost_def nullInt64Value_def nonnegOpt_def split: option.splits)

lemma settleTx_costed:
  assumes typed: "int64Opt (si_costNanos input)"
  shows "keepsT costedOK (settleTx attemptID input)"
proof (rule keepsT_costed [OF settleTx_lifecycle])
  fix w n s x n' s'
  assume L: "lifecycleOK s'" and C: "costsOK s" and run: "settleTx attemptID input w (n, s) = Inr (x, n', s')"
  from run show "costsOK s'"
  proof (cases rule: settleTx_cases)
    case (fresh hw comb m)
    let ?i = "normalSettlement input"
    from fresh(1) show ?thesis
    proof (rule settleFresh_Inr)
      fix a r cost tokens now led e f n1 n2 s1
      let ?f = "settledAttempt (?i\<lparr>si_costNanos := cost\<rparr>) now"
      assume found: "attemptWithRequest attemptID s = Some (a, r)" and act: "at_state a \<in> set activeStates"
        and loop: "forT (settleItem (si_usageStatus ?i) tokens cost now) (heldItems attemptID ''active'' s) w (n1, usage_ledger_update (\<lambda>ls. ls @ [led]) s) = Inr ((), n2, s1)"
        and s': "s' = event_outbox_update (\<lambda>es. es @ [e]) (requests_update (updateWhere (\<lambda>x. rq_id x = at_request a) (closedRequest ?i now))
           (concurrency_leases_update (filter (leaseKept (si_finalRequest ?i) (at_request a) attemptID))
           (cost_assessments_update f (attempts_update (updateWhere (\<lambda>x. at_id x = attemptID) ?f) s1))))"
        and led: "ul_attempt led = attemptID" "ul_cost led = cost"
        and range: "\<forall>v. cost = Some v \<longrightarrow> int64_range v \<or> si_costNanos ?i = Some v"
        and check: "\<forall>x \<in> set (attempts s1). at_id x = attemptID \<longrightarrow> attemptCheck (?f x)"
      note frame = countersOnly_sel [OF countersOnly_loop [OF countersOnly_settleItem loop]]
      from attemptWithRequest_member [OF found] have a: "a \<in> set (attempts s)" "at_id a = attemptID" by auto
      from C a(1) act have none: "knownCost a = None" by (auto simp: costsOK_def costExplained_def activeAttempt_def)
      have known: "knownCost (?f a) = cost" by (simp add: knownCost_settled)
      have "0 \<le> nullInt64Value cost" using check frame a known attemptCheck_known [of "?f a"] by simp
      moreover have "nullInt64Value cost \<le> MaxInt64"
        using range typed by (cases cost) (auto simp: nullInt64Value_def int64Opt_def normalSettlement_def int64_range_def int64_limits split: if_splits)
      ultimately have c: "countable (nullInt64Value cost)" by (simp add: countable_def)
      have att: "attempts s' = updateWhere (\<lambda>x. at_id x = at_id a) ?f (attempts s)" using s' frame a by simp
      have final: "\<not> activeAttempt (?f a)"
        using settlementError_state [OF fresh(2)] by (simp add: activeAttempt_def settledAttempt_def)
      show ?thesis
        by (rule costs_entry [OF C _ a(1) _ _ att])
           (use s' frame a led none known c final L in \<open>auto simp: nullInt64Value_def settledAttempt_def lifecycleOK_def\<close>)
    qed
  qed (simp add: C)
qed


lemma cancelTx_costed: "keepsT costedOK (cancelBeforeDispatchTx attemptID)"
proof (rule keepsT_costed [OF cancelTx_lifecycle])
  fix w n s x n' s'
  assume L: "lifecycleOK s'" and C: "costsOK s" and run: "cancelBeforeDispatchTx attemptID w (n, s) = Inr (x, n', s')"
  from run show "costsOK s'"
  proof (rule cancelBeforeDispatchTx_Inr)
    fix a r now e n1 n2 s1
    let ?f = "\<lambda>x :: attempt_row. x\<lparr>at_state := ''cancelled_before_dispatch'', at_usage := ''estimated'', at_finished := Some now\<rparr>"
    assume loop: "forT (releaseItem now) (heldItems attemptID ''active'' s) w (n1, s) = Inr ((), n2, s1)"
      and s': "s' = event_outbox_update (\<lambda>es. es @ [e]) (requests_update (updateWhere (\<lambda>x. rq_id x = at_request a)
         (\<lambda>x. x\<lparr>rq_state := ''cancelled'', rq_finished := Some now\<rparr>))
       (attempts_update (updateWhere (\<lambda>x. at_id x = attemptID) ?f)
       (concurrency_leases_update (filter (leaseKept True (at_request a) attemptID)) s1)))"
    note frame = countersOnly_sel [OF countersOnly_loop [OF countersOnly_releaseItem loop]]
    have att: "attempts s' = updateWhere (\<lambda>x. at_id x = attemptID) ?f (attempts s)" using s' frame by simp
    show ?thesis
      by (rule costs_ended [OF C _ _ att]) (use s' frame L in \<open>auto simp: lifecycleOK_def activeAttempt_def activeStates_def\<close>)
  qed
qed

lemma marked_costs:
  assumes L: "lifecycleOK s'" and C: "costsOK s"
    and s': "s' = attempts_update (updateWhere (\<lambda>a. at_id a = attemptID \<and> at_state a = old) (\<lambda>a. a\<lparr>at_state := new\<rparr>)) s"
    and old: "old \<in> set activeStates"
  shows "costsOK s'"
proof -
  have att: "attempts s' = updateWhere (\<lambda>a. at_id a = attemptID \<and> at_state a = old) (\<lambda>a. a\<lparr>at_state := new\<rparr>) (attempts s)"
    using s' by simp
  show ?thesis by (rule costs_ended [OF C _ _ att]) (use L s' old in \<open>auto simp: lifecycleOK_def activeAttempt_def\<close>)
qed

lemma Mark_costed: "keepsT costedOK (MarkDispatching attemptID)" "keepsT costedOK (MarkStreaming attemptID)"
  by (rule keepsT_costed [OF Mark_lifecycle(1)], erule (1) marked_costs, erule Mark_Inr, simp add: activeStates_def)
     (rule keepsT_costed [OF Mark_lifecycle(2)], erule (1) marked_costs, erule Mark_Inr, simp add: activeStates_def)

lemma recoverItem_costs:
  assumes R: "recoveringOK s'" and C: "costsOK s" and run: "recoverItem now item w (n, s) = Inr (x, n', s')"
  shows "costsOK s'"
proof -
  obtain a r where item: "item = (a, r)" by fastforce
  from R have F: "flightOK s'" by (simp add: recoveringOK_def)
  from run item have "recoverItem now (a, r) w (n, s) = Inr (x, n', s')" by simp
  then show ?thesis
  proof (cases rule: recoverItem_Inr)
    case (cancelled e n1 s1)
    note frame = countersOnly_sel [OF countersOnly_loop [OF countersOnly_releaseItem cancelled(2)]]
    have att: "attempts s' = updateWhere (\<lambda>x. at_id x = at_id a)
        (\<lambda>x. x\<lparr>at_state := ''cancelled_before_dispatch'', at_usage := ''estimated'', at_finished := Some now\<rparr>) (attempts s)"
      using cancelled(3) frame by simp
    show ?thesis
      by (rule costs_ended [OF C F _ att]) (use cancelled(3) frame in \<open>auto simp: activeAttempt_def activeStates_def\<close>)
  next
    case (interrupted e)
    have att: "attempts s' = updateWhere (\<lambda>x. at_id x = at_id a)
        (\<lambda>x. x\<lparr>at_state := ''interrupted_unknown'', at_usage := ''unknown'', at_finished := Some now\<rparr>) (attempts s)"
      using interrupted(2) by simp
    show ?thesis
      by (rule costs_ended [OF C F _ att]) (use interrupted(2) in \<open>auto simp: activeAttempt_def activeStates_def\<close>)
  qed
qed

interpretation recovering_costs: item_loop "recoverItem now" "\<lambda>item. at_id (fst item)" attemptHeld "\<lambda>s. recoveringOK s \<and> costsOK s" for now
proof (rule item_loopI)
  fix item w n s x n' s'
  assume I: "recoveringOK s \<and> costsOK s" and held: "attemptHeld item s" and run: "recoverItem now item w (n, s) = Inr (x, n', s')"
  from I recoverItem_step [OF _ held run] recoverItem_costs [OF _ _ run]
  show "(recoveringOK s' \<and> costsOK s') \<and> (\<forall>y. at_id (fst y) \<noteq> at_id (fst item) \<longrightarrow> attemptHeld y s \<longrightarrow> attemptHeld y s')" by blast
qed

lemma recoverTx_costed: "keepsT costedOK (recoverTx epoch)"
proof (rule keepsT_costed [OF recoverTx_lifecycle])
  fix w n s x n' s'
  assume L: "lifecycleOK s" "lifecycleOK s'" and C: "costsOK s" and run: "recoverTx epoch w (n, s) = Inr (x, n', s')"
  then have R: "recoveringOK s" by (simp add: recoveringOK_def lifecycleOK_def)
  from run show "costsOK s'"
  proof (rule recoverTx_Inr)
    fix now n1 n2 s1
    assume loop: "forT (recoverItem now) (activeItems s) w (n1, s) = Inr ((), n2, s1)"
      and s': "s' = admission_clock_update (\<lambda>c. Some (case c of None \<Rightarrow> now | Some (t, _) \<Rightarrow> max t now, epoch)) (concurrency_leases_update (\<lambda>ls. [])
       (requests_update (updateWhere (\<lambda>r. rq_state r = ''in_progress'' \<and> \<not> hasActiveAttempt s1 (rq_id r))
         (\<lambda>r. r\<lparr>rq_state := ''failed'', rq_finished := Some now\<rparr>)) s1))"
    have "flightOK s" using R by (simp add: recoveringOK_def)
    then have "recoveringOK s1 \<and> costsOK s1"
      using R C activeItems_held by (intro okT_D [OF recovering_costs.loop_keeps [OF distinct_activeItems] _ loop]) auto
    then have "costsOK s1" by simp
    then show ?thesis by (rule costsOK_cong [rotated 3]) (use s' L(2) in \<open>simp_all add: lifecycleOK_def\<close>)
  qed
qed

text \<open>Reconciling an attempt of unknown usage.\<close>

lemma knownCost_reconciled: "knownCost (reconciledAttempt status input cost a) = (case cost of None \<Rightarrow> knownCost a | Some c \<Rightarrow> Some c)"
  by (simp add: knownCost_def reconciledAttempt_def split: option.splits)

lemma reconcileTx_costed:
  assumes typed: "int64Opt (ri_costNanos input)"
  shows "keepsT costedOK (reconcileUnknownTx actor attemptID input)"
proof (rule keepsT_costed [OF reconcileTx_lifecycle])
  fix w n s x n' s'
  assume L: "lifecycleOK s'" and C: "costsOK s" and run: "reconcileUnknownTx actor attemptID input w (n, s) = Inr (x, n', s')"
  from run show "costsOK s'"
  proof (cases rule: reconcileUnknownTx_cases)
    case (fresh actor tokens cost a r m)
    from fresh(3) show ?thesis
    proof (rule reconcileBooks_Inr)
      fix led e f status n1 n2 s1
      let ?f = "reconciledAttempt status input cost"
      assume loop: "forT (reconcileItem tokens (case cost of None \<Rightarrow> knownCost a | Some c \<Rightarrow> Some c)) (heldItems attemptID ''uncertain'' s) w (n1, s) = Inr ((), n2, s1)"
        and s': "s' = audit_events_update f (event_outbox_update (\<lambda>es. es @ [e]) (usage_ledger_update (\<lambda>ls. ls @ [led])
       (attempts_update (updateWhere (\<lambda>x. at_id x = attemptID) ?f) s1)))"
        and led: "ul_attempt led = attemptID"
        and delta: "case cost of None \<Rightarrow> ul_cost led = None | Some c \<Rightarrow> ul_cost led = checkedAdd [c, - nullInt64Value (knownCost a)] \<and> ul_cost led \<noteq> None"
        and check: "\<forall>x \<in> set (attempts s1). at_id x = attemptID \<longrightarrow> attemptCheck (?f x)"
      note frame = countersOnly_sel [OF countersOnly_loop [OF countersOnly_reconcileItem loop]]
      from attemptWithRequest_member [OF fresh(1)] have a: "a \<in> set (attempts s)" "at_id a = attemptID" by auto
      from C a(1) have old: "countable (nullInt64Value (knownCost a))" by (auto simp: costsOK_def costExplained_def)
      have att: "attempts s' = updateWhere (\<lambda>x. at_id x = at_id a) ?f (attempts s)" using s' frame a by simp
      have final: "\<not> activeAttempt (?f a)" using fresh(2) by (auto simp: activeAttempt_def reconciledAttempt_def activeStates_def)
      have new: "nullInt64Value (knownCost (?f a)) = nullInt64Value (knownCost a) + nullInt64Value (ul_cost led) \<and>
          countable (nullInt64Value (knownCost (?f a)))"
      proof (cases cost)
        case (Some c)
        have "0 \<le> c" using check frame a attemptCheck_known [of "?f a"] Some by (simp add: knownCost_reconciled nullInt64Value_def)
        moreover have "int64_range c" using fresh(4) typed Some by (auto simp: int64Opt_def)
        ultimately show ?thesis
          using Some delta old by (auto simp: checkedAdd2 countable_def int64_range_def int64_limits knownCost_reconciled nullInt64Value_def split: if_splits)
      qed (use delta old in \<open>simp add: knownCost_reconciled nullInt64Value_def\<close>)
      show ?thesis
        by (rule costs_entry [OF C _ a(1) _ _ att]) (use s' frame a led final new L in \<open>auto simp: reconciledAttempt_def lifecycleOK_def\<close>)
    qed
  qed (simp add: C)
qed


text \<open>Restating the cost of an attempt that has ended: an adjustment or a reprice.\<close>

lemma knownCost_restated [simp]: "knownCost (a\<lparr>at_restated := Some amount\<rparr>) = Some amount"
  by (simp add: knownCost_def)

lemma restated_costs:
  assumes L: "lifecycleOK s'" and C: "costsOK s" and a: "a \<in> set (attempts s)" "at_id a = attemptID" "\<not> activeAttempt a"
    and s0: "attempts s0 = updateWhere (\<lambda>x. at_id x = attemptID) (\<lambda>x. x\<lparr>at_restated := Some amount\<rparr>) (attempts s)"
      "usage_ledger s0 = usage_ledger s @ [led]"
    and loop: "forT (reconcileSpend delta actual now) items w (n, s0) = Inr ((), n', s1)"
    and s': "attempts s' = attempts s1" "usage_ledger s' = usage_ledger s1"
    and led: "ul_attempt led = attemptID" "ul_cost led = Some change"
    and amount: "amount = nullInt64Value (knownCost a) + change" "countable amount"
  shows "costsOK s'"
proof -
  note frame = countersOnly_sel [OF countersOnly_loop [OF countersOnly_reconcileSpend loop]]
  have att: "attempts s' = updateWhere (\<lambda>x. at_id x = at_id a) (\<lambda>x. x\<lparr>at_restated := Some amount\<rparr>) (attempts s)"
    using s' s0 frame a by simp
  show ?thesis
    by (rule costs_entry [OF C _ a(1) _ _ att]) (use s' s0 frame a led amount L in \<open>auto simp: lifecycleOK_def activeAttempt_def nullInt64Value_def\<close>)
qed

lemma ParseUSD_range: "ParseUSD v = Inr n \<Longrightarrow> int64_range n"
  by (auto simp: ParseUSD_def Let_def wrap64_range simp del: wrap64_id split: if_splits option.splits)

lemma parseSignedUSD_range: "parseSignedUSD v = Inr n \<Longrightarrow> int64_range n"
  by (auto simp: parseSignedUSD_def Let_def wrap64_range simp del: wrap64_id dest: ParseUSD_range split: if_splits sum.splits)

lemma adjustCostTx_costed: "keepsT costedOK (adjustCostTx actor attemptID deltaUSD reason key)"
proof (rule keepsT_costed [OF adjustCostTx_lifecycle])
  fix w n s x n' s'
  assume L: "lifecycleOK s'" and C: "costsOK s" and run: "adjustCostTx actor attemptID deltaUSD reason key w (n, s) = Inr (x, n', s')"
  from run show "costsOK s'"
  proof (cases rule: adjustCostTx_cases)
    case (fresh a r delta amount led e f now n1 n2 s1)
    from attemptWithRequest_member [OF fresh(1)] have a: "a \<in> set (attempts s)" "at_id a = attemptID" by auto
    have final: "\<not> activeAttempt a" using fresh(9) by (auto simp: activeAttempt_def activeStates_def)
    from C a(1) have "countable (nullInt64Value (knownCost a))" by (auto simp: costsOK_def costExplained_def)
    then have known: "int64_range (nullInt64Value (knownCost a))" by (simp add: countable_def int64_range_def int64_limits)
    from checkedAdd2 [OF known parseSignedUSD_range [OF fresh(10)]] fresh(7,8)
    have amount: "amount = nullInt64Value (knownCost a) + delta" "countable amount"
      by (auto simp: countable_def int64_range_def split: if_splits)
    show ?thesis
      by (rule restated_costs [OF L C a final _ _ fresh(2) _ _ fresh(4,6) amount]) (simp_all add: fresh(3))
  qed (simp add: C)
qed

text \<open>A reprice item holds while its attempt has the cost the item was computed from.\<close>

definition itemCurrent :: "reprice_item \<Rightarrow> store \<Rightarrow> bool" where
  "itemCurrent item s \<longleftrightarrow> countable (rit_amount item) \<and> (\<exists>a \<in> set (attempts s). at_id a = rit_attemptID item \<and> \<not> activeAttempt a \<and>
     rit_amount item = nullInt64Value (knownCost a) + rit_delta item)"

lemma applyItem_step:
  assumes I: "costedOK s" and held: "itemCurrent item s" and run: "applyItem actor item acc w (n, s) = Inr (x, n', s')"
  shows "costedOK s' \<and> (\<forall>y. rit_attemptID y \<noteq> rit_attemptID item \<longrightarrow> itemCurrent y s \<longrightarrow> itemCurrent y s')"
  using run
proof (cases rule: applyItem_Inr)
  case (applied led e f now n1 n2 s1)
  from I have L: "lifecycleOK s" and C: "costsOK s" by (auto simp: costedOK_def)
  from keepsT_D [OF applyItem_lifecycle L run] have L': "lifecycleOK s'" .
  from held obtain a where a: "a \<in> set (attempts s)" "at_id a = rit_attemptID item" "\<not> activeAttempt a"
      and amount: "rit_amount item = nullInt64Value (knownCost a) + rit_delta item" "countable (rit_amount item)"
    by (auto simp: itemCurrent_def)
  have "costsOK s'"
    by (rule restated_costs [OF L' C a _ _ applied(1) _ _ applied(3,5) amount]) (simp_all add: applied(2))
  moreover have "attempts s' = updateWhere (\<lambda>x. at_id x = rit_attemptID item) (\<lambda>x. x\<lparr>at_restated := Some (rit_amount item)\<rparr>) (attempts s)"
    using applied(2) countersOnly_sel [OF countersOnly_loop [OF countersOnly_reconcileSpend applied(1)]] by simp
  then have "itemCurrent y s'" if "rit_attemptID y \<noteq> rit_attemptID item" "itemCurrent y s" for y
    using that by (force simp: itemCurrent_def set_updateWhere)
  ultimately show ?thesis using L' by (simp add: costedOK_def)
qed (use I in simp)

lemma applyItems_costed:
  "distinct (map rit_attemptID items) \<Longrightarrow> \<forall>item \<in> set items. itemCurrent item s \<Longrightarrow> costedOK s \<Longrightarrow>
   foldT (applyItem actor) items acc w (n, s) = Inr (x, n', s') \<Longrightarrow> costedOK s'"
proof (induction items arbitrary: acc n s)
  case (Cons item items)
  from Cons.prems(4) obtain acc1 m s1 where one: "applyItem actor item acc w (n, s) = Inr (acc1, m, s1)"
      and more: "foldT (applyItem actor) items acc1 w (m, s1) = Inr (x, n', s')"
    by (auto elim!: tx_elim)
  have step: "costedOK s1 \<and> (\<forall>y. rit_attemptID y \<noteq> rit_attemptID item \<longrightarrow> itemCurrent y s \<longrightarrow> itemCurrent y s1)"
    using applyItem_step [OF Cons.prems(3) _ one] Cons.prems(2) by simp
  have "\<forall>y \<in> set items. itemCurrent y s1" using step Cons.prems(1,2) by (auto simp: image_iff)
  with Cons.IH [OF _ _ _ more] step Cons.prems(1) show ?case by simp
qed (simp add: returnT_Inr)

lemma repriceOne_item:
  assumes "repriceOne (a, r, adjustments) price = Inr (Some item)" and "countable (nullInt64Value (knownCost a))"
  shows "rit_attemptID item = at_id a \<and> countable (rit_amount item) \<and> rit_amount item = nullInt64Value (knownCost a) + rit_delta item"
  using assms by (auto simp: repriceOne_def countable_def int64_range_def int64_limits dest!: checkedAdd_range split: sum.splits option.splits if_splits)

lemma repriceList_items:
  assumes run: "repriceList c m raws w (n, s) = Inr ((items, missing), n', s')"
    and known: "\<forall>raw \<in> set raws. countable (nullInt64Value (knownCost (fst raw)))"
    and dist: "distinct (map (\<lambda>raw. at_id (fst raw)) raws)"
  shows "distinct (map rit_attemptID items) \<and> (\<forall>item \<in> set items. countable (rit_amount item) \<and>
     (\<exists>raw \<in> set raws. rit_attemptID item = at_id (fst raw) \<and> rit_amount item = nullInt64Value (knownCost (fst raw)) + rit_delta item))"
  using assms
proof (induction raws arbitrary: n items missing s)
  case (Cons raw raws)
  obtain a r adjustments where raw: "raw = (a, r, adjustments)" by (cases raw) auto
  from Cons.prems(1) have "\<exists>m1 rest missing'. repriceList c m raws w (m1, s) = Inr ((rest, missing'), n', s') \<and>
      (items = rest \<or> (\<exists>i price. items = i # rest \<and> repriceOne raw price = Inr (Some i)))"
    by (clarsimp simp: tx_inv split_def dest!: priceAt_state elim!: tx_elim split: option.splits; blast)
  then obtain m1 rest missing' where more: "repriceList c m raws w (m1, s) = Inr ((rest, missing'), n', s')"
      and items: "items = rest \<or> (\<exists>i price. items = i # rest \<and> repriceOne raw price = Inr (Some i))" by blast
  from Cons.IH [OF more] Cons.prems(2,3) have IH: "distinct (map rit_attemptID rest) \<and> (\<forall>item \<in> set rest. countable (rit_amount item) \<and>
     (\<exists>raw \<in> set raws. rit_attemptID item = at_id (fst raw) \<and> rit_amount item = nullInt64Value (knownCost (fst raw)) + rit_delta item))" by simp
  from items show ?case
  proof (elim disjE exE conjE)
    fix i price
    assume items: "items = i # rest" and one: "repriceOne raw price = Inr (Some i)"
    have "countable (nullInt64Value (knownCost a))" using Cons.prems(2) raw by simp
    from repriceOne_item [OF one [unfolded raw] this]
    have i: "rit_attemptID i = at_id a \<and> countable (rit_amount i) \<and> rit_amount i = nullInt64Value (knownCost a) + rit_delta i" .
    have "rit_attemptID i \<notin> rit_attemptID ` set rest"
    proof
      assume "rit_attemptID i \<in> rit_attemptID ` set rest"
      with IH i obtain raw' where "raw' \<in> set raws" "at_id a = at_id (fst raw')" by force
      with Cons.prems(3) raw show False by (auto simp: image_iff)
    qed
    with IH i raw items show ?thesis by auto
  qed (use IH in auto)
qed (simp add: returnT_Inr)

lemma rawItems_current:
  assumes L: "lifecycleOK s" and C: "costsOK s" and raw: "raw \<in> set (rawItems c m i j s)"
  shows "fst raw \<in> set (attempts s) \<and> \<not> activeAttempt (fst raw) \<and> countable (nullInt64Value (knownCost (fst raw)))"
proof -
  have "fst raw \<in> set (attempts s) \<and> at_input (fst raw) \<noteq> None"
    using in_set_takeD [OF raw [unfolded rawItems_def]] by (auto simp: repriceable_def)
  with C show ?thesis by (auto simp: costsOK_def costExplained_def)
qed

lemma distinct_rawItems:
  assumes "flightOK s"
  shows "distinct (map (\<lambda>raw. at_id (fst raw)) (rawItems c m i j s))"
proof -
  have ids: "distinct (map at_id (attempts s))" "distinct (map rq_id (requests s))" using assms by (auto simp: flightOK_def)
  have "distinct (map (\<lambda>raw. at_id (fst raw)) (concat (map (\<lambda>a. map (\<lambda>r. (a, r, adjustmentSum s (at_id a))) (filter (\<lambda>r. rq_id r = at_request a) (requests s)))
       (orderBy (\<lambda>a. (at_started a, at_id a)) (filter (repriceable c m i j) (attempts s))))))"
    by (rule distinct_join [where k = at_id])
       (use ids in \<open>auto simp: filter_key_once orderBy_def distinct_map inj_on_def\<close>)
  then show ?thesis unfolding rawItems_def take_map [symmetric] by (rule distinct_take)
qed

lemma applyRepriceTx_costed: "keepsT costedOK (applyRepriceTx actor input)"
  unfolding keepsT_def
proof (rule okT_I)
  fix w n s x n' s'
  assume I: "costedOK s" and run: "applyRepriceTx actor input w (n, s) = Inr (x, n', s')"
  then have L: "lifecycleOK s" and C: "costsOK s" by (auto simp: costedOK_def)
  from run show "costedOK s'"
  proof (cases rule: applyRepriceTx_cases)
    case (fresh actor' items raws acc missing f g i j n1 n2 n3 n4 s1)
    note current = rawItems_current [OF L C, of _ "rpi_connectionID input" "rpi_modelID input" i j, folded fresh(1)]
    have dist: "distinct (map (\<lambda>raw. at_id (fst raw)) raws)" unfolding fresh(1) by (rule distinct_rawItems) (use L in \<open>simp add: lifecycleOK_def\<close>)
    from repriceList_items [OF fresh(2) _ dist] current
    have items: "distinct (map rit_attemptID items)" "\<forall>item \<in> set items. itemCurrent item s" by (fastforce simp: itemCurrent_def)+
    from applyItems_costed [OF items I fresh(3)] have "costedOK s1" .
    then show ?thesis by (simp add: fresh(4) costedOK_def costsOK_def flightOK_def)
  qed (simp add: I)
qed

text \<open>Admission: the fresh attempt has neither a cost nor a ledger row.\<close>

lemma admitTx_costed: "keepsT costedOK (admitTx epoch input0)"
proof (rule keepsT_costed [OF admitTx_lifecycle])
  fix w n s x n' s'
  assume L: "lifecycleOK s'" and C: "costsOK s" and run: "admitTx epoch input0 w (n, s) = Inr (x, n', s')"
  then have "admitChecked epoch (bookedInput input0) w (n, s) = Inr (x, n', s')" using admitTx_Inr by blast
  then show "costsOK s'"
  proof (rule admitChecked_Inr)
    fix first requestID attemptID ownerID ordinal priceID tokens cost plans effective n1 n2 n3 n4 s0
    assume book: "bookAdmission epoch (bookedInput input0) first requestID attemptID ownerID ordinal priceID tokens cost plans effective w (n3, s0) = Inr ((), n4, s')"
      and s0: "s0 = s\<lparr>admission_clock := Some (effective, epoch)\<rparr>"
    from book show ?thesis
    proof (rule bookAdmission_Inr)
      fix f e m1 m2 s1
      let ?a = "newAttempt (bookedInput input0) attemptID requestID ordinal priceID tokens cost effective"
      assume loop: "forT (\<lambda>plan. applyPlan plan requestID attemptID epoch effective) plans w
          (m1, attempts_update (\<lambda>as. as @ [?a]) (requests_update f s0)) = Inr ((), m2, s1)"
        and s': "s' = event_outbox_update (\<lambda>es. es @ [e]) s1" and new: "\<forall>a \<in> set (attempts s0). at_id a \<noteq> attemptID"
      have "keepsT (\<lambda>s. attempts s = as \<and> usage_ledger s = ls) (applyPlan plan requestID attemptID epoch effective)" for plan as ls
        unfolding applyPlan_def bookCounter_def bookReservation_def statement_defs
        by (intro keeps; simp add: keepsT_def okT_upsert okT_insert)
      from keepsT_D [OF keepsT_for [OF this] _ loop] s' s0
      have kept: "attempts s' = attempts s @ [?a]" "usage_ledger s' = usage_ledger s" by auto
      have none: "ul_attempt l \<noteq> attemptID" if "l \<in> set (usage_ledger s)" for l
        using C new s0 that by (force simp: costsOK_def)
      then have "ledgerSum attemptID (usage_ledger s) = 0" by (rule ledgerSum_none)
      then have "costExplained (usage_ledger s) ?a"
        by (simp add: none costExplained_def knownCost_def nullInt64Value_def countable_def int64_limits)
      with C L kept show ?thesis by (auto simp: costsOK_def lifecycleOK_def)
    qed
  qed
qed

text \<open>The bodies that leave the attempts and the ledger as they are.\<close>

lemma idle_costed:
  "keepsT costedOK (closeFailedRequestTx requestID)" "keepsT costedOK (FinalizeRequestTx requestID state)"
  "keepsT costedOK (repairRequest now cutoff requestID repaired)"
  "keepsT costedOK (createPolicyTx actor input1)" "keepsT costedOK (updatePolicyTx actor i revision units usd enabled)"
  by (rule keepsT_uncosted [OF closeFailedRequestTx_lifecycle], erule closeFailedRequestTx_Inr, simp)
     (rule keepsT_uncosted [OF FinalizeRequestTx_lifecycle], erule FinalizeRequestTx_Inr, simp,
      rule keepsT_uncosted [OF repairRequest_lifecycle], erule repairRequest_Inr, simp, simp,
      rule keepsT_uncosted [OF createPolicyTx_lifecycle], drule createPolicyTx_Inr, force,
      rule keepsT_uncosted [OF updatePolicyTx_lifecycle], drule updatePolicyTx_Inr, force)

lemma repairStaleTx_costed: "keepsT costedOK repairStaleTx"
  unfolding repairStaleTx_def by (intro keeps idle_costed)

lemma createPriceTx_costed: "keepsT costedOK (createPriceTx actor input)"
proof (rule keepsT_uncosted [OF createPriceTx_lifecycle])
  fix w n s x n' s'
  assume run: "createPriceTx actor input w (n, s) = Inr (x, n', s')"
  have "keepsT (\<lambda>s'. attempts s' = attempts s \<and> usage_ledger s' = usage_ledger s) (createPriceTx actor input)"
    unfolding createPriceTx_def managerOnly_def closePrevious_def closeVersion_def insertAudit_def refreshUsageActor_def statement_defs
    by (intro keeps; simp add: keepsT_def okT_update okT_insert)
  from keepsT_D [OF this _ run] show "attempts s' = attempts s \<and> usage_ledger s' = usage_ledger s" by simp
qed

end
