(* ===== verification/Scenario.thy ===== *)
theory Scenario
  imports Costs
begin

text \<open>
  A concrete run of the model: a member with a daily token quota and a concurrency limit has a chat
  request admitted. The run is evaluated stage by stage; its store is where the properties of the
  usage service are applied to a concrete input.
\<close>

section \<open>The installation\<close>

definition quotaPolicy :: policy_row where
  "quotaPolicy = \<lparr>lp_id = ''pol_1'', lp_scopeKind = ''user'', lp_scopeID = ''usr_1'', lp_metric = ''tokens'', lp_algorithm = ''quota'',
     lp_period = ''day'', lp_window = 0, lp_limit = 1000, lp_refill = 0, lp_interval = 0, lp_enabled = True, lp_revision = 1,
     lp_created = 0, lp_updated = 0\<rparr>"

definition slotPolicy :: policy_row where
  "slotPolicy = quotaPolicy\<lparr>lp_id := ''pol_2'', lp_metric := ''concurrency'', lp_algorithm := ''concurrency'', lp_period := [], lp_limit := 2\<rparr>"

definition openStore :: store where
  "openStore = sampleStore\<lparr>limit_policies := [quotaPolicy, slotPolicy]\<rparr>"

definition chatInput :: admission_input where
  "chatInput = \<lparr>ai_requestID = [], ai_keyID = ''key_1'', ai_connectionID = ''con_1'', ai_modelID = ''gpt'', ai_upstreamModelRecordID = [],
     ai_upstreamModelID = [], ai_connectionRevision = 1, ai_modelRevision = 1, ai_operation = ''chat'', ai_targetOperation = [], ai_scope = ''chat'',
     ai_dialect = ''openai'', ai_targetDialect = [], ai_translationApplied = False, ai_requestToolCount = 0, ai_webSearchMaxCalls = 0,
     ai_webFetchPresent = False, ai_selectionReason = [], ai_rejectedCandidatesJSON = [], ai_requiredPriceVersionID = [], ai_priceQuoteAt = 0,
     ai_quotedPriceVersionID = None, ai_requireFreePrice = False, ai_priceUnavailable = False, ai_snapshotPriceOnly = False, ai_bodyBytes = 10,
     ai_batchItems = 1, ai_streaming = False, ai_estimatedInputTokens = 100, ai_estimatedOutputTokens = 50, ai_enforceInputBound = False,
     ai_inputBounded = False, ai_enforceOutputBound = False, ai_outputBounded = False\<rparr>"

section \<open>The rows the run writes\<close>

definition chatRequest :: request_row where
  "chatRequest = \<lparr>rq_id = ''req_1'', rq_owner = ''usr_1'', rq_key = ''key_1'', rq_operation = ''chat'', rq_dialect = ''openai'', rq_model = ''gpt'',
     rq_state = ''reserved'', rq_started = 1700000000003, rq_finished = None, rq_streaming = False\<rparr>"

definition chatAttempt :: attempt_row where
  "chatAttempt = newAttempt (bookedInput chatInput) ''att_2'' ''req_1'' 1 [] 150 None 1700000000003"

definition chatPeriod :: period_row where
  "chatPeriod = \<lparr>qp_policy = ''pol_1'', qp_start = 1699920000000, qp_end = Some 1700006400000, qp_consumed = 0, qp_reserved = 150,
     qp_effective = 1700000000003\<rparr>"

definition chatReservation :: reservation_row where
  "chatReservation = \<lparr>rs_id = ''res_16'', rs_attempt = ''att_2'', rs_policy = ''pol_1'', rs_period = Some 1699920000000, rs_units = 150,
     rs_state = ''active'', rs_created = 1700000000003, rs_settled = None\<rparr>"

definition chatLease :: lease_row where
  "chatLease = \<lparr>cl_policy = ''pol_2'', cl_kind = ''request'', cl_lease = ''req_1'', cl_request = ''req_1'', cl_attempt = None, cl_epoch = ''e'',
     cl_created = 1700000000003\<rparr>"

definition chatPayload :: "(string \<times> json) list" where
  "chatPayload = [(''owner_user_id'', JStr ''usr_1''), (''key_id'', JStr ''key_1''), (''connection_id'', JStr ''con_1''),
     (''model_id'', JStr ''gpt''), (''ordinal'', jint 1)]"

definition chatEvent :: outbox_row where
  "chatEvent = \<lparr>eo_id = ''evt_19'', eo_type = ''attempt.reserved'', eo_request = Some ''req_1'', eo_attempt = Some ''att_2'',
     eo_payload = jmap chatPayload, eo_created = 1700000000003, eo_delivered = None\<rparr>"

definition quotaPlan :: counter_plan where
  "quotaPlan = (emptyPlan (runtimePolicy quotaPolicy))\<lparr>cp_units := 150, cp_reserve := True, cp_periodStart := 1699920000000,
     cp_periodEnd := Some 1700006400000, cp_consumed := 0, cp_reserved := 150\<rparr>"

definition slotPlan :: counter_plan where
  "slotPlan = (emptyPlan (runtimePolicy slotPolicy))\<lparr>cp_leaseKind := ''request'', cp_leaseID := ''req_1''\<rparr>"

text \<open>The store after each stage.\<close>

definition clockStore :: store where
  "clockStore = openStore\<lparr>admission_clock := Some (1700000000003, ''e'')\<rparr>"

definition requestStore :: store where
  "requestStore = clockStore\<lparr>requests := [chatRequest]\<rparr>"

definition attemptStore :: store where
  "attemptStore = requestStore\<lparr>attempts := [chatAttempt]\<rparr>"

definition quotaStore :: store where
  "quotaStore = attemptStore\<lparr>quota_periods := [chatPeriod], reservations := [chatReservation]\<rparr>"

definition leaseStore :: store where
  "leaseStore = quotaStore\<lparr>concurrency_leases := [chatLease]\<rparr>"

definition chatStore :: store where
  "chatStore = leaseStore\<lparr>event_outbox := [chatEvent]\<rparr>"

lemmas stage_stores = chatStore_def leaseStore_def quotaStore_def attemptStore_def requestStore_def clockStore_def openStore_def sample_defs

lemma chatStore_sel [simp]:
  "limit_policies chatStore = [quotaPolicy, slotPolicy]" "quota_periods chatStore = [chatPeriod]" "requests chatStore = [chatRequest]"
  "attempts chatStore = [chatAttempt]" "reservations chatStore = [chatReservation]" "concurrency_leases chatStore = [chatLease]"
  "usage_ledger chatStore = []" "event_outbox chatStore = [chatEvent]"
  by (simp_all add: stage_stores)

section \<open>The run\<close>

lemma bookedChat [simp]:
  "ai_estimatedInputTokens (bookedInput chatInput) = 100" "ai_estimatedOutputTokens (bookedInput chatInput) = 50"
  "ai_priceQuoteAt (bookedInput chatInput) = 0" "ai_upstreamModelRecordID (bookedInput chatInput) = []"
  "ai_requestID chatInput = []" "ai_keyID chatInput = ''key_1''" "ai_connectionID chatInput = ''con_1''" "ai_modelID chatInput = ''gpt''"
  by code_simp+

lemma chat_valid: "\<not> invalidAdmission (normalizeAdmission chatInput)"
  by code_simp

lemma chat_clock: "effectiveTimeTxAtLeast ''e'' 0 calmWorld (3, openStore) = Inr (1700000000003, 6, clockStore)"
  by (simp add: effectiveTimeTxAtLeast_def tx_defs raiseClock_def clockStore_def openStore_def sample_defs Let_def)

lemma chat_authorized: "authorizeKey (bookedInput chatInput) 1700000000003 calmWorld (6, clockStore) = Inr (''usr_1'', 7, clockStore)"
proof -
  have "activeKey ''key_1'' 1700000000003 clockStore = Some (sampleKey, sampleUser ''usr_1'' ''member'')"
    by (simp add: activeKey_def clockStore_def openStore_def sample_defs)
  moreover have "admissionGranted (bookedInput chatInput) True (ak_scopes sampleKey) (ak_models sampleKey) (ak_connections sampleKey) ''[]'' ''[]'' ''[]'' = Some True"
    by code_simp
  ultimately show ?thesis
    unfolding authorizeKey_def by (simp add: tx_defs calmWorld_def sampleUser_def sampleKey_def)
qed

lemma chat_capacity: "requireOutboxCapacity 2 calmWorld (7, clockStore) = Inr ((), 8, clockStore)"
  by (simp add: requireOutboxCapacity_def tx_defs clockStore_def openStore_def sample_defs pendingBytes_def pendingEvents_def activeAttempts_def
      outboxFits_def maxPendingOutboxEvents_def maxPendingOutboxBytes_def outboxEventAllowance_def)

lemma chat_policies: "queryT (matchingPolicies ''usr_1'' ''key_1'' ''con_1'') calmWorld (8, clockStore) =
    Inr ([runtimePolicy quotaPolicy, runtimePolicy slotPolicy], 9, clockStore)"
proof -
  have "matchingPolicies ''usr_1'' ''key_1'' ''con_1'' clockStore = [runtimePolicy quotaPolicy, runtimePolicy slotPolicy]" by code_simp
  then show ?thesis by (simp add: tx_defs calmWorld_def)
qed

lemma chat_price: "admissionPrice (bookedInput chatInput) 1700000000003 calmWorld (9, clockStore) = Inr (([], None), 10, clockStore)"
  by code_simp

lemma chat_plans:
  "planAll [runtimePolicy quotaPolicy, runtimePolicy slotPolicy] 1700000000003 True ''req_1'' ''att_2'' (bookedInput chatInput) 150 None calmWorld (10, clockStore) =
     Inr ([quotaPlan, slotPlan], 13, clockStore)"
proof -
  have "evaluatePolicy (runtimePolicy quotaPolicy) 1700000000003 True ''req_1'' ''att_2'' (bookedInput chatInput) 150 None calmWorld (10, clockStore) =
      Inr (Some quotaPlan, 11, clockStore)" by code_simp
  moreover have "evaluatePolicy (runtimePolicy slotPolicy) 1700000000003 True ''req_1'' ''att_2'' (bookedInput chatInput) 150 None calmWorld (11, clockStore) =
      Inr (Some slotPlan, 13, clockStore)" by code_simp
  ultimately show ?thesis by (simp add: bindT_def returnT_def)
qed

lemma chat_request: "openRequest (bookedInput chatInput) True ''req_1'' ''usr_1'' 1700000000003 calmWorld (13, clockStore) = Inr ((), 14, requestStore)"
  by code_simp

lemma chatAttempt_check: "attemptCheck chatAttempt"
  by code_simp

lemma chat_attempt: "insertAttempt chatAttempt calmWorld (14, requestStore) = Inr ((), 15, attemptStore)"
proof -
  have "attempts requestStore = []" "hasKey rq_id (requests requestStore) ''req_1''" "at_request chatAttempt = ''req_1''" "at_price chatAttempt = None"
    by (simp_all add: requestStore_def clockStore_def openStore_def sample_defs chatAttempt_def chatRequest_def hasKey_def newAttempt_def nullableString_def)
  then show ?thesis by (simp add: insertAttempt_def tx_defs calmWorld_def attemptStore_def hasKeyOpt_def chatAttempt_check)
qed

lemma chat_quota: "applyPlan quotaPlan ''req_1'' ''att_2'' ''e'' 1700000000003 calmWorld (15, attemptStore) = Inr ((), 18, quotaStore)"
  by code_simp

lemma chat_slot: "applyPlan slotPlan ''req_1'' ''att_2'' ''e'' 1700000000003 calmWorld (18, quotaStore) = Inr ((), 19, leaseStore)"
  by code_simp

lemma chat_event: "appendOutbox ''attempt.reserved'' ''req_1'' ''att_2'' chatPayload 1700000000003 calmWorld (19, leaseStore) = Inr ((), 21, chatStore)"
proof -
  have "event_outbox leaseStore = []" by (simp add: stage_stores)
  moreover have "outboxCheck chatEvent" by code_simp
  moreover have "decNat 19 = ''19''" by code_simp
  ultimately show ?thesis
    by (simp add: appendOutbox_def insertEvent_def tx_defs calmWorld_def chatStore_def chatEvent_def nullableString_def)
qed

lemma chat_booked:
  "bookAdmission ''e'' (bookedInput chatInput) True ''req_1'' ''att_2'' ''usr_1'' 1 [] 150 None [quotaPlan, slotPlan] 1700000000003 calmWorld (13, clockStore) =
     Inr ((), 21, chatStore)"
proof -
  have payload: "[(''owner_user_id'', JStr ''usr_1''), (''key_id'', JStr (ai_keyID (bookedInput chatInput))),
      (''connection_id'', JStr (ai_connectionID (bookedInput chatInput))), (''model_id'', JStr (ai_modelID (bookedInput chatInput))),
      (''ordinal'', jint 1)] = chatPayload"
    by (simp add: chatPayload_def)
  show ?thesis
    unfolding bookAdmission_def chatAttempt_def [symmetric] payload
    by (simp only: thenT_def bindT_def forT.simps returnT_def chat_request chat_attempt chat_quota chat_slot chat_event sum.case prod.case)
qed

lemma admit_chat: "\<exists>x. Admit ''e'' chatInput calmWorld openStore = (Inr x, chatStore) \<and> ad_requestID x = ''req_1'' \<and> ad_attemptID x = ''att_2''"
proof -
  let ?i = "bookedInput chatInput" and ?ps = "[runtimePolicy quotaPolicy, runtimePolicy slotPolicy]"
  have rand: "randT calmWorld (1, openStore) = Inr (''1'', 2, openStore)" "randT calmWorld (2, openStore) = Inr (''2'', 3, openStore)"
    by code_simp+
  have sum: "checkedAdd [100, 50] = Some 150" by code_simp
  have denial: "unboundedDenial ?i ?ps = None" "unpricedDenial ?ps None = None" by code_simp+
  have commit: "commitT calmWorld (0, openStore) = Inr ((), 1, openStore)" "commitT calmWorld (21, chatStore) = Inr ((), 22, chatStore)"
    by (simp_all add: tx_defs calmWorld_def)
  have "admitChecked ''e'' ?i calmWorld (1, openStore) =
      Inr (\<lparr>ad_requestID = ''req_1'', ad_attemptID = ''att_2'', ad_ordinal = 1, ad_admittedAt = timeString 1700000000003\<rparr>, 22, chatStore)"
    unfolding admitChecked_def Let_def checkTarget_def requestOrdinal_def
    by (simp add: bindT_def thenT_def optionT_def returnT_def rand sum denial commit chat_clock chat_authorized chat_capacity chat_policies
        chat_price chat_plans chat_booked del: One_nat_def planAll.simps)
  moreover have "admitTx ''e'' chatInput = admitChecked ''e'' ?i"
    using chat_valid by (simp add: admitTx_def Let_def guardT_def bookedInput_def)
  ultimately show ?thesis by (simp add: Admit_def atomicT_def thenT_def bindT_def commit del: One_nat_def)
qed

section \<open>Settling the attempt\<close>

definition doneInput :: settlement_input where
  "doneInput = \<lparr>si_idempotencyKey = ''settle-att_2'', si_state = ''succeeded'', si_usageStatus = ''provider_reported'', si_inputTokens = Some 90,
     si_outputTokens = Some 40, si_cacheCreationInputTokens = None, si_cacheReadInputTokens = None, si_cacheCreation5mTokens = None,
     si_cacheCreation1hTokens = None, si_costNanos = Some 700, si_webSearchCallCount = None, si_responseToolCallCount = 0, si_toolCallStatus = ''none'',
     si_finalRequest = True, si_firstByteAt = None\<rparr>"

definition doneLedger :: ledger_row where
  "doneLedger = \<lparr>ul_id = ''led_4'', ul_attempt = ''att_2'', ul_type = ''settlement'', ul_tokens = Some 130, ul_cost = Some 700, ul_key = ''settle-att_2'',
     ul_actor = None, ul_reason = settlementSignature doneInput, ul_created = 1700000000005\<rparr>"

definition chatItem :: held_item where
  "chatItem = \<lparr>hi_id = ''res_16'', hi_policyID = ''pol_1'', hi_metric = ''tokens'', hi_algorithm = ''quota'', hi_period = Some 1699920000000,
     hi_reserved = 150, hi_limit = 1000\<rparr>"

definition ledgerStore :: store where
  "ledgerStore = chatStore\<lparr>usage_ledger := [doneLedger]\<rparr>"

definition paidStore :: store where
  "paidStore = ledgerStore\<lparr>quota_periods := [chatPeriod\<lparr>qp_consumed := 130, qp_reserved := 0\<rparr>],
     reservations := [chatReservation\<lparr>rs_state := ''settled'', rs_settled := Some 1700000000008\<rparr>]\<rparr>"

definition doneAttempt :: attempt_row where
  "doneAttempt = settledAttempt doneInput 1700000000008 chatAttempt"

definition doneStore :: store where
  "doneStore = paidStore\<lparr>attempts := [doneAttempt]\<rparr>"

definition freedStore :: store where
  "freedStore = doneStore\<lparr>concurrency_leases := [], requests := [chatRequest\<lparr>rq_state := ''succeeded'', rq_finished := Some 1700000000008\<rparr>]\<rparr>"

definition doneEvent :: outbox_row where
  "doneEvent = \<lparr>eo_id = ''evt_16'', eo_type = ''attempt.settled'', eo_request = Some ''req_1'', eo_attempt = Some ''att_2'',
     eo_payload = jmap (settledPayload doneInput chatAttempt chatRequest), eo_created = 1700000000008, eo_delivered = None\<rparr>"

definition settledStore :: store where
  "settledStore = freedStore\<lparr>event_outbox := [chatEvent, doneEvent]\<rparr>"

lemma jint_started: "jint 1700000000003 = JNum ''1700000000003''"
  by (simp add: jint_def decInt_def decNat.simps digitChar_def) code_simp

lemma done_ledger: "insertLedger doneLedger calmWorld (6, chatStore) = Inr ((), 7, ledgerStore)"
  by code_simp

lemma done_items: "heldItems ''att_2'' ''active'' ledgerStore = [chatItem]"
  by code_simp

lemma done_quota: "settleItem ''provider_reported'' (Some 130) (Some 700) 1700000000008 chatItem calmWorld (9, ledgerStore) = Inr ((), 12, paidStore)"
  by code_simp

lemma done_attempt: "updateAttempts (\<lambda>x. at_id x = ''att_2'') (settledAttempt doneInput 1700000000008) calmWorld (12, paidStore) = Inr (1, 13, doneStore)"
  by code_simp

lemma done_slots: "deleteLeases (\<lambda>l. cl_kind l = ''attempt'' \<and> cl_lease l = ''att_2'') calmWorld (13, doneStore) = Inr (0, 14, doneStore)"
  by code_simp

lemma done_request: "thenT (deleteLeases (\<lambda>l. cl_kind l = ''request'' \<and> cl_lease l = ''req_1''))
                (updateRequests (\<lambda>x. rq_id x = ''req_1'') (\<lambda>x. x\<lparr>rq_state := requestState ''succeeded'', rq_finished := Some 1700000000008\<rparr>)) calmWorld (14, doneStore) = Inr (1, 16, freedStore)"
  by code_simp

lemma done_event: "appendOutbox ''attempt.settled'' ''req_1'' ''att_2'' (settledPayload doneInput chatAttempt chatRequest) 1700000000008 calmWorld (16, freedStore) = Inr ((), 18, settledStore)"
proof -
  have "event_outbox freedStore = [chatEvent]" by (simp add: freedStore_def doneStore_def paidStore_def ledgerStore_def)
  moreover have "eo_id chatEvent = ''evt_19''" "decNat 16 = ''16''" by code_simp+
  moreover have "outboxCheck doneEvent"
  proof -
    have "settledPayload doneInput chatAttempt chatRequest =
      [(''owner_user_id'', JStr ''usr_1''), (''key_id'', JStr ''key_1''), (''model_id'', JStr ''gpt''), (''connection_id'', JStr ''con_1''), (''started_at'', JNum ''1700000000003''),
       (''state'', JStr ''succeeded''), (''usage_status'', JStr ''provider_reported''), (''input_tokens'', jint 90),
      (''output_tokens'', jint 40), (''cache_creation_input_tokens'', JNull),
      (''cache_read_input_tokens'', JNull),
      (''cache_creation_5m_input_tokens'', JNull),
      (''cache_creation_1h_input_tokens'', JNull),
      (''web_search_call_count'', JNull), (''cost_nanos'', jint 700)]"
      by (simp add: settledPayload_def cancelledPayload_def doneInput_def chatRequest_def chatAttempt_def newAttempt_def jintOpt_def jint_started)
    note payload = this
    show ?thesis unfolding outboxCheck_def doneEvent_def payload outbox_row.select_convs by code_simp
  qed
  ultimately show ?thesis
    by (simp add: appendOutbox_def insertEvent_def tx_defs calmWorld_def nullableString_def settledStore_def doneEvent_def)
qed

lemma settle_chat: "Settle ''att_2'' doneInput calmWorld chatStore = (Inr (), settledStore)"
proof -
  have valid: "settlementError doneInput = None"
  by code_simp

  have join: "attemptWithRequest ''att_2'' chatStore = Some (chatAttempt, chatRequest)"
  by code_simp

  have sum: "nullableInt64Sum (Some 90) (Some 40) = Inr (Some 130)"
  by code_simp

  have sel: "si_toolCallStatus doneInput = ''none''" "si_costNanos doneInput = Some 700" "doneInput\<lparr>si_costNanos := Some 700\<rparr> = doneInput"
    "si_inputTokens doneInput = Some 90" "si_outputTokens doneInput = Some 40" "si_usageStatus doneInput = ''provider_reported''"
    "si_idempotencyKey doneInput = ''settle-att_2''" "si_finalRequest doneInput" "si_state doneInput = ''succeeded''"
    by (simp_all add: doneInput_def)
  have row: "at_id chatAttempt = ''att_2''" "at_request chatAttempt = ''req_1''" "at_state chatAttempt = ''reserved''" "at_price chatAttempt = None"
    "at_webMax chatAttempt = None"
    by (simp_all add: chatAttempt_def newAttempt_def nullableString_def bookedInput_def normalizeAdmission_def chatInput_def)
  have calm: "w_fault calmWorld n = False" "w_now calmWorld n = 1700000000000 + int n" "w_rand calmWorld n = Some (decNat n)" for n
    by (simp_all add: calmWorld_def)
  have rand: "decNat 4 = ''4''"
  by code_simp

  have web: "\<not> badWebSearch doneInput None"
  by code_simp

  have close: "closeAttempt doneInput chatAttempt chatRequest ''att_2'' 1700000000008 calmWorld (13, doneStore) = Inr ((), 18, settledStore)"
    unfolding closeAttempt_def
    by (simp only: row sel if_True thenT_def bindT_def done_slots done_request [unfolded thenT_def bindT_def] done_event sum.case prod.case)
  have one: "oneT ErrNotFound attempts (\<lambda>a. at_id a = ''att_2'') calmWorld (Suc 0, chatStore) = Inr (chatAttempt, 2, chatStore)"
    using row by (simp add: oneT_def bindT_def rowT_def queryT_def stmtT_def optionT_def returnT_def calm)
  have none: "rowT usage_ledger (\<lambda>l. ul_key l = ''settle-att_2'') calmWorld (2, chatStore) = Inr (None, 3, chatStore)"
    by (simp add: rowT_def queryT_def stmtT_def calm)
  have joined: "joinedAttempt ErrNotFound ''att_2'' calmWorld (3, chatStore) = Inr ((chatAttempt, chatRequest), 4, chatStore)"
    using join by (simp add: joinedAttempt_def bindT_def queryT_def stmtT_def optionT_def returnT_def calm)
  have led: "\<lparr>ul_id = ''led_4'', ul_attempt = ''att_2'', ul_type = ''settlement'', ul_tokens = Some 130, ul_cost = Some 700, ul_key = ''settle-att_2'',
     ul_actor = None, ul_reason = settlementSignature doneInput, ul_created = 1700000000005\<rparr> = doneLedger" by (simp add: doneLedger_def)
  have "settleFresh ''att_2'' doneInput False False calmWorld (3, chatStore) = Inr ((), 19, settledStore)"
    unfolding settleFresh_def
    by (simp add: bindT_def thenT_def guardT_def returnT_def randT_def nowT_def queryT_def stmtT_def liftT_def commitT_def recordAssessment_def Let_def
        joined row sel calm rand sum led done_ledger done_items done_quota done_attempt close)
  then show ?thesis
    unfolding Settle_def atomicT_def settleTx_def Let_def
    using row by (simp add: bindT_def thenT_def guardT_def commitT_def stmtT_def calm sel valid one none web del: One_nat_def)
qed

section \<open>Recovering instead\<close>

definition droppedAttempt :: "attempt_row \<Rightarrow> attempt_row" where
  "droppedAttempt x = x\<lparr>at_state := ''cancelled_before_dispatch'', at_usage := ''estimated'', at_finished := Some 1700000000002\<rparr>"

definition droppedRequest :: "request_row \<Rightarrow> request_row" where
  "droppedRequest x = x\<lparr>rq_state := ''cancelled'', rq_finished := Some 1700000000002\<rparr>"

definition releasedStore :: store where
  "releasedStore = chatStore\<lparr>quota_periods := [chatPeriod\<lparr>qp_reserved := 0\<rparr>],
     reservations := [chatReservation\<lparr>rs_state := ''released'', rs_settled := Some 1700000000002\<rparr>]\<rparr>"

definition droppedStore :: store where
  "droppedStore = releasedStore\<lparr>attempts := [droppedAttempt chatAttempt]\<rparr>"

definition closedStore :: store where
  "closedStore = droppedStore\<lparr>requests := [droppedRequest chatRequest]\<rparr>"

lemma drop_items: "activeItems chatStore = [(chatAttempt, chatRequest)]"
  by code_simp

lemma drop_units: "releaseReservations ''att_2'' 1700000000002 calmWorld (3, chatStore) = Inr ((), 6, releasedStore)"
  by code_simp

lemma drop_attempt: "updateAttempts (\<lambda>x. at_id x = ''att_2'') droppedAttempt calmWorld (6, releasedStore) = Inr (1, 7, droppedStore)"
  by code_simp

lemma drop_request: "updateRequests (\<lambda>x. rq_id x = ''req_1'') droppedRequest calmWorld (7, droppedStore) = Inr (1, 8, closedStore)"
  by code_simp

lemma drop_event:
  "\<exists>e. appendOutbox ''request.cancelled_before_dispatch'' ''req_1'' ''att_2'' (cancelledPayload ''usr_1'' ''key_1'' ''gpt'' ''con_1'' 1700000000003)
     1700000000002 calmWorld (8, closedStore) = Inr ((), 10, event_outbox_update (\<lambda>es. es @ [e]) closedStore)"
proof -
  have "event_outbox closedStore = [chatEvent]" by (simp add: closedStore_def droppedStore_def releasedStore_def)
  moreover have "eo_id chatEvent = ''evt_19''" "decNat 8 = ''8''" by code_simp+
  moreover have "sqlLength (jsonText (jmap (cancelledPayload ''usr_1'' ''key_1'' ''gpt'' ''con_1'' 1700000000003))) \<le> 16384"
    unfolding cancelledPayload_def jint_started by code_simp
  ultimately show ?thesis
    by (simp add: appendOutbox_def insertEvent_def tx_defs calmWorld_def nullableString_def outboxCheck_def) (rule exI, rule refl)
qed

lemma recover_chat: "\<exists>s'. Recover ''f'' calmWorld chatStore = (Inr (), s')"
proof -
  obtain e where ev: "appendOutbox ''request.cancelled_before_dispatch'' ''req_1'' ''att_2'' (cancelledPayload ''usr_1'' ''key_1'' ''gpt'' ''con_1'' 1700000000003)
     1700000000002 calmWorld (8, closedStore) = Inr ((), 10, event_outbox_update (\<lambda>es. es @ [e]) closedStore)" using drop_event by blast
  have row: "at_id chatAttempt = ''att_2''" "at_request chatAttempt = ''req_1''" "at_state chatAttempt = ''reserved''" "rq_owner chatRequest = ''usr_1''"
    "rq_key chatRequest = ''key_1''" "at_model chatAttempt = ''gpt''" "at_connection chatAttempt = ''con_1''" "at_started chatAttempt = 1700000000003"
    by (simp_all add: chatAttempt_def newAttempt_def chatRequest_def)
  have calm: "w_fault calmWorld n = False" "w_now calmWorld n = 1700000000000 + int n" for n
    by (simp_all add: calmWorld_def)
  have item: "recoverItem 1700000000002 (chatAttempt, chatRequest) calmWorld (3, chatStore) = Inr ((), 10, event_outbox_update (\<lambda>es. es @ [e]) closedStore)"
    unfolding recoverItem_def prod.case row droppedAttempt_def [symmetric] droppedRequest_def [symmetric]
    by (simp only: refl if_True thenT_def bindT_def drop_units drop_attempt drop_request ev sum.case prod.case)
  have req: "requests closedStore = [droppedRequest chatRequest]" by (simp add: closedStore_def)
  show ?thesis
    unfolding Recover_def atomicT_def recoverTx_def updateRequestsWhere_def
    by (simp add: bindT_def thenT_def returnT_def queryT_def stmtT_def nowT_def commitT_def updateRequests_def updateT_def deleteLeases_def deleteT_def
        raiseClock_def calm drop_items item req droppedRequest_def numeral_2_eq_2 [symmetric])
qed

end
