(* ===== verification/Granted.thy ===== *)
theory Granted
  imports Scenario
begin

text \<open>
  What a granted admission means: the key was active and granted the request, and the counters it
  booked are within their limits. The windows and slots of every policy are followed through the
  plans that \<^verbatim>\<open>Admit\<close> makes and applies.
\<close>

section \<open>Counters\<close>

definition windowUsed :: "string \<Rightarrow> int \<Rightarrow> period_row list \<Rightarrow> int" where
  "windowUsed policyID start qs = (case periodOf policyID start qs of None \<Rightarrow> 0 | Some q \<Rightarrow> qp_consumed q + qp_reserved q)"

definition slotsUsed :: "string \<Rightarrow> lease_row list \<Rightarrow> int" where
  "slotsUsed policyID ls = int (length (filter (\<lambda>l. cl_policy l = policyID) ls))"

lemma windowUsed_upserted:
  "windowUsed p t (upsertedPeriods q qs) = (if p = qp_policy q \<and> t = qp_start q then qp_consumed q + qp_reserved q else windowUsed p t qs)"
proof (cases "list_ex (\<lambda>q'. samePeriod q' q) qs")
  case True
  then have "periodOf (qp_policy q) (qp_start q) qs \<noteq> None"
    by (auto simp: periodOf_def list_ex_iff samePeriod_def find_None_iff)
  then obtain q0 where q0: "periodOf (qp_policy q) (qp_start q) qs = Some q0" by blast
  have "periodOf p t (updateWhere (\<lambda>q'. samePeriod q' q) (\<lambda>q'. mergePeriod q' q) qs) =
      map_option (\<lambda>q'. if samePeriod q' q then mergePeriod q' q else q') (periodOf p t qs)"
    unfolding periodOf_def by (rule find_updateWhere) (auto simp: mergePeriod_def)
  with True q0 show ?thesis
    by (auto simp: windowUsed_def upsertedPeriods_def mergePeriod_def samePeriod_def dest!: periodOf_Some split: option.splits)
next
  case False
  then have "periodOf (qp_policy q) (qp_start q) qs = None"
    by (auto simp: periodOf_def list_ex_iff samePeriod_def find_None_iff)
  with False show ?thesis
    by (auto simp: windowUsed_def upsertedPeriods_def periodOf_append split: option.splits) (auto simp: periodOf_def)
qed

definition windowPlan :: "counter_plan \<Rightarrow> bool" where
  "windowPlan plan \<longleftrightarrow> rp_metric (cp_policy plan) \<noteq> ''concurrency'' \<and> rp_algorithm (cp_policy plan) \<noteq> ''token_bucket''"

lemma applyPlan_counters:
  assumes "applyPlan plan requestID attemptID epoch now w (n, s) = Inr (x, n', s')"
  shows "windowUsed p t (quota_periods s') = (if windowPlan plan \<and> p = rp_id (cp_policy plan) \<and> t = cp_periodStart plan
           then cp_consumed plan + cp_reserved plan else windowUsed p t (quota_periods s)) \<and>
         slotsUsed p (concurrency_leases s') = slotsUsed p (concurrency_leases s) +
           (if rp_metric (cp_policy plan) = ''concurrency'' \<and> p = rp_id (cp_policy plan) then 1 else 0)"
proof (cases "rp_metric (cp_policy plan) = ''concurrency''")
  case True
  with assms show ?thesis by (auto simp: applyPlan_def insertLease_def insertT_Inr windowPlan_def slotsUsed_def)
next
  case False
  with assms obtain m s1 where c: "bookCounter plan now w (n, s) = Inr ((), m, s1)"
    and r: "(if cp_reserve plan then bookReservation plan attemptID now else returnT ()) w (m, s1) = Inr (x, n', s')"
    by (auto simp: applyPlan_def elim!: tx_elim)
  from r have "quota_periods s' = quota_periods s1 \<and> concurrency_leases s' = concurrency_leases s1"
    by (auto simp: returnT_Inr dest!: bookReservation_Inr split: if_splits)
  with bookCounter_Inr [OF c] False show ?thesis
    by (auto simp: windowPlan_def windowUsed_upserted bookedPeriod_def split: if_splits)
qed

lemma applyPlans_counters:
  assumes "forT (\<lambda>plan. applyPlan plan requestID attemptID epoch now) plans w (n, s) = Inr (x, n', s')"
    and "distinct (map (\<lambda>plan. rp_id (cp_policy plan)) plans)"
  shows "windowUsed p t (quota_periods s') = (case find (\<lambda>plan. windowPlan plan \<and> rp_id (cp_policy plan) = p \<and> cp_periodStart plan = t) plans of
           None \<Rightarrow> windowUsed p t (quota_periods s) | Some plan \<Rightarrow> cp_consumed plan + cp_reserved plan) \<and>
         slotsUsed p (concurrency_leases s') = slotsUsed p (concurrency_leases s) +
           (if \<exists>plan \<in> set plans. rp_metric (cp_policy plan) = ''concurrency'' \<and> rp_id (cp_policy plan) = p then 1 else 0)"
  using assms
proof (induction plans arbitrary: n s)
  case (Cons plan plans)
  from Cons.prems(1) obtain m s1 where one: "applyPlan plan requestID attemptID epoch now w (n, s) = Inr ((), m, s1)"
      and more: "forT (\<lambda>plan. applyPlan plan requestID attemptID epoch now) plans w (m, s1) = Inr (x, n', s')"
    by (auto elim!: tx_elim)
  have new: "\<not> (\<exists>q \<in> set plans. rp_id (cp_policy q) = rp_id (cp_policy plan))" using Cons.prems(2) by (auto simp: image_iff)
  then have "find (\<lambda>q. windowPlan q \<and> rp_id (cp_policy q) = rp_id (cp_policy plan) \<and> cp_periodStart q = t) plans = None"
    by (auto simp: find_None_iff)
  with applyPlan_counters [OF one, of p t] Cons.IH [OF more] Cons.prems(2) new show ?case
    by (auto split: option.splits)
qed (simp add: returnT_Inr)

section \<open>Plans\<close>

lemma planAll_member:
  assumes "planAll ps now first requestID attemptID input tokens cost w (n, s) = Inr (plans, n', s')"
  shows "plan \<in> set plans \<Longrightarrow> \<exists>p \<in> set ps. \<exists>m m'. evaluatePolicy p now first requestID attemptID input tokens cost w (m, s) = Inr (Some plan, m', s)"
    and "p \<in> set ps \<Longrightarrow> \<exists>m r m'. evaluatePolicy p now first requestID attemptID input tokens cost w (m, s) = Inr (r, m', s) \<and> set_option r \<subseteq> set plans"
proof -
  have "(\<forall>plan \<in> set plans. \<exists>p \<in> set ps. \<exists>m m'. evaluatePolicy p now first requestID attemptID input tokens cost w (m, s) = Inr (Some plan, m', s)) \<and>
      (\<forall>p \<in> set ps. \<exists>m r m'. evaluatePolicy p now first requestID attemptID input tokens cost w (m, s) = Inr (r, m', s) \<and> set_option r \<subseteq> set plans)"
    using assms
  proof (induction ps arbitrary: n plans n' s')
    case (Cons p ps)
    from planAll_Cons_Inr [OF Cons.prems] obtain r m rest m' where
      one: "evaluatePolicy p now first requestID attemptID input tokens cost w (n, s) = Inr (r, m, s)"
      and more: "planAll ps now first requestID attemptID input tokens cost w (m, s) = Inr (rest, m', s)"
      and plans: "plans = (case r of None \<Rightarrow> rest | Some q \<Rightarrow> q # rest)"
      by blast
    have plans: "set plans = set_option r \<union> set rest" using plans by (auto split: option.splits)
    from Cons.IH [OF more] one show ?case unfolding plans by (simp add: ball_Un) blast
  qed (simp add: returnT_Inr)
  then show "plan \<in> set plans \<Longrightarrow> \<exists>p \<in> set ps. \<exists>m m'. evaluatePolicy p now first requestID attemptID input tokens cost w (m, s) = Inr (Some plan, m', s)"
    and "p \<in> set ps \<Longrightarrow> \<exists>m r m'. evaluatePolicy p now first requestID attemptID input tokens cost w (m, s) = Inr (r, m', s) \<and> set_option r \<subseteq> set plans"
    by blast+
qed

text \<open>The integers of an admission input are \<^verbatim>\<open>int64\<close> values.\<close>

definition int64Admission :: "admission_input \<Rightarrow> bool" where
  "int64Admission i \<longleftrightarrow> int64_range (ai_estimatedInputTokens i) \<and> int64_range (ai_estimatedOutputTokens i) \<and> int64_range (ai_bodyBytes i) \<and>
     int64_range (ai_batchItems i)"

lemma planUnits_range:
  "planUnits p first input tokens cost = Inr (Some (units, reserve)) \<Longrightarrow> int64Admission input \<Longrightarrow> int64_range tokens \<Longrightarrow>
   (\<And>c. cost = Some c \<Longrightarrow> int64_range c) \<Longrightarrow> int64_range units"
  by (auto simp: planUnits_def int64Admission_def int64_range_def int64_limits split: if_splits option.splits)

text \<open>The plan of one policy: the window with the new units, within the limit, or a slot the policy still had.\<close>

lemma evaluatePolicy_plan:
  assumes typed: "periodsTyped (quota_periods s)" "int64Admission input" and ranges: "int64_range tokens" "\<And>c. cost = Some c \<Longrightarrow> int64_range c"
    and run: "evaluatePolicy p now first requestID attemptID input tokens cost w (n, s) = Inr (Some plan, n', s')"
  shows "cp_policy plan = p"
    and "windowPlan plan \<Longrightarrow> cp_periodStart plan = fst (periodBounds p now) \<and>
      cp_consumed plan + cp_reserved plan = windowUsed (rp_id p) (cp_periodStart plan) (quota_periods s) + cp_units plan \<and>
      cp_consumed plan + cp_reserved plan \<le> rp_limit p \<and> (rp_metric p = ''tokens'' \<longrightarrow> cp_units plan = tokens)"
    and "rp_metric p = ''concurrency'' \<Longrightarrow> slotsUsed (rp_id p) (concurrency_leases s) + 1 \<le> rp_limit p"
proof -
  have "cp_policy plan = p \<and> (windowPlan plan \<longrightarrow> cp_periodStart plan = fst (periodBounds p now) \<and>
      cp_consumed plan + cp_reserved plan = windowUsed (rp_id p) (cp_periodStart plan) (quota_periods s) + cp_units plan \<and>
      cp_consumed plan + cp_reserved plan \<le> rp_limit p \<and> (rp_metric p = ''tokens'' \<longrightarrow> cp_units plan = tokens)) \<and>
      (rp_metric p = ''concurrency'' \<longrightarrow> slotsUsed (rp_id p) (concurrency_leases s) + 1 \<le> rp_limit p)"
  proof (cases "rp_metric p = ''concurrency''")
    case True
    with run show ?thesis
      by (auto simp: evaluatePolicy_def evaluateConcurrency_def Let_def tx_inv emptyPlan_def slotsUsed_def windowPlan_def elim!: tx_elim split: if_splits)
  next
    case False
    with run obtain units reserve where units: "planUnits p first input tokens cost = Inr (Some (units, reserve))" "0 \<le> units"
      and step: "(if rp_algorithm p = ''token_bucket'' then evaluateBucket p now units reserve else evaluateWindow p now units reserve) w (n, s) =
        Inr (Some plan, n', s')"
      by (auto simp: evaluatePolicy_def tx_inv split: sum.splits option.splits if_splits)
    from planUnits_range [OF units(1) typed(2) ranges] units(2) have c: "countable units" by (simp add: countable_def int64_range_def)
    have tok: "rp_metric p = ''tokens'' \<longrightarrow> units = tokens" using units(1) by (auto simp: planUnits_def)
    show ?thesis
    proof (cases "rp_algorithm p = ''token_bucket''")
      case True
      with step False show ?thesis
        by (auto simp: evaluateBucket_def tx_inv emptyPlan_def windowPlan_def elim!: tx_elim split: sum.splits)
    next
      case alg: False
      with step have "evaluateWindow p now units reserve w (n, s) = Inr (Some plan, n', s')" by simp
      then show ?thesis
      proof (rule evaluateWindow_Inr)
        fix start periodEnd c' r'
        assume b: "periodBounds p now = (start, periodEnd)"
          and w: "windowStep p periodEnd (case periodOf (rp_id p) start (quota_periods s) of None \<Rightarrow> 0 | Some q \<Rightarrow> qp_consumed q,
            reservedUnits (rp_id p) start (quota_periods s)) now units reserve = Inr (c', r')"
          and plan: "Some plan = Some ((emptyPlan p)\<lparr>cp_units := units, cp_reserve := reserve, cp_periodStart := start, cp_periodEnd := periodEnd,
            cp_consumed := c', cp_reserved := r'\<rparr>)"
        from windowStep_Inr [OF w period_counts [OF typed(1)] c]
        have "c' + r' = windowUsed (rp_id p) start (quota_periods s) + units" "c' + r' \<le> rp_limit p"
          by (auto simp: windowUsed_def reservedUnits_def split: option.splits)
        with plan b tok False show ?thesis by (simp add: emptyPlan_def)
      qed
    qed
  qed
  then show "cp_policy plan = p"
    and "windowPlan plan \<Longrightarrow> cp_periodStart plan = fst (periodBounds p now) \<and>
      cp_consumed plan + cp_reserved plan = windowUsed (rp_id p) (cp_periodStart plan) (quota_periods s) + cp_units plan \<and>
      cp_consumed plan + cp_reserved plan \<le> rp_limit p \<and> (rp_metric p = ''tokens'' \<longrightarrow> cp_units plan = tokens)"
    and "rp_metric p = ''concurrency'' \<Longrightarrow> slotsUsed (rp_id p) (concurrency_leases s) + 1 \<le> rp_limit p"
    by blast+
qed

lemma evaluatePolicy_tokens:
  assumes "evaluatePolicy p now first requestID attemptID input tokens cost w (n, s) = Inr (r, n', s')"
    and "rp_metric p = ''tokens''" "rp_algorithm p = ''quota'' \<or> rp_algorithm p = ''fixed_window''"
  shows "\<exists>plan. r = Some plan"
  using assms
  by (auto simp: evaluatePolicy_def planUnits_def evaluateWindow_def tx_inv guardT_Inr split_def elim!: tx_elim split: sum.splits if_splits)

section \<open>A granted admission\<close>

lemma atomicT_run: "atomicT m w s = (Inr x, s') \<Longrightarrow> \<exists>n n'. m w (n, s) = Inr (x, n', s')"
  by (drule atomicT_Inr) blast

lemma normalizeAdmission_typed [simp]: "int64Admission (bookedInput i) = int64Admission i"
  by (simp add: int64Admission_def bookedInput_def normalizeAdmission_def)

text \<open>The run behind a granted admission, as its plans and the loop that applies them.\<close>

lemma Admit_run:
  assumes B: "booksBalanced s" and run: "Admit epoch input w s = (Inr x, s')"
  obtains k u effective first requestID attemptID tokens cost plans m m' n n' s1 s2 where
    "activeKey (ai_keyID input) effective s = Some (k, u)"
    "admissionGranted (bookedInput input) (us_unrestricted u) (ak_scopes k) (ak_models k) (ak_connections k) (us_scopes u) (us_models u) (us_connections u) = Some True"
    "ai_upstreamModelRecordID (bookedInput input) = [] \<or> targetCurrent (bookedInput input) s"
    "planAll (matchingPolicies (ak_owner k) (ai_keyID input) (ai_connectionID input) s) effective first requestID attemptID (bookedInput input) tokens cost w
       (m, s\<lparr>admission_clock := Some (effective, epoch)\<rparr>) = Inr (plans, m', s\<lparr>admission_clock := Some (effective, epoch)\<rparr>)"
    "forT (\<lambda>plan. applyPlan plan requestID attemptID epoch effective) plans w (n, s1) = Inr ((), n', s2)"
    "quota_periods s1 = quota_periods s" "concurrency_leases s1 = concurrency_leases s"
    "quota_periods s' = quota_periods s2" "concurrency_leases s' = concurrency_leases s2"
    "int64_range tokens" "\<forall>c. cost = Some c \<longrightarrow> int64_range c" "admission_clock s' = Some (effective, epoch)"
    "distinct (map (\<lambda>plan. rp_id (cp_policy plan)) plans)"
    "\<forall>t e. admission_clock s = Some (t, e) \<longrightarrow> t \<le> effective"
    "checkedAdd [ai_estimatedInputTokens (bookedInput input), ai_estimatedOutputTokens (bookedInput input)] = Some tokens"
proof -
  let ?i = "bookedInput input"
  from atomicT_run [OF run [unfolded Admit_def]] obtain n n' where "admitTx epoch input w (n, s) = Inr (x, n', s')" by blast
  then have "admitChecked epoch ?i w (n, s) = Inr (x, n', s')" using admitTx_Inr by blast
  then show ?thesis
  proof (rule admitChecked_Inr)
    fix first requestID attemptID ownerID ordinal priceID tokens cost plans effective n1 n2 n3 n4 s0
    assume plan: "planAll (matchingPolicies ownerID (ai_keyID ?i) (ai_connectionID ?i) s) effective first requestID attemptID ?i tokens cost w (n1, s0) =
        Inr (plans, n2, s0)"
      and book: "bookAdmission epoch ?i first requestID attemptID ownerID ordinal priceID tokens cost plans effective w (n3, s0) = Inr ((), n4, s')"
      and s0: "s0 = s\<lparr>admission_clock := Some (effective, epoch)\<rparr>"
      and key: "\<exists>k u. activeKey (ai_keyID ?i) effective s = Some (k, u) \<and> ownerID = ak_owner k \<and>
        admissionGranted ?i (us_unrestricted u) (ak_scopes k) (ak_models k) (ak_connections k) (us_scopes u) (us_models u) (us_connections u) = Some True"
      and target: "ai_upstreamModelRecordID ?i = [] \<or> targetCurrent ?i s"
      and ranges: "int64_range tokens" "\<forall>c. cost = Some c \<longrightarrow> int64_range c"
      and clock: "\<forall>t e. admission_clock s = Some (t, e) \<longrightarrow> t \<le> effective"
      and sum: "checkedAdd [ai_estimatedInputTokens ?i, ai_estimatedOutputTokens ?i] = Some tokens"
    from key obtain k u where k: "activeKey (ai_keyID input) effective s = Some (k, u)" "ownerID = ak_owner k"
        "admissionGranted ?i (us_unrestricted u) (ak_scopes k) (ak_models k) (ak_connections k) (us_scopes u) (us_models u) (us_connections u) = Some True"
      by auto
    have dist: "distinct (map (\<lambda>plan. rp_id (cp_policy plan)) plans)"
      using planAll_fits [OF _ ranges(1) _ _ _ plan] booksTyped_keys [OF B] ranges(2) matchingPolicies_policies [of s] by (simp add: s0)
    from book show ?thesis
    proof (rule bookAdmission_Inr)
      fix f e m1 m2 s2
      let ?s = "attempts_update (\<lambda>as. as @ [newAttempt ?i attemptID requestID ordinal priceID tokens cost effective]) (requests_update f s0)"
      assume loop: "forT (\<lambda>plan. applyPlan plan requestID attemptID epoch effective) plans w (m1, ?s) = Inr ((), m2, s2)"
        and s': "s' = event_outbox_update (\<lambda>es. es @ [e]) s2"
      have "keepsT (\<lambda>s. admission_clock s = c) (applyPlan plan requestID attemptID epoch effective)" for plan c
        unfolding applyPlan_def bookCounter_def bookReservation_def statement_defs
        by (intro keeps; simp add: keepsT_def okT_upsert okT_insert)
      from keepsT_D [OF keepsT_for [OF this] _ loop] s0 s' have "admission_clock s' = Some (effective, epoch)" by simp
      with plan k(2) s0 s' show ?thesis
        by (intro that [OF k(1,3) target _ loop _ _ _ _ ranges _ dist clock sum]) auto
    qed
  qed
qed

text \<open>
  (C3) An admission never takes a counter past its limit: whatever policies match the request, after
  a granted \<^verbatim>\<open>Admit\<close> no quota window (consumed plus reserved units) and no concurrency count of
  any policy is above the larger of the policy's limit and what it already was.
\<close>

theorem Admit_within_limits:
  assumes B: "booksBalanced s" and typed: "int64Admission input" and run: "Admit epoch input w s = (Inr x, s')" and p: "p \<in> set (limit_policies s)"
  shows "windowUsed (lp_id p) start (quota_periods s') \<le> max (lp_limit p) (windowUsed (lp_id p) start (quota_periods s)) \<and>
         slotsUsed (lp_id p) (concurrency_leases s') \<le> max (lp_limit p) (slotsUsed (lp_id p) (concurrency_leases s))"
  using B run
proof (rule Admit_run)
  fix k u effective first requestID attemptID tokens cost plans m m' n n' s1 s2
  let ?ps = "matchingPolicies (ak_owner k) (ai_keyID input) (ai_connectionID input) s" and ?s = "s\<lparr>admission_clock := Some (effective, epoch)\<rparr>"
  assume plan: "planAll ?ps effective first requestID attemptID (bookedInput input) tokens cost w (m, ?s) = Inr (plans, m', ?s)"
    and loop: "forT (\<lambda>plan. applyPlan plan requestID attemptID epoch effective) plans w (n, s1) = Inr ((), n', s2)"
    and same: "quota_periods s1 = quota_periods s" "concurrency_leases s1 = concurrency_leases s"
      "quota_periods s' = quota_periods s2" "concurrency_leases s' = concurrency_leases s2"
    and ranges: "int64_range tokens" "\<forall>c. cost = Some c \<longrightarrow> int64_range c" and dist: "distinct (map (\<lambda>plan. rp_id (cp_policy plan)) plans)"
  note keys = booksTyped_keys [OF B]
  have own: "rp_limit (cp_policy q) = lp_limit p \<and> (windowPlan q \<longrightarrow> cp_consumed q + cp_reserved q \<le> lp_limit p) \<and>
      (rp_metric (cp_policy q) = ''concurrency'' \<longrightarrow> slotsUsed (lp_id p) (concurrency_leases s) + 1 \<le> lp_limit p)"
    if q: "q \<in> set plans" "rp_id (cp_policy q) = lp_id p" for q
  proof -
    from planAll_member(1) [OF plan q(1)] obtain rp j j' where rp: "rp \<in> set ?ps"
        and ev: "evaluatePolicy rp effective first requestID attemptID (bookedInput input) tokens cost w (j, ?s) = Inr (Some q, j', ?s)" by blast
    have "periodsTyped (quota_periods ?s)" using keys by simp
    note facts = evaluatePolicy_plan [OF this _ ranges(1) _ ev]
    from rp matchingPolicies_policies(1) keys obtain p' where p': "p' \<in> set (limit_policies s)" "rp = runtimePolicy p'" by blast
    have q_rp: "cp_policy q = rp" using facts(1) typed ranges by simp
    with q p' p keys have "p' = p" by (auto simp: runtimePolicy_def distinct_map inj_on_def)
    with p' have "rp_id rp = lp_id p" "rp_limit rp = lp_limit p" by (auto simp: runtimePolicy_def)
    with facts q_rp typed ranges show ?thesis by auto
  qed
  note counters = applyPlans_counters [OF loop dist, of "lp_id p" start, unfolded same]
  have "windowUsed (lp_id p) start (quota_periods s2) \<le> max (lp_limit p) (windowUsed (lp_id p) start (quota_periods s))"
  proof (cases "find (\<lambda>plan. windowPlan plan \<and> rp_id (cp_policy plan) = lp_id p \<and> cp_periodStart plan = start) plans")
    case (Some q)
    from find_SomeD [OF Some] own [of q] counters Some show ?thesis by (simp add: le_max_iff_disj)
  qed (use counters in simp)
  moreover have "slotsUsed (lp_id p) (concurrency_leases s2) \<le> max (lp_limit p) (slotsUsed (lp_id p) (concurrency_leases s))"
  proof (cases "\<exists>plan \<in> set plans. rp_metric (cp_policy plan) = ''concurrency'' \<and> rp_id (cp_policy plan) = lp_id p")
    case True
    then obtain q where "q \<in> set plans" "rp_metric (cp_policy q) = ''concurrency''" "rp_id (cp_policy q) = lp_id p" by blast
    with own [of q] counters True show ?thesis by (simp add: le_max_iff_disj)
  next
    case False
    with counters have "slotsUsed (lp_id p) (concurrency_leases s2) = slotsUsed (lp_id p) (concurrency_leases s)" by (simp only: if_False)
    then show ?thesis by simp
  qed
  ultimately show ?thesis unfolding same by simp
qed

lemma openStore_books: "booksBalanced openStore"
  by (simp add: booksBalanced_def booksTyped_def periodsTyped_def reservedUnits_def periodOf_def heldUnits_def openStore_def slotPolicy_def
      quotaPolicy_def sample_defs)

lemma chatInput_typed: "int64Admission chatInput"
  by code_simp

theorem Admit_within_limits_witness:
  "\<exists>x. Admit ''e'' chatInput calmWorld openStore = (Inr x, chatStore) \<and>
     windowUsed ''pol_1'' 1699920000000 (quota_periods chatStore) = 150 \<and>
     windowUsed ''pol_1'' 1699920000000 (quota_periods chatStore) \<le> 1000 \<and> slotsUsed ''pol_2'' (concurrency_leases chatStore) \<le> 2"
proof -
  obtain x where run: "Admit ''e'' chatInput calmWorld openStore = (Inr x, chatStore)" using admit_chat by blast
  have "quotaPolicy \<in> set (limit_policies openStore)" "slotPolicy \<in> set (limit_policies openStore)" by (simp_all add: openStore_def)
  from this [THEN Admit_within_limits [OF openStore_books chatInput_typed run, where start = 1699920000000]] run show ?thesis
    by (auto simp: windowUsed_def slotsUsed_def periodOf_def quotaPolicy_def slotPolicy_def chatPeriod_def openStore_def sample_defs)
qed

text \<open>
  (C10) A granted \<^verbatim>\<open>Admit\<close> was authorized and is charged: the key was active and not expired at
  the admission's effective time, which the clock row now holds and which never went back; the key and
  its user grant the scope, connection and model; the routed target was still current; and every
  enabled token quota or window that applies (instance, user, key or connection) now counts the
  estimated tokens in the period of that time.
\<close>

theorem Admit_authorized_and_charged:
  assumes B: "booksBalanced s" and typed: "int64Admission input" and run: "Admit epoch input w s = (Inr x, s')"
  shows "\<exists>k u effective. activeKey (ai_keyID input) effective s = Some (k, u) \<and> admission_clock s' = Some (effective, epoch) \<and>
      (\<forall>t e. admission_clock s = Some (t, e) \<longrightarrow> t \<le> effective) \<and>
      admissionGranted (bookedInput input) (us_unrestricted u) (ak_scopes k) (ak_models k) (ak_connections k)
        (us_scopes u) (us_models u) (us_connections u) = Some True \<and>
      (ai_upstreamModelRecordID (bookedInput input) = [] \<or> targetCurrent (bookedInput input) s) \<and>
      (\<forall>p \<in> set (matchingPolicies (ak_owner k) (ai_keyID input) (ai_connectionID input) s).
         rp_metric p = ''tokens'' \<and> (rp_algorithm p = ''quota'' \<or> rp_algorithm p = ''fixed_window'') \<longrightarrow>
         windowUsed (rp_id p) (fst (periodBounds p effective)) (quota_periods s') =
         windowUsed (rp_id p) (fst (periodBounds p effective)) (quota_periods s) + ai_estimatedInputTokens input + ai_estimatedOutputTokens input)"
  using B run
proof (rule Admit_run)
  fix k :: key_row and u :: user_row and effective first requestID attemptID tokens cost plans m m' n n' s1 s2
  let ?ps = "matchingPolicies (ak_owner k) (ai_keyID input) (ai_connectionID input) s" and ?s = "s\<lparr>admission_clock := Some (effective, epoch)\<rparr>"
  assume facts: "activeKey (ai_keyID input) effective s = Some (k, u)"
    "admissionGranted (bookedInput input) (us_unrestricted u) (ak_scopes k) (ak_models k) (ak_connections k) (us_scopes u) (us_models u) (us_connections u) = Some True"
    "ai_upstreamModelRecordID (bookedInput input) = [] \<or> targetCurrent (bookedInput input) s"
    "admission_clock s' = Some (effective, epoch)" "\<forall>t e. admission_clock s = Some (t, e) \<longrightarrow> t \<le> effective"
    and plan: "planAll ?ps effective first requestID attemptID (bookedInput input) tokens cost w (m, ?s) = Inr (plans, m', ?s)"
    and loop: "forT (\<lambda>plan. applyPlan plan requestID attemptID epoch effective) plans w (n, s1) = Inr ((), n', s2)"
    and same: "quota_periods s1 = quota_periods s" "quota_periods s' = quota_periods s2"
    and ranges: "int64_range tokens" "\<forall>c. cost = Some c \<longrightarrow> int64_range c" and dist: "distinct (map (\<lambda>plan. rp_id (cp_policy plan)) plans)"
    and sum: "checkedAdd [ai_estimatedInputTokens (bookedInput input), ai_estimatedOutputTokens (bookedInput input)] = Some tokens"
  have tokens: "tokens = ai_estimatedInputTokens input + ai_estimatedOutputTokens input"
    using checkedAdd2 [of "ai_estimatedInputTokens input" "ai_estimatedOutputTokens input"] sum typed
    by (auto simp: int64Admission_def bookedInput_def normalizeAdmission_def split: if_splits)
  have "windowUsed (rp_id p) (fst (periodBounds p effective)) (quota_periods s') = windowUsed (rp_id p) (fst (periodBounds p effective)) (quota_periods s) + tokens"
    if p: "p \<in> set ?ps" and alg: "rp_metric p = ''tokens''" "rp_algorithm p = ''quota'' \<or> rp_algorithm p = ''fixed_window''" for p
  proof -
    from planAll_member(2) [OF plan p] obtain j r j' where ev: "evaluatePolicy p effective first requestID attemptID (bookedInput input) tokens cost w (j, ?s) = Inr (r, j', ?s)"
        and mem: "set_option r \<subseteq> set plans" by blast
    from evaluatePolicy_tokens [OF ev alg] obtain q where r: "r = Some q" by blast
    have "periodsTyped (quota_periods ?s)" using booksTyped_keys [OF B] by simp
    note q = evaluatePolicy_plan [OF this _ ranges(1) _ ev [unfolded r]]
    have qp: "cp_policy q = p" using q(1) typed ranges by simp
    with alg have win: "windowPlan q" by (auto simp: windowPlan_def)
    let ?P = "\<lambda>plan. windowPlan plan \<and> rp_id (cp_policy plan) = rp_id p \<and> cp_periodStart plan = cp_periodStart q"
    have "q \<in> set plans" using mem r by simp
    then have "find ?P plans \<noteq> None" using qp win by (auto simp: find_None_iff)
    then obtain q' where "find ?P plans = Some q'" by blast
    moreover from find_SomeD [OF this] \<open>q \<in> set plans\<close> qp dist have "q' = q" by (auto simp: distinct_map inj_on_def)
    ultimately have "windowUsed (rp_id p) (cp_periodStart q) (quota_periods s2) = cp_consumed q + cp_reserved q"
      using applyPlans_counters [OF loop dist, of "rp_id p" "cp_periodStart q"] by simp
    with q(2) win typed ranges alg same show ?thesis by simp
  qed
  with facts tokens show ?thesis by (intro exI conjI) auto
qed

theorem Admit_authorized_and_charged_witness:
  "\<exists>x k u. Admit ''e'' chatInput calmWorld openStore = (Inr x, chatStore) \<and>
     activeKey ''key_1'' 1700000000003 openStore = Some (k, u) \<and> ak_owner k = ''usr_1''"
proof -
  obtain x where run: "Admit ''e'' chatInput calmWorld openStore = (Inr x, chatStore)" using admit_chat by blast
  have clock: "admission_clock chatStore = Some (1700000000003, ''e'')" by (simp add: stage_stores)
  from Admit_authorized_and_charged [OF openStore_books chatInput_typed run] clock run show ?thesis
    by (auto simp: activeKey_def openStore_def sample_defs)
qed

end
