(* ===== verification/System.thy ===== *)
theory System
  imports Attempts Granted
begin

text \<open>
  The usage service as a transition system. An operation is a call of one of the service's methods
  with its arguments; performing it in a world takes the store to the next, whether the call succeeds
  or not. \<open>service_invariant\<close> is the contract of an invariant of the service: every transaction body
  keeps it. Whoever meets it holds in every store reachable by any sequence of calls in any worlds.
\<close>

section \<open>Operations\<close>

datatype operation =
    OpCreatePolicy auth_user policy_input
  | OpUpdatePolicy auth_user string int int string bool
  | OpCreatePrice auth_user price_input
  | OpAdmit string admission_input
  | OpMarkDispatching string
  | OpMarkStreaming string
  | OpSettle string settlement_input
  | OpCancelBeforeDispatch string
  | OpCloseFailedRequest string
  | OpFinalizeRequest string string
  | OpRecover string
  | OpRepairStaleRequests
  | OpReconcileUnknown auth_user string reconciliation_input
  | OpApplyReprice auth_user reprice_input
  | OpAdjustCost auth_user string string string string

text \<open>The store after a call; \<open>w'\<close> is the world of the read that follows some transactions.\<close>

fun perform :: "operation \<Rightarrow> world \<Rightarrow> world \<Rightarrow> store \<Rightarrow> store" where
  "perform (OpCreatePolicy actor input) w w' s = snd (CreatePolicy actor input w w' s)"
| "perform (OpUpdatePolicy actor i revision units usd enabled) w w' s = snd (UpdatePolicy actor i revision units usd enabled w w' s)"
| "perform (OpCreatePrice actor input) w w' s = snd (CreatePrice actor input w w' s)"
| "perform (OpAdmit epoch input) w w' s = snd (Admit epoch input w s)"
| "perform (OpMarkDispatching attemptID) w w' s = snd (autoT (MarkDispatching attemptID) w s)"
| "perform (OpMarkStreaming attemptID) w w' s = snd (autoT (MarkStreaming attemptID) w s)"
| "perform (OpSettle attemptID input) w w' s = snd (Settle attemptID input w s)"
| "perform (OpCancelBeforeDispatch attemptID) w w' s = snd (CancelBeforeDispatch attemptID w s)"
| "perform (OpCloseFailedRequest requestID) w w' s = snd (CloseFailedRequest requestID w s)"
| "perform (OpFinalizeRequest requestID state) w w' s = snd (FinalizeRequest requestID state w s)"
| "perform (OpRecover epoch) w w' s = snd (Recover epoch w s)"
| "perform OpRepairStaleRequests w w' s = snd (RepairStaleRequests w s)"
| "perform (OpReconcileUnknown actor attemptID input) w w' s = snd (ReconcileUnknown actor attemptID input w s)"
| "perform (OpApplyReprice actor input) w w' s = snd (ApplyReprice actor input w s)"
| "perform (OpAdjustCost actor attemptID deltaUSD reason key) w w' s = snd (AdjustCost actor attemptID deltaUSD reason key w s)"

text \<open>
  The costs a caller passes are pointers to \<^verbatim>\<open>int64\<close> values; every other integer of an input is
  checked by the operation itself.
\<close>

fun goTyped :: "operation \<Rightarrow> bool" where
  "goTyped (OpSettle attemptID input) = int64Opt (si_costNanos input)"
| "goTyped (OpReconcileUnknown actor attemptID input) = int64Opt (ri_costNanos input)"
| "goTyped op = True"

inductive reachable :: "store \<Rightarrow> store \<Rightarrow> bool" for s0 where
  start: "reachable s0 s0"
| call: "reachable s0 s \<Longrightarrow> goTyped op \<Longrightarrow> reachable s0 (perform op w w' s)"

section \<open>Invariants of the service\<close>

lemma read_store: "(\<And>I. keepsT I m) \<Longrightarrow> snd (autoT m w s) = s"
  using keepsT_auto [of "\<lambda>s'. s' = s" m s w] by simp

lemma thenReadPolicy_store: "snd (thenReadPolicy r w') = snd r"
proof -
  have "keepsT I (GetPolicy a i)" for I a i
    unfolding GetPolicy_def readPolicy_def authorizePolicyScope_def refreshUsageActor_def scopeRole_def by (intro keeps)
  then show ?thesis
    by (auto simp: thenReadPolicy_def read_store split: sum.splits prod.splits)
qed

lemma CreatePrice_store: "snd (CreatePrice actor input w w' s) = snd (atomicT (createPriceTx actor input) w s)"
proof -
  have "keepsT I (GetPrice a i)" for I a i
    unfolding GetPrice_def managerOnly_def refreshUsageActor_def by (intro keeps)
  then show ?thesis
    by (auto simp: CreatePrice_def read_store split: sum.splits prod.splits)
qed

locale service_invariant =
  fixes I :: "store \<Rightarrow> bool"
  assumes createPolicy: "keepsT I (createPolicyTx actor input1)"
    and updatePolicy: "keepsT I (updatePolicyTx actor i revision units usd enabled)"
    and createPrice: "keepsT I (createPriceTx actor input2)"
    and admit: "keepsT I (admitTx epoch input3)"
    and marks: "keepsT I (MarkDispatching attemptID)" "keepsT I (MarkStreaming attemptID)"
    and settle: "int64Opt (si_costNanos input4) \<Longrightarrow> keepsT I (settleTx attemptID input4)"
    and cancel: "keepsT I (cancelBeforeDispatchTx attemptID)"
    and close: "keepsT I (closeFailedRequestTx requestID)"
    and finalize: "keepsT I (FinalizeRequestTx requestID state)"
    and recover: "keepsT I (recoverTx epoch)"
    and repair: "keepsT I repairStaleTx"
    and reconcile: "int64Opt (ri_costNanos input5) \<Longrightarrow> keepsT I (reconcileUnknownTx actor attemptID input5)"
    and reprice: "keepsT I (applyRepriceTx actor input6)"
    and adjust: "keepsT I (adjustCostTx actor attemptID deltaUSD reason key)"
begin

lemma perform_keeps: "I s \<Longrightarrow> goTyped op \<Longrightarrow> I (perform op w w' s)"
  by (cases op; simp only: perform.simps goTyped.simps CreatePolicy_def UpdatePolicy_def thenReadPolicy_store CreatePrice_store Admit_def Settle_def
        CancelBeforeDispatch_def CloseFailedRequest_def FinalizeRequest_def Recover_def RepairStaleRequests_def ReconcileUnknown_def
        ApplyReprice_def AdjustCost_def;
      (rule keepsT_atomic keepsT_auto);
      (assumption | intro keepsT_guard keepsT_then keepsT_commit createPolicy updatePolicy createPrice admit marks settle cancel close
        finalize recover repair reconcile reprice adjust))

lemma reachable_keeps: "reachable s0 s \<Longrightarrow> I s0 \<Longrightarrow> I s"
  by (induction rule: reachable.induct) (simp_all add: perform_keeps)

end

interpretation lifecycle: service_invariant lifecycleOK
  by unfold_locales
     (rule createPolicyTx_lifecycle updatePolicyTx_lifecycle createPriceTx_lifecycle admitTx_lifecycle Mark_lifecycle settleTx_lifecycle cancelTx_lifecycle
       closeFailedRequestTx_lifecycle FinalizeRequestTx_lifecycle recoverTx_lifecycle repairStaleTx_lifecycle reconcileTx_lifecycle
       applyRepriceTx_lifecycle adjustCostTx_lifecycle)+

interpretation machine: service_invariant "advancedOK s0" for s0
  by unfold_locales
     (rule idle_advanced createPriceTx_advanced admitTx_advanced Mark_advanced settleTx_advanced cancelTx_advanced
       recoverTx_advanced repairStaleTx_advanced reconcileTx_advanced applyRepriceTx_advanced adjustCostTx_advanced)+

interpretation costed: service_invariant costedOK
  by unfold_locales
     (erule settleTx_costed reconcileTx_costed | rule idle_costed createPriceTx_costed admitTx_costed Mark_costed cancelTx_costed
       recoverTx_costed repairStaleTx_costed applyRepriceTx_costed adjustCostTx_costed)+

section \<open>A fresh installation\<close>

text \<open>No call was made yet: policies and prices may be there, usage rows are not.\<close>

definition freshStore :: "store \<Rightarrow> bool" where
  "freshStore s \<longleftrightarrow> distinct (map lp_id (limit_policies s)) \<and> quota_periods s = [] \<and> requests s = [] \<and> attempts s = [] \<and>
     reservations s = [] \<and> concurrency_leases s = [] \<and> usage_ledger s = []"

lemma freshStore_ok: "freshStore s \<Longrightarrow> costedOK s"
  by (simp add: freshStore_def costedOK_def lifecycleOK_def costsOK_def booksBalanced_def booksTyped_def periodsTyped_def flightOK_def leasesOK_def
      unitsOK_def activeUnits_def reservedUnits_def periodOf_def heldUnits_def)

lemma reachable_ok: "freshStore s0 \<Longrightarrow> reachable s0 s \<Longrightarrow> costedOK s"
  by (rule costed.reachable_keeps) (auto intro: freshStore_ok)

lemma reachable_trans: "reachable s1 s2 \<Longrightarrow> reachable s0 s1 \<Longrightarrow> reachable s0 s2"
  by (induction rule: reachable.induct) (auto intro: reachable.call)

lemma reachable_advances:
  assumes "freshStore s0" "reachable s0 s" "reachable s s'"
  shows "attemptsAdvance s s'"
proof -
  have "advancedOK s s" using reachable_ok [OF assms(1,2)] by (simp add: advancedOK_def costedOK_def advance_same)
  from machine.reachable_keeps [OF assms(3) this] show ?thesis by (simp add: advancedOK_def)
qed

lemma openStore_fresh: "freshStore openStore"
  by (simp add: freshStore_def openStore_def slotPolicy_def quotaPolicy_def sample_defs)

lemma chatStore_reachable: "reachable openStore chatStore"
proof -
  have "perform (OpAdmit ''e'' chatInput) calmWorld calmWorld openStore = chatStore" using admit_chat by auto
  with reachable.call [OF reachable.start, of "OpAdmit ''e'' chatInput" openStore calmWorld calmWorld] show ?thesis by simp
qed

lemma dispatched_reachable: "reachable chatStore (perform (OpMarkDispatching ''att_2'') calmWorld calmWorld chatStore)"
  by (rule reachable.call [OF reachable.start]) simp

lemma done_typed: "goTyped (OpSettle ''att_2'' doneInput)"
  by (simp add: doneInput_def int64Opt_def int64_range_def int64_limits)

lemma settledStore_reachable: "reachable openStore settledStore"
proof -
  have "perform (OpSettle ''att_2'' doneInput) calmWorld calmWorld chatStore = settledStore" using settle_chat by simp
  with reachable.call [OF chatStore_reachable, of "OpSettle ''att_2'' doneInput" calmWorld calmWorld] done_typed show ?thesis by simp
qed

section \<open>Settling once\<close>

lemma settle_ended:
  assumes "flightOK s" and ended: "\<And>a. a \<in> set (attempts s) \<Longrightarrow> at_id a = attemptID \<Longrightarrow> \<not> activeAttempt a"
    and run: "settleTx attemptID input w (n, s) = Inr (x, n', s')"
  shows "s' = s"
  using run
proof (cases rule: settleTx_cases)
  case (fresh hw comb m)
  from fresh(1) show ?thesis
  proof (rule settleFresh_Inr)
    fix a r
    assume "attemptWithRequest attemptID s = Some (a, r)" "at_state a \<in> set activeStates"
    with attemptWithRequest_member ended show ?thesis by (fastforce simp: activeAttempt_def)
  qed
qed

lemma replaySettlement_attempt:
  "replaySettlement attemptID input hw comb entry w (n, s) = Inr (x, n', s') \<Longrightarrow> ul_attempt entry = attemptID"
  unfolding replaySettlement_def by (clarsimp simp: tx_inv elim!: tx_elim)

lemma settleTx_entry:
  assumes "settleTx attemptID input w (n, s) = Inr (x, n', s')"
  obtains (replay) l where "s' = s" "l \<in> set (usage_ledger s)" "ul_attempt l = attemptID"
  | (fresh) hw comb m where "settleFresh attemptID (normalSettlement input) hw comb w (m, s) = Inr (x, n', s')"
      "settlementError (normalSettlement input) = None"
  using assms unfolding settleTx_def
  by (auto simp: tx_inv Let_def normalSettlement_def elim!: tx_elim split: option.splits if_splits dest!: find_SomeD)
     (frule replaySettlement_attempt, drule replaySettlement_state, blast)+

lemma settleTx_ends:
  assumes C: "costsOK s" and run: "settleTx attemptID input w (n, s) = Inr (x, n', s')" and a: "a \<in> set (attempts s')" "at_id a = attemptID"
  shows "\<not> activeAttempt a"
  using run
proof (cases rule: settleTx_entry)
  case (replay l)
  with C a show ?thesis by (auto simp: costsOK_def costExplained_def)
next
  case (fresh hw comb m)
  let ?i = "normalSettlement input"
  from fresh(1) show ?thesis
  proof (rule settleFresh_Inr)
    fix b r cost tokens now led e f n1 n2 s1
    assume loop: "forT (settleItem (si_usageStatus ?i) tokens cost now) (heldItems attemptID ''active'' s) w (n1, usage_ledger_update (\<lambda>ls. ls @ [led]) s) = Inr ((), n2, s1)"
      and s': "s' = event_outbox_update (\<lambda>es. es @ [e]) (requests_update (updateWhere (\<lambda>x. rq_id x = at_request b) (closedRequest ?i now))
           (concurrency_leases_update (filter (leaseKept (si_finalRequest ?i) (at_request b) attemptID))
           (cost_assessments_update f (attempts_update (updateWhere (\<lambda>x. at_id x = attemptID) (settledAttempt (?i\<lparr>si_costNanos := cost\<rparr>) now)) s1))))"
    let ?f = "settledAttempt (?i\<lparr>si_costNanos := cost\<rparr>) now"
    have "attempts s' = updateWhere (\<lambda>x. at_id x = attemptID) ?f (attempts s1)" using s' by simp
    with a have "a \<in> (\<lambda>x. if at_id x = attemptID then ?f x else x) ` set (attempts s1)" by (simp add: set_updateWhere)
    then obtain b where b: "a = (if at_id b = attemptID then ?f b else b)" by (rule imageE)
    have "at_state a = si_state ?i" using a(2) b by (cases "at_id b = attemptID") (simp_all add: settledAttempt_def)
    with settlementError_state [OF fresh(2)] show ?thesis by (simp add: activeAttempt_def)
  qed
qed

section \<open>Properties of the service\<close>

text \<open>
  (C1) Whatever sequence of calls a fresh service has served, in whatever worlds (clock, random ids,
  database faults), the reserved units of every quota window equal the units of the reservations
  still held against it, active or uncertain: no call loses or leaks reserved quota.
\<close>

theorem reserved_units_accounted:
  assumes "freshStore s0" and "reachable s0 s"
  shows "reservedUnits policyID start (quota_periods s) = heldUnits policyID start (reservations s)"
  using reachable_ok [OF assms] by (simp add: costedOK_def lifecycleOK_def booksBalanced_def)

theorem reserved_units_accounted_witness:
  "freshStore openStore \<and> reachable openStore chatStore \<and>
   heldUnits ''pol_1'' 1699920000000 (reservations chatStore) = 150 \<and> reservedUnits ''pol_1'' 1699920000000 (quota_periods chatStore) = 150"
  using reserved_units_accounted [OF openStore_fresh chatStore_reachable, of "''pol_1''" 1699920000000] openStore_fresh chatStore_reachable
  by (simp add: heldUnits_def chatReservation_def heldState_def)

text \<open>
  (C2) In every reachable store a request has at most one attempt in flight, is in state reserved
  exactly while it has one, every concurrency lease belongs to an open request or an active attempt,
  and every active reservation to an active attempt: no slot and no units outlive their owner.
\<close>

theorem single_flight_no_leaks:
  assumes "freshStore s0" and "reachable s0 s"
  shows "(\<forall>a \<in> set (attempts s). \<forall>b \<in> set (attempts s).
            activeAttempt a \<and> activeAttempt b \<and> at_request a = at_request b \<longrightarrow> a = b) \<and>
         (\<forall>r \<in> set (requests s). rq_state r = ''reserved'' \<longleftrightarrow> (\<exists>a \<in> set (attempts s). at_request a = rq_id r \<and> activeAttempt a)) \<and>
         (\<forall>l \<in> set (concurrency_leases s). leaseOwned s l) \<and>
         (\<forall>r \<in> set (reservations s). rs_state r = ''active'' \<longrightarrow> (\<exists>a \<in> set (attempts s). at_id a = rs_attempt r \<and> activeAttempt a))"
proof -
  from reachable_ok [OF assms] have "flightOK s" "leasesOK s" "unitsOK s" by (auto simp: costedOK_def lifecycleOK_def)
  moreover from \<open>unitsOK s\<close> have "\<exists>a \<in> set (attempts s). at_id a = rs_attempt r \<and> activeAttempt a"
    if "r \<in> set (reservations s)" "rs_state r = ''active''" for r
    using that by (force simp: unitsOK_def activeUnits_def)
  ultimately show ?thesis unfolding flightOK_def leasesOK_def by blast
qed

theorem single_flight_no_leaks_witness:
  "freshStore openStore \<and> reachable openStore chatStore \<and> leaseOwned chatStore chatLease"
  using single_flight_no_leaks [OF openStore_fresh chatStore_reachable] openStore_fresh chatStore_reachable by simp

text \<open>
  (C8) The attempts of the service refine the abstract machine: between any two stores of a run,
  every attempt is still there, belongs to the same request, and its state moved along the machine's
  steps; an attempt that has ended keeps its state for ever.
\<close>

theorem attempts_refine_machine:
  assumes "freshStore s0" and "reachable s0 s" and "reachable s s'" and "a \<in> set (attempts s)"
  shows "\<exists>a' \<in> set (attempts s'). at_id a' = at_id a \<and> at_request a' = at_request a \<and> attemptStep\<^sup>*\<^sup>* (at_state a) (at_state a') \<and>
           (at_state a \<in> set terminalStates \<longrightarrow> at_state a' = at_state a)"
  using reachable_advances [OF assms(1-3)] assms(4) terminal_final unfolding attemptsAdvance_def by metis

theorem attempts_refine_machine_witness:
  "\<exists>a' \<in> set (attempts (perform (OpMarkDispatching ''att_2'') calmWorld calmWorld chatStore)).
     at_id a' = ''att_2'' \<and> attemptStep\<^sup>*\<^sup>* ''reserved'' (at_state a')"
  using attempts_refine_machine [OF openStore_fresh chatStore_reachable dispatched_reachable, of chatAttempt] by (auto simp: chatAttempt_def)

text \<open>
  (C7) The cost on every attempt of a reachable store is the sum of the ledger rows written for it
  (settlement, reconciliations, reprices, adjustments), it is never negative, and an attempt in
  flight has no cost yet.
\<close>

theorem ledger_explains_costs:
  assumes "freshStore s0" and "reachable s0 s" and "a \<in> set (attempts s)"
  shows "nullInt64Value (knownCost a) = ledgerSum (at_id a) (usage_ledger s) \<and> 0 \<le> nullInt64Value (knownCost a) \<and>
         (activeAttempt a \<longrightarrow> knownCost a = None)"
  using reachable_ok [OF assms(1,2)] assms(3) by (auto simp: costedOK_def costsOK_def costExplained_def countable_def)

theorem ledger_explains_costs_witness:
  "freshStore openStore \<and> reachable openStore settledStore \<and> attempts settledStore = [doneAttempt] \<and>
   usage_ledger settledStore = [doneLedger] \<and> ul_cost doneLedger = Some 700 \<and> nullInt64Value (knownCost doneAttempt) = 700"
proof -
  have rows: "attempts settledStore = [doneAttempt]" "usage_ledger settledStore = [doneLedger]"
    by (simp_all add: settledStore_def freedStore_def doneStore_def paidStore_def ledgerStore_def)
  have "at_id doneAttempt = ''att_2''" by (simp add: doneAttempt_def settledAttempt_def chatAttempt_def newAttempt_def)
  with ledger_explains_costs [OF openStore_fresh settledStore_reachable, of doneAttempt] rows openStore_fresh settledStore_reachable
  show ?thesis by (simp add: ledgerSum_def doneLedger_def nullInt64Value_def)
qed

text \<open>
  (C4) An attempt is settled once: after a \<^verbatim>\<open>Settle\<close> that succeeded, no further \<^verbatim>\<open>Settle\<close>
  of the same attempt changes anything, with whatever input and in whatever world; it is a replay or an
  error.
\<close>

theorem Settle_once:
  assumes "freshStore s0" and "reachable s0 s" and "int64Opt (si_costNanos input)" and run: "Settle attemptID input w s = (Inr x, s')"
  shows "snd (Settle attemptID input' w' s') = s'"
proof -
  have C: "costsOK s" using reachable_ok [OF assms(1,2)] by (simp add: costedOK_def)
  have "reachable s0 (perform (OpSettle attemptID input) w w s)" using assms(2,3) by (intro reachable.call) simp_all
  then have F: "flightOK s'" using reachable_ok [OF assms(1)] run by (auto simp: costedOK_def lifecycleOK_def)
  from atomicT_run [OF run [unfolded Settle_def]] obtain n n' where tx: "settleTx attemptID input w (n, s) = Inr (x, n', s')" by blast
  have "keepsT (\<lambda>t. t = s') (settleTx attemptID input')"
    unfolding keepsT_def
  proof (rule okT_I)
    fix w n s1 y n' s2
    assume "s1 = s'" "settleTx attemptID input' w (n, s1) = Inr (y, n', s2)"
    then show "s2 = s'" using settle_ended [OF F settleTx_ends [OF C tx]] by blast
  qed
  from keepsT_atomic [OF this refl] show ?thesis by (simp add: Settle_def)
qed

theorem Settle_once_witness:
  "Settle ''att_2'' doneInput calmWorld chatStore = (Inr (), settledStore) \<and> snd (Settle ''att_2'' doneInput calmWorld settledStore) = settledStore"
  using Settle_once [OF openStore_fresh chatStore_reachable _ settle_chat] settle_chat done_typed by simp

text \<open>
  (C9) Start-up recovery leaves nothing open: whatever the last run left behind, a \<^verbatim>\<open>Recover\<close>
  that succeeds leaves no attempt in flight, no concurrency lease, no open request and no active
  reservation, and the quota windows still account for exactly the uncertain units.
\<close>

theorem Recover_leaves_nothing_open:
  assumes "freshStore s0" and "reachable s0 s" and run: "Recover epoch w s = (Inr x, s')"
  shows "(\<forall>a \<in> set (attempts s'). at_state a \<notin> set activeStates) \<and> concurrency_leases s' = [] \<and>
         (\<forall>r \<in> set (requests s'). rq_state r \<noteq> ''reserved'' \<and> rq_state r \<noteq> ''in_progress'') \<and>
         (\<forall>r \<in> set (reservations s'). rs_state r \<noteq> ''active'') \<and> booksBalanced s'"
proof -
  have R: "recoveringOK s" using reachable_ok [OF assms(1,2)] by (simp add: costedOK_def lifecycleOK_def recoveringOK_def)
  from atomicT_run [OF run [unfolded Recover_def]] obtain n n' m m' where "recoverTx epoch w (n, s) = Inr (m, m', s')"
    by (auto elim!: tx_elim simp: tx_inv)
  from recoverTx_Inr_lifecycle [OF R this] show ?thesis
    by (fastforce simp: lifecycleOK_def unitsOK_def activeUnits_def activeIDs_def activeAttempt_def openRequestState_def)
qed

theorem Recover_leaves_nothing_open_witness:
  "\<exists>s'. Recover ''f'' calmWorld chatStore = (Inr (), s') \<and> (\<forall>a \<in> set (attempts s'). at_state a \<notin> set activeStates) \<and> concurrency_leases s' = []"
proof -
  obtain s' where run: "Recover ''f'' calmWorld chatStore = (Inr (), s')" using recover_chat by blast
  from Recover_leaves_nothing_open [OF openStore_fresh chatStore_reachable run] run show ?thesis by blast
qed

end
