(* ===== verification/Projection.thy ===== *)
theory Projection
  imports Repricing
begin

text \<open>
  \<^verbatim>\<open>usage/projection.go\<close>: the outbox of the system database is projected into the analytics
  database, which keeps the events it has seen and one row of totals per day, user, key, model and
  connection. The two databases have no common transaction: an event is first committed to the
  analytics database and then removed from the outbox, so a crash in between delivers it again.
\<close>

section \<open>The analytics database\<close>

record event_row =
  ev_id :: string
  ev_type :: string
  ev_request :: "string option"
  ev_attempt :: "string option"
  ev_payload :: json
  ev_created :: int

record daily_row =
  ud_date :: string
  ud_owner :: string
  ud_key :: string
  ud_model :: string
  ud_connection :: string
  ud_requests :: int
  ud_input :: int
  ud_output :: int
  ud_cacheCreation :: int
  ud_cacheRead :: int
  ud_cache5m :: int
  ud_cache1h :: int
  ud_webCalls :: int
  ud_cost :: int
  ud_unknown :: int

record data_store =
  usage_events :: "event_row list"
  usage_daily :: "daily_row list"
  projection_metadata :: "(string \<times> string) list"

type_synonym 'a dtx = "(data_store, 'a) txm"

definition dailyKey :: "daily_row \<Rightarrow> string \<times> string \<times> string \<times> string \<times> string" where
  "dailyKey d = (ud_date d, ud_owner d, ud_key d, ud_model d, ud_connection d)"

definition dailyCheck :: "daily_row \<Rightarrow> bool" where
  "dailyCheck d \<longleftrightarrow> ud_cacheCreation d \<ge> 0 \<and> ud_cacheRead d \<ge> 0 \<and> ud_cache5m d \<ge> 0 \<and> ud_cache1h d \<ge> 0 \<and> ud_webCalls d \<ge> 0"

definition insertUsageEvent :: "event_row \<Rightarrow> nat dtx" where
  "insertUsageEvent = insertIgnoreT usage_events usage_events_update (\<lambda>a b. ev_id a = ev_id b) (\<lambda>e. True) (\<lambda>s e. True)"

definition insertDaily :: "daily_row \<Rightarrow> unit dtx" where
  "insertDaily = insertT usage_daily usage_daily_update (\<lambda>a b. dailyKey a = dailyKey b) dailyCheck (\<lambda>s d. True)"

definition upsertDaily :: "(daily_row \<Rightarrow> daily_row \<Rightarrow> daily_row) \<Rightarrow> daily_row \<Rightarrow> unit dtx" where
  "upsertDaily = upsertT usage_daily usage_daily_update (\<lambda>a b. dailyKey a = dailyKey b) dailyCheck (\<lambda>s d. True)"

definition updateDaily :: "(daily_row \<Rightarrow> bool) \<Rightarrow> (daily_row \<Rightarrow> daily_row) \<Rightarrow> nat dtx" where
  "updateDaily = updateT usage_daily usage_daily_update dailyCheck"

definition updateUsageEvents :: "(event_row \<Rightarrow> bool) \<Rightarrow> (event_row \<Rightarrow> event_row) \<Rightarrow> nat dtx" where
  "updateUsageEvents = updateT usage_events usage_events_update (\<lambda>e. True)"

lemmas data_statement_defs = insertUsageEvent_def insertDaily_def upsertDaily_def updateDaily_def updateUsageEvents_def

section \<open>Outbox status\<close>

record outbox_status =
  ob_pendingEvents :: int
  ob_reservedEvents :: int
  ob_pendingBytes :: int
  ob_oldestEventAt :: "string option"
  ob_full :: bool

definition minimumOf :: "int list \<Rightarrow> int option" where
  "minimumOf xs = (case xs of [] \<Rightarrow> None | y # ys \<Rightarrow> Some (foldl min y ys))"

definition OutboxState :: "outbox_status tx" where
  "OutboxState =
     queryT (\<lambda>s.
       let pending = int (length (pendingEvents s)); reserved = activeAttempts s; bytes = pendingBytes s
       in \<lparr>ob_pendingEvents = pending, ob_reservedEvents = reserved, ob_pendingBytes = bytes,
           ob_oldestEventAt = map_option timeString (minimumOf (map eo_created (pendingEvents s))),
           ob_full = (pending + reserved \<ge> maxPendingOutboxEvents \<or>
                      bytes + reserved * outboxEventAllowance \<ge> maxPendingOutboxBytes)\<rparr>)"

definition OutboxStatus :: "auth_user \<Rightarrow> outbox_status tx" where
  "OutboxStatus actor0 =
     bindT (mapErrT (\<lambda>_. ErrDenied) (refreshUsageActor actor0)) (\<lambda>actor. managerOnly actor OutboxState)"

section \<open>Projecting one event\<close>

text \<open>The fields every payload has; \<open>None\<close> is a JSON error.\<close>

record payload_key =
  pk_owner :: string
  pk_key :: string
  pk_model :: string
  pk_connection :: string
  pk_started :: int

definition readKey :: "json \<Rightarrow> payload_key option" where
  "readKey j =
     Option.bind (fieldString ''owner_user_id'' j) (\<lambda>ow.
     Option.bind (fieldString ''key_id'' j) (\<lambda>k.
     Option.bind (fieldString ''model_id'' j) (\<lambda>m.
     Option.bind (fieldString ''connection_id'' j) (\<lambda>c.
     Option.bind (fieldInt ''started_at'' j) (\<lambda>t.
       Some \<lparr>pk_owner = ow, pk_key = k, pk_model = m, pk_connection = c, pk_started = t\<rparr>)))))"

definition incompleteKey :: "payload_key \<Rightarrow> bool" where
  "incompleteKey k \<longleftrightarrow> pk_owner k = [] \<or> pk_key k = [] \<or> pk_model k = [] \<or> pk_connection k = [] \<or> pk_started k = 0"

definition dailyOf :: "payload_key \<Rightarrow> string \<times> string \<times> string \<times> string \<times> string" where
  "dailyOf k = (formatDate (pk_started k), pk_owner k, pk_key k, pk_model k, pk_connection k)"

definition emptyDaily :: "payload_key \<Rightarrow> daily_row" where
  "emptyDaily k = \<lparr>ud_date = formatDate (pk_started k), ud_owner = pk_owner k, ud_key = pk_key k, ud_model = pk_model k,
     ud_connection = pk_connection k, ud_requests = 0, ud_input = 0, ud_output = 0, ud_cacheCreation = 0, ud_cacheRead = 0,
     ud_cache5m = 0, ud_cache1h = 0, ud_webCalls = 0, ud_cost = 0, ud_unknown = 0\<rparr>"

definition jsonError :: goerr where
  "jsonError = ErrMsg ''json: cannot unmarshal payload''"

definition projectCancelledRequest :: "json \<Rightarrow> int \<Rightarrow> unit dtx" where
  "projectCancelledRequest payload requestIncrement =
     bindT (optionT jsonError (readKey payload)) (\<lambda>k.
     guardT (incompleteKey k) (ErrMsg ''invalid cancelled request projection'') (
     upsertDaily (\<lambda>old new. old\<lparr>ud_requests := ud_requests old + ud_requests new\<rparr>) ((emptyDaily k)\<lparr>ud_requests := requestIncrement\<rparr>)))"

definition projectReconciliation :: "json \<Rightarrow> unit dtx" where
  "projectReconciliation payload =
     bindT (optionT jsonError (readKey payload)) (\<lambda>k.
     bindT (optionT jsonError (fieldIntOpt ''input_tokens'' payload)) (\<lambda>inputTokens.
     bindT (optionT jsonError (fieldIntOpt ''output_tokens'' payload)) (\<lambda>outputTokens.
     bindT (optionT jsonError (fieldIntOpt ''cost_nanos'' payload)) (\<lambda>costNanos.
     bindT (optionT jsonError (fieldInt ''unknown_delta'' payload)) (\<lambda>unknownDelta.
     bindT (mapErrT (\<lambda>_. ErrMsg ''reconciliation has no projected interrupted attempt'')
              (oneT ErrNoRows usage_daily (\<lambda>d. dailyKey d = dailyOf k))) (\<lambda>d.
     let nextInput = checkedAdd [ud_input d, nullInt64Value inputTokens];
         nextOutput = checkedAdd [ud_output d, nullInt64Value outputTokens];
         nextCost = checkedAdd [ud_cost d, nullInt64Value costNanos];
         nextUnknown = checkedAdd [ud_unknown d, unknownDelta] in
     guardT (nextInput = None \<or> nextOutput = None \<or> nextCost = None \<or> nextUnknown = None \<or> the nextUnknown < 0)
       (ErrMsg ''reconciliation projection overflow'') (
     thenT (updateDaily (\<lambda>x. dailyKey x = dailyOf k)
              (\<lambda>x. x\<lparr>ud_input := the nextInput, ud_output := the nextOutput, ud_cost := the nextCost, ud_unknown := the nextUnknown\<rparr>))
       (returnT ()))))))))"

definition projectCostAdjustment :: "json \<Rightarrow> unit dtx" where
  "projectCostAdjustment payload =
     bindT (optionT jsonError (readKey payload)) (\<lambda>k.
     bindT (optionT jsonError (fieldInt ''delta_nanos'' payload)) (\<lambda>deltaNanos.
     bindT (optionT jsonError (fieldInt ''unknown_delta'' payload)) (\<lambda>unknownDelta.
     guardT (incompleteKey k) (ErrMsg ''invalid cost adjustment projection'') (
     bindT (mapErrT (\<lambda>_. ErrMsg ''cost adjustment has no projected settlement'')
              (oneT ErrNoRows usage_daily (\<lambda>d. dailyKey d = dailyOf k))) (\<lambda>d.
     bindT (optionT (ErrMsg ''projected cost overflow'') (checkedAdd [ud_cost d, deltaNanos])) (\<lambda>nextCost.
     guardT (nextCost < 0) (ErrMsg ''projected cost overflow'') (
     bindT (optionT (ErrMsg ''projected unknown count overflow'') (checkedAdd [ud_unknown d, unknownDelta])) (\<lambda>nextUnknown.
     guardT (nextUnknown < 0) (ErrMsg ''projected unknown count overflow'') (
     thenT (updateDaily (\<lambda>x. dailyKey x = dailyOf k) (\<lambda>x. x\<lparr>ud_cost := nextCost, ud_unknown := nextUnknown\<rparr>)) (returnT ()))))))))))"

text \<open>The usage a settlement event adds to its day.\<close>

record usage_delta =
  us_requests :: int
  us_input :: int
  us_output :: int
  us_cacheCreation :: int
  us_cacheRead :: int
  us_cache5m :: int
  us_cache1h :: int
  us_webCalls :: int
  us_cost :: int
  us_unknown :: int

definition readSettlement :: "json \<Rightarrow> int \<Rightarrow> (payload_key \<times> usage_delta) option" where
  "readSettlement j requestIncrement =
     Option.bind (readKey j) (\<lambda>k.
     Option.bind (fieldString ''usage_status'' j) (\<lambda>status.
     Option.bind (fieldIntOpt ''input_tokens'' j) (\<lambda>inp.
     Option.bind (fieldIntOpt ''output_tokens'' j) (\<lambda>out.
     Option.bind (fieldIntOpt ''cache_creation_input_tokens'' j) (\<lambda>cc.
     Option.bind (fieldIntOpt ''cache_read_input_tokens'' j) (\<lambda>cr.
     Option.bind (fieldIntOpt ''cache_creation_5m_input_tokens'' j) (\<lambda>c5.
     Option.bind (fieldIntOpt ''cache_creation_1h_input_tokens'' j) (\<lambda>c1.
     Option.bind (fieldIntOpt ''web_search_call_count'' j) (\<lambda>web.
     Option.bind (fieldIntOpt ''cost_nanos'' j) (\<lambda>cost.
       Some (k, \<lparr>us_requests = requestIncrement, us_input = nullInt64Value inp, us_output = nullInt64Value out,
         us_cacheCreation = nullInt64Value cc, us_cacheRead = nullInt64Value cr, us_cache5m = nullInt64Value c5,
         us_cache1h = nullInt64Value c1, us_webCalls = nullInt64Value web, us_cost = nullInt64Value cost,
         us_unknown = (if status = ''unknown'' \<or> cost = None then 1 else 0)\<rparr>)))))))))))"

definition addUsage :: "usage_delta \<Rightarrow> daily_row \<Rightarrow> daily_row option" where
  "addUsage u d =
     Option.bind (checkedAdd [ud_requests d, us_requests u]) (\<lambda>requests.
     Option.bind (checkedAdd [ud_input d, us_input u]) (\<lambda>inp.
     Option.bind (checkedAdd [ud_output d, us_output u]) (\<lambda>out.
     Option.bind (checkedAdd [ud_cacheCreation d, us_cacheCreation u]) (\<lambda>cc.
     Option.bind (checkedAdd [ud_cacheRead d, us_cacheRead u]) (\<lambda>cr.
     Option.bind (checkedAdd [ud_cache5m d, us_cache5m u]) (\<lambda>c5.
     Option.bind (checkedAdd [ud_cache1h d, us_cache1h u]) (\<lambda>c1.
     Option.bind (checkedAdd [ud_webCalls d, us_webCalls u]) (\<lambda>web.
     Option.bind (checkedAdd [ud_cost d, us_cost u]) (\<lambda>cost.
     Option.bind (checkedAdd [ud_unknown d, us_unknown u]) (\<lambda>unknown.
       Some (d\<lparr>ud_requests := requests, ud_input := inp, ud_output := out, ud_cacheCreation := cc, ud_cacheRead := cr,
         ud_cache5m := c5, ud_cache1h := c1, ud_webCalls := web, ud_cost := cost, ud_unknown := unknown\<rparr>)))))))))))"

definition firstUsage :: "payload_key \<Rightarrow> usage_delta \<Rightarrow> daily_row" where
  "firstUsage k u = (emptyDaily k)\<lparr>ud_requests := us_requests u, ud_input := us_input u, ud_output := us_output u,
     ud_cacheCreation := us_cacheCreation u, ud_cacheRead := us_cacheRead u, ud_cache5m := us_cache5m u, ud_cache1h := us_cache1h u,
     ud_webCalls := us_webCalls u, ud_cost := us_cost u, ud_unknown := us_unknown u\<rparr>"

definition projectSettlement :: "json \<Rightarrow> int \<Rightarrow> unit dtx" where
  "projectSettlement payload requestIncrement =
     bindT (optionT jsonError (readSettlement payload requestIncrement)) (\<lambda>(k, u).
     guardT (incompleteKey k) (ErrMsg ''invalid settlement projection'') (
     bindT (rowT usage_daily (\<lambda>d. dailyKey d = dailyOf k)) (\<lambda>row.
     case row of
       None \<Rightarrow> insertDaily (firstUsage k u)
     | Some d \<Rightarrow>
         bindT (optionT (ErrMsg ''usage projection overflow'') (addUsage u d)) (\<lambda>d'.
         thenT (updateDaily (\<lambda>x. dailyKey x = dailyOf k) (\<lambda>x. d')) (returnT ())))))"

section \<open>The projector\<close>

text \<open>A request is counted by the first of its events of these types.\<close>

definition requestIncrement :: "string list \<Rightarrow> string option \<Rightarrow> int dtx" where
  "requestIncrement types requestID =
     (case requestID of
        None \<Rightarrow> returnT 0
      | Some r \<Rightarrow> bindT (queryT (\<lambda>s. length (filter (\<lambda>e. ev_request e = Some r \<and> ev_type e \<in> set types) (usage_events s)))) (\<lambda>n.
                  returnT (if n = 1 then 1 else 0)))"

definition projectKind :: "outbox_row \<Rightarrow> unit dtx" where
  "projectKind item =
     (if eo_type item = ''attempt.settled'' then
        bindT (requestIncrement [''attempt.settled''] (eo_request item)) (\<lambda>n. projectSettlement (eo_payload item) n)
      else if eo_type item = ''request.cancelled_before_dispatch'' then
        bindT (requestIncrement [''attempt.settled'', ''request.cancelled_before_dispatch''] (eo_request item)) (\<lambda>n.
          projectCancelledRequest (eo_payload item) n)
      else if eo_type item = ''attempt.reconciled'' then projectReconciliation (eo_payload item)
      else if eo_type item = ''attempt.cost_adjusted'' then projectCostAdjustment (eo_payload item)
      else returnT ())"

definition eventRow :: "outbox_row \<Rightarrow> event_row" where
  "eventRow e = \<lparr>ev_id = eo_id e, ev_type = eo_type e, ev_request = eo_request e, ev_attempt = eo_attempt e,
     ev_payload = eo_payload e, ev_created = eo_created e\<rparr>"

definition projectEvent :: "int \<Rightarrow> outbox_row \<Rightarrow> unit dtx" where
  "projectEvent cutoff item =
     bindT (insertUsageEvent (eventRow item)) (\<lambda>inserted.
     thenT (if inserted = 1 then projectKind item else returnT ()) (
     thenT (if inserted = 1 \<and> cutoff > 0 \<and> eo_created item < cutoff
            then thenT (updateUsageEvents (\<lambda>e. ev_id e = eo_id item) (\<lambda>e. e\<lparr>ev_payload := JObj []\<rparr>)) (returnT ())
            else returnT ())
       commitT))"

text \<open>
  The two statements after the commit, on the system database. An outbox row that another process
  has already marked keeps its mark and is deleted all the same.
\<close>

definition markDelivered :: "string \<Rightarrow> unit tx" where
  "markDelivered i =
     bindT nowT (\<lambda>now. thenT (updateEvents (\<lambda>e. eo_id e = i \<and> eo_delivered e = None) (\<lambda>e. e\<lparr>eo_delivered := Some now\<rparr>)) (returnT ()))"

definition dropDelivered :: "string \<Rightarrow> unit tx" where
  "dropDelivered i = thenT (deleteEvents (\<lambda>e. eo_id e = i \<and> eo_delivered e \<noteq> None)) (returnT ())"

text \<open>
  The loop: the number of events delivered, the error that stopped it, and both stores. The worlds
  of the three steps of event \<open>n\<close> are \<open>ws (3 * n)\<close>, \<open>ws (3 * n + 1)\<close> and \<open>ws (3 * n + 2)\<close>.
\<close>

fun deliver :: "int \<Rightarrow> (nat \<Rightarrow> world) \<Rightarrow> nat \<Rightarrow> outbox_row list \<Rightarrow> store \<Rightarrow> data_store \<Rightarrow> nat \<times> goerr option \<times> store \<times> data_store" where
  "deliver cutoff ws n [] sys dat = (n, None, sys, dat)"
| "deliver cutoff ws n (item # items) sys dat =
     (case atomicT (projectEvent cutoff item) (ws (3 * n)) dat of
        (Inl e, dat') \<Rightarrow> (n, Some e, sys, dat')
      | (Inr _, dat') \<Rightarrow>
          (case autoT (markDelivered (eo_id item)) (ws (3 * n + 1)) sys of
             (Inl e, sys') \<Rightarrow> (n, Some e, sys', dat')
           | (Inr _, sys') \<Rightarrow>
               (case autoT (dropDelivered (eo_id item)) (ws (3 * n + 2)) sys' of
                  (Inl e, sys'') \<Rightarrow> (n, Some e, sys'', dat')
                | (Inr _, sys'') \<Rightarrow> deliver cutoff ws (Suc n) items sys'' dat')))"

definition eventDetailCutoff :: "data_store \<Rightarrow> int" where
  "eventDetailCutoff dat =
     (case find (\<lambda>kv. fst kv = ''event_detail_cutoff'') (projection_metadata dat) of
        None \<Rightarrow> 0
      | Some kv \<Rightarrow> (case parseInt64 (snd kv) of None \<Rightarrow> 0 | Some v \<Rightarrow> v))"

definition ProjectOutbox :: "(nat \<Rightarrow> world) \<Rightarrow> world \<Rightarrow> int \<Rightarrow> store \<Rightarrow> data_store \<Rightarrow> nat \<times> goerr option \<times> store \<times> data_store" where
  "ProjectOutbox ws w limit0 sys dat =
     (let limit = (if limit0 < 1 \<or> limit0 > 500 then 100 else limit0) in
      if w_fault w 0 \<or> w_fault w 1 then (0, Some ErrDriver, sys, dat)
      else deliver (eventDetailCutoff dat) ws 0 (take (nat limit) (pendingEvents sys)) sys dat)"

end
