(* ===== verification/Projected.thy ===== *)
theory Projected
  imports System Projection
begin

text \<open>
  What the outbox and its projection achieve together. Every operation of the usage service only
  appends to the pending events; the projector commits an event to the analytics database first and
  takes it from the outbox after that, so that an interruption between the two leaves it in both. The
  section on runs shows that each event is nevertheless counted exactly once, whatever fails.
\<close>

section \<open>The service appends events\<close>

text \<open>The pending events of \<open>s0\<close> are still there, in their order, before any new ones.\<close>

definition queuedAfter :: "store \<Rightarrow> store \<Rightarrow> bool" where
  "queuedAfter s0 s \<longleftrightarrow> (\<exists>new. pendingEvents s = pendingEvents s0 @ new)"

lemma queuedAfter_same: "event_outbox s' = event_outbox s \<Longrightarrow> queuedAfter s0 s \<Longrightarrow> queuedAfter s0 s'"
  by (simp add: queuedAfter_def pendingEvents_def)

lemma queued_statements:
  "keepsT (queuedAfter s0) (insertPolicy r1)" "keepsT (queuedAfter s0) (updatePolicies p1 f1)"
  "keepsT (queuedAfter s0) (upsertBucket m2 r2)" "keepsT (queuedAfter s0) (updateBuckets p2 f2)"
  "keepsT (queuedAfter s0) (upsertPeriod m3 r3)" "keepsT (queuedAfter s0) (updatePeriods p3 f3)"
  "keepsT (queuedAfter s0) (insertRequest r4)" "keepsT (queuedAfter s0) (updateRequests p4 f4)"
  "keepsT (queuedAfter s0) (insertPrice r5)" "keepsT (queuedAfter s0) (updatePrices p5 f5)"
  "keepsT (queuedAfter s0) (insertAttempt r6)" "keepsT (queuedAfter s0) (updateAttempts p6 f6)"
  "keepsT (queuedAfter s0) (insertReservation r7)" "keepsT (queuedAfter s0) (updateReservations p7 f7)"
  "keepsT (queuedAfter s0) (insertLease r8)" "keepsT (queuedAfter s0) (deleteLeases p8)"
  "keepsT (queuedAfter s0) (insertLedger r9)" "keepsT (queuedAfter s0) (insertAssessment r10)"
  "keepsT (queuedAfter s0) (insertAssessmentOrIgnore r10)" "keepsT (queuedAfter s0) (insertJob r11)"
  "keepsT (queuedAfter s0) (insertAuditEvent r12)" "keepsT (queuedAfter s0) (raiseClock at1 epoch)"
  unfolding statement_defs keepsT_def
  by (rule okT_insert okT_update okT_upsert okT_delete okT_insertIgnore okT_stmt; erule queuedAfter_same [rotated] | simp add: queuedAfter_def pendingEvents_def)+

lemma appendOutbox_queued: "keepsT (queuedAfter s0) (appendOutbox t r a payload now)"
proof -
  have "keepsT (queuedAfter s0) (insertEvent e)" if "eo_delivered e = None" for e
    unfolding insertEvent_def keepsT_def by (rule okT_insert) (use that in \<open>auto simp: queuedAfter_def pendingEvents_def\<close>)
  then show ?thesis unfolding appendOutbox_def by (intro keeps) simp
qed

lemma helpers_queued:
  "keepsT (queuedAfter s0) (refreshUsageActor actor)" "keepsT (queuedAfter s0) (insertAudit aa ab ac ad at2)"
  "keepsT (queuedAfter s0) (effectiveTimeTxAtLeast epoch t)" "keepsT (queuedAfter s0) (effectiveTimeTx epoch)"
  "keepsT (queuedAfter s0) (requireOutboxCapacity k)" "keepsT (queuedAfter s0) (updateQuotaPeriod i t c r)"
  "keepsT (queuedAfter s0) (markReservation i st now)" "keepsT (queuedAfter s0) (settleBucket m item u)"
  "keepsT (queuedAfter s0) (priceAt c2 m2 t)"
  unfolding refreshUsageActor_def insertAudit_def effectiveTimeTxAtLeast_def effectiveTimeTx_def requireOutboxCapacity_def updateQuotaPeriod_def
    markReservation_def settleBucket_def priceAt_def
  by (intro keeps queued_statements)+

lemma release_queued: "keepsT (queuedAfter s0) (releaseItem now item)" "keepsT (queuedAfter s0) (releaseReservations i now)"
  unfolding releaseReservations_def releaseItem_def by (intro keeps queued_statements helpers_queued)+

lemma policy_queued:
  "keepsT (queuedAfter s0) (createPolicyTx actor input1)" "keepsT (queuedAfter s0) (updatePolicyTx actor i revision units usd enabled)"
  "keepsT (queuedAfter s0) (createPriceTx actor input2)"
  unfolding createPolicyTx_def updatePolicyTx_def authorizePolicyScope_def scopeRole_def readPolicy_def createPriceTx_def managerOnly_def
    closePrevious_def closeVersion_def
  by (intro keeps queued_statements helpers_queued)+

lemma plan_queued: "keepsT (queuedAfter s0) (evaluatePolicy p now first requestID attemptID input tokens cost)"
  unfolding evaluatePolicy_def evaluateConcurrency_def evaluateBucket_def evaluateWindow_def
  by (intro keeps)

lemma plans_queued: "keepsT (queuedAfter s0) (planAll ps now first requestID attemptID input tokens cost)"
  by (induction ps; unfold planAll.simps; intro keeps plan_queued; assumption)

lemma admit_queued:
  "keepsT (queuedAfter s0) (admitTx epoch input3)" "keepsT (queuedAfter s0) (MarkDispatching attemptID)" "keepsT (queuedAfter s0) (MarkStreaming attemptID)"
proof -
  have "keepsT (queuedAfter s0) (bookAdmission epoch input first requestID attemptID ownerID ordinal priceVersionID tokens cost plans effective)"
    for input first requestID attemptID ownerID ordinal priceVersionID tokens cost plans effective
    unfolding bookAdmission_def openRequest_def applyPlan_def bookCounter_def bookReservation_def
    by (intro keeps queued_statements appendOutbox_queued)
  moreover have "keepsT (queuedAfter s0) (admissionPrice input effective)" for input effective
    unfolding admissionPrice_def by (intro keeps helpers_queued)
  ultimately show "keepsT (queuedAfter s0) (admitTx epoch input3)"
    unfolding admitTx_def admitChecked_def authorizeKey_def checkTarget_def requestOrdinal_def
    by (intro keeps helpers_queued plans_queued)
  show "keepsT (queuedAfter s0) (MarkDispatching attemptID)" "keepsT (queuedAfter s0) (MarkStreaming attemptID)"
    unfolding MarkDispatching_def MarkStreaming_def by (intro keeps queued_statements)+
qed

lemma settle_queued:
  "keepsT (queuedAfter s0) (settleTx attemptID input4)" "keepsT (queuedAfter s0) (cancelBeforeDispatchTx attemptID)"
  "keepsT (queuedAfter s0) (closeFailedRequestTx requestID)" "keepsT (queuedAfter s0) (FinalizeRequestTx requestID state)"
  unfolding settleTx_def settleFresh_def replaySettlement_def settleItem_def settleQuota_def recordAssessment_def closeAttempt_def
    calculatedAttemptCost_def calculatedPriceCost_def joinedAttempt_def cancelBeforeDispatchTx_def closeFailedRequestTx_def FinalizeRequestTx_def
  by (intro keeps queued_statements helpers_queued release_queued appendOutbox_queued)+

lemma recover_queued:
  "keepsT (queuedAfter s0) (recoverTx epoch)" "keepsT (queuedAfter s0) repairStaleTx"
  unfolding recoverTx_def recoverItem_def updateRequestsWhere_def repairStaleTx_def repairRequest_def
  by (intro keeps queued_statements helpers_queued release_queued appendOutbox_queued settle_queued)+

lemma repriceList_queued: "keepsT (queuedAfter s0) (repriceList c m items)"
  by (induction items; unfold repriceList.simps repriceOne_def calculatedAttemptCost_def calculatedPriceCost_def; intro keeps helpers_queued; assumption)

lemma books_queued:
  "keepsT (queuedAfter s0) (reconcileUnknownTx actor attemptID input5)" "keepsT (queuedAfter s0) (applyRepriceTx actor input6)"
  "keepsT (queuedAfter s0) (adjustCostTx actor attemptID deltaUSD reason key)"
  unfolding reconcileUnknownTx_def reconcileFresh_def reconcileItem_def reconcileCost_def reconcileBooks_def requireMemberOwner_def reconcilable_def
    applyRepriceTx_def repriceItems_def applyItem_def repriceJob_def reconcileSpendPeriods_def reconcileSpend_def adjustCostTx_def adjustBooks_def
    managerOnly_def joinedAttempt_def calculatedAttemptCost_def calculatedPriceCost_def settleQuota_def recordAssessment_def
  by (intro keeps queued_statements helpers_queued release_queued appendOutbox_queued settle_queued repriceList_queued)+

interpretation queued: service_invariant "queuedAfter s0" for s0
  by unfold_locales (rule policy_queued admit_queued settle_queued recover_queued books_queued)+

section \<open>What an event adds\<close>

definition fieldAmount :: "string \<Rightarrow> json \<Rightarrow> int" where
  "fieldAmount k j = (case fieldIntOpt k j of Some (Some v) \<Rightarrow> v | _ \<Rightarrow> 0)"

text \<open>Input tokens, output tokens and nano-dollars that one event stands for.\<close>

definition eventUsage :: "outbox_row \<Rightarrow> int \<times> int \<times> int" where
  "eventUsage e =
     (if eo_type e = ''attempt.settled'' \<or> eo_type e = ''attempt.reconciled''
      then (fieldAmount ''input_tokens'' (eo_payload e), fieldAmount ''output_tokens'' (eo_payload e), fieldAmount ''cost_nanos'' (eo_payload e))
      else if eo_type e = ''attempt.cost_adjusted'' then (0, 0, fieldAmount ''delta_nanos'' (eo_payload e))
      else (0, 0, 0))"

definition dailyTotal :: "(daily_row \<Rightarrow> int) \<Rightarrow> data_store \<Rightarrow> int" where
  "dailyTotal g dat = sum_list (map g (usage_daily dat))"

text \<open>The analytics database is \<open>dat0\<close> with the given events counted, each once.\<close>

definition counted :: "data_store \<Rightarrow> outbox_row list \<Rightarrow> data_store \<Rightarrow> bool" where
  "counted dat0 evs dat \<longleftrightarrow>
     map ev_id (usage_events dat) = map ev_id (usage_events dat0) @ map eo_id evs \<and>
     dailyTotal ud_input dat = dailyTotal ud_input dat0 + sum_list (map (\<lambda>e. fst (eventUsage e)) evs) \<and>
     dailyTotal ud_output dat = dailyTotal ud_output dat0 + sum_list (map (\<lambda>e. fst (snd (eventUsage e))) evs) \<and>
     dailyTotal ud_cost dat = dailyTotal ud_cost dat0 + sum_list (map (\<lambda>e. snd (snd (eventUsage e))) evs)"

lemma nullInt64_field: "fieldIntOpt k j = Some v \<Longrightarrow> nullInt64Value v = fieldAmount k j"
  by (auto simp: fieldAmount_def nullInt64Value_def split: option.splits)

lemma fieldInt_amount: "fieldInt k j = Some v \<Longrightarrow> v = fieldAmount k j"
  by (auto simp: fieldAmount_def fieldInt_def split: option.splits)

lemma sum_updateWhere:
  assumes "distinct (map key rs)" "r \<in> set rs"
  shows "sum_list (map g (updateWhere (\<lambda>x. key x = key r) f rs)) = sum_list (map g rs) - g r + (g (f r) :: int)"
  using assms
proof (induction rs)
  case (Cons x xs)
  have "updateWhere (\<lambda>y. key y = key r) f xs = xs" if "x = r"
    using Cons.prems(1) that by (intro updateWhere_none) (auto simp: image_iff)
  moreover have "key x \<noteq> key r" if "x \<noteq> r" using Cons.prems that by (auto simp: image_iff)
  ultimately show ?case using Cons by (cases "x = r") auto
qed simp

lemma keys_updateWhere:
  "(\<And>x. x \<in> set rs \<Longrightarrow> key x = k \<Longrightarrow> key (f x) = k) \<Longrightarrow> map key (updateWhere (\<lambda>x. key x = k) f rs) = map key rs"
  by (induction rs) auto

text \<open>An update of the day that was read changes the totals by the difference.\<close>

lemma day_updated:
  assumes keys: "distinct (map dailyKey ds)" and f: "find (\<lambda>d. dailyKey d = k) ds = Some d" and same: "\<And>x. dailyKey x = k \<Longrightarrow> dailyKey (g x) = k"
  shows "distinct (map dailyKey (updateWhere (\<lambda>x. dailyKey x = k) g ds)) \<and>
    sum_list (map h (updateWhere (\<lambda>x. dailyKey x = k) g ds)) = sum_list (map h ds) - h d + (h (g d) :: int)"
proof -
  from find_SomeD [OF f] have d: "d \<in> set ds" "dailyKey d = k" by simp_all
  with sum_updateWhere [OF keys d(1), of h g] keys_updateWhere [of ds dailyKey k g] same keys show ?thesis by simp
qed

text \<open>The days of the analytics database: one row per key, each column an \<^verbatim>\<open>int64\<close>.\<close>

definition daysTyped :: "daily_row list \<Rightarrow> bool" where
  "daysTyped ds \<longleftrightarrow> distinct (map dailyKey ds) \<and> (\<forall>d \<in> set ds. int64_range (ud_input d) \<and> int64_range (ud_output d) \<and> int64_range (ud_cost d))"

definition daysAdded :: "daily_row list \<Rightarrow> int \<times> int \<times> int \<Rightarrow> daily_row list \<Rightarrow> bool" where
  "daysAdded ds u ds' \<longleftrightarrow> daysTyped ds' \<and> sum_list (map ud_input ds') = sum_list (map ud_input ds) + fst u \<and>
     sum_list (map ud_output ds') = sum_list (map ud_output ds) + fst (snd u) \<and> sum_list (map ud_cost ds') = sum_list (map ud_cost ds) + snd (snd u)"

lemma daysAdded_none: "daysTyped ds \<Longrightarrow> daysAdded ds (0, 0, 0) ds"
  by (simp add: daysAdded_def)

lemma daysAdded_insert:
  assumes "daysTyped ds" "\<not> list_ex (\<lambda>d. dailyKey d = dailyKey r) ds" "int64_range (ud_input r)" "int64_range (ud_output r)" "int64_range (ud_cost r)"
  shows "daysAdded ds (ud_input r, ud_output r, ud_cost r) (ds @ [r])"
  using assms by (auto simp: daysAdded_def daysTyped_def list_ex_iff)

lemma daysAdded_update:
  assumes t: "daysTyped ds" and f: "find (\<lambda>d. dailyKey d = k) ds = Some d" and same: "\<And>x. dailyKey x = k \<Longrightarrow> dailyKey (g x) = k"
    and i: "checkedAdd [ud_input d, i] = Some (ud_input (g d))" "int64_range i"
    and out: "checkedAdd [ud_output d, j] = Some (ud_output (g d))" "int64_range j"
    and c: "checkedAdd [ud_cost d, c] = Some (ud_cost (g d))" "int64_range c"
  shows "daysAdded ds (i, j, c) (updateWhere (\<lambda>x. dailyKey x = k) g ds)"
proof -
  let ?ds = "updateWhere (\<lambda>x. dailyKey x = k) g ds"
  from t have keys: "distinct (map dailyKey ds)" and ty: "\<And>x. x \<in> set ds \<Longrightarrow> int64_range (ud_input x) \<and> int64_range (ud_output x) \<and> int64_range (ud_cost x)"
    by (simp_all add: daysTyped_def)
  from find_SomeD [OF f] have d: "d \<in> set ds" "dailyKey d = k" by simp_all
  have sum: "r = a + b" "int64_range r" if "int64_range a" "int64_range b" "checkedAdd [a, b] = Some r" for a b r
  proof -
    have "r = sum_list [a, b] \<and> int64_range r" by (rule checkedAdd_sound [OF _ that(3)]) (use that in simp)
    then show "r = a + b" "int64_range r" by auto
  qed
  have g: "ud_input (g d) = ud_input d + i \<and> int64_range (ud_input (g d))" "ud_output (g d) = ud_output d + j \<and> int64_range (ud_output (g d))"
    "ud_cost (g d) = ud_cost d + c \<and> int64_range (ud_cost (g d))"
    using ty [OF d(1)] sum i out c by blast+
  have "x = d" if "x \<in> set ds" "dailyKey x = k" for x using keys that d by (simp add: distinct_map inj_on_def)
  with ty g have "\<forall>x \<in> set ?ds. int64_range (ud_input x) \<and> int64_range (ud_output x) \<and> int64_range (ud_cost x)"
    by (auto simp: set_updateWhere)
  moreover note day_updated [OF keys f same, where h = ud_input] day_updated [OF keys f same, where h = ud_output] day_updated [OF keys f same, where h = ud_cost]
  ultimately show ?thesis using g by (simp add: daysAdded_def daysTyped_def)
qed

lemma fieldAmount_range: "int64_range (fieldAmount k j)"
proof -
  have "parseInt64 n = Some v \<Longrightarrow> int64_range v" for n v by (auto simp: parseInt64_def Let_def split: if_splits)
  then show ?thesis by (auto simp: fieldAmount_def fieldIntOpt_def int64_range_def int64_limits split: option.splits json.splits)
qed

section \<open>Projecting one event\<close>

lemma readSettlement_usage:
  assumes "readSettlement j n = Some (k, u)"
  shows "us_input u = fieldAmount ''input_tokens'' j" "us_output u = fieldAmount ''output_tokens'' j" "us_cost u = fieldAmount ''cost_nanos'' j"
  using assms by (auto simp: readSettlement_def nullInt64_field split: bind_splits)

lemma addUsage_sums:
  assumes "addUsage u d = Some d'"
  shows "dailyKey d' = dailyKey d" "checkedAdd [ud_input d, us_input u] = Some (ud_input d')" "checkedAdd [ud_output d, us_output u] = Some (ud_output d')"
    "checkedAdd [ud_cost d, us_cost u] = Some (ud_cost d')"
  using assms by (auto simp: addUsage_def dailyKey_def split: bind_splits)

lemma projectSettlement_days:
  assumes run: "projectSettlement j m w (n, dat) = Inr (x, n', dat')" and t: "daysTyped (usage_daily dat)"
  shows "usage_events dat' = usage_events dat \<and> daysAdded (usage_daily dat)
    (fieldAmount ''input_tokens'' j, fieldAmount ''output_tokens'' j, fieldAmount ''cost_nanos'' j) (usage_daily dat')"
proof -
  from run obtain k u n1 where r: "readSettlement j m = Some (k, u)"
    and rest: "(case find (\<lambda>d. dailyKey d = dailyOf k) (usage_daily dat) of None \<Rightarrow> insertDaily (firstUsage k u)
      | Some d \<Rightarrow> bindT (optionT (ErrMsg ''usage projection overflow'') (addUsage u d)) (\<lambda>d'.
         thenT (updateDaily (\<lambda>x. dailyKey x = dailyOf k) (\<lambda>x. d')) (returnT ()))) w (n1, dat) = Inr (x, n', dat')"
    by (auto simp: projectSettlement_def tx_inv elim!: tx_elim)
  note u = readSettlement_usage [OF r]
  show ?thesis
  proof (cases "find (\<lambda>d. dailyKey d = dailyOf k) (usage_daily dat)")
    case None
    with rest have s: "usage_daily dat' = usage_daily dat @ [firstUsage k u]" "usage_events dat' = usage_events dat"
      "\<not> list_ex (\<lambda>d. dailyKey d = dailyKey (firstUsage k u)) (usage_daily dat)"
      by (auto simp: insertDaily_def tx_inv)
    have f: "ud_input (firstUsage k u) = us_input u" "ud_output (firstUsage k u) = us_output u" "ud_cost (firstUsage k u) = us_cost u"
      by (simp_all add: firstUsage_def)
    from daysAdded_insert [OF t s(3)] s show ?thesis by (simp add: f u fieldAmount_range)
  next
    case (Some d)
    with rest obtain d' where d': "addUsage u d = Some d'"
      and s: "usage_daily dat' = updateWhere (\<lambda>x. dailyKey x = dailyOf k) (\<lambda>x. d') (usage_daily dat)" "usage_events dat' = usage_events dat"
      by (auto simp: updateDaily_def tx_inv elim!: tx_elim)
    have "dailyKey d = dailyOf k" using find_SomeD [OF Some] by simp
    with addUsage_sums [OF d'] u s daysAdded_update [OF t Some, of "\<lambda>x. d'"] show ?thesis by (simp add: fieldAmount_range)
  qed
qed

lemma projectReconciliation_days:
  assumes run: "projectReconciliation j w (n, dat) = Inr (x, n', dat')" and t: "daysTyped (usage_daily dat)"
  shows "usage_events dat' = usage_events dat \<and> daysAdded (usage_daily dat)
    (fieldAmount ''input_tokens'' j, fieldAmount ''output_tokens'' j, fieldAmount ''cost_nanos'' j) (usage_daily dat')"
proof -
  from run obtain k d i out c un where f: "find (\<lambda>d. dailyKey d = dailyOf k) (usage_daily dat) = Some d"
    and add: "checkedAdd [ud_input d, fieldAmount ''input_tokens'' j] = Some i" "checkedAdd [ud_output d, fieldAmount ''output_tokens'' j] = Some out"
      "checkedAdd [ud_cost d, fieldAmount ''cost_nanos'' j] = Some c"
    and s: "usage_daily dat' = updateWhere (\<lambda>x. dailyKey x = dailyOf k)
       (\<lambda>x. x\<lparr>ud_input := i, ud_output := out, ud_cost := c, ud_unknown := un\<rparr>) (usage_daily dat)" "usage_events dat' = usage_events dat"
    by (auto simp: projectReconciliation_def updateDaily_def tx_inv Let_def nullInt64_field elim!: tx_elim)
  have "daysAdded (usage_daily dat) (fieldAmount ''input_tokens'' j, fieldAmount ''output_tokens'' j, fieldAmount ''cost_nanos'' j) (usage_daily dat')"
    unfolding s(1) by (rule daysAdded_update [OF t f]) (simp_all add: add fieldAmount_range dailyKey_def)
  with s(2) show ?thesis by simp
qed

lemma projectCostAdjustment_days:
  assumes run: "projectCostAdjustment j w (n, dat) = Inr (x, n', dat')" and t: "daysTyped (usage_daily dat)"
  shows "usage_events dat' = usage_events dat \<and> daysAdded (usage_daily dat) (0, 0, fieldAmount ''delta_nanos'' j) (usage_daily dat')"
proof -
  from run obtain k d c un where f: "find (\<lambda>d. dailyKey d = dailyOf k) (usage_daily dat) = Some d"
    and add: "checkedAdd [ud_cost d, fieldAmount ''delta_nanos'' j] = Some c"
    and s: "usage_daily dat' = updateWhere (\<lambda>x. dailyKey x = dailyOf k) (\<lambda>x. x\<lparr>ud_cost := c, ud_unknown := un\<rparr>) (usage_daily dat)"
      "usage_events dat' = usage_events dat"
    by (auto simp: projectCostAdjustment_def updateDaily_def tx_inv elim!: tx_elim dest!: fieldInt_amount)
  have zero: "int64_range 0" by (simp add: int64_range_def int64_limits)
  from find_SomeD [OF f] t have "int64_range (ud_input d)" "int64_range (ud_output d)" by (simp_all add: daysTyped_def)
  then have "checkedAdd [ud_input d, 0] = Some (ud_input d)" "checkedAdd [ud_output d, 0] = Some (ud_output d)"
    by (simp_all add: checkedAdd2 zero)
  then have "daysAdded (usage_daily dat) (0, 0, fieldAmount ''delta_nanos'' j) (usage_daily dat')"
    unfolding s(1) by (intro daysAdded_update [OF t f]) (simp_all add: add fieldAmount_range dailyKey_def zero)
  with s(2) show ?thesis by simp
qed

lemma projectCancelledRequest_days:
  assumes run: "projectCancelledRequest j m w (n, dat) = Inr (x, n', dat')" and t: "daysTyped (usage_daily dat)"
  shows "usage_events dat' = usage_events dat \<and> daysAdded (usage_daily dat) (0, 0, 0) (usage_daily dat')"
proof -
  have zero: "int64_range 0" by (simp add: int64_range_def int64_limits)
  from run consider (hit) k where "usage_daily dat' = updateWhere (\<lambda>d. dailyKey d = dailyKey ((emptyDaily k)\<lparr>ud_requests := m\<rparr>)) (\<lambda>d. d\<lparr>ud_requests := ud_requests d + m\<rparr>) (usage_daily dat)"
      "usage_events dat' = usage_events dat"
    | (new) k where "\<not> list_ex (\<lambda>d. dailyKey d = dailyKey ((emptyDaily k)\<lparr>ud_requests := m\<rparr>)) (usage_daily dat)"
      "usage_daily dat' = usage_daily dat @ [(emptyDaily k)\<lparr>ud_requests := m\<rparr>]" "usage_events dat' = usage_events dat"
    by (auto simp: projectCancelledRequest_def upsertDaily_def tx_inv elim!: tx_elim split: if_splits)
  then show ?thesis
  proof cases
    case hit
    from t have "daysTyped (usage_daily dat')" by (auto simp: hit(1) daysTyped_def set_updateWhere map_updateWhere dailyKey_def)
    then have "daysAdded (usage_daily dat) (0, 0, 0) (usage_daily dat')" by (simp add: daysAdded_def hit(1) map_updateWhere)
    with hit(2) show ?thesis by simp
  next
    case new
    from daysAdded_insert [OF t new(1)] new(2,3) zero show ?thesis by (simp add: emptyDaily_def)
  qed
qed

lemma projectKind_days:
  assumes run: "projectKind e w (n, dat) = Inr (x, n', dat')" and t: "daysTyped (usage_daily dat)"
  shows "usage_events dat' = usage_events dat \<and> daysAdded (usage_daily dat) (eventUsage e) (usage_daily dat')"
proof -
  have count: "requestIncrement types r w (n, dat) = Inr (m, n1, dat1) \<Longrightarrow> dat1 = dat" for types r m n1 dat1
    by (auto simp: requestIncrement_def tx_inv split: option.splits elim!: tx_elim)
  consider (settled) m n1 where "eo_type e = ''attempt.settled''" "projectSettlement (eo_payload e) m w (n1, dat) = Inr (x, n', dat')"
    | (cancelled) m n1 where "eo_type e = ''request.cancelled_before_dispatch''" "projectCancelledRequest (eo_payload e) m w (n1, dat) = Inr (x, n', dat')"
    | (reconciled) "eo_type e = ''attempt.reconciled''" "projectReconciliation (eo_payload e) w (n, dat) = Inr (x, n', dat')"
    | (adjusted) "eo_type e = ''attempt.cost_adjusted''" "projectCostAdjustment (eo_payload e) w (n, dat) = Inr (x, n', dat')"
    | (other) "eventUsage e = (0, 0, 0)" "dat' = dat"
    using run by (auto simp: projectKind_def tx_inv eventUsage_def split: if_splits elim!: tx_elim dest!: count)
  then show ?thesis
  proof cases
    case settled with projectSettlement_days [OF _ t] show ?thesis by (simp add: eventUsage_def)
  next
    case cancelled with projectCancelledRequest_days [OF _ t] show ?thesis by (simp add: eventUsage_def)
  next
    case reconciled with projectReconciliation_days [OF _ t] show ?thesis by (simp add: eventUsage_def)
  next
    case adjusted with projectCostAdjustment_days [OF _ t] show ?thesis by (simp add: eventUsage_def)
  next
    case other with daysAdded_none [OF t] show ?thesis by simp
  qed
qed

text \<open>A committed event is either new and counted, or known and ignored.\<close>

lemma projectEvent_Inr:
  assumes run: "projectEvent cutoff e w (n, dat) = Inr (x, n', dat')" and t: "daysTyped (usage_daily dat)"
  shows "if eo_id e \<in> ev_id ` set (usage_events dat) then dat' = dat
         else map ev_id (usage_events dat') = map ev_id (usage_events dat) @ [eo_id e] \<and> daysAdded (usage_daily dat) (eventUsage e) (usage_daily dat')"
proof (cases "eo_id e \<in> ev_id ` set (usage_events dat)")
  case True
  then have "list_ex (\<lambda>a. ev_id a = ev_id (eventRow e)) (usage_events dat)" by (auto simp: list_ex_iff eventRow_def)
  with run have "dat' = dat" by (auto simp: projectEvent_def insertUsageEvent_def tx_inv elim!: tx_elim)
  with True show ?thesis by simp
next
  case False
  then have new: "\<not> list_ex (\<lambda>a. ev_id a = ev_id (eventRow e)) (usage_events dat)"
    by (auto simp: list_ex_iff eventRow_def) (metis image_eqI)
  let ?d1 = "usage_events_update (\<lambda>es. es @ [eventRow e]) dat"
  from run new obtain y n1 d2 where k: "projectKind e w (Suc n, ?d1) = Inr (y, n1, d2)"
    and d: "usage_daily dat' = usage_daily d2" "map ev_id (usage_events dat') = map ev_id (usage_events d2)"
    by (auto simp: projectEvent_def insertUsageEvent_def updateUsageEvents_def tx_inv map_updateWhere elim!: tx_elim split: if_splits)
  from projectKind_days [OF k] t have "usage_events d2 = usage_events ?d1" "daysAdded (usage_daily dat) (eventUsage e) (usage_daily d2)" by simp_all
  with d False show ?thesis by (simp add: eventRow_def)
qed

section \<open>Delivery\<close>

text \<open>
  Of all events ever put in the outbox, the first \<open>j\<close> are no longer pending and the first \<open>k\<close> are
  counted; the projector is never more than one event ahead of the outbox.
\<close>

definition delivery :: "data_store \<Rightarrow> outbox_row list \<Rightarrow> store \<Rightarrow> data_store \<Rightarrow> bool" where
  "delivery dat0 evs sys dat \<longleftrightarrow> daysTyped (usage_daily dat) \<and>
     (\<exists>j k. j \<le> k \<and> k \<le> Suc j \<and> k \<le> length evs \<and> pendingEvents sys = drop j evs \<and> counted dat0 (take k evs) dat)"

definition freshEvents :: "data_store \<Rightarrow> outbox_row list \<Rightarrow> bool" where
  "freshEvents dat0 evs \<longleftrightarrow> distinct (map ev_id (usage_events dat0) @ map eo_id evs)"

lemma counted_next:
  assumes "counted dat0 evs dat" "map ev_id (usage_events dat') = map ev_id (usage_events dat) @ [eo_id e]"
    and "daysAdded (usage_daily dat) (eventUsage e) (usage_daily dat')"
  shows "counted dat0 (evs @ [e]) dat'"
  using assms by (simp add: counted_def daysAdded_def dailyTotal_def)

text \<open>The event at the head of the queue, projected: it is counted, whether it was before or not.\<close>

lemma project_head:
  assumes ids: "freshEvents dat0 evs" and d: "daysTyped (usage_daily dat)" and k: "j \<le> k" "k \<le> Suc j" and c: "counted dat0 (take k evs) dat"
    and e: "drop j evs = e # rest" and run: "projectEvent cutoff e w (n, dat) = Inr (x, n', dat')"
  shows "daysTyped (usage_daily dat') \<and> counted dat0 (take (Suc j) evs) dat'"
proof -
  have j: "j < length evs" "evs ! j = e" using e by (metis Cons_nth_drop_Suc drop_all linorder_not_less list.distinct(1), metis hd_drop_conv_nth drop_all linorder_not_less list.distinct(1) list.sel(1))
  then have next1: "take (Suc j) evs = take j evs @ [e]" by (simp add: take_Suc_conv_app_nth)
  note step = projectEvent_Inr [OF run d]
  show ?thesis
  proof (cases "k = j")
    case True
    have "distinct (map ev_id (usage_events dat0) @ map eo_id (take (Suc j) evs))"
    proof -
      have "map ev_id (usage_events dat0) @ map eo_id evs = (map ev_id (usage_events dat0) @ map eo_id (take (Suc j) evs)) @ map eo_id (drop (Suc j) evs)"
        by (simp flip: map_append)
      with ids show ?thesis unfolding freshEvents_def by (metis distinct_append)
    qed
    then have "eo_id e \<notin> set (map ev_id (usage_events dat))" using c True by (auto simp: next1 counted_def)
    then have "eo_id e \<notin> ev_id ` set (usage_events dat)" by simp
    with step have new: "map ev_id (usage_events dat') = map ev_id (usage_events dat) @ [eo_id e]" "daysAdded (usage_daily dat) (eventUsage e) (usage_daily dat')"
      by simp_all
    from counted_next [OF _ new] c True new(2) show ?thesis by (simp add: next1 daysAdded_def)
  next
    case False
    with k have k': "k = Suc j" by simp
    with c have "eo_id e \<in> set (map ev_id (usage_events dat))" by (auto simp: next1 counted_def)
    with step have "dat' = dat" by simp
    with c d k' show ?thesis by simp
  qed
qed

lemma pending_marked:
  assumes "autoT (markDelivered i) w sys = (Inr x, sys')"
  shows "pendingEvents sys' = filter (\<lambda>e. eo_id e \<noteq> i) (pendingEvents sys)"
proof -
  from autoT_Inr [OF assms] obtain n n' now where s: "event_outbox sys' = updateWhere (\<lambda>e. eo_id e = i \<and> eo_delivered e = None)
      (\<lambda>e. e\<lparr>eo_delivered := Some now\<rparr>) (event_outbox sys)"
    by (auto simp: markDelivered_def updateEvents_def tx_inv elim!: tx_elim)
  have "filter (\<lambda>e. eo_delivered e = None) (updateWhere (\<lambda>e. eo_id e = i \<and> eo_delivered e = None) (\<lambda>e. e\<lparr>eo_delivered := Some now\<rparr>) es) =
      filter (\<lambda>e. eo_id e \<noteq> i) (filter (\<lambda>e. eo_delivered e = None) es)" for es :: "outbox_row list"
    by (induction es) auto
  then show ?thesis by (simp add: pendingEvents_def s)
qed

lemma pending_dropped:
  assumes "autoT (dropDelivered i) w sys = (r, sys')"
  shows "pendingEvents sys' = pendingEvents sys"
proof -
  have "keepsT (\<lambda>s. pendingEvents s = pendingEvents sys) (dropDelivered i)"
  proof -
    have "filter (\<lambda>e. eo_delivered e = None) (filter (\<lambda>e. \<not> (eo_id e = i \<and> eo_delivered e \<noteq> None)) es) = filter (\<lambda>e. eo_delivered e = None) es" for es :: "outbox_row list"
      by (induction es) auto
    then show ?thesis
      unfolding dropDelivered_def deleteEvents_def
      by (intro keeps) (unfold keepsT_def pendingEvents_def, rule okT_delete, simp)
  qed
  from keepsT_auto [OF this refl, of w] assms show ?thesis by simp
qed

lemma deliver_keeps:
  assumes "freshEvents dat0 evs" "delivery dat0 evs sys dat" "\<exists>rest. pendingEvents sys = items @ rest"
    and "deliver cutoff ws n items sys dat = (m, err, sys', dat')"
  shows "delivery dat0 evs sys' dat'"
  using assms
proof (induction items arbitrary: n sys dat)
  case (Cons e es)
  from Cons.prems(2) obtain j k where d: "daysTyped (usage_daily dat)" and jk: "j \<le> k" "k \<le> Suc j" "k \<le> length evs"
    and p: "pendingEvents sys = drop j evs" and c: "counted dat0 (take k evs) dat" by (auto simp: delivery_def)
  from Cons.prems(3) p obtain rest where e: "drop j evs = e # es @ rest" by auto
  then have j: "Suc j \<le> length evs" "drop (Suc j) evs = es @ rest" by (metis drop_all linorder_not_less list.distinct(1) not_less_eq_eq, metis drop_Suc list.sel(3) tl_drop)
  show ?case
  proof (cases "atomicT (projectEvent cutoff e) (ws (3 * n)) dat")
    case (Pair r dat1)
    show ?thesis
    proof (cases r)
      case (Inl err1)
      with Pair atomicT_error [of "projectEvent cutoff e" "ws (3 * n)" dat err1] Cons.prems(2,4) show ?thesis by simp
    next
      case (Inr u)
      from atomicT_Inr [of "projectEvent cutoff e" "ws (3 * n)" dat u dat1] Pair Inr obtain a b where
        "projectEvent cutoff e (ws (3 * n)) (a, dat) = Inr (u, b, dat1)" by auto
      from project_head [OF Cons.prems(1) d jk(1,2) c e this] have d1: "daysTyped (usage_daily dat1)" and c1: "counted dat0 (take (Suc j) evs) dat1" by simp_all
      have ahead: "delivery dat0 evs sys dat1" unfolding delivery_def using d1 c1 p j(1) by (intro conjI exI [of _ j] exI [of _ "Suc j"]) simp_all
      show ?thesis
      proof (cases "autoT (markDelivered (eo_id e)) (ws (3 * n + 1)) sys")
        case mark: (Pair r1 sys1)
        show ?thesis
        proof (cases r1)
          case (Inl err1)
          with mark have "sys1 = sys" by (auto simp: autoT_def split: sum.splits)
          with Inl mark Pair Inr Cons.prems(4) ahead show ?thesis by simp
        next
          case r1: (Inr u1)
          have "distinct (map eo_id (drop j evs))"
            using Cons.prems(1) by (simp add: freshEvents_def drop_map [symmetric])
          then have "eo_id e \<notin> eo_id ` set (es @ rest)" unfolding e by auto
          then have "\<forall>x \<in> set (es @ rest). eo_id x \<noteq> eo_id e" by (metis imageI)
          then have "filter (\<lambda>x. eo_id x \<noteq> eo_id e) (es @ rest) = es @ rest" by (rule filter_True)
          then have "filter (\<lambda>x. eo_id x \<noteq> eo_id e) (drop j evs) = es @ rest" unfolding e by simp
          with pending_marked [of "eo_id e" "ws (3 * n + 1)" sys u1 sys1] mark r1 p j(2) have p1: "pendingEvents sys1 = drop (Suc j) evs" by simp
          have after: "delivery dat0 evs s dat1" if "pendingEvents s = drop (Suc j) evs" for s
            unfolding delivery_def using d1 c1 that j(1) by (intro conjI exI [of _ "Suc j"]) simp_all
          show ?thesis
          proof (cases "autoT (dropDelivered (eo_id e)) (ws (3 * n + 2)) sys1")
            case drop2: (Pair r2 sys2)
            from pending_dropped [OF drop2] p1 have p2: "pendingEvents sys2 = drop (Suc j) evs" by simp
            show ?thesis
            proof (cases r2)
              case (Inl err2)
              with after [OF p2] drop2 mark r1 Pair Inr Cons.prems(4) show ?thesis by simp
            next
              case r2: (Inr u2)
              have "\<exists>rest. pendingEvents sys2 = es @ rest" using p2 j(2) by auto
              from Cons.IH [OF Cons.prems(1) after [OF p2] this, of "Suc n"] r2 drop2 mark r1 Pair Inr Cons.prems(4) show ?thesis by simp
            qed
          qed
        qed
      qed
    qed
  qed
qed simp

section \<open>Runs\<close>

text \<open>
  The service and the projector in any order: calls of the usage service, which append events, and
  passes of the projector, each with any worlds and any batch size, from the stores \<open>sys0\<close> and \<open>dat0\<close>. The
  list is every event that was ever pending.
\<close>

inductive projecting :: "store \<Rightarrow> data_store \<Rightarrow> outbox_row list \<Rightarrow> store \<Rightarrow> data_store \<Rightarrow> bool" for sys0 dat0 where
  start: "projecting sys0 dat0 (pendingEvents sys0) sys0 dat0"
| call: "projecting sys0 dat0 evs sys dat \<Longrightarrow> goTyped op \<Longrightarrow>
    projecting sys0 dat0 (evs @ drop (length (pendingEvents sys)) (pendingEvents (perform op w w' sys))) (perform op w w' sys) dat"
| pass: "projecting sys0 dat0 evs sys dat \<Longrightarrow> ProjectOutbox ws w limit sys dat = (n, err, sys', dat') \<Longrightarrow> projecting sys0 dat0 evs sys' dat'"

lemma perform_appends: "goTyped op \<Longrightarrow> \<exists>new. pendingEvents (perform op w w' sys) = pendingEvents sys @ new"
  using queued.perform_keeps [of sys sys op w w'] by (simp add: queuedAfter_def)

lemma projecting_delivery:
  assumes "projecting sys0 dat0 evs sys dat" "freshEvents dat0 evs" "daysTyped (usage_daily dat0)"
  shows "delivery dat0 evs sys dat"
  using assms
proof (induction rule: projecting.induct)
  case start
  then show ?case unfolding delivery_def by (intro conjI exI [of _ 0]) (simp_all add: counted_def)
next
  case (call evs sys dat op w w')
  from perform_appends [OF call.hyps(2), of w w' sys] obtain new where new: "pendingEvents (perform op w w' sys) = pendingEvents sys @ new" by blast
  from call.prems(1) have "freshEvents dat0 evs" by (auto simp: freshEvents_def)
  from call.IH [OF this call.prems(2)] obtain j k where d: "daysTyped (usage_daily dat)" and jk: "j \<le> k" "k \<le> Suc j" "k \<le> length evs"
    and p: "pendingEvents sys = drop j evs" and c: "counted dat0 (take k evs) dat" by (auto simp: delivery_def)
  show ?case unfolding delivery_def by (intro conjI exI [of _ j] exI [of _ k]) (use d jk p c in \<open>simp_all add: new\<close>)
next
  case (pass evs sys dat ws w limit n err sys' dat')
  note IH = pass.IH [OF pass.prems]
  have "\<exists>rest. pendingEvents sys = take m (pendingEvents sys) @ rest" for m by (metis append_take_drop_id)
  note batch = deliver_keeps [OF pass.prems(1) IH this]
  from pass.hyps(2) consider (failed) "sys' = sys" "dat' = dat"
    | (ran) m where "deliver (eventDetailCutoff dat) ws 0 (take m (pendingEvents sys)) sys dat = (n, err, sys', dat')"
    by (auto simp: ProjectOutbox_def Let_def split: if_splits)
  then show ?case
  proof cases
    case failed with IH show ?thesis by simp
  next
    case ran then show ?thesis by (rule batch)
  qed
qed

text \<open>
  (C19) Every event is counted exactly once. Whatever calls of the usage service and passes of the projector
  follow each other, and at whatever statement of either database a pass is interrupted: the events
  still pending are a suffix of all events, the analytics database has recorded a prefix of them, each
  event once and in order, and the two meet except for at most one event that is already counted and
  still pending (it is recognised and not counted again); and the totals of input tokens, output
  tokens and cost over all days are those at the start plus what the recorded events say, to the
  unit. Assumed: event ids are unique, and the days at the start are one row per key of int64 values.
\<close>

theorem projection_exactly_once:
  assumes run: "projecting sys0 dat0 evs sys dat"
    and ids: "distinct (map ev_id (usage_events dat0) @ map eo_id evs)" and days: "daysTyped (usage_daily dat0)"
  shows "\<exists>j k. j \<le> k \<and> k \<le> Suc j \<and> k \<le> length evs \<and> pendingEvents sys = drop j evs \<and>
           map ev_id (usage_events dat) = map ev_id (usage_events dat0) @ map eo_id (take k evs) \<and>
           dailyTotal ud_input dat = dailyTotal ud_input dat0 + sum_list (map (\<lambda>e. fst (eventUsage e)) (take k evs)) \<and>
           dailyTotal ud_output dat = dailyTotal ud_output dat0 + sum_list (map (\<lambda>e. fst (snd (eventUsage e))) (take k evs)) \<and>
           dailyTotal ud_cost dat = dailyTotal ud_cost dat0 + sum_list (map (\<lambda>e. snd (snd (eventUsage e))) (take k evs))"
  using projecting_delivery [OF run _ days] ids unfolding delivery_def counted_def freshEvents_def by blast

section \<open>A crash between the two databases\<close>

text \<open>
  The attempt of the sample run is admitted and settled, which leaves two events. The first pass of the
  projector stops after it has counted the second event, before it can be marked as delivered; the
  second pass meets it again.
\<close>

definition emptyData :: data_store where
  "emptyData = \<lparr>usage_events = [], usage_daily = [], projection_metadata = []\<rparr>"

definition crashAt :: "nat \<Rightarrow> nat \<Rightarrow> world" where
  "crashAt m n = (if n = m then calmWorld\<lparr>w_fault := \<lambda>_. True\<rparr> else calmWorld)"

definition sampleKey :: payload_key where
  "sampleKey = \<lparr>pk_owner = ''usr_1'', pk_key = ''key_1'', pk_model = ''gpt'', pk_connection = ''con_1'', pk_started = 1700000000003\<rparr>"

definition sampleUsage :: usage_delta where
  "sampleUsage = \<lparr>us_requests = 1, us_input = 90, us_output = 40, us_cacheCreation = 0, us_cacheRead = 0, us_cache5m = 0, us_cache1h = 0,
     us_webCalls = 0, us_cost = 700, us_unknown = 0\<rparr>"

lemma done_payload: "settledPayload doneInput chatAttempt chatRequest =
   [(''owner_user_id'', JStr ''usr_1''), (''key_id'', JStr ''key_1''), (''model_id'', JStr ''gpt''), (''connection_id'', JStr ''con_1''),
    (''started_at'', JNum ''1700000000003''), (''state'', JStr ''succeeded''), (''usage_status'', JStr ''provider_reported''),
    (''input_tokens'', jint 90), (''output_tokens'', jint 40), (''cache_creation_input_tokens'', JNull), (''cache_read_input_tokens'', JNull),
    (''cache_creation_5m_input_tokens'', JNull), (''cache_creation_1h_input_tokens'', JNull), (''web_search_call_count'', JNull), (''cost_nanos'', jint 700)]"
  by (simp add: settledPayload_def cancelledPayload_def doneInput_def chatRequest_def chatAttempt_def newAttempt_def jintOpt_def jint_started)

lemma done_read: "readSettlement (eo_payload doneEvent) 1 = Some (sampleKey, sampleUsage)"
  unfolding doneEvent_def outbox_row.select_convs done_payload by code_simp

lemma done_usage: "eventUsage chatEvent = (0, 0, 0)" "eventUsage doneEvent = (90, 40, 700)"
proof -
  show "eventUsage chatEvent = (0, 0, 0)" by (simp add: eventUsage_def chatEvent_def)
  have "eo_type doneEvent = ''attempt.settled''" by (simp add: doneEvent_def)
  moreover have "fieldAmount ''input_tokens'' (eo_payload doneEvent) = 90" "fieldAmount ''output_tokens'' (eo_payload doneEvent) = 40"
    "fieldAmount ''cost_nanos'' (eo_payload doneEvent) = 700"
    using readSettlement_usage [OF done_read] by (simp_all add: sampleUsage_def)
  ultimately show "eventUsage doneEvent = (90, 40, 700)" by (simp add: eventUsage_def)
qed

lemma crash_project:
  "atomicT (projectEvent 0 chatEvent) calmWorld emptyData = (Inr (), emptyData\<lparr>usage_events := [eventRow chatEvent]\<rparr>)"
  "\<exists>d. atomicT (projectEvent 0 doneEvent) calmWorld (emptyData\<lparr>usage_events := [eventRow chatEvent]\<rparr>) =
     (Inr (), emptyData\<lparr>usage_events := [eventRow chatEvent, eventRow doneEvent], usage_daily := [d]\<rparr>)"
  "atomicT (projectEvent 0 doneEvent) calmWorld (emptyData\<lparr>usage_events := [eventRow chatEvent, eventRow doneEvent], usage_daily := [d]\<rparr>) =
     (Inr (), emptyData\<lparr>usage_events := [eventRow chatEvent, eventRow doneEvent], usage_daily := [d]\<rparr>)"
proof -
  have ev: "eo_type chatEvent = ''attempt.reserved''" "eo_type doneEvent = ''attempt.settled''" "eo_id chatEvent = ''evt_19''" "eo_id doneEvent = ''evt_16''"
    "eo_request doneEvent = Some ''req_1''"
    by (simp_all add: chatEvent_def doneEvent_def)
  have calm: "w_fault calmWorld n = False" for n by (simp add: calmWorld_def)
  have ok: "\<not> incompleteKey sampleKey" "dailyCheck (firstUsage sampleKey sampleUsage)"
    by (simp_all add: incompleteKey_def sampleKey_def dailyCheck_def firstUsage_def sampleUsage_def emptyDaily_def)
  note defs = atomicT_def projectEvent_def projectKind_def insertUsageEvent_def tx_defs eventRow_def emptyData_def ev calm
  show "atomicT (projectEvent 0 chatEvent) calmWorld emptyData = (Inr (), emptyData\<lparr>usage_events := [eventRow chatEvent]\<rparr>)"
    by (simp add: defs)
  show "\<exists>d. atomicT (projectEvent 0 doneEvent) calmWorld (emptyData\<lparr>usage_events := [eventRow chatEvent]\<rparr>) =
     (Inr (), emptyData\<lparr>usage_events := [eventRow chatEvent, eventRow doneEvent], usage_daily := [d]\<rparr>)"
    by (simp add: defs requestIncrement_def projectSettlement_def insertDaily_def done_read ok)
  show "atomicT (projectEvent 0 doneEvent) calmWorld (emptyData\<lparr>usage_events := [eventRow chatEvent, eventRow doneEvent], usage_daily := [d]\<rparr>) =
     (Inr (), emptyData\<lparr>usage_events := [eventRow chatEvent, eventRow doneEvent], usage_daily := [d]\<rparr>)"
    by (simp add: defs)
qed

lemma deliver_head:
  assumes "event_outbox sys = e # es" "eo_delivered e = None" "outboxCheck e" "\<forall>x \<in> set es. eo_id x \<noteq> eo_id e"
  shows "\<exists>sys1 sys2. autoT (markDelivered (eo_id e)) calmWorld sys = (Inr (), sys1) \<and> autoT (dropDelivered (eo_id e)) calmWorld sys1 = (Inr (), sys2) \<and>
     event_outbox sys2 = es"
proof -
  have same: "outboxCheck (x\<lparr>eo_delivered := t\<rparr>) = outboxCheck x" for x :: outbox_row and t by (simp add: outboxCheck_def)
  have "updateWhere (\<lambda>x. eo_id x = eo_id e \<and> eo_delivered x = None) f es = es" for f using assms(4) by (intro updateWhere_none) auto
  moreover have "filter (\<lambda>x. \<not> (eo_id x = eo_id e \<and> eo_delivered x \<noteq> None)) es = es" using assms(4) by (intro filter_True) auto
  ultimately show ?thesis using assms
    by (auto simp: autoT_def markDelivered_def dropDelivered_def updateEvents_def deleteEvents_def tx_defs calmWorld_def list_all_iff same)
qed

lemma crash_passes:
  "\<exists>sys1 dat1 sys2 dat2. ProjectOutbox (crashAt 4) calmWorld 100 settledStore emptyData = (1, Some ErrDriver, sys1, dat1) \<and>
     pendingEvents sys1 = [doneEvent] \<and> map ev_id (usage_events dat1) = [''evt_19'', ''evt_16''] \<and>
     ProjectOutbox (\<lambda>_. calmWorld) calmWorld 100 sys1 dat1 = (1, None, sys2, dat2) \<and> pendingEvents sys2 = []"
proof -
  have ids: "eo_id chatEvent = ''evt_19''" "eo_id doneEvent = ''evt_16''" "eo_delivered chatEvent = None" "eo_delivered doneEvent = None"
    by (simp_all add: chatEvent_def doneEvent_def)
  have ok: "outboxCheck chatEvent" by code_simp
  have ok2: "outboxCheck doneEvent" unfolding outboxCheck_def doneEvent_def done_payload outbox_row.select_convs by code_simp
  have out: "event_outbox settledStore = [chatEvent, doneEvent]" by (simp add: settledStore_def)
  obtain d where two: "atomicT (projectEvent 0 doneEvent) calmWorld (emptyData\<lparr>usage_events := [eventRow chatEvent]\<rparr>) =
     (Inr (), emptyData\<lparr>usage_events := [eventRow chatEvent, eventRow doneEvent], usage_daily := [d]\<rparr>)" using crash_project(2) ..
  obtain m1 s1 where one: "autoT (markDelivered ''evt_19'') calmWorld settledStore = (Inr (), m1)" "autoT (dropDelivered ''evt_19'') calmWorld m1 = (Inr (), s1)"
    "event_outbox s1 = [doneEvent]" using deliver_head [OF out _ ok] ids by auto
  obtain m2 s2 where last: "autoT (markDelivered ''evt_16'') calmWorld s1 = (Inr (), m2)" "autoT (dropDelivered ''evt_16'') calmWorld m2 = (Inr (), s2)"
    "event_outbox s2 = []" using deliver_head [OF one(3) _ ok2] ids by auto
  have crash: "autoT (markDelivered ''evt_16'') (calmWorld\<lparr>w_fault := \<lambda>_. True\<rparr>) s1 = (Inl ErrDriver, s1)"
    by (simp add: autoT_def markDelivered_def updateEvents_def tx_defs)
  have cut: "eventDetailCutoff dat = 0" if "projection_metadata dat = []" for dat using that by (simp add: eventDetailCutoff_def)
  have calm: "\<not> w_fault calmWorld n" for n by (simp add: calmWorld_def)
  have meta: "projection_metadata emptyData = []" by (simp add: emptyData_def)
  let ?dat1 = "emptyData\<lparr>usage_events := [eventRow chatEvent, eventRow doneEvent], usage_daily := [d]\<rparr>"
  have "ProjectOutbox (crashAt 4) calmWorld 100 settledStore emptyData = (1, Some ErrDriver, s1, ?dat1)"
    by (simp add: ProjectOutbox_def pendingEvents_def out ids calm cut meta crashAt_def
        crash_project(1) two one(1,2) crash)
  moreover have "ProjectOutbox (\<lambda>_. calmWorld) calmWorld 100 s1 ?dat1 = (1, None, s2, ?dat1)"
    by (simp add: ProjectOutbox_def pendingEvents_def one(3) ids calm cut meta
        crash_project(3) last(1,2))
  ultimately show ?thesis using one(3) last(3) ids by (simp add: pendingEvents_def eventRow_def)
qed

text \<open>The run of the witness: two calls of the service, then the two passes.\<close>

theorem projection_exactly_once_witness:
  "\<exists>sys1 dat1 sys2 dat2. ProjectOutbox (crashAt 4) calmWorld 100 settledStore emptyData = (1, Some ErrDriver, sys1, dat1) \<and>
     ProjectOutbox (\<lambda>_. calmWorld) calmWorld 100 sys1 dat1 = (1, None, sys2, dat2) \<and> pendingEvents sys2 = [] \<and>
     dailyTotal ud_input dat2 = 90 \<and> dailyTotal ud_output dat2 = 40 \<and> dailyTotal ud_cost dat2 = 700"
proof -
  obtain sys1 dat1 sys2 dat2 where p1: "ProjectOutbox (crashAt 4) calmWorld 100 settledStore emptyData = (1, Some ErrDriver, sys1, dat1)"
    and p2: "ProjectOutbox (\<lambda>_. calmWorld) calmWorld 100 sys1 dat1 = (1, None, sys2, dat2)" and none: "pendingEvents sys2 = []"
    using crash_passes by blast
  have admit: "perform (OpAdmit ''e'' chatInput) calmWorld calmWorld openStore = chatStore" using admit_chat by auto
  have settle: "perform (OpSettle ''att_2'' doneInput) calmWorld calmWorld chatStore = settledStore" using settle_chat by simp
  have queue: "pendingEvents openStore = []" "pendingEvents chatStore = [chatEvent]" "pendingEvents settledStore = [chatEvent, doneEvent]"
    by (simp_all add: pendingEvents_def settledStore_def stage_stores chatEvent_def doneEvent_def)
  have "projecting openStore emptyData [chatEvent] chatStore emptyData"
    using projecting.call [OF projecting.start, of "OpAdmit ''e'' chatInput" openStore emptyData calmWorld calmWorld] admit queue by simp
  from projecting.call [OF this, of "OpSettle ''att_2'' doneInput" calmWorld calmWorld] settle queue
  have "projecting openStore emptyData [chatEvent, doneEvent] settledStore emptyData" using done_typed by simp
  from projecting.pass [OF projecting.pass [OF this p1] p2] have run: "projecting openStore emptyData [chatEvent, doneEvent] sys2 dat2" .
  have start: "distinct (map ev_id (usage_events emptyData) @ map eo_id [chatEvent, doneEvent])" "daysTyped (usage_daily emptyData)"
    "dailyTotal g emptyData = 0" for g
    by (simp_all add: emptyData_def chatEvent_def doneEvent_def daysTyped_def dailyTotal_def)
  from projection_exactly_once [OF run start(1,2)] obtain j k where jk: "j \<le> k" "k \<le> Suc j" "k \<le> 2" "pendingEvents sys2 = drop j [chatEvent, doneEvent]"
    and t: "dailyTotal ud_input dat2 = sum_list (map (\<lambda>e. fst (eventUsage e)) (take k [chatEvent, doneEvent]))"
      "dailyTotal ud_output dat2 = sum_list (map (\<lambda>e. fst (snd (eventUsage e))) (take k [chatEvent, doneEvent]))"
      "dailyTotal ud_cost dat2 = sum_list (map (\<lambda>e. snd (snd (eventUsage e))) (take k [chatEvent, doneEvent]))"
    by (auto simp: start(3))
  from jk none have "k = 2" by (cases j) (auto simp: Suc_le_eq split: nat.splits)
  with t have "dailyTotal ud_input dat2 = 90" "dailyTotal ud_output dat2 = 40" "dailyTotal ud_cost dat2 = 700" by (simp_all add: done_usage)
  with p1 p2 none show ?thesis by blast
qed

end
