(* ===== verification/Providers.thy ===== *)
theory Providers
  imports Settlement
begin

text \<open>
  The parts of \<^verbatim>\<open>features/providers\<close> that routing relies on: the preset table and what a preset
  supports (\<^verbatim>\<open>presets.go\<close>), capability lists, public models and manager checks
  (\<^verbatim>\<open>service.go\<close>), and external credential references (\<^verbatim>\<open>credential_source.go\<close>).
  A capability list that does not decode counts as empty where the code drops the error.
\<close>

section \<open>Capabilities\<close>

primrec containsString :: "string list \<Rightarrow> string \<Rightarrow> bool" where
  "containsString [] wanted = False"
| "containsString (v # vs) wanted = (if v = wanted then True else containsString vs wanted)"

lemma containsString_iff [simp]: "containsString vs wanted \<longleftrightarrow> wanted \<in> set vs"
  by (induction vs) auto

definition subset_of :: "string list \<Rightarrow> string list \<Rightarrow> bool" where
  "subset_of vals allowed = list_all (\<lambda>v. v \<in> set allowed) vals"

definition stringsOrEmpty :: "string \<Rightarrow> string list" where
  "stringsOrEmpty raw = (case unmarshalStrings raw of None \<Rightarrow> [] | Some vs \<Rightarrow> vs)"

definition lookupText :: "(string \<times> string) list \<Rightarrow> string \<Rightarrow> string" where
  "lookupText kvs k = (case map_of kvs k of None \<Rightarrow> [] | Some v \<Rightarrow> v)"

definition adapterLabels :: "(string \<times> string) list" where
  "adapterLabels = [(''openai'', ''OpenAI''), (''anthropic'', ''Anthropic''), (''gemini'', ''Google Gemini''), (''openai_compatible'', ''OpenAI compatible'')]"

definition capabilityLabels :: "(string \<times> string) list" where
  "capabilityLabels =
    [(''audio_speech'', ''Text to speech''), (''audio_transcription'', ''Audio transcription''),
     (''audio_translation'', ''Audio translation''), (''chat'', ''Chat''), (''completions'', ''Legacy completions''),
     (''count_tokens'', ''Token counting''), (''decisions'', ''Typed decisions (System One)''),
     (''embeddings'', ''Embeddings''), (''image_edit'', ''Image editing''), (''image_variation'', ''Image variation''),
     (''images'', ''Image generation''), (''interactions'', ''Interactions''), (''moderations'', ''Moderation''),
     (''media_jobs'', ''Asynchronous media jobs''), (''prompt_cache'', ''Prompt caching''),
     (''realtime'', ''Realtime audio and text''), (''web_fetch'', ''Web fetch''),
     (''web_fetch_cache_bypass'', ''Web fetch cache bypass''), (''web_fetch_dynamic'', ''Dynamic web fetch''),
     (''web_fetch_response_inclusion'', ''Web fetch response inclusion''), (''web_search'', ''Web search''),
     (''web_search_dynamic'', ''Dynamic web search''),
     (''web_search_response_inclusion'', ''Web search response inclusion'')]"

definition capabilityDetails :: "string list \<Rightarrow> (string \<times> string) list" where
  "capabilityDetails vals = map (\<lambda>v. (v, lookupText capabilityLabels v)) vals"

definition adapters :: "(string \<times> string list) list" where
  "adapters =
    [(''openai'', [''chat'', ''completions'', ''web_search'', ''embeddings'', ''moderations'', ''count_tokens'', ''images'',
       ''image_edit'', ''image_variation'', ''audio_speech'', ''audio_transcription'', ''audio_translation'', ''realtime'']),
     (''anthropic'', [''chat'', ''web_search'', ''web_search_dynamic'', ''web_search_response_inclusion'', ''web_fetch'',
       ''web_fetch_dynamic'', ''web_fetch_cache_bypass'', ''web_fetch_response_inclusion'', ''count_tokens'',
       ''prompt_cache'']),
     (''gemini'', [''chat'', ''count_tokens'', ''embeddings'', ''interactions'', ''realtime'', ''media_jobs'']),
     (''openai_compatible'', [''chat'', ''completions'', ''embeddings'', ''moderations'', ''count_tokens'', ''images'', ''image_edit'',
       ''image_variation'', ''audio_speech'', ''audio_transcription'', ''audio_translation'', ''media_jobs'',
       ''decisions''])]"

section \<open>Presets\<close>

record preset =
  ps_id :: string
  ps_adapter :: string
  ps_baseURL :: string
  ps_baseURLRequired :: bool
  ps_credentialRequired :: bool
  ps_privateNetwork :: bool
  ps_operations :: "string list"

definition preset_of :: "string \<Rightarrow> string \<Rightarrow> string \<Rightarrow> bool \<Rightarrow> bool \<Rightarrow> bool \<Rightarrow> string list \<Rightarrow> preset" where
  "preset_of i a u r c p ops = \<lparr>ps_id = i, ps_adapter = a, ps_baseURL = u, ps_baseURLRequired = r, ps_credentialRequired = c,
     ps_privateNetwork = p, ps_operations = ops\<rparr>"

definition presets :: "preset list" where
  "presets =
    [preset_of ''openai'' ''openai'' ''https://api.openai.com/v1'' False True False
       [''chat/completions'', ''completions'', ''responses'', ''responses/compact'', ''responses/input_tokens'', ''embeddings'', ''moderations'', ''images/generations'', ''images/edits'', ''images/variations'', ''audio/speech'', ''audio/transcriptions'', ''audio/translations'', ''realtime'', ''live''],
     preset_of ''anthropic'' ''anthropic'' ''https://api.anthropic.com/v1'' False True False
       [''messages'', ''messages/count_tokens''],
     preset_of ''gemini'' ''gemini'' ''https://generativelanguage.googleapis.com/v1beta'' False True False
       [''generateContent'', ''streamGenerateContent'', ''countTokens'', ''embedContent'', ''batchEmbedContents'', ''interactions'', ''BidiGenerateContent'', ''predictLongRunning''],
     preset_of ''openrouter'' ''openai_compatible'' ''https://openrouter.ai/api/v1'' False True False
       [''chat/completions'', ''responses'', ''embeddings'', ''audio/speech''],
     preset_of ''zai'' ''openai_compatible'' ''https://api.z.ai/api/paas/v4'' False True False
       [''chat/completions'', ''images/generations''],
     preset_of ''minimax'' ''openai_compatible'' ''https://api.minimax.io/v1'' False True False
       [''chat/completions'', ''responses'', ''responses/input_tokens''],
     preset_of ''ollama'' ''openai_compatible'' ''http://127.0.0.1:11434/v1'' False False True
       [''chat/completions'', ''embeddings''],
     preset_of ''mistral'' ''openai_compatible'' ''https://api.mistral.ai/v1'' False True False
       [''chat/completions'', ''embeddings'', ''audio/transcriptions''],
     preset_of ''groq'' ''openai_compatible'' ''https://api.groq.com/openai/v1'' False True False
       [''chat/completions'', ''responses'', ''audio/speech'', ''audio/transcriptions'', ''audio/translations''],
     preset_of ''deepseek'' ''openai_compatible'' ''https://api.deepseek.com'' False True False
       [''chat/completions'', ''responses''],
     preset_of ''xai'' ''openai_compatible'' ''https://api.x.ai/v1'' False True False
       [''chat/completions'', ''responses'', ''embeddings''],
     preset_of ''together'' ''openai_compatible'' ''https://api.together.ai/v1'' False True False
       [''chat/completions'', ''completions'', ''embeddings'', ''images/generations'', ''audio/speech'', ''audio/transcriptions'', ''audio/translations'', ''videos''],
     preset_of ''replicate'' ''openai_compatible'' ''https://api.replicate.com/v1'' False True False
       [''predictions''],
     preset_of ''fireworks'' ''openai_compatible'' ''https://api.fireworks.ai/inference/v1'' False True False
       [''chat/completions'', ''completions'', ''responses'', ''embeddings''],
     preset_of ''cohere'' ''openai_compatible'' ''https://api.cohere.ai/compatibility/v1'' False True False
       [''chat/completions'', ''embeddings''],
     preset_of ''perplexity'' ''openai_compatible'' ''https://api.perplexity.ai/v1'' False True False
       [''chat/completions'', ''responses'', ''embeddings''],
     preset_of ''azure-openai'' ''openai_compatible'' [] True True False
       [''chat/completions'', ''responses''],
     preset_of ''bedrock'' ''openai_compatible'' [] True True False
       [''chat/completions'', ''responses''],
     preset_of ''typesafe'' ''openai_compatible'' ''https://api.typesafe.ai/v1'' False True False
       [''systemone''],
     preset_of ''laya'' ''openai_compatible'' ''http://127.0.0.1:8000/v1'' False False True
       [''systemone''],
     preset_of ''codiv'' ''openai_compatible'' ''https://api.codiv.ai/v1'' False True False
       [''systemone''],
     preset_of ''vercel-typesafe'' ''openai_compatible'' ''https://ai-gateway.vercel.sh/typesafe/v1'' False True False
       [''systemone''],
     preset_of ''kev'' ''openai_compatible'' ''http://127.0.0.1:8009/v1'' False False True
       [''systemone''],
     preset_of ''clm'' ''openai_compatible'' ''http://127.0.0.1:8700/v1'' False False True
       [''systemone''],
     preset_of ''openjev'' ''openai_compatible'' [] True False True
       [''systemone''],
     preset_of ''vertex'' ''openai_compatible'' [] True True False
       [''chat/completions'']]"

definition presetCredentialRequired :: "string \<Rightarrow> bool" where
  "presetCredentialRequired presetID =
     (case find (\<lambda>p. ps_id p = presetID) presets of None \<Rightarrow> True | Some p \<Rightarrow> ps_credentialRequired p)"

text \<open>\<^verbatim>\<open>strings.TrimLeft(strings.SplitN(op, "?", 2)[0], "/")\<close>, then what follows the last colon.\<close>

definition operationName :: "string \<Rightarrow> string" where
  "operationName op =
     (let base = dropWhile (\<lambda>c. c = CHR ''/'') (takeWhile (\<lambda>c. c \<noteq> CHR ''?'') op)
      in if CHR '':'' \<in> set base then rev (takeWhile (\<lambda>c. c \<noteq> CHR '':'') (rev base)) else base)"

definition PresetSupports :: "string \<Rightarrow> string \<Rightarrow> bool" where
  "PresetSupports presetID operation =
     (if presetID = [] \<or> presetID = ''custom'' then True
      else case find (\<lambda>p. ps_id p = presetID) presets of
             None \<Rightarrow> False
           | Some p \<Rightarrow> operationName operation \<in> set (ps_operations p))"

definition operationCapability :: "string \<Rightarrow> string" where
  "operationCapability operation =
     (if operation = ''completions'' then ''completions''
      else if operation \<in> {''chat/completions'', ''messages'', ''generateContent'', ''streamGenerateContent'', ''responses'', ''responses/compact''}
      then ''chat''
      else if operation \<in> {''embeddings'', ''embedContent'', ''batchEmbedContents''} then ''embeddings''
      else if operation = ''moderations'' then ''moderations''
      else if operation = ''systemone'' then ''decisions''
      else if operation = ''images/generations'' then ''images''
      else if operation = ''images/edits'' then ''image_edit''
      else if operation = ''images/variations'' then ''image_variation''
      else if operation = ''audio/speech'' then ''audio_speech''
      else if operation = ''audio/transcriptions'' then ''audio_transcription''
      else if operation = ''audio/translations'' then ''audio_translation''
      else if operation \<in> {''responses/input_tokens'', ''messages/count_tokens'', ''countTokens''} then ''count_tokens''
      else if operation = ''interactions'' then ''interactions''
      else if operation \<in> {''realtime'', ''live'', ''BidiGenerateContent''} then ''realtime''
      else if operation \<in> {''predictions'', ''videos'', ''predictLongRunning''} then ''media_jobs''
      else [])"

text \<open>The operations \<^verbatim>\<open>PresetSupportsCapabilities\<close> tries for a capability.\<close>

definition knownOperations :: "string list" where
  "knownOperations = [''chat/completions'', ''completions'', ''messages'', ''generateContent'', ''responses'', ''responses/compact'',
     ''responses/input_tokens'', ''embeddings'', ''embedContent'', ''batchEmbedContents'', ''moderations'', ''images/generations'',
     ''images/edits'', ''images/variations'', ''audio/speech'', ''audio/transcriptions'', ''audio/translations'',
     ''messages/count_tokens'', ''countTokens'', ''interactions'', ''realtime'', ''live'', ''BidiGenerateContent'', ''predictions'',
     ''videos'', ''predictLongRunning'', ''systemone'']"

definition presetSupportsCapability :: "string \<Rightarrow> string \<Rightarrow> bool" where
  "presetSupportsCapability presetID capability =
     (if capability = ''prompt_cache'' then presetID = ''anthropic''
      else if capability = ''web_search'' then presetID = ''openai'' \<or> presetID = ''anthropic''
      else if capability \<in> {''web_search_dynamic'', ''web_search_response_inclusion'', ''web_fetch_dynamic'', ''web_fetch_cache_bypass'',
                            ''web_fetch_response_inclusion''} then presetID = ''anthropic''
      else if capability = ''web_fetch'' then presetID = ''anthropic''
      else if capability = ''media_jobs'' then presetID \<in> {''replicate'', ''together'', ''gemini'', ''custom''}
      else list_ex (\<lambda>operation. operationCapability operation = capability \<and> PresetSupports presetID operation) knownOperations)"

definition PresetSupportsCapabilities :: "string \<Rightarrow> string list \<Rightarrow> bool" where
  "PresetSupportsCapabilities presetID capabilities = list_all (presetSupportsCapability presetID) capabilities"

definition PresetSupportsModelCapabilities :: "string \<Rightarrow> string \<Rightarrow> string list \<Rightarrow> bool" where
  "PresetSupportsModelCapabilities presetID upstreamID capabilities \<longleftrightarrow>
     PresetSupportsCapabilities presetID capabilities \<and>
     \<not> (presetID = ''openai'' \<and> upstreamID \<noteq> ''whisper-1'' \<and> ''audio_translation'' \<in> set capabilities) \<and>
     \<not> (presetID = ''openai'' \<and> upstreamID \<noteq> ''dall-e-2'' \<and> ''image_variation'' \<in> set capabilities) \<and>
     \<not> (presetID = ''openai'' \<and> upstreamID = ''dall-e-2'' \<and> ''image_edit'' \<in> set capabilities)"

definition availableCapabilities :: "string \<Rightarrow> string \<Rightarrow> string list" where
  "availableCapabilities presetID adapter =
     filter (\<lambda>c. PresetSupportsCapabilities presetID [c]) (case map_of adapters adapter of None \<Rightarrow> [] | Some cs \<Rightarrow> cs)"

definition presetAllowed :: "string \<Rightarrow> string \<Rightarrow> bool" where
  "presetAllowed i adapter \<longleftrightarrow> i = ''custom'' \<or> list_ex (\<lambda>p. ps_id p = i \<and> ps_adapter p = adapter) presets"

section \<open>Credentials\<close>

text \<open>
  The host the process runs on: environment variables, and what \<^verbatim>\<open>os.Stat\<close>, \<^verbatim>\<open>os.Open\<close>, the
  second \<^verbatim>\<open>Stat\<close> and the bounded read say of a path (\<open>None\<close> is an error; a stat is whether the file
  is regular and its size). \<open>h_open\<close> is the AES-GCM opening of \<^verbatim>\<open>credentials.Open\<close> under the
  master key, with the connection id as associated data.
\<close>

record host =
  h_getenv :: "string \<Rightarrow> string"
  h_stat :: "string \<Rightarrow> (bool \<times> int) option"
  h_openFile :: "string \<Rightarrow> bool"
  h_fstat :: "string \<Rightarrow> (bool \<times> int) option"
  h_read :: "string \<Rightarrow> string option"
  h_open :: "string \<Rightarrow> string \<Rightarrow> string \<Rightarrow> string option"

definition maxProviderCredentialBytes :: int where
  "maxProviderCredentialBytes = 16384"

text \<open>\<^verbatim>\<open>filepath.IsAbs(value) && filepath.Clean(value) == value\<close> for a slash-separated path.\<close>

definition cleanAbsolute :: "string \<Rightarrow> bool" where
  "cleanAbsolute v \<longleftrightarrow>
     hasPrefix v ''/'' \<and> (v = ''/'' \<or> list_all (\<lambda>seg. seg \<noteq> [] \<and> seg \<noteq> ''.'' \<and> seg \<noteq> ''..'') (tl (splitOn (CHR ''/'') v)))"

definition letterOrUnderscore :: "char \<Rightarrow> bool" where
  "letterOrUnderscore c \<longleftrightarrow> (CHR ''A'' \<le> c \<and> c \<le> CHR ''Z'') \<or> (CHR ''a'' \<le> c \<and> c \<le> CHR ''z'') \<or> c = CHR ''_''"

definition validVariable :: "string \<Rightarrow> bool" where
  "validVariable v \<longleftrightarrow>
     v \<noteq> [] \<and> length v \<le> 200 \<and> letterOrUnderscore (hd v) \<and> list_all (\<lambda>c. letterOrUnderscore c \<or> isDigit c) (tl v)"

definition parseExternalCredentialRef :: "string \<Rightarrow> (string \<times> string \<times> bool) option" where
  "parseExternalCredentialRef reference =
     (if length reference > 1024 then None
      else
        let parsed = (if hasPrefix reference ''bearer-env:'' then Some (''env'', drop 11 reference, True)
                      else if hasPrefix reference ''bearer-file:'' then Some (''file'', drop 12 reference, True)
                      else if hasPrefix reference ''env:'' then Some (''env'', drop 4 reference, False)
                      else if hasPrefix reference ''file:'' then Some (''file'', drop 5 reference, False)
                      else None)
        in case parsed of
             None \<Rightarrow> None
           | Some (source, v, bearer) \<Rightarrow>
               if source = ''file'' then (if cleanAbsolute v then parsed else None)
               else if validVariable v then parsed else None)"

definition validExternalRef :: "string \<Rightarrow> bool" where
  "validExternalRef reference \<longleftrightarrow> parseExternalCredentialRef reference \<noteq> None"

definition badCredentialFile :: "(bool \<times> int) option \<Rightarrow> bool" where
  "badCredentialFile info = (case info of None \<Rightarrow> True | Some (regular, bytes) \<Rightarrow> \<not> regular \<or> bytes > maxProviderCredentialBytes)"

definition readCredentialFile :: "host \<Rightarrow> string \<Rightarrow> string option" where
  "readCredentialFile h v =
     (if badCredentialFile (h_stat h v) \<or> \<not> h_openFile h v \<or> badCredentialFile (h_fstat h v) then None
      else case h_read h v of
             None \<Rightarrow> None
           | Some raw \<Rightarrow> if int (length raw) > maxProviderCredentialBytes then None else Some raw)"

definition resolveExternalCredential :: "host \<Rightarrow> string \<Rightarrow> (string \<times> bool) option" where
  "resolveExternalCredential h reference =
     Option.bind (parseExternalCredentialRef reference) (\<lambda>(source, v, bearer).
     Option.bind (if source = ''env'' then Some (h_getenv h v) else readCredentialFile h v) (\<lambda>raw.
       let credential = TrimSpace raw
       in if credential = [] \<or> int (length credential) > maxProviderCredentialBytes \<or> CHR 0x0D \<in> set credential \<or> CHR 0x0A \<in> set credential
          then None else Some (credential, bearer)))"

definition openSecret :: "host \<Rightarrow> string \<Rightarrow> string \<Rightarrow> string \<Rightarrow> string option" where
  "openSecret h connectionID ciphertext nonce = h_open h connectionID ciphertext nonce"

section \<open>Managers and audit\<close>

definition requireManager :: "auth_user \<Rightarrow> auth_user tx" where
  "requireManager actor =
     bindT (oneT ErrNoRows users (\<lambda>u. us_id u = ua_id actor)) (\<lambda>u.
     guardT (us_status u \<noteq> ''active'' \<or> us_role u \<noteq> ''owner'' \<and> us_role u \<noteq> ''admin'') ErrDenied (
       returnT (actor\<lparr>ua_role := us_role u, ua_status := us_status u\<rparr>)))"

definition mutationError :: "goerr \<Rightarrow> goerr" where
  "mutationError e = (if e = ErrUnique then ErrConflict else e)"

definition audit :: "string \<Rightarrow> string \<Rightarrow> string \<Rightarrow> string \<Rightarrow> unit tx" where
  "audit actorID action resourceType resourceID = insertAudit actorID action resourceType resourceID []"

end
