(* ===== verification/Routing.thy ===== *)
theory Routing
  imports Providers "HOL-Library.Product_Lexorder"
begin

text \<open>
  \<^verbatim>\<open>providers/routing.go\<close>: which targets of a public model may serve a request and in which order.
  \<^verbatim>\<open>Route\<close> joins the enabled targets with their connection, credential, script, price and observations,
  rejects the ones that cannot serve and orders the rest by the model's strategy. \<^verbatim>\<open>ConfigureRoute\<close>
  replaces the targets of a model, \<^verbatim>\<open>RecordRouteOutcome\<close> keeps the observations and the circuit breaker.
\<close>

section \<open>Data\<close>

definition latencyMinimumSamples :: int where
  "latencyMinimumSamples = 10"

definition latencyFreshness :: int where
  "latencyFreshness = 900000"

definition circuitDuration :: int where
  "circuitDuration = 30000"

definition routeStrategyOrder :: "string list" where
  "routeStrategyOrder = [''fixed'', ''ordered_fallback'', ''weighted'', ''lowest_cost'', ''lowest_latency'']"

definition routeStrategyTargetLimits :: "(string \<times> int) list" where
  "routeStrategyTargetLimits =
     [(''fixed'', 1), (''ordered_fallback'', 32), (''weighted'', 32), (''lowest_cost'', 32), (''lowest_latency'', 32)]"

definition routeStrategyLabels :: "(string \<times> string) list" where
  "routeStrategyLabels =
     [(''fixed'', ''Fixed target''), (''ordered_fallback'', ''Ordered fallback''), (''weighted'', ''Weighted''),
      (''lowest_cost'', ''Lowest estimated cost''), (''lowest_latency'', ''Lowest observed latency'')]"

record number_field =
  nf_label :: string
  nf_min :: int
  nf_max :: int
  nf_default :: int

definition routePriorityField :: number_field where
  "routePriorityField = \<lparr>nf_label = ''Priority'', nf_min = 1, nf_max = 1000, nf_default = 1\<rparr>"

definition routeWeightField :: number_field where
  "routeWeightField = \<lparr>nf_label = ''Weight'', nf_min = 1, nf_max = 10000, nf_default = 1\<rparr>"

definition ValidRouteStrategy :: "string \<Rightarrow> bool" where
  "ValidRouteStrategy v \<longleftrightarrow> v \<in> set routeStrategyOrder"

record routing_policy =
  rop_allowed :: "string list"
  rop_maxTargets :: "(string \<times> int) list"
  rop_freeOnlyAllowed :: bool
  rop_freeOnlyLabel :: string
  rop_priority :: number_field
  rop_weight :: number_field
  rop_strategies :: "(string \<times> string) list"

definition routingPolicy :: "string list \<Rightarrow> routing_policy" where
  "routingPolicy capabilities =
     (let allowed = (if containsString capabilities ''embeddings'' then [''fixed''] else routeStrategyOrder)
      in \<lparr>rop_allowed = allowed,
          rop_maxTargets = map (\<lambda>st. (st, case map_of routeStrategyTargetLimits st of None \<Rightarrow> 0 | Some n \<Rightarrow> n)) allowed,
          rop_freeOnlyAllowed = True, rop_freeOnlyLabel = ''Require verified zero provider pricing'',
          rop_priority = routePriorityField, rop_weight = routeWeightField,
          rop_strategies = map (\<lambda>st. (st, lookupText routeStrategyLabels st)) allowed\<rparr>)"

text \<open>A public model as the services pass it around; a route target embeds it.\<close>

record public_model =
  pub_id :: string
  pub_label :: string
  pub_description :: string
  pub_targetConnectionID :: string
  pub_targetModelID :: string
  pub_upstreamID :: string
  pub_adapter :: string
  pub_adapterLabel :: string
  pub_capabilities :: "string list"
  pub_capabilityDetails :: "(string \<times> string) list"
  pub_active :: bool
  pub_revision :: int
  pub_strategy :: string
  pub_freeOnly :: bool
  pub_policy :: "routing_policy option"

record target = public_model +
  tg_upstreamCapabilities :: "string list"
  tg_baseURL :: string
  tg_allowPrivate :: bool
  tg_timeout :: int
  tg_connectionRevision :: int
  tg_credential :: string
  tg_bearer :: bool
  tg_preset :: string
  tg_requestScript :: string
  tg_responseScript :: string

record route_target =
  rt_upstreamModelID :: string
  rt_connectionID :: string
  rt_upstreamID :: string
  rt_adapter :: string
  rt_capabilities :: "string list"
  rt_priority :: int
  rt_weight :: int
  rt_enabled :: bool
  rt_estimatedCostUSD :: "string option"
  rt_latency :: "int option"
  rt_samples :: int
  rt_circuitOpenUntil :: "string option"
  rt_target :: target
  rt_estimatedCost :: "int option"
  rt_priceVersionID :: string
  rt_circuitUntil :: "int option"

record route_rejection =
  rej_upstreamModelID :: string
  rej_connectionID :: string
  rej_reason :: string
  rej_message :: string

record route_plan =
  rpl_modelID :: string
  rpl_strategy :: string
  rpl_freeOnly :: bool
  rpl_reason :: string
  rpl_message :: string
  rpl_targets :: "route_target list"
  rpl_rejected :: "route_rejection list"

record route_options =
  ro_op :: string
  ro_stream :: bool
  ro_inputTokens :: int
  ro_outputTokens :: int
  ro_quoteAt :: int
  ro_seed :: string
  ro_allows :: "(string \<Rightarrow> bool) option"
  ro_eligibility :: "(target \<Rightarrow> bool \<times> string) option"

section \<open>Eligibility\<close>

record static_input =
  se_dialect :: string
  se_capability :: string
  se_operation :: string
  se_streaming :: bool
  se_opaqueMedia :: bool
  se_imageStreaming :: bool

definition NativeTarget :: "string \<Rightarrow> string \<Rightarrow> bool" where
  "NativeTarget dialect adapter \<longleftrightarrow>
     dialect = adapter \<or> (dialect = ''openai'' \<or> dialect = ''systemone'') \<and> adapter = ''openai_compatible'' \<or>
     (dialect = ''responses'' \<or> dialect = ''responses_compact'') \<and> (adapter = ''openai'' \<or> adapter = ''openai_compatible'')"

definition StaticTargetEligibility :: "target \<Rightarrow> static_input \<Rightarrow> bool \<times> string" where
  "StaticTargetEligibility t i =
     (let native = NativeTarget (se_dialect i) (pub_adapter t) in
      if se_operation i = ''interactions'' \<and> (\<not> native \<or> tg_preset t \<noteq> ''gemini'') then (False, ''interactions_native_gemini_required'')
      else if se_capability i = [] \<or> \<not> containsString (pub_capabilities t) (se_capability i) \<or>
              \<not> containsString (tg_upstreamCapabilities t) (se_capability i)
      then (False, ''unsupported_capability'')
      else if se_imageStreaming i \<and> (pub_adapter t \<noteq> ''openai'' \<or> tg_preset t \<noteq> ''openai'' \<or>
              \<not> hasPrefix (pub_upstreamID t) ''gpt-image-'' \<and> pub_upstreamID t \<noteq> ''chatgpt-image-latest'')
      then (False, ''image_stream_native_gpt_required'')
      else if se_opaqueMedia i \<and> pub_strategy t = ''lowest_cost'' then (False, ''cost_estimate_unavailable'')
      else if se_opaqueMedia i \<and> pub_freeOnly t then (False, ''free_price_contract_unavailable'')
      else if \<not> native \<and> se_capability i \<noteq> ''chat'' then (False, ''translation_unsupported'')
      else if se_dialect i = ''anthropic'' \<and> se_streaming i \<and> \<not> native then (False, ''anthropic_stream_usage_unavailable'')
      else if tg_preset t = ''mistral'' \<and> se_operation i = ''audio/transcriptions'' \<and> se_streaming i
      then (False, ''preset_streaming_unsupported'')
      else if se_dialect i = ''responses_compact'' \<and> tg_preset t \<noteq> ''openai'' then (False, ''preset_operation_unsupported'')
      else (True, []))"

definition operationDialect :: "string \<Rightarrow> string" where
  "operationDialect op =
     (if op \<in> {''messages'', ''messages/count_tokens''} then ''anthropic''
      else if op \<in> {''generateContent'', ''streamGenerateContent'', ''countTokens'', ''embedContent'', ''batchEmbedContents'',
                    ''interactions'', ''BidiGenerateContent''} then ''gemini''
      else if op = ''responses'' then ''responses'' else if op = ''responses/compact'' then ''responses_compact''
      else if op = ''systemone'' then ''systemone'' else ''openai'')"

definition translatedOperation :: "string \<Rightarrow> string" where
  "translatedOperation adapter =
     lookupText [(''anthropic'', ''messages''), (''gemini'', ''generateContent''), (''openai'', ''chat/completions''),
       (''openai_compatible'', ''chat/completions'')] adapter"

definition previewInput :: "string \<Rightarrow> bool \<Rightarrow> static_input" where
  "previewInput op streaming =
     (let capability = operationCapability op in
      \<lparr>se_dialect = operationDialect op, se_capability = capability, se_operation = op, se_streaming = streaming,
       se_opaqueMedia = (capability = ''images'' \<or> capability = ''image_edit'' \<or> capability = ''image_variation'' \<or>
                         hasPrefix capability ''audio_''),
       se_imageStreaming = ((op = ''images/generations'' \<or> op = ''images/edits'') \<and> streaming)\<rparr>)"

definition PreviewRouteEligibility :: "string \<Rightarrow> bool \<Rightarrow> target \<Rightarrow> bool \<times> string" where
  "PreviewRouteEligibility operation0 streaming t =
     (let op = operationName operation0; static = StaticTargetEligibility t (previewInput op streaming) in
      if \<not> fst static then (False, snd static)
      else
        let targetOperation = (if NativeTarget (operationDialect op) (pub_adapter t) then op else translatedOperation (pub_adapter t))
        in if targetOperation = [] \<or> \<not> PresetSupports (tg_preset t) targetOperation
           then (False, ''preset_operation_unsupported'') else (True, []))"

section \<open>Public models\<close>

definition scanPublicModel :: "public_row \<Rightarrow> upstream_row \<Rightarrow> connection_row \<Rightarrow> public_model tx" where
  "scanPublicModel m u c =
     bindT (optionT (ErrMsg ''invalid capabilities'') (unmarshalStrings (pm_capabilities m))) (\<lambda>capabilities.
       returnT \<lparr>pub_id = pm_id m, pub_label = pm_label m, pub_description = pm_description m,
         pub_targetConnectionID = pm_targetConnection m, pub_targetModelID = pm_targetModel m, pub_upstreamID = um_upstream u,
         pub_adapter = pc_adapter c, pub_adapterLabel = lookupText adapterLabels (pc_adapter c), pub_capabilities = capabilities,
         pub_capabilityDetails = capabilityDetails capabilities, pub_active = pm_active m, pub_revision = pm_revision m,
         pub_strategy = pm_strategy m, pub_freeOnly = pm_freeOnly m, pub_policy = Some (routingPolicy capabilities)\<rparr>)"

definition publicModelRow :: "string \<Rightarrow> store \<Rightarrow> (public_row \<times> upstream_row \<times> connection_row) option" where
  "publicModelRow i s =
     Option.bind (find (\<lambda>m. pm_id m = i \<and> pm_active m) (public_models s)) (\<lambda>m.
     Option.bind (find (\<lambda>u. um_id u = pm_targetModel m) (upstream_models s)) (\<lambda>u.
     map_option (\<lambda>c. (m, u, c)) (find (\<lambda>c. pc_id c = pm_targetConnection m) (provider_connections s))))"

definition ResolvePublicModel :: "string \<Rightarrow> public_model tx" where
  "ResolvePublicModel i =
     bindT (queryT (publicModelRow i)) (\<lambda>row. bindT (optionT ErrNotFound row) (\<lambda>(m, u, c). scanPublicModel m u c))"

record upstream_model =
  upm_id :: string
  upm_connectionID :: string
  upm_upstreamID :: string
  upm_capabilities :: "string list"
  upm_capabilityDetails :: "(string \<times> string) list"
  upm_active :: bool

definition availableRouteTargets :: "string list \<Rightarrow> upstream_model list tx" where
  "availableRouteTargets capabilities =
     queryT (\<lambda>s.
       concat (map (\<lambda>u. case unmarshalStrings (um_capabilities u) of
           None \<Rightarrow> []
         | Some cs \<Rightarrow> if subset_of capabilities cs
                      then [\<lparr>upm_id = um_id u, upm_connectionID = um_connection u, upm_upstreamID = um_upstream u, upm_capabilities = cs,
                             upm_capabilityDetails = capabilityDetails cs, upm_active = um_active u\<rparr>]
                      else [])
         (orderBy (\<lambda>u. (um_upstream u, um_id u))
           (filter (\<lambda>u. um_active u \<and> list_ex (\<lambda>c. pc_id c = um_connection u \<and> pc_enabled c) (provider_connections s)) (upstream_models s)))))"

record route_target_input =
  rti_upstreamModelID :: string
  rti_priority :: int
  rti_weight :: int
  rti_enabled :: bool

record route_config_input =
  rci_strategy :: string
  rci_freeOnly :: bool
  rci_targets :: "route_target_input list"

definition configuredTargets :: "string \<Rightarrow> store \<Rightarrow> route_target_input list" where
  "configuredTargets publicID s =
     map (\<lambda>t. \<lparr>rti_upstreamModelID = pt_upstream t, rti_priority = pt_priority t, rti_weight = pt_weight t, rti_enabled = pt_enabled t\<rparr>)
       (orderBy pt_priority (filter (\<lambda>t. pt_model t = publicID) (public_model_targets s)))"

definition RouteConfig :: "auth_user \<Rightarrow> string \<Rightarrow> (public_model \<times> route_target_input list \<times> upstream_model list) tx" where
  "RouteConfig actor publicID =
     thenT (requireManager actor) (
     bindT (ResolvePublicModel publicID) (\<lambda>model.
     bindT (availableRouteTargets (pub_capabilities model)) (\<lambda>available.
     bindT (queryT (configuredTargets publicID)) (\<lambda>targets.
       returnT (model, targets, available)))))"

section \<open>Configuring a route\<close>

text \<open>The loop over the input: default weights, range checks, no repeated model or priority; enabled targets counted.\<close>

fun checkTargets :: "route_target_input list \<Rightarrow> string list \<Rightarrow> int list \<Rightarrow> nat \<Rightarrow> string + route_target_input list \<times> nat" where
  "checkTargets [] models priorities enabled = Inr ([], enabled)"
| "checkTargets (t0 # ts) models priorities enabled =
     (let t = (if rti_weight t0 = 0 then t0\<lparr>rti_weight := 1\<rparr> else t0) in
      if rti_priority t < nf_min routePriorityField \<or> rti_priority t > nf_max routePriorityField \<or>
         rti_weight t < nf_min routeWeightField \<or> rti_weight t > nf_max routeWeightField \<or> rti_upstreamModelID t = [] \<or>
         rti_upstreamModelID t \<in> set models \<or> rti_priority t \<in> set priorities
      then Inl ''route targets require unique models and priorities with valid weights''
      else case checkTargets ts (rti_upstreamModelID t # models) (rti_priority t # priorities)
                  (if rti_enabled t then Suc enabled else enabled) of
             Inl e \<Rightarrow> Inl e
           | Inr (us, n) \<Rightarrow> Inr (t # us, n))"

definition checkUpstream :: "string list \<Rightarrow> route_target_input \<Rightarrow> unit tx" where
  "checkUpstream publicCapabilities t =
     bindT (oneT ErrNotFound upstream_models (\<lambda>u. um_id u = rti_upstreamModelID t \<and> um_active u)) (\<lambda>u.
     guardT (case unmarshalStrings (um_capabilities u) of None \<Rightarrow> True | Some cs \<Rightarrow> \<not> subset_of publicCapabilities cs)
       (ErrMsg ''every route target must support the public model capabilities'') (returnT ()))"

definition checkRoute :: "auth_user \<Rightarrow> string \<Rightarrow> int \<Rightarrow> route_config_input \<Rightarrow> route_target_input list tx" where
  "checkRoute actor publicID revision input =
     thenT (requireManager actor) (
     guardT (\<not> ValidRouteStrategy (rci_strategy input) \<or> rci_targets input = [] \<or> length (rci_targets input) > 32)
       (ErrMsg ''a supported strategy and 1-32 targets are required'') (
     bindT (liftT (checkTargets (rci_targets input) [] [] 0)) (\<lambda>(targets, enabled).
     guardT (enabled = 0) (ErrMsg ''at least one route target must be enabled'') (
     bindT (oneT ErrConflict public_models (\<lambda>m. pm_id m = publicID \<and> pm_revision m = revision)) (\<lambda>m.
     bindT (optionT (ErrMsg ''invalid capabilities'') (unmarshalStrings (pm_capabilities m))) (\<lambda>publicCapabilities.
     let policy = routingPolicy publicCapabilities in
     guardT (case map_of (rop_maxTargets policy) (rci_strategy input) of None \<Rightarrow> True
             | Some maximum \<Rightarrow> int (length targets) > maximum \<or> int enabled > maximum)
       (ErrMsg ''the selected routing strategy does not allow this target configuration'') (
     guardT (rci_freeOnly input \<and> \<not> rop_freeOnlyAllowed policy)
       (ErrMsg ''verified-free routing is unavailable for this model capability set'') (
     thenT (forT (checkUpstream publicCapabilities) targets) (
       returnT (orderBy rti_priority targets))))))))))"

definition primaryTarget :: "route_target_input list \<Rightarrow> string" where
  "primaryTarget targets =
     (case find rti_enabled targets of None \<Rightarrow> rti_upstreamModelID (hd targets) | Some t \<Rightarrow> rti_upstreamModelID t)"

definition connectionOf :: "string \<Rightarrow> store \<Rightarrow> string option" where
  "connectionOf i s = map_option um_connection (find (\<lambda>u. um_id u = i) (upstream_models s))"

definition newTargetRow :: "string \<Rightarrow> int \<Rightarrow> route_target_input \<Rightarrow> target_row" where
  "newTargetRow publicID now t = \<lparr>pt_model = publicID, pt_upstream = rti_upstreamModelID t, pt_priority = rti_priority t,
     pt_weight = rti_weight t, pt_enabled = rti_enabled t, pt_created = now, pt_updated = now\<rparr>"

definition configureRouteTx :: "auth_user \<Rightarrow> string \<Rightarrow> int \<Rightarrow> route_config_input \<Rightarrow> route_target_input list \<Rightarrow> unit tx" where
  "configureRouteTx actor0 publicID revision input targets =
     bindT nowT (\<lambda>now.
     bindT (requireManager actor0) (\<lambda>actor.
     bindT (queryT (connectionOf (primaryTarget targets))) (\<lambda>connection.
     bindT (optionT ErrCheck connection) (\<lambda>connectionID.
     bindT (updatePublicModels (\<lambda>m. pm_id m = publicID \<and> pm_revision m = revision)
              (\<lambda>m. m\<lparr>pm_strategy := rci_strategy input, pm_freeOnly := rci_freeOnly input, pm_targetModel := primaryTarget targets,
                     pm_targetConnection := connectionID, pm_revision := pm_revision m + 1, pm_updated := now\<rparr>)) (\<lambda>changed.
     guardT (changed \<noteq> 1) ErrConflict (
     thenT (deleteTargets (\<lambda>t. pt_model t = publicID)) (
     thenT (forT (\<lambda>t. mapErrT mutationError (insertTarget (newTargetRow publicID now t))) targets) (
     thenT (audit (ua_id actor) ''model.route.update'' ''public_model'' publicID) commitT))))))))"

text \<open>
  The checks, the transaction and the answer are three runs, each in its own world; the
  configuration lock keeps other configuration writes out between them.
\<close>

definition ConfigureRoute ::
  "auth_user \<Rightarrow> string \<Rightarrow> int \<Rightarrow> route_config_input \<Rightarrow> world \<Rightarrow> world \<Rightarrow> world \<Rightarrow> store \<Rightarrow> (goerr + public_model) \<times> store" where
  "ConfigureRoute actor publicID revision input w1 w2 w3 s =
     (case autoT (checkRoute actor publicID revision input) w1 s of
        (Inl e, _) \<Rightarrow> (Inl e, s)
      | (Inr targets, _) \<Rightarrow>
          (case atomicT (configureRouteTx actor publicID revision input targets) w2 s of
             (Inl e, s') \<Rightarrow> (Inl e, s')
           | (Inr _, s') \<Rightarrow> (fst (autoT (ResolvePublicModel publicID) w3 s'), s')))"

section \<open>Messages\<close>

definition routeSelectionMessage :: "string \<Rightarrow> string" where
  "routeSelectionMessage reason =
     lookupText [(''fixed'', ''Fixed target selected''), (''ordered_fallback'', ''First available target selected''),
       (''weighted'', ''Weighted target selected''), (''lowest_cost'', ''Lowest estimated cost selected''),
       (''lowest_latency'', ''Lowest observed latency selected''),
       (''lowest_latency_exploration'', ''Latency exploration target selected'')] (takeWhile (\<lambda>c. c \<noteq> CHR '':'') reason)"

definition rejectionMessages :: "(string \<times> string) list" where
  "rejectionMessages =
     [(''anthropic_stream_usage_unavailable'', ''Streaming usage is unavailable for this target''),
      (''cache_price_contract_unavailable'', ''Cache pricing is unavailable for this route''),
      (''circuit_open'', ''Target is temporarily unavailable''),
      (''connection_not_granted'', ''API key does not grant this connection''),
      (''cost_estimate_unavailable'', ''Cost cannot be estimated for this operation''),
      (''credential_unavailable'', ''Provider credential is unavailable''),
      (''free_price_contract_unavailable'', ''Verified-free pricing is unavailable''),
      (''image_stream_native_gpt_required'', ''Streaming images require a native GPT Image target''),
      (''interactions_native_gemini_required'', ''Interactions require the built-in Gemini preset''),
      (''not_verified_free'', ''Target does not have verified zero pricing''),
      (''preset_operation_unsupported'', ''Provider preset does not support this operation''),
      (''price_unknown'', ''Target price is unknown''),
      (''prompt_cache_native_required'', ''Prompt caching requires the built-in Anthropic preset''),
      (''request_translation_unsupported'', ''Request cannot be translated for this target''),
      (''translation_unsupported'', ''This operation requires a native target''),
      (''unsupported_capability'', ''Target does not support the required capability''),
      (''web_fetch_native_required'', ''Web fetch requires the built-in Anthropic preset''),
      (''web_fetch_price_contract_unavailable'', ''Web fetch pricing is unavailable for this route''),
      (''web_search_native_required'', ''Web search requires a supported native preset''),
      (''web_search_price_contract_unavailable'', ''Web search pricing is unavailable for this route'')]"

definition routeRejectionMessage :: "string \<Rightarrow> string" where
  "routeRejectionMessage reason =
     (let message = lookupText rejectionMessages reason
      in if message \<noteq> [] then message else ''Target is unavailable for this request'')"

definition routeRejection :: "string \<Rightarrow> string \<Rightarrow> string \<Rightarrow> route_rejection" where
  "routeRejection upstreamModelID connectionID reason =
     \<lparr>rej_upstreamModelID = upstreamModelID, rej_connectionID = connectionID, rej_reason = reason,
      rej_message = routeRejectionMessage reason\<rparr>"

definition rejectTarget :: "string \<Rightarrow> route_target \<Rightarrow> route_rejection" where
  "rejectTarget reason item = routeRejection (rt_upstreamModelID item) (rt_connectionID item) reason"

section \<open>Ordering\<close>

text \<open>
  \<^verbatim>\<open>sort.SliceStable\<close> with a comparison: insertion keeps the order of equal items. The order is
  the same for every stable sort, since the comparisons below come from a key.
\<close>

primrec insertStable :: "('a \<Rightarrow> 'a \<Rightarrow> bool) \<Rightarrow> 'a \<Rightarrow> 'a list \<Rightarrow> 'a list" where
  "insertStable lt x [] = [x]"
| "insertStable lt x (y # ys) = (if lt y x then y # insertStable lt x ys else x # y # ys)"

primrec sliceStable :: "('a \<Rightarrow> 'a \<Rightarrow> bool) \<Rightarrow> 'a list \<Rightarrow> 'a list" where
  "sliceStable lt [] = []"
| "sliceStable lt (x # xs) = insertStable lt x (sliceStable lt xs)"

definition cheaper :: "route_target \<Rightarrow> route_target \<Rightarrow> bool" where
  "cheaper a b \<longleftrightarrow> the (rt_estimatedCost a) < the (rt_estimatedCost b)"

definition measured :: "route_target \<Rightarrow> bool" where
  "measured a \<longleftrightarrow> rt_latency a \<noteq> None \<and> rt_samples a \<ge> latencyMinimumSamples"

definition faster :: "route_target \<Rightarrow> route_target \<Rightarrow> bool" where
  "faster a b =
     (if measured a \<noteq> measured b then measured a
      else if measured a \<and> the (rt_latency a) \<noteq> the (rt_latency b) then the (rt_latency a) < the (rt_latency b)
      else rt_priority a < rt_priority b)"

definition swapFront :: "nat \<Rightarrow> 'a list \<Rightarrow> 'a list" where
  "swapFront i items = (items[0 := items ! i])[i := items ! 0]"

text \<open>
  The weighted pick: subtract weights from the number until it falls inside one. Weights are
  between 1 and 10000, so the unsigned sums do not wrap.
\<close>

fun pickWeighted :: "int \<Rightarrow> nat \<Rightarrow> route_target list \<Rightarrow> nat" where
  "pickWeighted pick i [] = 0"
| "pickWeighted pick i (t # ts) = (if pick < rt_weight t then i else pickWeighted (uwrap64 (pick - rt_weight t)) (Suc i) ts)"

definition totalWeight :: "route_target list \<Rightarrow> int" where
  "totalWeight items = uwrap64 (sum_list (map rt_weight items))"

text \<open>\<open>digest seed\<close> is \<^verbatim>\<open>binary.BigEndian.Uint64(sha256.Sum256([]byte(seed))[:8])\<close>.\<close>

definition orderRoute ::
  "(string \<Rightarrow> int) \<Rightarrow> route_target list \<Rightarrow> route_rejection list \<Rightarrow> string \<Rightarrow> string \<Rightarrow> route_target list \<times> route_rejection list \<times> string" where
  "orderRoute digest items0 rejected0 strategy seed =
     (let (items, rejected, reason) =
        (if strategy = ''lowest_cost'' then
           (sliceStable cheaper (filter (\<lambda>t. rt_estimatedCost t \<noteq> None) items0),
            rejected0 @ map (rejectTarget ''price_unknown'') (filter (\<lambda>t. rt_estimatedCost t = None) items0), strategy)
         else if strategy = ''lowest_latency'' then
           (let sorted_items = sliceStable faster items0 in
            if length sorted_items > 1 \<and> digest seed mod 20 = 0
            then (swapFront 1 sorted_items, rejected0, ''lowest_latency_exploration'')
            else (sorted_items, rejected0, strategy))
         else if strategy = ''weighted'' then
           (if length items0 > 1
            then (swapFront (pickWeighted (digest seed mod totalWeight items0) 0 items0) items0, rejected0, strategy)
            else (items0, rejected0, strategy))
         else (items0, rejected0, strategy));
       kept = (if strategy = ''fixed'' then take 1 items else items)
      in (kept, rejected, (case kept of [] \<Rightarrow> reason | t # _ \<Rightarrow> reason @ '':'' @ rt_upstreamModelID t)))"

section \<open>Routing\<close>

text \<open>A row of the big join; the \<^verbatim>\<open>LEFT JOIN\<close>s are options.\<close>

record route_row =
  rr_target :: target_row
  rr_public :: public_row
  rr_upstream :: upstream_row
  rr_connection :: connection_row
  rr_credential :: "credential_row option"
  rr_script :: "script_row option"
  rr_price :: "price_row option"
  rr_observation :: "observation_row option"

definition joinRow :: "string \<Rightarrow> bool \<Rightarrow> int \<Rightarrow> store \<Rightarrow> target_row \<Rightarrow> route_row option" where
  "joinRow op streaming now s t =
     Option.bind (find (\<lambda>m. pm_id m = pt_model t) (public_models s)) (\<lambda>m.
     Option.bind (find (\<lambda>u. um_id u = pt_upstream t \<and> um_active u) (upstream_models s)) (\<lambda>u.
     map_option (\<lambda>c. \<lparr>rr_target = t, rr_public = m, rr_upstream = u, rr_connection = c,
         rr_credential = find (\<lambda>k. cr_connection k = pc_id c) (provider_credentials s),
         rr_script = find (\<lambda>k. ps_connection k = pc_id c) (provider_adapter_scripts s),
         rr_price = priceRowAt (pc_id c) (pm_id m) now s,
         rr_observation = find (\<lambda>o1. ro_upstream o1 = um_id u \<and> ro_operation o1 = op \<and> ro_streaming o1 = streaming) (route_observations s)\<rparr>)
       (find (\<lambda>c. pc_id c = um_connection u \<and> pc_enabled c) (provider_connections s))))"

definition routeRows :: "string \<Rightarrow> string \<Rightarrow> bool \<Rightarrow> int \<Rightarrow> store \<Rightarrow> route_row list" where
  "routeRows publicID op streaming now s =
     List.map_filter (joinRow op streaming now s)
       (orderBy pt_priority (filter (\<lambda>t. pt_model t = publicID \<and> pt_enabled t) (public_model_targets s)))"

definition customScript :: "route_row \<Rightarrow> (script_row \<Rightarrow> string) \<Rightarrow> string" where
  "customScript row f =
     (if pc_preset (rr_connection row) = ''custom'' \<and> pc_adapter (rr_connection row) = ''openai_compatible''
      then (case rr_script row of None \<Rightarrow> [] | Some k \<Rightarrow> f k) else [])"

definition rowTarget :: "string \<Rightarrow> bool \<Rightarrow> route_row \<Rightarrow> target" where
  "rowTarget strategy freeOnly row =
     \<lparr>pub_id = pm_id (rr_public row), pub_label = pm_label (rr_public row), pub_description = pm_description (rr_public row),
      pub_targetConnectionID = um_connection (rr_upstream row), pub_targetModelID = pt_upstream (rr_target row),
      pub_upstreamID = um_upstream (rr_upstream row), pub_adapter = pc_adapter (rr_connection row), pub_adapterLabel = [],
      pub_capabilities = stringsOrEmpty (pm_capabilities (rr_public row)), pub_capabilityDetails = [], pub_active = True,
      pub_revision = pm_revision (rr_public row), pub_strategy = strategy, pub_freeOnly = freeOnly, pub_policy = None,
      tg_upstreamCapabilities = stringsOrEmpty (um_capabilities (rr_upstream row)), tg_baseURL = pc_baseURL (rr_connection row),
      tg_allowPrivate = pc_private (rr_connection row), tg_timeout = pc_timeout (rr_connection row),
      tg_connectionRevision = pc_revision (rr_connection row), tg_credential = [], tg_bearer = False,
      tg_preset = pc_preset (rr_connection row), tg_requestScript = customScript row ps_request,
      tg_responseScript = customScript row ps_response\<rparr>"

definition rowItem :: "string \<Rightarrow> bool \<Rightarrow> route_row \<Rightarrow> route_target" where
  "rowItem strategy freeOnly row =
     \<lparr>rt_upstreamModelID = pt_upstream (rr_target row), rt_connectionID = um_connection (rr_upstream row),
      rt_upstreamID = um_upstream (rr_upstream row), rt_adapter = pc_adapter (rr_connection row),
      rt_capabilities = stringsOrEmpty (um_capabilities (rr_upstream row)), rt_priority = pt_priority (rr_target row),
      rt_weight = pt_weight (rr_target row), rt_enabled = pt_enabled (rr_target row), rt_estimatedCostUSD = None, rt_latency = None,
      rt_samples = (case rr_observation row of None \<Rightarrow> 0 | Some ob \<Rightarrow> ro_success ob), rt_circuitOpenUntil = None,
      rt_target = rowTarget strategy freeOnly row, rt_estimatedCost = None, rt_priceVersionID = [], rt_circuitUntil = None\<rparr>"

text \<open>
  The credential of a row, whether it is a bearer token, and the error variable after it. The code
  assigns the error of the enclosing function and does not clear it: a row without a stored
  credential leaves the error of an earlier row in place (\<open>err0\<close>).
\<close>

definition rowCredential :: "host \<Rightarrow> route_row \<Rightarrow> bool \<Rightarrow> string \<times> bool \<times> bool" where
  "rowCredential h row err0 =
     (case rr_credential row of
        None \<Rightarrow> ([], False, err0)
      | Some k \<Rightarrow>
          (case cr_external k of
             Some reference \<Rightarrow>
               (case resolveExternalCredential h reference of None \<Rightarrow> ([], False, True) | Some (c, bearer) \<Rightarrow> (c, bearer, False))
           | None \<Rightarrow>
               (case cr_ciphertext k of
                  None \<Rightarrow> ([], False, err0)
                | Some text1 \<Rightarrow>
                    if text1 = [] then ([], False, err0)
                    else (case openSecret h (um_connection (rr_upstream row)) text1 (case cr_nonce k of None \<Rightarrow> [] | Some v \<Rightarrow> v) of
                            None \<Rightarrow> ([], False, True) | Some c \<Rightarrow> (c, False, False)))))"

definition estimateRow :: "route_options \<Rightarrow> price_row \<Rightarrow> string + int" where
  "estimateRow o1 p =
     CalculateCost (ro_inputTokens o1) (ro_outputTokens o1) (ConservativeInputRate (pv_input p) (pv_cacheRead p)) (pv_output p)"

definition verifiedFree :: "int \<Rightarrow> price_row option \<Rightarrow> bool" where
  "verifiedFree now price =
     (case price of None \<Rightarrow> False
      | Some p \<Rightarrow> VerifiedFreePrice (pv_input p) (pv_output p) (pv_cacheRead p) (pv_source p) (pv_created p) now)"

definition rowLatency :: "bool \<Rightarrow> int \<Rightarrow> observation_row option \<Rightarrow> int option" where
  "rowLatency streaming now ob =
     (case ob of
        None \<Rightarrow> None
      | Some v \<Rightarrow>
          if ro_updated v \<ge> now - latencyFreshness
          then (if streaming \<and> ro_first v \<noteq> None then ro_first v else ro_total v) else None)"

definition circuitOf :: "route_row \<Rightarrow> int option" where
  "circuitOf row = (case rr_observation row of None \<Rightarrow> None | Some ob \<Rightarrow> ro_until ob)"

text \<open>The part of the loop body after the credential: price, verified-free check, latency, circuit breaker.\<close>

definition weighRow :: "bool \<Rightarrow> route_options \<Rightarrow> int \<Rightarrow> route_row \<Rightarrow> route_target \<Rightarrow> string + (route_rejection + route_target)" where
  "weighRow freeOnly o1 now row item0 =
     (case (case rr_price row of
              None \<Rightarrow> Inr item0
            | Some p \<Rightarrow>
                (case estimateRow o1 p of
                   Inl e \<Rightarrow> Inl e
                 | Inr cost \<Rightarrow> Inr (item0\<lparr>rt_priceVersionID := pv_id p, rt_estimatedCost := Some cost, rt_estimatedCostUSD := Some (FormatUSD cost)\<rparr>))) of
        Inl e \<Rightarrow> Inl e
      | Inr item1 \<Rightarrow>
          if freeOnly \<and> \<not> verifiedFree now (rr_price row) then Inr (Inl (rejectTarget ''not_verified_free'' item1))
          else
            let item2 = item1\<lparr>rt_latency := rowLatency (ro_stream o1) now (rr_observation row)\<rparr> in
            (case circuitOf row of
               None \<Rightarrow> Inr (Inr item2)
             | Some until \<Rightarrow>
                 if until > now then Inr (Inl (rejectTarget ''circuit_open'' item2))
                 else Inr (Inr (item2\<lparr>rt_circuitUntil := Some until, rt_circuitOpenUntil := Some (timeString until)\<rparr>))))"

text \<open>One pass of the loop over the rows; the error variable is carried from row to row.\<close>

definition routeRow ::
  "host \<Rightarrow> string \<Rightarrow> bool \<Rightarrow> route_options \<Rightarrow> int \<Rightarrow> route_row \<Rightarrow> bool \<Rightarrow> string + (route_rejection + route_target) \<times> bool" where
  "routeRow h strategy freeOnly o1 now row err0 =
     (let item = rowItem strategy freeOnly row in
      if (case ro_allows o1 of None \<Rightarrow> False | Some allows \<Rightarrow> \<not> allows (rt_connectionID item))
      then Inr (Inl (rejectTarget ''connection_not_granted'' item), err0)
      else
        case (case ro_eligibility o1 of None \<Rightarrow> (True, []) | Some eligibility \<Rightarrow> eligibility (rt_target item)) of
          (False, reason) \<Rightarrow> Inr (Inl (rejectTarget reason item), err0)
        | (True, _) \<Rightarrow>
            (case rowCredential h row err0 of (credential, bearer, err) \<Rightarrow>
               if err \<or> credential = [] \<and> pc_preset (rr_connection row) \<noteq> ''ollama''
               then Inr (Inl (rejectTarget ''credential_unavailable'' item), err)
               else case weighRow freeOnly o1 now row
                           (item\<lparr>rt_target := (rt_target item)\<lparr>tg_credential := credential, tg_bearer := bearer\<rparr>\<rparr>) of
                      Inl e \<Rightarrow> Inl e
                    | Inr r \<Rightarrow> Inr (r, err)))"

fun routeLoop ::
  "host \<Rightarrow> string \<Rightarrow> bool \<Rightarrow> route_options \<Rightarrow> int \<Rightarrow> route_row list \<Rightarrow> bool \<Rightarrow> string + route_target list \<times> route_rejection list" where
  "routeLoop h strategy freeOnly o1 now [] err = Inr ([], [])"
| "routeLoop h strategy freeOnly o1 now (row # rows) err =
     (case routeRow h strategy freeOnly o1 now row err of
        Inl e \<Rightarrow> Inl e
      | Inr (r, err') \<Rightarrow>
          (case routeLoop h strategy freeOnly o1 now rows err' of
             Inl e \<Rightarrow> Inl e
           | Inr (targets, rejected) \<Rightarrow>
               (case r of Inl rejection \<Rightarrow> Inr (targets, rejection # rejected) | Inr item \<Rightarrow> Inr (item # targets, rejected))))"

text \<open>The plan, and the error returned beside it when no target is left.\<close>

definition finishPlan :: "(string \<Rightarrow> int) \<Rightarrow> string \<Rightarrow> string \<Rightarrow> bool \<Rightarrow> string \<Rightarrow> route_target list \<times> route_rejection list \<Rightarrow> route_plan \<times> goerr option" where
  "finishPlan digest publicID strategy freeOnly seed found =
     (case orderRoute digest (fst found) (snd found) strategy seed of (targets, rejected, reason) \<Rightarrow>
        (\<lparr>rpl_modelID = publicID, rpl_strategy = strategy, rpl_freeOnly = freeOnly, rpl_reason = reason,
          rpl_message = (if targets = [] then ''No eligible target'' else routeSelectionMessage reason),
          rpl_targets = targets, rpl_rejected = rejected\<rparr>,
         if targets = [] then Some ErrNotFound else None))"

definition Route :: "host \<Rightarrow> (string \<Rightarrow> int) \<Rightarrow> string \<Rightarrow> route_options \<Rightarrow> (route_plan \<times> goerr option) tx" where
  "Route h digest publicID o1 =
     bindT (oneT ErrNotFound public_models (\<lambda>m. pm_id m = publicID \<and> pm_active m)) (\<lambda>m.
     bindT (if ro_quoteAt o1 \<le> 0 then nowT else returnT (ro_quoteAt o1)) (\<lambda>now.
     bindT (queryT (routeRows publicID (ro_op o1) (ro_stream o1) now)) (\<lambda>rows.
     bindT (liftT (routeLoop h (pm_strategy m) (pm_freeOnly m) o1 now rows False)) (\<lambda>found.
       returnT (finishPlan digest publicID (pm_strategy m) (pm_freeOnly m) (ro_seed o1) found)))))"

section \<open>Availability and observations\<close>

definition rowAvailable :: "host \<Rightarrow> (string \<Rightarrow> bool) \<Rightarrow> (target \<Rightarrow> bool) option \<Rightarrow> route_row \<Rightarrow> bool" where
  "rowAvailable h allowed eligible row \<longleftrightarrow>
     allowed (pc_id (rr_connection row)) \<and>
     (case eligible of None \<Rightarrow> True
      | Some f \<Rightarrow> f \<lparr>pub_id = [], pub_label = [], pub_description = [], pub_targetConnectionID = pc_id (rr_connection row),
            pub_targetModelID = [], pub_upstreamID = [], pub_adapter = pc_adapter (rr_connection row), pub_adapterLabel = [],
            pub_capabilities = stringsOrEmpty (pm_capabilities (rr_public row)), pub_capabilityDetails = [], pub_active = False,
            pub_revision = 0, pub_strategy = pm_strategy (rr_public row), pub_freeOnly = pm_freeOnly (rr_public row), pub_policy = None,
            tg_upstreamCapabilities = stringsOrEmpty (um_capabilities (rr_upstream row)), tg_baseURL = [], tg_allowPrivate = False,
            tg_timeout = 0, tg_connectionRevision = 0, tg_credential = [], tg_bearer = False, tg_preset = pc_preset (rr_connection row),
            tg_requestScript = [], tg_responseScript = []\<rparr>) \<and>
     (pc_preset (rr_connection row) = ''ollama'' \<or>
      (case rr_credential row of
         None \<Rightarrow> False
       | Some k \<Rightarrow>
           (case cr_ciphertext k of None \<Rightarrow> False | Some text1 \<Rightarrow> text1 \<noteq> []) \<or>
           (case cr_external k of None \<Rightarrow> False | Some reference \<Rightarrow> resolveExternalCredential h reference \<noteq> None)))"

text \<open>A failed query counts as no target.\<close>

definition HasAvailableRouteTarget :: "host \<Rightarrow> string \<Rightarrow> (string \<Rightarrow> bool) \<Rightarrow> (target \<Rightarrow> bool) option \<Rightarrow> world \<Rightarrow> store \<Rightarrow> bool" where
  "HasAvailableRouteTarget h publicID allowed eligible w s \<longleftrightarrow>
     \<not> w_fault w 0 \<and>
     list_ex (\<lambda>row. pm_active (rr_public row) \<and> rowAvailable h allowed eligible row) (routeRows publicID [] False 0 s)"

definition mergeObservation :: "int \<Rightarrow> observation_row \<Rightarrow> observation_row \<Rightarrow> observation_row" where
  "mergeObservation now old new =
     (let blend = (\<lambda>previous current. case previous of None \<Rightarrow> current
            | Some p \<Rightarrow> (case current of None \<Rightarrow> None | Some c \<Rightarrow> Some (go_div (p * 4 + c) 5))) in
      old\<lparr>ro_success := ro_success old + ro_success new, ro_failure := ro_failure old + ro_failure new,
          ro_consecutive := (if ro_success new = 1 then 0 else ro_consecutive old + 1),
          ro_first := (if ro_success new = 1 then blend (ro_first old) (ro_first new) else ro_first old),
          ro_total := (if ro_success new = 1 then blend (ro_total old) (ro_total new) else ro_total old),
          ro_until := (if ro_success new = 1 then None
                       else if ro_consecutive old + 1 \<ge> 3 then Some (now + circuitDuration) else ro_until old),
          ro_updated := ro_updated new\<rparr>)"

definition RecordRouteOutcome :: "target \<Rightarrow> string \<Rightarrow> bool \<Rightarrow> bool \<Rightarrow> int \<Rightarrow> int \<Rightarrow> unit tx" where
  "RecordRouteOutcome t operation streaming success firstMS totalMS =
     bindT nowT (\<lambda>now.
       upsertObservation (mergeObservation now)
         \<lparr>ro_upstream = pub_targetModelID t, ro_operation = operation, ro_streaming = streaming,
          ro_success = (if success then 1 else 0), ro_failure = (if success then 0 else 1),
          ro_consecutive = (if success then 0 else 1), ro_first = Some firstMS, ro_total = Some totalMS, ro_until = None, ro_updated = now\<rparr>)"

section \<open>Stable orders\<close>

text \<open>
  A comparison that comes from a key: \<^verbatim>\<open>sort.SliceStable\<close> with it is the library's stable sort by
  that key, so its result is a sorted permutation that keeps the order of equal items.
\<close>

locale stable_order =
  fixes lt :: "'a \<Rightarrow> 'a \<Rightarrow> bool" and key :: "'a \<Rightarrow> 'k::linorder"
  assumes lt_key: "lt a b \<longleftrightarrow> key a < key b"
begin

lemma insertStable_key: "insertStable lt x ys = insort_key key x ys"
  by (induction ys) (auto simp: lt_key)

lemma sliceStable_key: "sliceStable lt xs = sort_key key xs"
  by (induction xs) (simp_all add: insertStable_key)

lemma sliceStable_mset: "mset (sliceStable lt xs) = mset xs"
  by (simp add: sliceStable_key)

lemma sliceStable_sorted: "sorted_wrt (\<lambda>a b. key a \<le> key b) (sliceStable lt xs)"
  using sorted_sort_key [of key xs] by (simp add: sliceStable_key sorted_map)

lemma sliceStable_stable: "filter (\<lambda>y. key y = k) (sliceStable lt xs) = filter (\<lambda>y. key y = k) xs"
  by (simp add: sliceStable_key sort_key_stable)

end

definition latencyKey :: "route_target \<Rightarrow> bool \<times> int \<times> int" where
  "latencyKey t = (\<not> measured t, if measured t then the (rt_latency t) else 0, rt_priority t)"

interpretation byCost: stable_order cheaper "\<lambda>t. the (rt_estimatedCost t)"
  by unfold_locales (simp add: cheaper_def)

interpretation byLatency: stable_order faster latencyKey
  by unfold_locales (auto simp: faster_def latencyKey_def less_prod_def)

section \<open>Weighted picks\<close>

lemma pickWeighted_shift:
  "0 \<le> pick \<Longrightarrow> pick < sum_list (map rt_weight ts) \<Longrightarrow> pick < 2 ^ 64 \<Longrightarrow> (\<forall>t \<in> set ts. 1 \<le> rt_weight t) \<Longrightarrow>
   \<exists>j < length ts. pickWeighted pick i ts = i + j \<and>
     sum_list (map rt_weight (take j ts)) \<le> pick \<and> pick < sum_list (map rt_weight (take (Suc j) ts))"
proof (induction ts arbitrary: pick i)
  case (Cons t ts)
  show ?case
  proof (cases "pick < rt_weight t")
    case True
    with Cons.prems show ?thesis by (intro exI [of _ 0]) simp
  next
    case False
    then have w: "uwrap64 (pick - rt_weight t) = pick - rt_weight t"
      using Cons.prems by (simp add: uwrap64_def)
    obtain j where "j < length ts" "pickWeighted (pick - rt_weight t) (Suc i) ts = Suc i + j"
      "sum_list (map rt_weight (take j ts)) \<le> pick - rt_weight t"
      "pick - rt_weight t < sum_list (map rt_weight (take (Suc j) ts))"
      using Cons.IH [of "pick - rt_weight t" "Suc i"] Cons.prems False by auto
    with w False show ?thesis by (intro exI [of _ "Suc j"]) auto
  qed
qed simp

lemma pickWeighted_range: "pickWeighted pick i ts < i + length ts \<or> pickWeighted pick i ts = 0"
proof (induction ts arbitrary: pick i)
  case (Cons t ts)
  show ?case using Cons.IH [of "uwrap64 (pick - rt_weight t)" "Suc i"] by auto
qed simp

lemma swapFront_mset: "i < length items \<Longrightarrow> mset (swapFront i items) = mset items"
  unfolding swapFront_def by (rule mset_swap) auto

lemma swapFront_hd: "i < length items \<Longrightarrow> hd (swapFront i items) = items ! i \<and> swapFront i items \<noteq> []"
  by (cases items; cases i) (auto simp: swapFront_def)

text \<open>The targets a configured route can have: at most 32, with weights the schema allows.\<close>

definition routable :: "route_target list \<Rightarrow> bool" where
  "routable items \<longleftrightarrow> length items \<le> 32 \<and> (\<forall>t \<in> set items. 1 \<le> rt_weight t \<and> rt_weight t \<le> 10000)"

lemma sum_weights:
  assumes "routable items"
  shows "sum_list (map rt_weight items) \<le> 320000" "items \<noteq> [] \<Longrightarrow> 0 < sum_list (map rt_weight items)"
proof -
  have up: "\<forall>t \<in> set ts. rt_weight t \<le> 10000 \<Longrightarrow> sum_list (map rt_weight ts) \<le> 10000 * int (length ts)" for ts
    by (induction ts) auto
  have lo: "\<forall>t \<in> set ts. 1 \<le> rt_weight t \<Longrightarrow> int (length ts) \<le> sum_list (map rt_weight ts)" for ts
    by (induction ts) auto
  show "sum_list (map rt_weight items) \<le> 320000" using up [of items] assms by (simp add: routable_def)
  show "items \<noteq> [] \<Longrightarrow> 0 < sum_list (map rt_weight items)" using lo [of items] assms by (cases items) (auto simp: routable_def)
qed

lemma totalWeight_sum: "routable items \<Longrightarrow> items \<noteq> [] \<Longrightarrow> totalWeight items = sum_list (map rt_weight items)"
  using sum_weights [of items] unfolding totalWeight_def by (intro uwrap64_id) (auto simp: maxUint64_def)

lemma weighted_index:
  assumes "routable items" "items \<noteq> []"
  obtains j where "j < length items" "pickWeighted (n mod totalWeight items) 0 items = j"
    "sum_list (map rt_weight (take j items)) \<le> n mod totalWeight items"
    "n mod totalWeight items < sum_list (map rt_weight (take j items)) + rt_weight (items ! j)"
proof -
  let ?p = "n mod totalWeight items"
  have t: "totalWeight items = sum_list (map rt_weight items)" "0 < totalWeight items" "totalWeight items \<le> 320000"
    using totalWeight_sum [OF assms] sum_weights [OF assms(1)] assms(2) by auto
  then have p: "0 \<le> ?p" "?p < totalWeight items" by simp_all
  obtain j where "j < length items" "pickWeighted ?p 0 items = j" "sum_list (map rt_weight (take j items)) \<le> ?p"
    "?p < sum_list (map rt_weight (take (Suc j) items))"
  proof -
    have "?p < 320000" using p(2) t(3) by (rule less_le_trans)
    then have "?p < 2 ^ 64" by simp
    then show thesis
      using that pickWeighted_shift [of ?p items 0] p t(1) assms(1) by (auto simp: routable_def)
  qed
  then show thesis using that by (simp add: take_Suc_conv_app_nth)
qed

section \<open>Properties of the order\<close>

lemma orderRoute_parts:
  assumes "orderRoute digest items rejected strategy seed = (targets, rejected', reason)" "strategy \<noteq> ''fixed''"
  shows "let unpriced = (if strategy = ''lowest_cost'' then filter (\<lambda>t. rt_estimatedCost t = None) items else [])
         in mset targets + mset unpriced = mset items \<and> rejected' = rejected @ map (rejectTarget ''price_unknown'') unpriced"
proof -
  have w: "mset (swapFront (pickWeighted (n mod totalWeight items) 0 items) items) = mset items" if "length items > 1" for n
    using pickWeighted_range [of _ 0 items] that by (intro swapFront_mset) (metis add_0 gr0I not_less_zero)
  have l: "mset (swapFront 1 (sliceStable faster items)) = mset items" if "length (sliceStable faster items) > 1"
    using swapFront_mset [OF that] byLatency.sliceStable_mset by simp
  have f: "mset (filter (\<lambda>t. rt_estimatedCost t \<noteq> None) items) + mset (filter (\<lambda>t. rt_estimatedCost t = None) items) = mset items"
    by (induction items) auto
  show ?thesis
    using assms(1,2) w l f unfolding orderRoute_def
    by (auto simp: Let_def byCost.sliceStable_mset byLatency.sliceStable_mset split: if_splits)
qed

lemma orderRoute_fixed:
  assumes "orderRoute digest items rejected ''fixed'' seed = (targets, rejected', reason)"
  shows "targets = take 1 items \<and> rejected' = rejected"
  using assms by (auto simp: orderRoute_def Let_def split: if_splits)

text \<open>
  (C34) Ordering a route invents nothing and loses a target only where the strategy says so: \<^verbatim>\<open>fixed\<close> keeps
  the first eligible target alone, \<^verbatim>\<open>lowest_cost\<close> takes out exactly the targets without a known price and
  reports each of them as \<^verbatim>\<open>price_unknown\<close>, and every other strategy returns the eligible targets in some
  order and rejects nothing more.
\<close>

theorem orderRoute_complete:
  assumes "orderRoute digest items rejected strategy seed = (targets, rejected', reason)"
  shows "(strategy = ''fixed'' \<longrightarrow> targets = take 1 items \<and> rejected' = rejected) \<and>
    (strategy \<noteq> ''fixed'' \<longrightarrow>
      (let unpriced = (if strategy = ''lowest_cost'' then filter (\<lambda>t. rt_estimatedCost t = None) items else [])
       in mset targets + mset unpriced = mset items \<and> rejected' = rejected @ map (rejectTarget ''price_unknown'') unpriced))"
  using orderRoute_parts [OF assms] orderRoute_fixed assms by blast

text \<open>
  (C35) \<^verbatim>\<open>lowest_cost\<close> puts the cheapest target first: the targets are sorted by estimated cost, all of
  them priced, and targets of equal cost keep the order of their priorities.
\<close>

theorem orderRoute_cheapest_first:
  assumes "orderRoute digest items rejected ''lowest_cost'' seed = (targets, rejected', reason)"
  shows "sorted_wrt (\<lambda>a b. the (rt_estimatedCost a) \<le> the (rt_estimatedCost b)) targets \<and>
         (\<forall>t \<in> set targets. t \<in> set items \<and> rt_estimatedCost t \<noteq> None) \<and>
         (\<forall>c. filter (\<lambda>t. rt_estimatedCost t = Some c) targets = filter (\<lambda>t. rt_estimatedCost t = Some c) items)"
proof -
  let ?priced = "filter (\<lambda>t. rt_estimatedCost t \<noteq> None) items"
  have t: "targets = sliceStable cheaper ?priced" using assms by (simp add: orderRoute_def)
  have m: "set targets = set ?priced" unfolding t using byCost.sliceStable_mset by (metis set_mset_mset)
  have c: "filter (\<lambda>t. rt_estimatedCost t = Some c) targets = filter (\<lambda>t. rt_estimatedCost t = Some c) items" for c
  proof -
    have "filter (\<lambda>t. rt_estimatedCost t = Some c) targets = filter (\<lambda>t. the (rt_estimatedCost t) = c) targets"
      by (rule filter_cong) (use m in auto)
    also have "\<dots> = filter (\<lambda>t. the (rt_estimatedCost t) = c) ?priced"
      unfolding t by (rule byCost.sliceStable_stable)
    also have "\<dots> = filter (\<lambda>t. rt_estimatedCost t = Some c) items"
      by (simp, rule filter_cong) auto
    finally show ?thesis .
  qed
  show ?thesis using byCost.sliceStable_sorted m c unfolding t by simp
qed

text \<open>
  (C36) A weighted route draws in proportion to the weights: the target put first is the one whose interval
  of the running sum of weights contains the seed's number modulo the total weight, and an interval is as
  long as the weight of its target. The other targets stay available for fallback.
\<close>

theorem weighted_draw:
  assumes "orderRoute digest items rejected ''weighted'' seed = (targets, rejected', reason)" "routable items" "1 < length items"
  shows "\<exists>i < length items. hd targets = items ! i \<and> mset targets = mset items \<and>
           sum_list (map rt_weight (take i items)) \<le> digest seed mod sum_list (map rt_weight items) \<and>
           digest seed mod sum_list (map rt_weight items) < sum_list (map rt_weight (take i items)) + rt_weight (items ! i)"
proof -
  have ne: "items \<noteq> []" using assms(3) by auto
  obtain j where j: "j < length items" "pickWeighted (digest seed mod totalWeight items) 0 items = j"
    "sum_list (map rt_weight (take j items)) \<le> digest seed mod totalWeight items"
    "digest seed mod totalWeight items < sum_list (map rt_weight (take j items)) + rt_weight (items ! j)"
    using weighted_index [OF assms(2) ne] by blast
  have "targets = swapFront j items" using assms(1,3) j(2) by (simp add: orderRoute_def Let_def)
  with j swapFront_hd [OF j(1)] swapFront_mset [OF j(1)] totalWeight_sum [OF assms(2) ne] show ?thesis by auto
qed

text \<open>Sample rows: the upstream model \<open>i\<close> on a connection \<open>ci\<close> with a preset, and the route target they give.\<close>

definition sampleRow :: "string \<Rightarrow> int \<Rightarrow> string \<Rightarrow> credential_row option \<Rightarrow> route_row" where
  "sampleRow i weight preset credential =
     \<lparr>rr_target = \<lparr>pt_model = ''m'', pt_upstream = i, pt_priority = 1, pt_weight = weight, pt_enabled = True, pt_created = 0, pt_updated = 0\<rparr>,
      rr_public = \<lparr>pm_id = ''m'', pm_label = [], pm_description = [], pm_targetConnection = ''ca'', pm_targetModel = ''a'',
        pm_capabilities = [], pm_active = True, pm_revision = 1, pm_updated = 0, pm_strategy = ''ordered_fallback'', pm_freeOnly = False\<rparr>,
      rr_upstream = \<lparr>um_id = i, um_connection = ''c'' @ i, um_upstream = i, um_capabilities = [], um_active = True\<rparr>,
      rr_connection = \<lparr>pc_id = ''c'' @ i, pc_adapter = ''openai_compatible'', pc_preset = preset, pc_baseURL = [], pc_enabled = True,
        pc_private = False, pc_timeout = 1000, pc_revision = 1\<rparr>,
      rr_credential = credential, rr_script = None, rr_price = None, rr_observation = None\<rparr>"

definition sampleTarget :: "string \<Rightarrow> int \<Rightarrow> int option \<Rightarrow> route_target" where
  "sampleTarget i weight cost = (rowItem ''weighted'' False (sampleRow i weight ''ollama'' None))\<lparr>rt_estimatedCost := cost\<rparr>"

lemma sampleTarget_sel [simp]:
  "rt_weight (sampleTarget i weight cost) = weight" "rt_estimatedCost (sampleTarget i weight cost) = cost"
  "rt_upstreamModelID (sampleTarget i weight cost) = i"
  by (simp_all add: sampleTarget_def rowItem_def sampleRow_def)

lemma sampleTarget_inj: "i \<noteq> j \<Longrightarrow> sampleTarget i a b \<noteq> sampleTarget j c d"
  by (metis sampleTarget_sel(3))

theorem orderRoute_complete_witness:
  "\<exists>targets rejected reason.
     orderRoute (\<lambda>s. 7) [sampleTarget ''a'' 1 (Some 9), sampleTarget ''b'' 1 None, sampleTarget ''d'' 1 (Some 3)] [] ''lowest_cost'' ''s''
       = (targets, rejected, reason) \<and>
     mset targets + {#sampleTarget ''b'' 1 None#} =
       mset [sampleTarget ''a'' 1 (Some 9), sampleTarget ''b'' 1 None, sampleTarget ''d'' 1 (Some 3)]"
proof -
  let ?items = "[sampleTarget ''a'' 1 (Some 9), sampleTarget ''b'' 1 None, sampleTarget ''d'' 1 (Some 3)]"
  obtain targets rejected reason where r: "orderRoute (\<lambda>s. 7) ?items [] ''lowest_cost'' ''s'' = (targets, rejected, reason)"
    by (metis prod_cases3)
  from orderRoute_complete [OF r] r show ?thesis by (auto simp: Let_def)
qed

theorem orderRoute_cheapest_first_witness:
  "\<exists>targets rejected reason.
     orderRoute (\<lambda>s. 7) [sampleTarget ''a'' 1 (Some 9), sampleTarget ''b'' 1 None, sampleTarget ''d'' 1 (Some 3)] [] ''lowest_cost'' ''s''
       = (targets, rejected, reason) \<and>
     sorted_wrt (\<lambda>a b. the (rt_estimatedCost a) \<le> the (rt_estimatedCost b)) targets \<and> rt_upstreamModelID (hd targets) = ''d''"
  using orderRoute_cheapest_first
    [of "\<lambda>s. 7" "[sampleTarget ''a'' 1 (Some 9), sampleTarget ''b'' 1 None, sampleTarget ''d'' 1 (Some 3)]" "[]" "''s''"]
  by (simp add: orderRoute_def cheaper_def)

theorem weighted_draw_witness:
  "\<exists>targets rejected reason.
     orderRoute (\<lambda>s. 12) [sampleTarget ''a'' 3 None, sampleTarget ''b'' 7 None] [] ''weighted'' ''s'' = (targets, rejected, reason) \<and>
     hd targets = sampleTarget ''a'' 3 None"
proof -
  let ?items = "[sampleTarget ''a'' 3 None, sampleTarget ''b'' 7 None]"
  obtain targets rejected reason where r: "orderRoute (\<lambda>s. 12) ?items [] ''weighted'' ''s'' = (targets, rejected, reason)"
    by (metis prod_cases3)
  have "routable ?items" by (simp add: routable_def)
  from weighted_draw [OF r this] obtain i where "i < length ?items" "hd targets = ?items ! i"
    "sum_list (map rt_weight (take i ?items)) \<le> 12 mod sum_list (map rt_weight ?items)" by fastforce
  then have "hd targets = sampleTarget ''a'' 3 None" by (cases i) auto
  with r show ?thesis by blast
qed

section \<open>Which targets a route keeps\<close>

lemma routeLoop_target:
  "routeLoop h st fo o1 now rows err = Inr (targets, rejected) \<Longrightarrow> t \<in> set targets \<Longrightarrow>
   \<exists>row \<in> set rows. \<exists>err0 err'. routeRow h st fo o1 now row err0 = Inr (Inr t, err')"
proof (induction rows arbitrary: err targets rejected)
  case (Cons row rows)
  from Cons.prems obtain r err1 ts rs where
    r: "routeRow h st fo o1 now row err = Inr (r, err1)" "routeLoop h st fo o1 now rows err1 = Inr (ts, rs)"
       "(case r of Inl rejection \<Rightarrow> Inr (ts, rejection # rs) | Inr item \<Rightarrow> Inr (item # ts, rs)) = (Inr (targets, rejected) :: string + _)"
    by (auto split: sum.splits prod.splits)
  show ?case
  proof (cases "r = Inr t")
    case True
    with r(1) show ?thesis by auto
  next
    case False
    with r(3) Cons.prems(2) have "t \<in> set ts" by (cases r) auto
    with Cons.IH [OF r(2)] show ?thesis by auto
  qed
qed simp

lemma weighRow_keeps:
  "weighRow fo o1 now row item = Inr (Inr t) \<Longrightarrow>
   rt_upstreamModelID t = rt_upstreamModelID item \<and> rt_connectionID t = rt_connectionID item \<and> rt_target t = rt_target item \<and>
   (fo \<longrightarrow> verifiedFree now (rr_price row)) \<and> (\<forall>until. circuitOf row = Some until \<longrightarrow> until \<le> now) \<and>
   (rt_estimatedCost t \<noteq> None \<longrightarrow> rr_price row \<noteq> None \<or> rt_estimatedCost item \<noteq> None)"
  by (auto simp: weighRow_def Let_def split: sum.splits option.splits if_splits)

text \<open>What it means that a row of the join may serve a request.\<close>

definition servable :: "route_options \<Rightarrow> bool \<Rightarrow> int \<Rightarrow> route_row \<Rightarrow> target \<Rightarrow> bool" where
  "servable o1 freeOnly now row t \<longleftrightarrow>
     (\<forall>allows. ro_allows o1 = Some allows \<longrightarrow> allows (um_connection (rr_upstream row))) \<and>
     (\<forall>eligible. ro_eligibility o1 = Some eligible \<longrightarrow> fst (eligible (t\<lparr>tg_credential := [], tg_bearer := False\<rparr>))) \<and>
     (tg_credential t \<noteq> [] \<or> pc_preset (rr_connection row) = ''ollama'') \<and>
     (freeOnly \<longrightarrow> verifiedFree now (rr_price row)) \<and>
     (\<forall>ob until. rr_observation row = Some ob \<longrightarrow> ro_until ob = Some until \<longrightarrow> until \<le> now)"

lemma routeRow_servable:
  assumes "routeRow h st fo o1 now row err0 = Inr (Inr t, err')"
  shows "rt_upstreamModelID t = pt_upstream (rr_target row) \<and> rt_connectionID t = um_connection (rr_upstream row) \<and>
    servable o1 fo now row (rt_target t)"
proof -
  obtain credential bearer err where c: "rowCredential h row err0 = (credential, bearer, err)" by (metis prod_cases3)
  let ?item = "rowItem st fo row"
  let ?item' = "?item\<lparr>rt_target := (rt_target ?item)\<lparr>tg_credential := credential, tg_bearer := bearer\<rparr>\<rparr>"
  from assms c have w: "weighRow fo o1 now row ?item' = Inr (Inr t)" and
    a: "case ro_allows o1 of None \<Rightarrow> True | Some allows \<Rightarrow> allows (rt_connectionID ?item)"
    "case ro_eligibility o1 of None \<Rightarrow> True | Some eligible \<Rightarrow> fst (eligible (rt_target ?item))"
    "credential \<noteq> [] \<or> pc_preset (rr_connection row) = ''ollama''"
    by (auto simp: routeRow_def Let_def split: if_splits option.splits prod.splits sum.splits bool.splits)
  have "(rt_target ?item)\<lparr>tg_credential := [], tg_bearer := False\<rparr> = rt_target ?item" by (simp add: rowItem_def rowTarget_def)
  with weighRow_keeps [OF w] a show ?thesis
    by (auto simp: servable_def circuitOf_def rowItem_def rowTarget_def split: option.splits)
qed

lemma routeRows_enabled:
  assumes "row \<in> set (routeRows publicID op streaming now s)"
  shows "rr_target row \<in> set (public_model_targets s) \<and> pt_model (rr_target row) = publicID \<and> pt_enabled (rr_target row) \<and>
    rr_upstream row \<in> set (upstream_models s) \<and> um_active (rr_upstream row) \<and> um_id (rr_upstream row) = pt_upstream (rr_target row) \<and>
    rr_connection row \<in> set (provider_connections s) \<and> pc_enabled (rr_connection row) \<and>
    pc_id (rr_connection row) = um_connection (rr_upstream row)"
proof -
  from assms obtain t where t: "t \<in> set (public_model_targets s)" "pt_model t = publicID" "pt_enabled t"
    "joinRow op streaming now s t = Some row"
    by (auto simp: routeRows_def List.map_filter_def)
  from t(4) obtain m u c where j: "find (\<lambda>u. um_id u = pt_upstream t \<and> um_active u) (upstream_models s) = Some u"
    "find (\<lambda>c. pc_id c = um_connection u \<and> pc_enabled c) (provider_connections s) = Some c"
    "rr_target row = t" "rr_upstream row = u" "rr_connection row = c"
    by (auto simp: joinRow_def bind_eq_Some_conv)
  from find_SomeD [OF j(1)] find_SomeD [OF j(2)] j(3-5) t show ?thesis by simp
qed

lemma orderRoute_subset:
  assumes "orderRoute digest items rejected strategy seed = (targets, rejected', reason)"
  shows "set targets \<subseteq> set items"
proof (cases "strategy = ''fixed''")
  case True
  with assms show ?thesis by (auto simp: orderRoute_def Let_def dest: in_set_takeD)
next
  case False
  from orderRoute_parts [OF assms False] obtain rest where m: "mset items = mset targets + mset rest"
    unfolding Let_def by (metis (no_types, lifting))
  have "set items = set_mset (mset targets + mset rest)" unfolding m [symmetric] by simp
  then show ?thesis by auto
qed

lemma Route_Inr:
  assumes "Route h digest publicID o1 w (n, s) = Inr (r, n', s')"
  shows "\<exists>(m :: public_row) now found. s' = s \<and> (0 < ro_quoteAt o1 \<longrightarrow> now = ro_quoteAt o1) \<and>
    routeLoop h (pm_strategy m) (pm_freeOnly m) o1 now (routeRows publicID (ro_op o1) (ro_stream o1) now s) False = Inr found \<and>
    r = finishPlan digest publicID (pm_strategy m) (pm_freeOnly m) (ro_seed o1) found"
proof (cases "ro_quoteAt o1 \<le> 0")
  case True
  then show ?thesis using assms unfolding Route_def
    by (clarsimp simp: tx_inv elim!: tx_elim) (intro exI conjI; (assumption | rule refl))
next
  case False
  then show ?thesis using assms unfolding Route_def
    by (clarsimp simp: tx_inv elim!: tx_elim) (intro exI conjI; (assumption | rule refl))
qed

text \<open>
  (C33) A route offers only targets that may serve: every target of a plan \<^verbatim>\<open>Route\<close> returns comes from an
  enabled target row of the model whose upstream model is active and whose connection is enabled, the
  caller's key grants that connection, the eligibility test passed, a credential was found (only the
  \<^verbatim>\<open>ollama\<close> preset goes without), a free-only model has a verified free price, and no circuit is open.
  Planning changes nothing in the store.
\<close>

theorem Route_offers_servable:
  assumes "autoT (Route h digest publicID o1) w s = (Inr (plan, err), s')" "t \<in> set (rpl_targets plan)"
  shows "s' = s \<and> (\<exists>now row. row \<in> set (routeRows publicID (ro_op o1) (ro_stream o1) now s) \<and>
    (0 < ro_quoteAt o1 \<longrightarrow> now = ro_quoteAt o1) \<and>
    rr_target row \<in> set (public_model_targets s) \<and> pt_model (rr_target row) = publicID \<and> pt_enabled (rr_target row) \<and>
    pt_upstream (rr_target row) = rt_upstreamModelID t \<and> um_active (rr_upstream row) \<and>
    rr_connection row \<in> set (provider_connections s) \<and> pc_enabled (rr_connection row) \<and> pc_id (rr_connection row) = rt_connectionID t \<and>
    servable o1 (rpl_freeOnly plan) now row (rt_target t))"
proof -
  from autoT_Inr [OF assms(1)] obtain n n' where "Route h digest publicID o1 w (n, s) = Inr ((plan, err), n', s')" by blast
  from Route_Inr [OF this] obtain m :: public_row and now found where s: "s' = s" and now: "0 < ro_quoteAt o1 \<longrightarrow> now = ro_quoteAt o1"
    and l: "routeLoop h (pm_strategy m) (pm_freeOnly m) o1 now (routeRows publicID (ro_op o1) (ro_stream o1) now s) False = Inr found"
    and p: "(plan, err) = finishPlan digest publicID (pm_strategy m) (pm_freeOnly m) (ro_seed o1) found" by blast
  have fo: "rpl_freeOnly plan = pm_freeOnly m" and "t \<in> set (fst found)"
    using p assms(2) orderRoute_subset [of digest "fst found" "snd found" "pm_strategy m" "ro_seed o1"]
    by (auto simp: finishPlan_def split: prod.splits)
  then obtain row err0 err' where r: "row \<in> set (routeRows publicID (ro_op o1) (ro_stream o1) now s)"
    "routeRow h (pm_strategy m) (pm_freeOnly m) o1 now row err0 = Inr (Inr t, err')"
    using routeLoop_target [of h "pm_strategy m" "pm_freeOnly m" o1 now
      "routeRows publicID (ro_op o1) (ro_stream o1) now s" False "fst found" "snd found" t] l
    by (metis prod.collapse)
  from routeRow_servable [OF r(2)] routeRows_enabled [OF r(1)] r(1) now fo s show ?thesis by fastforce
qed

definition emptyHost :: host where
  "emptyHost = \<lparr>h_getenv = (\<lambda>v. []), h_stat = (\<lambda>v. None), h_openFile = (\<lambda>v. False), h_fstat = (\<lambda>v. None),
     h_read = (\<lambda>v. None), h_open = (\<lambda>c t n. None)\<rparr>"

definition plainOptions :: route_options where
  "plainOptions = \<lparr>ro_op = ''chat/completions'', ro_stream = False, ro_inputTokens = 0, ro_outputTokens = 0, ro_quoteAt = 1000,
     ro_seed = [], ro_allows = None, ro_eligibility = None\<rparr>"

text \<open>The store whose tables hold the given rows, all of them targets of one public model.\<close>

definition joinedStore :: "route_row list \<Rightarrow> store" where
  "joinedStore rows = emptyStore\<lparr>provider_connections := map rr_connection rows, upstream_models := map rr_upstream rows,
     public_models := map rr_public (take 1 rows), public_model_targets := map rr_target rows,
     provider_credentials := List.map_filter rr_credential rows\<rparr>"

definition prioritized :: "int \<Rightarrow> route_row \<Rightarrow> route_row" where
  "prioritized p row = row\<lparr>rr_target := (rr_target row)\<lparr>pt_priority := p\<rparr>\<rparr>"

definition sampleRouteStore :: store where
  "sampleRouteStore = joinedStore [sampleRow ''a'' 1 ''ollama'' None]"

lemmas route_run = Route_def autoT_def tx_defs routeRows_def joinRow_def List.map_filter_def orderBy_def priceRowAt_def orderByDesc_def
  firstRow_def routeRow_def rowCredential_def weighRow_def circuitOf_def finishPlan_def orderRoute_def rejectTarget_def
  plainOptions_def emptyHost_def sampleRow_def sampleRouteStore_def joinedStore_def emptyStore_def calmWorld_def Let_def

lemma sample_route:
  "\<exists>plan t. autoT (Route emptyHost (\<lambda>s. 0) ''m'' plainOptions) calmWorld sampleRouteStore = (Inr (plan, None), sampleRouteStore) \<and>
     rpl_targets plan = [t] \<and> rt_upstreamModelID t = ''a''"
  by (simp add: route_run) (simp add: rowItem_def)

theorem Route_offers_servable_witness:
  "\<exists>plan t. autoT (Route emptyHost (\<lambda>s. 0) ''m'' plainOptions) calmWorld sampleRouteStore = (Inr (plan, None), sampleRouteStore) \<and>
     rpl_targets plan = [t] \<and> (\<exists>now row. pt_upstream (rr_target row) = ''a'' \<and> servable plainOptions (rpl_freeOnly plan) now row (rt_target t))"
proof -
  obtain plan t where r: "autoT (Route emptyHost (\<lambda>s. 0) ''m'' plainOptions) calmWorld sampleRouteStore = (Inr (plan, None), sampleRouteStore)"
    "rpl_targets plan = [t]" "rt_upstreamModelID t = ''a''" using sample_route by blast
  from Route_offers_servable [OF r(1)] r show ?thesis by auto
qed

text \<open>
  The two targets of the next property: one on a connection whose credential is an environment variable
  that is not set, one on a keyless \<^verbatim>\<open>ollama\<close> connection.
\<close>

definition brokenRow :: route_row where
  "brokenRow = sampleRow ''a'' 1 ''custom''
     (Some \<lparr>cr_connection = ''ca'', cr_ciphertext = None, cr_nonce = None, cr_external = Some ''env:MISSING''\<rparr>)"

definition keylessRow :: route_row where
  "keylessRow = sampleRow ''b'' 1 ''ollama'' None"

lemma missing_credential: "resolveExternalCredential emptyHost ''env:MISSING'' = None"
  by (simp add: resolveExternalCredential_def bind_eq_None_conv Let_def emptyHost_def readCredentialFile_def
      badCredentialFile_def TrimSpace_plain split: prod.splits)

lemmas two_rows = brokenRow_def keylessRow_def sampleRow_def prioritized_def

lemma joined_rows:
  "routeRows ''m'' ''chat/completions'' False 1000 (joinedStore [prioritized 1 brokenRow, prioritized 2 keylessRow])
     = [prioritized 1 brokenRow, prioritized 2 keylessRow]"
  "routeRows ''m'' ''chat/completions'' False 1000 (joinedStore [prioritized 2 brokenRow, prioritized 1 keylessRow])
     = [prioritized 1 keylessRow, prioritized 2 brokenRow]"
  by (simp_all add: routeRows_def joinRow_def List.map_filter_def orderBy_def priceRowAt_def orderByDesc_def firstRow_def
      joinedStore_def emptyStore_def two_rows)

lemma broken_row: "routeRow emptyHost st False plainOptions 1000 (prioritized p brokenRow) err =
    Inr (Inl (rejectTarget ''credential_unavailable'' (rowItem st False (prioritized p brokenRow))), True)"
  by (simp add: routeRow_def rowCredential_def plainOptions_def two_rows Let_def missing_credential rejectTarget_def rowItem_def)

lemma keyless_row:
  "routeRow emptyHost st False plainOptions 1000 (prioritized p keylessRow) True =
     Inr (Inl (rejectTarget ''credential_unavailable'' (rowItem st False (prioritized p keylessRow))), True)"
  "\<exists>t. routeRow emptyHost st False plainOptions 1000 (prioritized p keylessRow) False = Inr (Inr t, False) \<and>
     rt_upstreamModelID t = ''b''"
  by (simp_all add: routeRow_def rowCredential_def weighRow_def circuitOf_def plainOptions_def two_rows Let_def rejectTarget_def rowItem_def)

text \<open>
  (C37) The error of one credential spoils the targets after it: the loop of \<^verbatim>\<open>Route\<close> assigns the error
  variable of the function and never clears it, so once a target's credential cannot be resolved, a
  later \<^verbatim>\<open>ollama\<close> target, which needs no credential, is rejected as \<^verbatim>\<open>credential_unavailable\<close> as well and
  the plan has no target at all; in the same store with the two priorities exchanged it is offered.
\<close>

theorem stale_credential_error:
  "let run = (\<lambda>s. fst (autoT (Route emptyHost (\<lambda>s. 0) ''m'' plainOptions) calmWorld s));
       rejected = (\<lambda>row. rejectTarget ''credential_unavailable'' (rowItem ''ordered_fallback'' False row));
       broken1 = prioritized 1 brokenRow; broken2 = prioritized 2 brokenRow;
       keyless1 = prioritized 1 keylessRow; keyless2 = prioritized 2 keylessRow
   in routeLoop emptyHost ''ordered_fallback'' False plainOptions 1000 [broken1, keyless2] False = Inr ([], [rejected broken1, rejected keyless2]) \<and>
      (\<exists>plan e. run (joinedStore [broken1, keyless2]) = Inr (plan, e) \<and> rpl_targets plan = [] \<and>
         rpl_rejected plan = [rejected broken1, rejected keyless2]) \<and>
      (\<exists>t. routeLoop emptyHost ''ordered_fallback'' False plainOptions 1000 [keyless1, broken2] False = Inr ([t], [rejected broken2]) \<and>
           rt_upstreamModelID t = ''b'' \<and>
           (\<exists>plan e. run (joinedStore [broken2, keyless1]) = Inr (plan, e) \<and> rpl_targets plan = [t] \<and> rpl_rejected plan = [rejected broken2]))"
proof -
  obtain t where t: "routeRow emptyHost ''ordered_fallback'' False plainOptions 1000 (prioritized 1 keylessRow) False = Inr (Inr t, False)"
    "rt_upstreamModelID t = ''b''" using keyless_row(2) by blast
  have m: "\<exists>m. public_models (joinedStore [prioritized p brokenRow, prioritized q keylessRow]) = [m] \<and>
      pm_id m = ''m'' \<and> pm_active m \<and> pm_strategy m = ''ordered_fallback'' \<and> \<not> pm_freeOnly m" for p q
    by (simp add: joinedStore_def two_rows)
  have o: "ro_op plainOptions = ''chat/completions''" "\<not> ro_stream plainOptions" "ro_quoteAt plainOptions = 1000"
    by (simp_all add: plainOptions_def)
  show ?thesis
    using m [of 1 2] m [of 2 1] t
    by (auto simp: Let_def broken_row keyless_row(1) Route_def autoT_def tx_defs joined_rows o finishPlan_def orderRoute_def calmWorld_def)
qed

text \<open>
  (C38) Four presets cannot be used the way they are described: \<^verbatim>\<open>laya\<close>, \<^verbatim>\<open>kev\<close>, \<^verbatim>\<open>clm\<close> and \<^verbatim>\<open>openjev\<close> are
  listed with no credential required, and a connection without one is accepted, but the router lets only
  \<^verbatim>\<open>ollama\<close> go without: a granted and eligible target of such a connection is always rejected as
  \<^verbatim>\<open>credential_unavailable\<close>, and the model is reported as having no available target through it.
\<close>

theorem keyless_presets_unroutable:
  assumes "pc_preset (rr_connection row) \<in> {''laya'', ''kev'', ''clm'', ''openjev''}" "rr_credential row = None"
    and "\<forall>allows. ro_allows o1 = Some allows \<longrightarrow> allows (um_connection (rr_upstream row))"
    and "\<forall>eligible. ro_eligibility o1 = Some eligible \<longrightarrow> fst (eligible (rowTarget st fo row))"
  shows "\<not> presetCredentialRequired (pc_preset (rr_connection row)) \<and>
    (\<exists>err'. routeRow h st fo o1 now row err = Inr (Inl (rejectTarget ''credential_unavailable'' (rowItem st fo row)), err')) \<and>
    \<not> rowAvailable h allowed eligible row"
proof -
  have "\<not> presetCredentialRequired (pc_preset (rr_connection row))"
    using assms(1) by (elim insertE emptyE) (simp_all add: presetCredentialRequired_def presets_def preset_of_def)
  moreover have "\<exists>err'. routeRow h st fo o1 now row err = Inr (Inl (rejectTarget ''credential_unavailable'' (rowItem st fo row)), err')"
    using assms by (auto simp: routeRow_def rowCredential_def Let_def rowItem_def split: option.splits prod.splits bool.splits)
  moreover have "\<not> rowAvailable h allowed eligible row"
    using assms(1,2) by (auto simp: rowAvailable_def)
  ultimately show ?thesis by blast
qed

theorem keyless_presets_unroutable_witness:
  "\<not> rowAvailable emptyHost (\<lambda>c. True) None (sampleRow ''a'' 1 ''laya'' None) \<and> \<not> presetCredentialRequired ''laya''"
  using keyless_presets_unroutable [of "sampleRow ''a'' 1 ''laya'' None" plainOptions "''fixed''" False emptyHost 0 False "\<lambda>c. True" None]
  by (simp add: sampleRow_def plainOptions_def)

end
