(* ===== verification/Grants.thy ===== *)
theory Grants
  imports Json
begin

text \<open>
  The algebra of grants that \<^verbatim>\<open>keys/service.go\<close> shares with \<^verbatim>\<open>users/service.go\<close>: lists of
  scopes and connections under a ceiling, and lists of model patterns, where a pattern is kept when
  every model it matches is covered by the ceiling as far as the code can tell from its shape.
\<close>

section \<open>Lists of grants\<close>

fun uniqueFrom :: "string list \<Rightarrow> string list \<Rightarrow> string list" where
  "uniqueFrom seen [] = []"
| "uniqueFrom seen (value # values) =
     (if value \<in> set seen then uniqueFrom seen values else value # uniqueFrom (value # seen) values)"

definition unique :: "string list \<Rightarrow> string list" where
  "unique values = uniqueFrom [] values"

definition intersection :: "string list \<Rightarrow> string list \<Rightarrow> string list" where
  "intersection values ceiling = filter (\<lambda>v. v \<in> set ceiling) (unique values)"

definition subset_grants :: "string list \<Rightarrow> string list \<Rightarrow> bool" where
  "subset_grants values ceiling \<longleftrightarrow> length (intersection values ceiling) = length (unique values)"

section \<open>Model patterns\<close>

definition containsAny :: "string \<Rightarrow> string \<Rightarrow> bool" where
  "containsAny s chars = list_ex (\<lambda>c. c \<in> set chars) s"

definition countChar :: "char \<Rightarrow> string \<Rightarrow> nat" where
  "countChar c s = length (filter (\<lambda>x. x = c) s)"

definition simplePrefixPattern :: "string \<Rightarrow> string option" where
  "simplePrefixPattern pattern =
     (if countChar (CHR ''*'') pattern \<noteq> 1 \<or> pattern = [] \<or> last pattern \<noteq> CHR ''*'' \<or> containsAny (butlast pattern) ''?['' then None
      else Some (butlast pattern))"

text \<open>The condition under which a pattern is kept because of one pattern of the ceiling.\<close>

definition modelCovered :: "string \<Rightarrow> string \<Rightarrow> bool" where
  "modelCovered value allowed \<longleftrightarrow>
     value = allowed \<or>
     \<not> containsAny value ''*?['' \<and> path_Match allowed value = Some True \<or>
     (case (simplePrefixPattern allowed, simplePrefixPattern value) of
        (Some allowedPrefix, Some valuePrefix) \<Rightarrow>
          hasPrefix valuePrefix allowedPrefix \<and> countChar (CHR ''/'') valuePrefix = countChar (CHR ''/'') allowedPrefix \<and>
          \<not> containsAny (valuePrefix @ allowedPrefix) [CHR 0x5C]
      | _ \<Rightarrow> False)"

definition modelIntersection :: "string list \<Rightarrow> string list \<Rightarrow> string list" where
  "modelIntersection values ceiling = filter (\<lambda>v. list_ex (modelCovered v) ceiling) (unique values)"

definition modelSubset :: "string list \<Rightarrow> string list \<Rightarrow> bool" where
  "modelSubset values ceiling \<longleftrightarrow> length (modelIntersection values ceiling) = length (unique values)"

section \<open>Lemmas on lists of grants\<close>

lemma set_uniqueFrom: "set (uniqueFrom seen xs) = set xs - set seen"
  by (induction seen xs rule: uniqueFrom.induct) auto

lemma set_unique [simp]: "set (unique xs) = set xs"
  by (simp add: unique_def set_uniqueFrom)

lemma distinct_unique [simp]: "distinct (unique xs)"
proof -
  have "distinct (uniqueFrom seen xs)" for seen
    by (induction seen xs rule: uniqueFrom.induct) (auto simp: set_uniqueFrom)
  then show ?thesis by (simp add: unique_def)
qed

lemma uniqueFrom_distinct: "distinct xs \<Longrightarrow> set xs \<inter> set seen = {} \<Longrightarrow> uniqueFrom seen xs = xs"
  by (induction seen xs rule: uniqueFrom.induct) auto

lemma unique_distinct [simp]: "distinct xs \<Longrightarrow> unique xs = xs"
  by (simp add: unique_def uniqueFrom_distinct)

lemma filter_full: "length (filter p xs) = length xs \<longleftrightarrow> (\<forall>x \<in> set xs. p x)"
  by (metis filter_True length_filter_less less_irrefl)

lemma set_intersection [simp]: "set (intersection xs ceiling) = set xs \<inter> set ceiling"
  by (auto simp: intersection_def)

lemma subset_grants_iff: "subset_grants xs ceiling \<longleftrightarrow> set xs \<subseteq> set ceiling"
  by (auto simp: subset_grants_def intersection_def filter_full)

lemma set_modelIntersection: "set (modelIntersection xs ceiling) = {v \<in> set xs. \<exists>a \<in> set ceiling. modelCovered v a}"
  by (auto simp: modelIntersection_def list_ex_iff)

lemma modelSubset_iff: "modelSubset xs ceiling \<longleftrightarrow> (\<forall>v \<in> set xs. \<exists>a \<in> set ceiling. modelCovered v a)"
  by (simp add: modelSubset_def modelIntersection_def filter_full list_ex_iff)

section \<open>Matching of simple patterns\<close>

text \<open>A pattern without metacharacters matches itself, and with a star at its end every name with that prefix and no further slash.\<close>

definition literal :: "string \<Rightarrow> bool" where
  "literal p \<longleftrightarrow> list_all (\<lambda>c. c \<notin> {CHR ''*'', CHR ''?'', CHR ''['', CHR 0x5C}) p"

lemma scanBody_literal: "literal p \<Longrightarrow> scanBody False p = (p, [])" "literal p \<Longrightarrow> scanBody False (p @ [CHR ''*'']) = (p, [CHR ''*''])"
  by (induction p) (auto simp: literal_def Let_def)

lemma scanChunk_literal:
  "literal p \<Longrightarrow> scanChunk p = (False, p, [])" "literal p \<Longrightarrow> p \<noteq> [] \<Longrightarrow> scanChunk (p @ [CHR ''*'']) = (False, p, [CHR ''*''])"
  by (cases p; auto simp: scanChunk_def scanBody_literal literal_def)+

lemma matchChunk_literal:
  "literal p \<Longrightarrow> matchChunk True p s = Some None"
  "literal p \<Longrightarrow> matchChunk False p s = Some (if hasPrefix s p then Some (drop (length p) s) else None)"
proof -
  show failed: "literal p \<Longrightarrow> matchChunk True p s = Some None" for p s
    by (induction p arbitrary: s) (auto simp: matchChunk.simps literal_def Let_def)
  show "literal p \<Longrightarrow> matchChunk False p s = Some (if hasPrefix s p then Some (drop (length p) s) else None)"
  proof (induction p arbitrary: s)
    case (Cons c p)
    then have lit: "literal p" "c \<notin> {CHR ''*'', CHR ''?'', CHR ''['', CHR 0x5C}" by (auto simp: literal_def)
    show ?case
    proof (cases s)
      case Nil
      with lit failed [OF lit(1)] show ?thesis by (simp add: matchChunk.simps Let_def hasPrefix_def)
    next
      case (Cons d t)
      with lit failed [OF lit(1)] Cons.IH [OF lit(1)] show ?thesis
        by (cases "c = d") (simp_all add: matchChunk.simps Let_def hasPrefix_def)
    qed
  qed (simp add: matchChunk.simps hasPrefix_def)
qed

lemma literal_not_star: "literal p \<Longrightarrow> p \<noteq> [] \<Longrightarrow> hd p \<noteq> CHR ''*''"
  by (cases p) (auto simp: literal_def)

lemma path_Match_star: "path_Match [CHR ''*''] name = Some (CHR ''/'' \<notin> set name)"
  by (subst path_Match.simps) (simp add: scanChunk_def)

lemma hasPrefix_iff: "hasPrefix s p \<longleftrightarrow> (\<exists>r. s = p @ r)"
  unfolding hasPrefix_def by (metis append_eq_conv_conj append_take_drop_id)

lemma path_Match_literal:
  assumes "literal p"
  shows "path_Match p name = Some (name = p)"
proof (cases "p = []")
  case True
  then show ?thesis by (subst path_Match.simps) simp
next
  case False
  with assms show ?thesis
    by (subst path_Match.simps)
       (auto simp: scanChunk_literal matchChunk_literal hasPrefix_iff path_Match.simps [of "[]"] patternRestOk.simps)
qed

lemma path_Match_prefix:
  assumes "literal p"
  shows "path_Match (p @ [CHR ''*'']) name = Some (\<exists>r. name = p @ r \<and> CHR ''/'' \<notin> set r)"
proof (cases "p = []")
  case True
  then show ?thesis by (simp add: path_Match_star)
next
  case False
  have "patternRestOk [CHR ''*'']" by (simp add: patternRestOk.simps scanChunk_def matchChunk.simps)
  with assms False show ?thesis
    by (subst path_Match.simps) (auto simp: scanChunk_literal matchChunk_literal hasPrefix_iff path_Match_star)
qed

section \<open>The ceiling holds\<close>

lemma simplePrefixPattern_Some:
  assumes "simplePrefixPattern v = Some p" "CHR 0x5C \<notin> set p"
  shows "v = p @ [CHR ''*''] \<and> literal p"
proof -
  from assms(1) have v: "v \<noteq> []" "last v = CHR ''*''" "p = butlast v" "countChar (CHR ''*'') v = 1" "\<not> containsAny p ''?[''"
    by (auto simp: simplePrefixPattern_def split: if_splits)
  then have eq: "v = p @ [CHR ''*'']" by (metis append_butlast_last_id)
  with v(4) have "CHR ''*'' \<notin> set p" by (auto simp: countChar_def filter_empty_conv)
  with v(5) assms(2) eq show ?thesis by (auto simp: literal_def containsAny_def list_all_iff list_ex_iff)
qed

lemma covered_prefix:
  assumes "literal q" "literal p" "hasPrefix p q" "countChar (CHR ''/'') p = countChar (CHR ''/'') q" and "path_Match (p @ [CHR ''*'']) model = Some True"
  shows "path_Match (q @ [CHR ''*'']) model = Some True"
proof -
  from assms(3) obtain r where p: "p = q @ r" by (auto simp: hasPrefix_iff)
  with assms(4) have "CHR ''/'' \<notin> set r" by (auto simp: countChar_def filter_empty_conv)
  moreover from assms(5) path_Match_prefix [OF assms(2)] p obtain t where "model = q @ r @ t" "CHR ''/'' \<notin> set t" by auto
  ultimately show ?thesis using assms(1) by (auto simp: path_Match_prefix)
qed

lemma modelCovered_sound:
  assumes cov: "modelCovered v a" and plain: "CHR 0x5C \<notin> set v" and m: "path_Match v model = Some True"
  shows "path_Match a model = Some True"
proof -
  from cov consider "v = a" | "\<not> containsAny v ''*?[''" "path_Match a v = Some True" |
    q p where "simplePrefixPattern a = Some q" "simplePrefixPattern v = Some p" "hasPrefix p q"
      "countChar (CHR ''/'') p = countChar (CHR ''/'') q" "\<not> containsAny (p @ q) [CHR 0x5C]"
    by (auto simp: modelCovered_def split: option.splits)
  then show ?thesis
  proof cases
    case 1
    with m show ?thesis by simp
  next
    case 2
    with plain have "literal v" by (auto simp: literal_def containsAny_def list_all_iff list_ex_iff)
    with m 2 show ?thesis by (simp add: path_Match_literal)
  next
    case (3 q p)
    then have "CHR 0x5C \<notin> set p" "CHR 0x5C \<notin> set q" by (auto simp: containsAny_def list_ex_iff)
    with 3 have "v = p @ [CHR ''*'']" "literal p" "a = q @ [CHR ''*'']" "literal q" using simplePrefixPattern_Some by blast+
    with covered_prefix [OF _ _ 3(3,4)] m show ?thesis by simp
  qed
qed

text \<open>
  (C40) The intersection of model patterns with a ceiling never widens it: a model that a kept pattern
  matches is matched by a pattern of the ceiling, as long as the kept pattern has no backslash.
\<close>

theorem modelIntersection_sound:
  assumes "v \<in> set (modelIntersection xs ceiling)" and "CHR 0x5C \<notin> set v" and "path_Match v model = Some True"
  shows "v \<in> set xs \<and> (\<exists>a \<in> set ceiling. path_Match a model = Some True)"
  using assms modelCovered_sound by (auto simp: set_modelIntersection)

theorem modelIntersection_sound_witness:
  "''gpt-4*'' \<in> set (modelIntersection [''gpt-4*'', ''o1''] [''gpt-*'']) \<and> path_Match ''gpt-4*'' ''gpt-4o'' = Some True \<and>
   path_Match ''gpt-*'' ''gpt-4o'' = Some True"
proof -
  have "''gpt-4*'' \<in> set (modelIntersection [''gpt-4*'', ''o1''] [''gpt-*''])" "path_Match ''gpt-4*'' ''gpt-4o'' = Some True" by code_simp+
  with modelIntersection_sound [of "''gpt-4*''" "[''gpt-4*'', ''o1'']" "[''gpt-*'']" "''gpt-4o''"] show ?thesis by simp
qed

text \<open>
  The backslash is where it fails: the escaped pattern \<^verbatim>\<open>\a\<close> is kept under the ceiling
  \<^verbatim>\<open>\\a\<close>, because that ceiling matches the pattern's own text, yet the pattern matches the model
  \<^verbatim>\<open>a\<close> and the ceiling does not.
\<close>

lemma modelIntersection_escape:
  "modelIntersection [[CHR 0x5C, CHR ''a'']] [[CHR 0x5C, CHR 0x5C, CHR ''a'']] = [[CHR 0x5C, CHR ''a'']] \<and>
   path_Match [CHR 0x5C, CHR ''a''] ''a'' = Some True \<and> path_Match [CHR 0x5C, CHR 0x5C, CHR ''a''] ''a'' = Some False"
  by code_simp

end
