(* ===== verification/Identity.thy ===== *)
theory Identity
  imports Cursor Grants
begin

text \<open>
  The tables that \<^verbatim>\<open>auth\<close>, \<^verbatim>\<open>users\<close> and \<^verbatim>\<open>keys\<close> keep (accounts, sessions, activation codes, login
  throttles, API keys and their secrets), with the constraints of migrations 0002 and 0003; the
  functions of \<^verbatim>\<open>credentials/credentials.go\<close>; and the text and time helpers the three packages share.
  The usage service reads two of the tables: \<open>usageUsers\<close> and \<open>usageKeys\<close> are its view of them.
\<close>

section \<open>Outside functions\<close>

text \<open>
  What the packages call and this library does not define: SHA-256, the Argon2id key derivation, the
  mail address parser (the address it finds), Unicode lower-casing and \<^verbatim>\<open>net.SplitHostPort\<close> (the host).
\<close>

record env =
  e_sha256 :: "string \<Rightarrow> string"
  e_argon2 :: "string \<Rightarrow> string \<Rightarrow> string"
  e_parseAddress :: "string \<Rightarrow> string option"
  e_toLower :: "string \<Rightarrow> string"
  e_hostOf :: "string \<Rightarrow> string option"

section \<open>Runes\<close>

definition contByte :: "nat \<Rightarrow> bool" where
  "contByte b \<longleftrightarrow> 128 \<le> b \<and> b \<le> 191"

text \<open>How many bytes the first rune takes; \<open>0\<close> when the bytes are not valid UTF-8.\<close>

fun runeSize :: "nat list \<Rightarrow> nat" where
  "runeSize [] = 0"
| "runeSize (b # bs) =
     (let b1 = (case bs of [] \<Rightarrow> 0 | x # _ \<Rightarrow> x); b2 = (case bs of _ # x # _ \<Rightarrow> x | _ \<Rightarrow> 0); b3 = (case bs of _ # _ # x # _ \<Rightarrow> x | _ \<Rightarrow> 0) in
      if b < 128 then 1
      else if 194 \<le> b \<and> b \<le> 223 then (if contByte b1 then 2 else 0)
      else if 224 \<le> b \<and> b \<le> 239 then
        (if (if b = 224 then 160 \<le> b1 \<and> b1 \<le> 191 else if b = 237 then 128 \<le> b1 \<and> b1 \<le> 159 else contByte b1) \<and> contByte b2 then 3 else 0)
      else if 240 \<le> b \<and> b \<le> 244 then
        (if (if b = 240 then 144 \<le> b1 \<and> b1 \<le> 191 else if b = 244 then 128 \<le> b1 \<and> b1 \<le> 143 else contByte b1) \<and> contByte b2 \<and> contByte b3 then 4 else 0)
      else 0)"

text \<open>\<^verbatim>\<open>[]rune(s)\<close>, each rune as its bytes; an invalid byte is the replacement rune.\<close>

function runes :: "string \<Rightarrow> string list" where
  "runes [] = []"
| "runes (c # s) =
     (let n = runeSize (map of_char (c # s)) in
      if n = 0 then utf8 65533 # runes s else take n (c # s) # runes (drop (n - 1) s))"
  by pat_completeness auto
termination
  by (relation "measure length") (simp_all add: Let_def le_imp_less_Suc)

definition runeCount :: "string \<Rightarrow> nat" where
  "runeCount s = length (runes s)"

function validUtf8 :: "string \<Rightarrow> bool" where
  "validUtf8 [] = True"
| "validUtf8 (c # s) =
     (let n = runeSize (map of_char (c # s)) in n \<noteq> 0 \<and> validUtf8 (drop (n - 1) s))"
  by pat_completeness auto
termination
  by (relation "measure length") (simp_all add: Let_def le_imp_less_Suc)

definition truncateUTF8 :: "string \<Rightarrow> nat \<Rightarrow> string" where
  "truncateUTF8 value n = concat (take n (runes value))"

section \<open>Credentials\<close>

text \<open>A salt is any sixteen bytes.\<close>

definition saltT :: "('s, string) txm" where
  "saltT = bindT randT (\<lambda>t. returnT (take 16 (t @ replicate 16 (CHR 0x00))))"

definition Verifier :: "env \<Rightarrow> string \<Rightarrow> string" where
  "Verifier env token = e_sha256 env token"

definition argonParams :: string where
  "argonParams = ''m=19456,t=2,p=1''"

text \<open>\<^verbatim>\<open>base64.RawStdEncoding\<close>: the alphabet with plus and slash.\<close>

definition toStd :: "char \<Rightarrow> char" where
  "toStd c = (if c = CHR ''-'' then CHR ''+'' else if c = CHR ''_'' then CHR ''/'' else c)"

definition fromStd :: "char \<Rightarrow> char" where
  "fromStd c = (if c = CHR ''+'' then CHR ''-'' else if c = CHR ''/'' then CHR ''_''
     else if c = CHR ''-'' \<or> c = CHR ''_'' then CHR ''='' else c)"

definition base64StdEncode :: "string \<Rightarrow> string" where
  "base64StdEncode s = map toStd (base64Encode s)"

definition base64StdDecode :: "string \<Rightarrow> string option" where
  "base64StdDecode s = base64Decode (map fromStd s)"

definition encodedHash :: "env \<Rightarrow> string \<Rightarrow> string \<Rightarrow> string" where
  "encodedHash env password salt =
     ''$argon2id$v=19$'' @ argonParams @ ''$'' @ base64StdEncode salt @ ''$'' @ base64StdEncode (e_argon2 env password salt)"

definition HashPassword :: "env \<Rightarrow> string \<Rightarrow> ('s, string) txm" where
  "HashPassword env password = bindT saltT (\<lambda>salt. returnT (encodedHash env password salt))"

definition VerifyPassword :: "env \<Rightarrow> string \<Rightarrow> string \<Rightarrow> string + bool" where
  "VerifyPassword env password encoded =
     (let parts = splitOn (CHR ''$'') encoded in
      if length parts \<noteq> 6 \<or> parts ! 1 \<noteq> ''argon2id'' \<or> parts ! 2 \<noteq> ''v=19'' \<or> parts ! 3 \<noteq> argonParams
      then Inl ''stored password hash uses unsupported parameters''
      else case base64StdDecode (parts ! 4) of
             None \<Rightarrow> Inl ''stored password hash has invalid salt''
           | Some salt \<Rightarrow>
               if length salt \<noteq> 16 then Inl ''stored password hash has invalid salt''
               else (case base64StdDecode (parts ! 5) of
                       None \<Rightarrow> Inl ''stored password hash has invalid value''
                     | Some expected \<Rightarrow>
                         if length expected \<noteq> 32 then Inl ''stored password hash has invalid value''
                         else Inr (e_argon2 env password salt = expected)))"

section \<open>Rows\<close>

record account_row =
  ac_id :: string
  ac_email :: string
  ac_displayName :: string
  ac_passwordHash :: string
  ac_role :: string
  ac_status :: string
  ac_authRevision :: int
  ac_revision :: int
  ac_unrestricted :: bool
  ac_scopes :: string
  ac_models :: string
  ac_connections :: string
  ac_created :: int
  ac_updated :: int

record session_row =
  ss_id :: string
  ss_verifier :: string
  ss_user :: string
  ss_expires :: int
  ss_created :: int
  ss_lastSeen :: int
  ss_authenticated :: int
  ss_authRevision :: int
  ss_userAgent :: string

record code_row =
  tk_verifier :: string
  tk_user :: string
  tk_purpose :: string
  tk_expires :: int
  tk_created :: int

record throttle_row =
  th_subject :: string
  th_window :: int
  th_failures :: int
  th_blocked :: int

record api_key_row =
  kr_id :: string
  kr_owner :: string
  kr_label :: string
  kr_state :: string
  kr_scopes :: string
  kr_models :: string
  kr_connections :: string
  kr_expires :: "int option"
  kr_revision :: int
  kr_created :: int
  kr_updated :: int

record secret_row =
  sc_selector :: string
  sc_verifier :: string
  sc_key :: string
  sc_created :: int
  sc_expires :: "int option"
  sc_revoked :: "int option"

record trail_row =
  tr_id :: string
  tr_actor :: "string option"
  tr_action :: string
  tr_resourceType :: string
  tr_resourceID :: string
  tr_detail :: json
  tr_created :: int

record identity =
  accounts :: "account_row list"
  sessions :: "session_row list"
  codes :: "code_row list"
  throttles :: "throttle_row list"
  key_table :: "api_key_row list"
  secrets :: "secret_row list"
  trail :: "trail_row list"

type_synonym 'a itx = "(identity, 'a) txm"

section \<open>Constraints and statements\<close>

definition accountCheck :: "account_row \<Rightarrow> bool" where
  "accountCheck a \<longleftrightarrow> ac_role a \<in> {''owner'', ''admin'', ''member''} \<and> ac_status a \<in> {''active'', ''suspended'', ''archived''}"

text \<open>\<^verbatim>\<open>COLLATE NOCASE\<close> folds the ASCII letters.\<close>

definition foldCase :: "char \<Rightarrow> char" where
  "foldCase c = (let n = (of_char c :: nat) in if 65 \<le> n \<and> n \<le> 90 then char_of (n + 32) else c)"

definition sameEmail :: "string \<Rightarrow> string \<Rightarrow> bool" where
  "sameEmail a b \<longleftrightarrow> map foldCase a = map foldCase b"

definition activeOwner :: "account_row \<Rightarrow> bool" where
  "activeOwner a \<longleftrightarrow> ac_role a = ''owner'' \<and> ac_status a = ''active''"

definition hasAccount :: "identity \<Rightarrow> string \<Rightarrow> bool" where
  "hasAccount s i = list_ex (\<lambda>a. ac_id a = i) (accounts s)"

definition insertAccount :: "account_row \<Rightarrow> unit itx" where
  "insertAccount a =
     stmtT (\<lambda>s. if \<not> accountCheck a then Inl ErrCheck
                else if list_ex (\<lambda>b. ac_id b = ac_id a \<or> sameEmail (ac_email b) (ac_email a)) (accounts s) then Inl ErrUnique
                else if activeOwner a \<and> list_ex activeOwner (accounts s) then Inl ErrOwnerIndex
                else Inr ((), accounts_update (\<lambda>as. as @ [a]) s))"

text \<open>The updates of the table touch one row, by its id; the columns email, role and status are indexed.\<close>

definition updateAccount :: "string \<Rightarrow> (account_row \<Rightarrow> bool) \<Rightarrow> (account_row \<Rightarrow> account_row) \<Rightarrow> nat itx" where
  "updateAccount i p f =
     stmtT (\<lambda>s. let hit = (\<lambda>a. ac_id a = i \<and> p a); others = filter (\<lambda>a. \<not> hit a) (accounts s); new = map f (filter hit (accounts s)) in
       if \<not> list_all accountCheck new then Inl ErrCheck
       else if list_ex (\<lambda>a. list_ex (\<lambda>b. sameEmail (ac_email b) (ac_email a)) others) new then Inl ErrUnique
       else if list_ex activeOwner new \<and> list_ex activeOwner others then Inl ErrOwnerIndex
       else Inr (length new, accounts_update (updateWhere hit f) s))"

definition insertSession :: "session_row \<Rightarrow> unit itx" where
  "insertSession = insertT sessions sessions_update (\<lambda>a b. ss_id a = ss_id b \<or> ss_verifier a = ss_verifier b) (\<lambda>_. True) (\<lambda>s r. hasAccount s (ss_user r))"

definition updateSessions :: "(session_row \<Rightarrow> bool) \<Rightarrow> (session_row \<Rightarrow> session_row) \<Rightarrow> nat itx" where
  "updateSessions = updateT sessions sessions_update (\<lambda>_. True)"

definition deleteSessions :: "(session_row \<Rightarrow> bool) \<Rightarrow> nat itx" where
  "deleteSessions = deleteT sessions sessions_update"

definition insertCodeRow :: "code_row \<Rightarrow> unit itx" where
  "insertCodeRow = insertT codes codes_update (\<lambda>a b. tk_verifier a = tk_verifier b) (\<lambda>r. tk_purpose r \<in> {''activation'', ''recovery''})
     (\<lambda>s r. hasAccount s (tk_user r))"

definition deleteCodes :: "(code_row \<Rightarrow> bool) \<Rightarrow> nat itx" where
  "deleteCodes = deleteT codes codes_update"

definition upsertThrottle :: "throttle_row \<Rightarrow> unit itx" where
  "upsertThrottle = upsertT throttles throttles_update (\<lambda>a b. th_subject a = th_subject b) (\<lambda>_. True) (\<lambda>_ _. True) (\<lambda>_ new. new)"

definition deleteThrottles :: "(throttle_row \<Rightarrow> bool) \<Rightarrow> nat itx" where
  "deleteThrottles = deleteT throttles throttles_update"

definition insertKey :: "api_key_row \<Rightarrow> unit itx" where
  "insertKey = insertT key_table key_table_update (\<lambda>a b. kr_id a = kr_id b) (\<lambda>k. kr_state k \<in> {''active'', ''disabled'', ''revoked''})
     (\<lambda>s k. hasAccount s (kr_owner k))"

definition updateKeys :: "(api_key_row \<Rightarrow> bool) \<Rightarrow> (api_key_row \<Rightarrow> api_key_row) \<Rightarrow> nat itx" where
  "updateKeys = updateT key_table key_table_update (\<lambda>k. kr_state k \<in> {''active'', ''disabled'', ''revoked''})"

definition insertSecret :: "secret_row \<Rightarrow> unit itx" where
  "insertSecret = insertT secrets secrets_update (\<lambda>a b. sc_selector a = sc_selector b) (\<lambda>_. True) (\<lambda>s r. list_ex (\<lambda>k. kr_id k = sc_key r) (key_table s))"

definition updateSecrets :: "(secret_row \<Rightarrow> bool) \<Rightarrow> (secret_row \<Rightarrow> secret_row) \<Rightarrow> nat itx" where
  "updateSecrets = updateT secrets secrets_update (\<lambda>_. True)"

definition insertTrail :: "trail_row \<Rightarrow> unit itx" where
  "insertTrail = insertT trail trail_update (\<lambda>a b. tr_id a = tr_id b) (\<lambda>_. True) (\<lambda>s r. case tr_actor r of None \<Rightarrow> True | Some i \<Rightarrow> hasAccount s i)"

lemmas identity_defs = insertAccount_def updateAccount_def insertSession_def updateSessions_def deleteSessions_def insertCodeRow_def
  deleteCodes_def upsertThrottle_def deleteThrottles_def insertKey_def updateKeys_def insertSecret_def updateSecrets_def insertTrail_def

section \<open>Successful statements\<close>

lemma insertAccount_Inr [tx_inv]:
  "insertAccount a w (n, s) = Inr (x, n', s') \<longleftrightarrow>
     \<not> w_fault w n \<and> accountCheck a \<and> \<not> list_ex (\<lambda>b. ac_id b = ac_id a \<or> sameEmail (ac_email b) (ac_email a)) (accounts s) \<and>
     \<not> (activeOwner a \<and> list_ex activeOwner (accounts s)) \<and> n' = Suc n \<and> s' = accounts_update (\<lambda>as. as @ [a]) s"
  by (auto simp: insertAccount_def stmtT_def)

lemma updateAccount_Inr [tx_inv]:
  "updateAccount i p f w (n, s) = Inr (x, n', s') \<longleftrightarrow>
     \<not> w_fault w n \<and> list_all accountCheck (map f (filter (\<lambda>a. ac_id a = i \<and> p a) (accounts s))) \<and>
     \<not> list_ex (\<lambda>a. list_ex (\<lambda>b. sameEmail (ac_email b) (ac_email a)) (filter (\<lambda>a. \<not> (ac_id a = i \<and> p a)) (accounts s)))
         (map f (filter (\<lambda>a. ac_id a = i \<and> p a) (accounts s))) \<and>
     \<not> (list_ex activeOwner (map f (filter (\<lambda>a. ac_id a = i \<and> p a) (accounts s))) \<and>
        list_ex activeOwner (filter (\<lambda>a. \<not> (ac_id a = i \<and> p a)) (accounts s))) \<and>
     x = length (filter (\<lambda>a. ac_id a = i \<and> p a) (accounts s)) \<and> n' = Suc n \<and>
     s' = accounts_update (updateWhere (\<lambda>a. ac_id a = i \<and> p a) f) s"
  by (auto simp: updateAccount_def stmtT_def Let_def)

lemmas identity_stmts [tx_inv] = insertSession_def updateSessions_def deleteSessions_def insertCodeRow_def
  deleteCodes_def upsertThrottle_def deleteThrottles_def insertKey_def updateKeys_def insertSecret_def updateSecrets_def insertTrail_def

text \<open>A statement leaves the tables it does not name as they are.\<close>

lemma keeps_accounts [keeps]:
  "keepsT (\<lambda>s. P (accounts s)) (insertSession r1)" "keepsT (\<lambda>s. P (accounts s)) (updateSessions p1 f1)"
  "keepsT (\<lambda>s. P (accounts s)) (deleteSessions p1)" "keepsT (\<lambda>s. P (accounts s)) (insertCodeRow r2)"
  "keepsT (\<lambda>s. P (accounts s)) (deleteCodes p2)" "keepsT (\<lambda>s. P (accounts s)) (upsertThrottle r3)"
  "keepsT (\<lambda>s. P (accounts s)) (deleteThrottles p3)" "keepsT (\<lambda>s. P (accounts s)) (insertKey r4)"
  "keepsT (\<lambda>s. P (accounts s)) (updateKeys p4 f4)" "keepsT (\<lambda>s. P (accounts s)) (insertSecret r5)"
  "keepsT (\<lambda>s. P (accounts s)) (updateSecrets p5 f5)" "keepsT (\<lambda>s. P (accounts s)) (insertTrail r6)"
  by (auto simp: keepsT_def okT_def tx_inv split: if_splits)

lemma keeps_key_tables [keeps]:
  "keepsT (\<lambda>s. P (key_table s) (secrets s)) (insertAccount a)" "keepsT (\<lambda>s. P (key_table s) (secrets s)) (updateAccount i p f)"
  "keepsT (\<lambda>s. P (key_table s) (secrets s)) (insertSession r1)" "keepsT (\<lambda>s. P (key_table s) (secrets s)) (updateSessions p1 f1)"
  "keepsT (\<lambda>s. P (key_table s) (secrets s)) (deleteSessions p1)" "keepsT (\<lambda>s. P (key_table s) (secrets s)) (insertCodeRow r2)"
  "keepsT (\<lambda>s. P (key_table s) (secrets s)) (deleteCodes p2)" "keepsT (\<lambda>s. P (key_table s) (secrets s)) (upsertThrottle r3)"
  "keepsT (\<lambda>s. P (key_table s) (secrets s)) (deleteThrottles p3)" "keepsT (\<lambda>s. P (key_table s) (secrets s)) (insertTrail r6)"
  by (auto simp: keepsT_def okT_def tx_inv split: if_splits)

section \<open>Shared helpers\<close>

definition formatTime :: "int \<Rightarrow> string" where
  "formatTime t = formatDate t @ ''T'' @ padded 2 (hourOfMillis t) @ '':'' @ padded 2 (minuteOfMillis t) @ '':'' @ padded 2 (t mod 60000 div 1000) @ ''Z''"

definition encodeStrings :: "string list \<Rightarrow> string" where
  "encodeStrings vs = jsonText (JArr (map JStr vs))"

definition usageUser :: "account_row \<Rightarrow> user_row" where
  "usageUser a = \<lparr>us_id = ac_id a, us_email = ac_email a, us_displayName = ac_displayName a, us_role = ac_role a, us_status = ac_status a,
     us_unrestricted = ac_unrestricted a, us_scopes = ac_scopes a, us_models = ac_models a, us_connections = ac_connections a\<rparr>"

definition usageKey :: "api_key_row \<Rightarrow> key_row" where
  "usageKey k = \<lparr>ak_id = kr_id k, ak_owner = kr_owner k, ak_state = kr_state k, ak_scopes = kr_scopes k, ak_models = kr_models k,
     ak_connections = kr_connections k, ak_expires = kr_expires k\<rparr>"

definition usageUsers :: "identity \<Rightarrow> user_row list" where
  "usageUsers s = map usageUser (accounts s)"

definition usageKeys :: "identity \<Rightarrow> key_row list" where
  "usageKeys s = map usageKey (key_table s)"

section \<open>Lists of strings as JSON text\<close>

text \<open>How the escapes of \<open>escapeChar\<close> are read back, and with them every list of strings that \<open>encodeStrings\<close> wrote.\<close>

definition unitOf :: "char \<Rightarrow> char + nat" where
  "unitOf c = (let n = (of_char c :: nat) in
     if n \<in> {34, 92, 8, 12, 10, 13, 9} then Inl c else if n < 32 \<or> n = 60 \<or> n = 62 \<or> n = 38 then Inr n else Inl c)"

lemma hexVal_hexDigit: "d < 16 \<Longrightarrow> hexVal (hexDigit d) = Some d"
  by (auto simp: hexVal_def hexDigit_def Let_def)

lemma of_char_eqD: "(of_char c :: nat) = of_char d \<Longrightarrow> c = d"
  by simp

lemma special_char:
  "(of_char c :: nat) = 34 \<Longrightarrow> c = CHR 0x22" "(of_char c :: nat) = 92 \<Longrightarrow> c = CHR 0x5C" "(of_char c :: nat) = 8 \<Longrightarrow> c = CHR 0x08"
  "(of_char c :: nat) = 12 \<Longrightarrow> c = CHR 0x0C" "(of_char c :: nat) = 10 \<Longrightarrow> c = CHR 0x0A" "(of_char c :: nat) = 13 \<Longrightarrow> c = CHR 0x0D"
  "(of_char c :: nat) = 9 \<Longrightarrow> c = CHR 0x09"
  by (rule of_char_eqD, simp)+

lemma lexJson_escape: "lexJson (LStr acc) (escapeChar c @ t) = lexJson (LStr (unitOf c # acc)) t"
proof -
  let ?n = "of_char c :: nat"
  consider "?n \<in> {34, 92, 8, 12, 10, 13, 9}" | "?n \<notin> {34, 92, 8, 12, 10, 13, 9}" "?n < 32 \<or> ?n = 60 \<or> ?n = 62 \<or> ?n = 38"
    | "?n \<notin> {34, 92, 8, 12, 10, 13, 9}" "\<not> (?n < 32 \<or> ?n = 60 \<or> ?n = 62 \<or> ?n = 38)" by blast
  then show ?thesis
  proof cases
    case 1
    then show ?thesis
      by - (elim insertE emptyE; frule special_char; simp add: escapeChar_def unitOf_def Let_def simpleEscape_def)
  next
    case 2
    then have "?n div 16 < 16" "?n mod 16 < 16" by auto
    with 2 have e: "escapeChar c = [CHR 0x5C, CHR ''u'', CHR ''0'', CHR ''0'', hexDigit (?n div 16), hexDigit (?n mod 16)]" and u: "unitOf c = Inr ?n"
      and h: "hexVal (hexDigit (?n div 16)) = Some (?n div 16)" "hexVal (hexDigit (?n mod 16)) = Some (?n mod 16)" 
      by (auto simp: escapeChar_def unitOf_def Let_def hexVal_hexDigit)
    have "hexVal (CHR ''0'') = Some 0" by (simp add: hexVal_def)
    with h show ?thesis by (simp add: e u)
  next
    case 3
    then have "c \<noteq> CHR 0x22" "c \<noteq> CHR 0x5C" by auto
    with 3 show ?thesis by (simp add: escapeChar_def unitOf_def Let_def)
  qed
qed

lemma lexJson_quoted:
  "lexJson (LStr acc) (concat (map escapeChar x) @ CHR 0x22 # t) = map_option (\<lambda>ts. TStr (rev acc @ map unitOf x) # ts) (lexJson LOut t)"
proof (induction x arbitrary: acc)
  case (Cons c x)
  show ?case by (simp add: lexJson_escape Cons.IH)
qed simp

lemma unitsText_unitOf: "unitsText (map unitOf x) = x"
proof -
  have n: "h < 128 \<Longrightarrow> unitsText (Inr h # us) = char_of h # unitsText us" for h us
    by (cases us; cases "hd us") (auto simp: utf8_def)
  show ?thesis
  proof (induction x)
    case (Cons c x)
    show ?case using Cons.IH n [of "of_char c"] by (auto simp: unitOf_def Let_def)
  qed simp
qed

fun arrayTokens :: "string list \<Rightarrow> token list" where
  "arrayTokens [] = [TRBrack]"
| "arrayTokens [x] = [TStr (map unitOf x), TRBrack]"
| "arrayTokens (x # xs) = TStr (map unitOf x) # TComma # arrayTokens xs"

lemma lexJson_LOut_quote: "lexJson LOut (quoteText x @ t) = map_option (\<lambda>ts. TStr (map unitOf x) # ts) (lexJson LOut t)"
  using lexJson_quoted [of "[]" x t] by (simp add: quoteText_def isSpaceJ_def)

lemma lexJson_array: "lexJson LOut (joinText (map quoteText xs) @ '']'') = Some (arrayTokens xs)"
  by (induction xs rule: arrayTokens.induct) (simp_all add: lexJson_LOut_quote isSpaceJ_def isWordChar_def isDigit_def punct_def)

lemma prun_array:
  "xs \<noteq> [] \<Longrightarrow> prun (arrayTokens xs) (PValue b [FArr vs]) = Some (JArr (rev vs @ map JStr xs))"
  by (induction xs arbitrary: vs b rule: arrayTokens.induct) (simp_all add: pstep_def unitsText_unitOf)

lemma stringElements_map: "stringElements (map JStr xs) = Some xs"
  by (induction xs) simp_all

lemma parseJson_strings: "parseJson (jsonText (JArr (map JStr xs))) = Some (JArr (map JStr xs))"
proof -
  have "lexJson LOut (jsonText (JArr (map JStr xs))) = Some (TLBrack # arrayTokens xs)"
    using lexJson_array [of xs] by (simp add: isSpaceJ_def isWordChar_def isDigit_def punct_def comp_def)
  then show ?thesis
    using prun_array [of xs True "[]"] by (cases xs) (simp_all add: parseJson_def pstep_def)
qed

lemma unmarshalStrings_encode [simp]: "unmarshalStrings (encodeStrings xs) = Some xs"
  by (simp add: encodeStrings_def unmarshalStrings_def parseJson_strings stringElements_map del: jsonText.simps)

section \<open>A sample store\<close>

text \<open>One owner, a world whose clock stands still, and outside functions simple enough to compute with.\<close>

definition plainEnv :: env where
  "plainEnv = \<lparr>e_sha256 = (\<lambda>x. x), e_argon2 = (\<lambda>p x. take 32 (p @ x @ replicate 32 (CHR ''k''))), e_parseAddress = Some, e_toLower = (\<lambda>x. x), e_hostOf = (\<lambda>_. None)\<rparr>"

definition ownerAccount :: account_row where
  "ownerAccount = \<lparr>ac_id = ''u1'', ac_email = ''o@x'', ac_displayName = ''O'', ac_passwordHash = ''!'', ac_role = ''owner'', ac_status = ''active'',
     ac_authRevision = 1, ac_revision = 1, ac_unrestricted = True, ac_scopes = ''[]'', ac_models = ''[]'', ac_connections = ''[]'', ac_created = 0, ac_updated = 0\<rparr>"

definition ownerStore :: identity where
  "ownerStore = \<lparr>accounts = [ownerAccount], sessions = [], codes = [], throttles = [], key_table = [], secrets = [], trail = []\<rparr>"

definition quietWorld :: world where
  "quietWorld = \<lparr>w_now = (\<lambda>n. 5), w_rand = (\<lambda>n. Some ''r''), w_fault = (\<lambda>n. False)\<rparr>"

end
