(* ===== verification/Auth.thy ===== *)
theory Auth
  imports Identity
begin

text \<open>
  Accounts and sessions (\<^verbatim>\<open>features/auth/service.go\<close> and \<^verbatim>\<open>lifecycle.go\<close>): the first owner's claim,
  login behind two throttles, activation and recovery codes, sessions and their expiry, and the
  changes of password and profile, which bump \<^verbatim>\<open>auth_revision\<close> and so end the sessions opened before.

  \<^verbatim>\<open>passwordSlots\<close> is a channel of two places that an operation takes without waiting and gives back
  when it returns: whether a place is free is the argument \<open>slot\<close>. What \<^verbatim>\<open>invalidLoginHash\<close> has
  cached is the argument \<open>cached\<close>.
\<close>

section \<open>Data\<close>

record user =
  au_id :: string
  au_email :: string
  au_displayName :: string
  au_role :: string
  au_status :: string
  au_unrestricted :: bool
  au_scopes :: "string list"
  au_models :: "string list"
  au_connections :: "string list"

record authenticated_session =
  as_id :: string
  as_user :: user
  as_created :: int
  as_lastSeen :: int
  as_expires :: int
  as_authenticated :: int
  as_authRevision :: int
  as_userAgent :: string

record session_view =
  sv_id :: string
  sv_current :: bool
  sv_created :: string
  sv_lastSeen :: string
  sv_expires :: string
  sv_authenticated :: string
  sv_userAgent :: string

record claim_input =
  ci_email :: string
  ci_displayName :: string
  ci_password :: string

record login_input =
  li_email :: string
  li_password :: string
  li_userAgent :: string
  li_source :: string

record activate_input =
  vi_code :: string
  vi_password :: string
  vi_userAgent :: string

record profile_input =
  fi_email :: string
  fi_displayName :: string
  fi_currentPassword :: string
  fi_userAgent :: string

definition sessionLifetime :: int where "sessionLifetime = 86400000"
definition sessionIdleLifetime :: int where "sessionIdleLifetime = 1800000"
definition sessionTouchAfter :: int where "sessionTouchAfter = 300000"
definition loginWindow :: int where "loginWindow = 900000"
definition loginBlock :: int where "loginBlock = 900000"
definition maxLoginFailures :: int where "maxLoginFailures = 5"

lemmas auth_constants = sessionLifetime_def sessionIdleLifetime_def sessionTouchAfter_def loginWindow_def loginBlock_def maxLoginFailures_def

section \<open>Validation\<close>

definition ValidateIdentity :: "env \<Rightarrow> string \<Rightarrow> string \<Rightarrow> goerr + string \<times> string" where
  "ValidateIdentity env rawEmail rawDisplayName =
     (let email = e_toLower env (TrimSpace rawEmail); displayName = TrimSpace rawDisplayName in
      if e_parseAddress env email \<noteq> Some email \<or> length email > 254 then Inl (InputError ''Enter a valid email address'')
      else if displayName = [] \<or> runeCount displayName > 100 then Inl (InputError ''Display name must be between 1 and 100 characters'')
      else Inr (email, displayName))"

definition validPasswordSize :: "string \<Rightarrow> bool" where
  "validPasswordSize password \<longleftrightarrow> validUtf8 password \<and> length password \<le> 1024"

definition validatePassword :: "string \<Rightarrow> goerr + unit" where
  "validatePassword password =
     (if \<not> validPasswordSize password \<or> runeCount password < 12
      then Inl (InputError ''Password must be at least 12 characters and no more than 1024 bytes'') else Inr ())"

definition validateClaim :: "env \<Rightarrow> claim_input \<Rightarrow> goerr + string \<times> string" where
  "validateClaim env input =
     (case ValidateIdentity env (ci_email input) (ci_displayName input) of
        Inl e \<Rightarrow> Inl e
      | Inr r \<Rightarrow> (case validatePassword (ci_password input) of Inl e \<Rightarrow> Inl e | Inr _ \<Rightarrow> Inr r))"

definition validLoginEmail :: "env \<Rightarrow> string \<Rightarrow> bool" where
  "validLoginEmail env email \<longleftrightarrow> e_parseAddress env email = Some email \<and> length email \<le> 254"

definition loginSource :: "env \<Rightarrow> string \<Rightarrow> string" where
  "loginSource env remoteAddr0 =
     (let remoteAddr1 = TrimSpace remoteAddr0; remoteAddr = (case e_hostOf env remoteAddr1 of Some host \<Rightarrow> host | None \<Rightarrow> remoteAddr1) in
      if remoteAddr = [] then ''unknown'' else truncateUTF8 remoteAddr 200)"

definition checkedT :: "goerr + 'a \<Rightarrow> ('s, 'a) txm" where
  "checkedT r = (case r of Inl e \<Rightarrow> failT e | Inr x \<Rightarrow> returnT x)"

section \<open>Sessions\<close>

definition badUserGrants :: goerr where
  "badUserGrants = ErrMsg ''invalid grants''"

definition decodeUserGrants :: "account_row \<Rightarrow> user option" where
  "decodeUserGrants a =
     Option.bind (unmarshalStrings (ac_scopes a)) (\<lambda>scopes.
     Option.bind (unmarshalStrings (ac_models a)) (\<lambda>models.
     map_option (\<lambda>connections.
       \<lparr>au_id = ac_id a, au_email = ac_email a, au_displayName = ac_displayName a, au_role = ac_role a, au_status = ac_status a,
        au_unrestricted = ac_unrestricted a, au_scopes = scopes, au_models = models, au_connections = connections\<rparr>)
       (unmarshalStrings (ac_connections a))))"

definition insertUserAudit :: "string \<Rightarrow> string \<Rightarrow> string \<Rightarrow> json \<Rightarrow> unit itx" where
  "insertUserAudit actorID action resourceID detail =
     bindT randT (\<lambda>i. bindT nowT (\<lambda>now.
     insertTrail \<lparr>tr_id = ''aud_'' @ i, tr_actor = Some actorID, tr_action = action, tr_resourceType = ''user'', tr_resourceID = resourceID,
       tr_detail = detail, tr_created = now\<rparr>))"

text \<open>\<^verbatim>\<open>INSERT ... SELECT ... FROM users WHERE\<close>: no row or one, of the account with that id.\<close>

definition insertSessionSelect :: "(account_row \<Rightarrow> bool) \<Rightarrow> (account_row \<Rightarrow> session_row) \<Rightarrow> nat itx" where
  "insertSessionSelect p mk =
     stmtT (\<lambda>s. case find p (accounts s) of
        None \<Rightarrow> Inr (0, s)
      | Some a \<Rightarrow> if list_ex (\<lambda>r. ss_id r = ss_id (mk a) \<or> ss_verifier r = ss_verifier (mk a)) (sessions s) then Inl ErrUnique
                  else Inr (1, sessions_update (\<lambda>rs. rs @ [mk a]) s))"

definition createSession :: "env \<Rightarrow> string \<Rightarrow> string \<Rightarrow> int \<Rightarrow> string \<Rightarrow> int \<Rightarrow> unit itx" where
  "createSession env userID token now userAgent expectedAuthRevision =
     bindT randT (\<lambda>sessionID. bindT nowT (\<lambda>now'.
     bindT (insertSessionSelect (\<lambda>a. ac_id a = userID \<and> ac_status a = ''active'' \<and> (expectedAuthRevision = 0 \<or> ac_authRevision a = expectedAuthRevision))
        (\<lambda>a. \<lparr>ss_id = ''ses_'' @ sessionID, ss_verifier = Verifier env token, ss_user = ac_id a, ss_expires = now' + sessionLifetime, ss_created = now,
          ss_lastSeen = now, ss_authenticated = now, ss_authRevision = ac_authRevision a, ss_userAgent = truncateUTF8 userAgent 200\<rparr>)) (\<lambda>created.
     guardT (created \<noteq> 1) ErrInvalidSession (returnT ()))))"

definition sessionJoin :: "identity \<Rightarrow> (session_row \<times> account_row) list" where
  "sessionJoin s = concat (map (\<lambda>r. map (Pair r) (filter (\<lambda>a. ac_id a = ss_user r) (accounts s))) (sessions s))"

definition SessionInfo :: "env \<Rightarrow> string \<Rightarrow> authenticated_session itx" where
  "SessionInfo env token =
     bindT nowT (\<lambda>now.
     bindT (oneT ErrInvalidSession sessionJoin (\<lambda>(r, a). ss_verifier r = Verifier env token \<and> ss_expires r > now \<and>
        ss_lastSeen r > now - sessionIdleLifetime \<and> ac_status a = ''active'' \<and> ss_authRevision r = ac_authRevision a)) (\<lambda>(r, a).
     bindT (optionT badUserGrants (decodeUserGrants a)) (\<lambda>user.
     let session = \<lparr>as_id = ss_id r, as_user = user, as_created = ss_created r, as_lastSeen = ss_lastSeen r, as_expires = ss_expires r,
           as_authenticated = ss_authenticated r, as_authRevision = ac_authRevision a, as_userAgent = ss_userAgent r\<rparr> in
     if ss_lastSeen r \<le> now - sessionTouchAfter
     then thenT (updateSessions (\<lambda>x. ss_id x = ss_id r \<and> ss_lastSeen x = ss_lastSeen r) (\<lambda>x. x\<lparr>ss_lastSeen := now\<rparr>))
            (returnT (session\<lparr>as_lastSeen := now\<rparr>))
     else returnT session)))"

definition Session :: "env \<Rightarrow> string \<Rightarrow> user itx" where
  "Session env token = bindT (SessionInfo env token) (\<lambda>session. returnT (as_user session))"

definition Logout :: "env \<Rightarrow> string \<Rightarrow> unit itx" where
  "Logout env token = thenT (deleteSessions (\<lambda>r. ss_verifier r = Verifier env token)) (returnT ())"

definition RevokeSession :: "string \<Rightarrow> string \<Rightarrow> bool itx" where
  "RevokeSession userID sessionID =
     bindT (deleteSessions (\<lambda>r. ss_id r = sessionID \<and> ss_user r = userID)) (\<lambda>removed. returnT (removed = 1))"

definition sessionOrder :: "session_row \<Rightarrow> int \<times> string" where
  "sessionOrder r = (ss_created r, ss_id r)"

definition Sessions :: "authenticated_session \<Rightarrow> session_view list itx" where
  "Sessions current =
     bindT nowT (\<lambda>now1. bindT nowT (\<lambda>now2.
     bindT (queryT (\<lambda>s. orderByDesc sessionOrder (filter (\<lambda>r. ss_user r = au_id (as_user current) \<and> ss_expires r > now1 \<and>
        ss_lastSeen r > now2 - sessionIdleLifetime) (sessions s)))) (\<lambda>rows.
     returnT (map (\<lambda>r. \<lparr>sv_id = ss_id r, sv_current = (ss_id r = as_id current), sv_created = formatTime (ss_created r),
       sv_lastSeen = formatTime (ss_lastSeen r), sv_expires = formatTime (ss_expires r), sv_authenticated = formatTime (ss_authenticated r),
       sv_userAgent = ss_userAgent r\<rparr>) rows))))"

definition CurrentSessionView :: "authenticated_session \<Rightarrow> session_view" where
  "CurrentSessionView c =
     \<lparr>sv_id = as_id c, sv_current = True, sv_created = formatTime (as_created c), sv_lastSeen = formatTime (as_lastSeen c),
      sv_expires = formatTime (as_expires c), sv_authenticated = formatTime (as_authenticated c), sv_userAgent = as_userAgent c\<rparr>"

section \<open>Claiming the instance\<close>

definition SetupRequired :: "bool itx" where
  "SetupRequired = queryT (\<lambda>s. \<not> list_ex activeOwner (accounts s))"

definition ownerRow :: "string \<Rightarrow> string \<Rightarrow> string \<Rightarrow> string \<Rightarrow> int \<Rightarrow> account_row" where
  "ownerRow i email displayName passwordHash now =
     \<lparr>ac_id = i, ac_email = email, ac_displayName = displayName, ac_passwordHash = passwordHash, ac_role = ''owner'', ac_status = ''active'',
      ac_authRevision = 1, ac_revision = 1, ac_unrestricted = True, ac_scopes = ''[]'', ac_models = ''[]'', ac_connections = ''[]'',
      ac_created = now, ac_updated = now\<rparr>"

definition prepareClaim :: "env \<Rightarrow> bool \<Rightarrow> claim_input \<Rightarrow> (string \<times> string \<times> string \<times> string \<times> string) itx" where
  "prepareClaim env slot input =
     bindT (checkedT (validateClaim env input)) (\<lambda>(email, displayName).
     bindT SetupRequired (\<lambda>required.
     guardT (\<not> required) ErrSetupComplete (
     guardT (\<not> slot) ErrTooManyAttempts (
     bindT (HashPassword env (ci_password input)) (\<lambda>passwordHash.
     bindT randT (\<lambda>userID.
     bindT randT (\<lambda>sessionToken. returnT (email, displayName, passwordHash, ''usr_'' @ userID, sessionToken))))))))"

definition claimTx :: "env \<Rightarrow> string \<Rightarrow> string \<Rightarrow> string \<Rightarrow> string \<Rightarrow> string \<Rightarrow> user itx" where
  "claimTx env email displayName passwordHash userID sessionToken =
     bindT nowT (\<lambda>now.
     bindT (queryT (\<lambda>s. length (filter activeOwner (accounts s)))) (\<lambda>existingOwners.
     guardT (existingOwners \<noteq> 0) ErrSetupComplete (
     thenT (mapErrT (\<lambda>e. if e = ErrOwnerIndex then ErrSetupComplete else e) (insertAccount (ownerRow userID email displayName passwordHash now))) (
     thenT (createSession env userID sessionToken now [] 0) (
     thenT (insertUserAudit userID ''owner.setup_claim'' userID (JObj [])) (
     thenT commitT (
     returnT \<lparr>au_id = userID, au_email = email, au_displayName = displayName, au_role = ''owner'', au_status = ''active'', au_unrestricted = True,
       au_scopes = [], au_models = [], au_connections = []\<rparr>)))))))"

definition Claim :: "env \<Rightarrow> bool \<Rightarrow> claim_input \<Rightarrow> world \<Rightarrow> world \<Rightarrow> identity \<Rightarrow> (goerr + user \<times> string) \<times> identity" where
  "Claim env slot input w1 w2 s =
     (case autoT (prepareClaim env slot input) w1 s of
        (Inl e, _) \<Rightarrow> (Inl e, s)
      | (Inr (email, displayName, passwordHash, userID, sessionToken), _) \<Rightarrow>
          (case atomicT (claimTx env email displayName passwordHash userID sessionToken) w2 s of
             (Inl e, s') \<Rightarrow> (Inl e, s')
           | (Inr user, s') \<Rightarrow> (Inr (user, sessionToken), s')))"

section \<open>Login\<close>

definition verifierBytes :: "env \<Rightarrow> string \<Rightarrow> string" where
  "verifierBytes env v = Verifier env v"

definition checkLoginThrottle :: "env \<Rightarrow> string \<Rightarrow> unit itx" where
  "checkLoginThrottle env subject =
     bindT (rowT throttles (\<lambda>t. th_subject t = verifierBytes env subject)) (\<lambda>row.
     case row of
       None \<Rightarrow> returnT ()
     | Some t \<Rightarrow> bindT nowT (\<lambda>now. guardT (th_blocked t > now) ErrTooManyAttempts (returnT ())))"

definition recordLoginFailure :: "env \<Rightarrow> string \<Rightarrow> int \<Rightarrow> unit itx" where
  "recordLoginFailure env subject limit =
     bindT nowT (\<lambda>now.
     thenT (deleteThrottles (\<lambda>t. th_window t < now - loginWindow \<and> th_blocked t \<le> now)) (
     bindT (rowT throttles (\<lambda>t. th_subject t = verifierBytes env subject)) (\<lambda>row.
     let (windowStarted, failures0) = (case row of None \<Rightarrow> (now, 0)
           | Some t \<Rightarrow> if th_window t + loginWindow \<le> now then (now, 0) else (th_window t, th_failures t));
         failures = failures0 + 1;
         blockedUntil = (if failures \<ge> limit then now + loginBlock else 0) in
     thenT (upsertThrottle \<lparr>th_subject = verifierBytes env subject, th_window = windowStarted, th_failures = failures, th_blocked = blockedUntil\<rparr>)
       commitT)))"

definition recordLoginFailures :: "env \<Rightarrow> string \<Rightarrow> string \<Rightarrow> world \<Rightarrow> world \<Rightarrow> identity \<Rightarrow> (goerr + unit) \<times> identity" where
  "recordLoginFailures env email source w1 w2 s =
     (case atomicT (recordLoginFailure env (''source:'' @ source) 20) w1 s of
        (Inl e, s') \<Rightarrow> (Inl e, s')
      | (Inr _, s') \<Rightarrow> atomicT (recordLoginFailure env (''email:'' @ email) maxLoginFailures) w2 s')"

definition invalidLoginHash :: "env \<Rightarrow> (goerr + string) option \<Rightarrow> ('s, string) txm" where
  "invalidLoginHash env cached = (case cached of None \<Rightarrow> HashPassword env ''invalid-login-password'' | Some r \<Rightarrow> checkedT r)"

text \<open>Up to the comparison of the password: \<open>None\<close> is an unknown account or a wrong password.\<close>

definition loginCheck :: "env \<Rightarrow> bool \<Rightarrow> (goerr + string) option \<Rightarrow> login_input \<Rightarrow> (user \<times> int) option itx" where
  "loginCheck env slot cached input =
     (let email = e_toLower env (TrimSpace (li_email input)); source = loginSource env (li_source input) in
      thenT (forT (checkLoginThrottle env) [''source:'' @ source, ''email:'' @ email]) (
      guardT (\<not> validLoginEmail env email \<or> \<not> validPasswordSize (li_password input)) ErrInvalidCredentials (
      guardT (\<not> slot) ErrTooManyAttempts (
      bindT (rowT accounts (\<lambda>a. sameEmail (ac_email a) email \<and> ac_status a = ''active'')) (\<lambda>row.
      bindT (case row of None \<Rightarrow> invalidLoginHash env cached | Some a \<Rightarrow> returnT (ac_passwordHash a)) (\<lambda>passwordHash.
      bindT (case row of None \<Rightarrow> returnT None | Some a \<Rightarrow> bindT (optionT badUserGrants (decodeUserGrants a)) (\<lambda>u. returnT (Some (u, ac_authRevision a)))) (\<lambda>found.
      bindT (liftT (VerifyPassword env (li_password input) passwordHash)) (\<lambda>matches.
      returnT (if matches then found else None)))))))))"

definition startSession :: "env \<Rightarrow> user \<Rightarrow> string \<Rightarrow> int \<Rightarrow> world \<Rightarrow> world \<Rightarrow> identity \<Rightarrow> (goerr + user \<times> string) \<times> identity" where
  "startSession env user userAgent expectedAuthRevision w1 w2 s =
     (case autoT randT w1 s of
        (Inl e, _) \<Rightarrow> (Inl e, s)
      | (Inr token, _) \<Rightarrow>
          (case atomicT (bindT nowT (\<lambda>now. thenT (createSession env (au_id user) token now userAgent expectedAuthRevision) commitT)) w2 s of
             (Inl e, s') \<Rightarrow> (Inl e, s')
           | (Inr _, s') \<Rightarrow> (Inr (user, token), s')))"

definition clearThrottle :: "env \<Rightarrow> string \<Rightarrow> nat itx" where
  "clearThrottle env email = deleteThrottles (\<lambda>t. th_subject t = verifierBytes env (''email:'' @ email))"

definition Login :: "env \<Rightarrow> bool \<Rightarrow> (goerr + string) option \<Rightarrow> login_input \<Rightarrow> (nat \<Rightarrow> world) \<Rightarrow> identity \<Rightarrow> (goerr + user \<times> string) \<times> identity" where
  "Login env slot cached input ws s =
     (let email = e_toLower env (TrimSpace (li_email input)); source = loginSource env (li_source input) in
      case autoT (loginCheck env slot cached input) (ws 0) s of
        (Inl e, _) \<Rightarrow> (Inl e, s)
      | (Inr None, _) \<Rightarrow>
          (case recordLoginFailures env email source (ws 1) (ws 2) s of
             (Inl e, s') \<Rightarrow> (Inl e, s')
           | (Inr _, s') \<Rightarrow> (Inl ErrInvalidCredentials, s'))
      | (Inr (Some (user, authRevision)), _) \<Rightarrow>
          (case autoT (clearThrottle env email) (ws 3) s of
             (_, s') \<Rightarrow> startSession env user (li_userAgent input) authRevision (ws 4) (ws 5) s'))"

section \<open>Activation and recovery\<close>

definition codeJoin :: "identity \<Rightarrow> (code_row \<times> account_row) list" where
  "codeJoin s = concat (map (\<lambda>r. map (Pair r) (filter (\<lambda>a. ac_id a = tk_user r) (accounts s))) (codes s))"

definition prepareActivation :: "env \<Rightarrow> bool \<Rightarrow> activate_input \<Rightarrow> (string \<times> string) itx" where
  "prepareActivation env slot input =
     (let verifier = Verifier env (TrimSpace (vi_code input)) in
      thenT (checkedT (validatePassword (vi_password input))) (
      bindT nowT (\<lambda>now.
      bindT (queryT (\<lambda>s. list_ex (\<lambda>(r, a). tk_verifier r = verifier \<and> tk_expires r > now \<and>
         (tk_purpose r = ''recovery'' \<and> ac_status a = ''active'' \<or> tk_purpose r = ''activation'' \<and> ac_status a = ''suspended'')) (codeJoin s))) (\<lambda>eligible.
      guardT (\<not> eligible) ErrInvalidActivation (
      guardT (\<not> slot) ErrTooManyAttempts (
      bindT (HashPassword env (vi_password input)) (\<lambda>passwordHash.
      bindT randT (\<lambda>sessionToken. returnT (passwordHash, sessionToken)))))))))"

definition activateTx :: "env \<Rightarrow> activate_input \<Rightarrow> string \<Rightarrow> string \<Rightarrow> user itx" where
  "activateTx env input passwordHash sessionToken =
     (let verifier = Verifier env (TrimSpace (vi_code input)) in
      bindT nowT (\<lambda>now0.
      bindT (oneT ErrInvalidActivation codeJoin (\<lambda>(r, a). tk_verifier r = verifier \<and> tk_expires r > now0)) (\<lambda>(r, a).
      bindT (optionT badUserGrants (decodeUserGrants a)) (\<lambda>user.
      guardT (tk_purpose r = ''activation'' \<and> ac_status a \<noteq> ''suspended'') ErrInvalidActivation (
      guardT (tk_purpose r = ''recovery'' \<and> ac_status a \<noteq> ''active'') ErrInvalidActivation (
      bindT nowT (\<lambda>now.
      thenT (updateAccount (ac_id a) (\<lambda>_. True) (\<lambda>x. x\<lparr>ac_passwordHash := passwordHash, ac_status := ''active'',
         ac_authRevision := ac_authRevision x + 1, ac_revision := ac_revision x + 1, ac_updated := now\<rparr>)) (
      thenT (deleteSessions (\<lambda>x. ss_user x = ac_id a)) (
      thenT (deleteCodes (\<lambda>x. tk_user x = ac_id a)) (
      thenT (insertUserAudit (ac_id a) (''account.'' @ tk_purpose r) (ac_id a) (JObj [(''sessions_revoked'', JBool True)])) (
      thenT (createSession env (ac_id a) sessionToken now (vi_userAgent input) 0) (
      thenT commitT (
      returnT (user\<lparr>au_status := ''active''\<rparr>))))))))))))))"

definition Activate :: "env \<Rightarrow> bool \<Rightarrow> activate_input \<Rightarrow> world \<Rightarrow> world \<Rightarrow> identity \<Rightarrow> (goerr + user \<times> string) \<times> identity" where
  "Activate env slot input w1 w2 s =
     (case autoT (prepareActivation env slot input) w1 s of
        (Inl e, _) \<Rightarrow> (Inl e, s)
      | (Inr (passwordHash, sessionToken), _) \<Rightarrow>
          (case atomicT (activateTx env input passwordHash sessionToken) w2 s of
             (Inl e, s') \<Rightarrow> (Inl e, s')
           | (Inr user, s') \<Rightarrow> (Inr (user, sessionToken), s')))"

definition prepareOwnerRecoveryTx :: "env \<Rightarrow> string \<Rightarrow> unit itx" where
  "prepareOwnerRecoveryTx env code =
     bindT (oneT ErrNoRows accounts activeOwner) (\<lambda>owner.
     bindT nowT (\<lambda>now.
     thenT (deleteCodes (\<lambda>r. tk_user r = ac_id owner)) (
     thenT (insertCodeRow \<lparr>tk_verifier = Verifier env code, tk_user = ac_id owner, tk_purpose = ''recovery'', tk_expires = now + 86400000, tk_created = now\<rparr>) (
     thenT (updateAccount (ac_id owner) (\<lambda>_. True) (\<lambda>a. a\<lparr>ac_authRevision := ac_authRevision a + 1, ac_revision := ac_revision a + 1, ac_updated := now\<rparr>)) (
     thenT (deleteSessions (\<lambda>r. ss_user r = ac_id owner)) (
     bindT randT (\<lambda>auditID.
     thenT (insertTrail \<lparr>tr_id = ''aud_'' @ auditID, tr_actor = None, tr_action = ''owner.offline_recovery'', tr_resourceType = ''user'',
       tr_resourceID = ac_id owner, tr_detail = JObj [], tr_created = now\<rparr>) commitT)))))))"

definition PrepareOwnerRecovery :: "env \<Rightarrow> string \<Rightarrow> world \<Rightarrow> identity \<Rightarrow> (goerr + unit) \<times> identity" where
  "PrepareOwnerRecovery env code = atomicT (prepareOwnerRecoveryTx env code)"

section \<open>Password and profile\<close>

text \<open>The stored password of an account, compared with the one given.\<close>

definition verifyCurrent :: "env \<Rightarrow> string \<Rightarrow> string \<Rightarrow> unit itx" where
  "verifyCurrent env userID password =
     bindT (oneT ErrNoRows accounts (\<lambda>a. ac_id a = userID)) (\<lambda>a.
     bindT (liftT (VerifyPassword env password (ac_passwordHash a))) (\<lambda>matches.
     guardT (\<not> matches) ErrInvalidCredentials (returnT ())))"

definition changePasswordTx :: "env \<Rightarrow> authenticated_session \<Rightarrow> string \<Rightarrow> string \<Rightarrow> string \<Rightarrow> unit itx" where
  "changePasswordTx env current newHash token userAgent =
     (let i = au_id (as_user current) in
      bindT nowT (\<lambda>now.
      bindT (updateAccount i (\<lambda>a. ac_authRevision a = as_authRevision current) (\<lambda>a. a\<lparr>ac_passwordHash := newHash,
         ac_authRevision := ac_authRevision a + 1, ac_revision := ac_revision a + 1, ac_updated := now\<rparr>)) (\<lambda>changed.
      guardT (changed \<noteq> 1) ErrInvalidSession (
      thenT (deleteSessions (\<lambda>r. ss_user r = i)) (
      thenT (insertUserAudit i ''account.password_change'' i (JObj [(''sessions_revoked'', JBool True)])) (
      thenT (createSession env i token now userAgent 0) commitT))))))"

definition ChangePassword ::
  "env \<Rightarrow> bool \<Rightarrow> authenticated_session \<Rightarrow> string \<Rightarrow> string \<Rightarrow> string \<Rightarrow> world \<Rightarrow> world \<Rightarrow> identity \<Rightarrow> (goerr + string) \<times> identity" where
  "ChangePassword env slot current oldPassword newPassword userAgent w1 w2 s =
     (case autoT (thenT (checkedT (validatePassword newPassword)) (
                  guardT (\<not> slot) ErrTooManyAttempts (
                  thenT (verifyCurrent env (au_id (as_user current)) oldPassword) (
                  bindT (HashPassword env newPassword) (\<lambda>newHash. bindT randT (\<lambda>token. returnT (newHash, token))))))) w1 s of
        (Inl e, _) \<Rightarrow> (Inl e, s)
      | (Inr (newHash, token), _) \<Rightarrow>
          (case atomicT (changePasswordTx env current newHash token userAgent) w2 s of
             (Inl e, s') \<Rightarrow> (Inl e, s')
           | (Inr _, s') \<Rightarrow> (Inr token, s')))"

text \<open>SQLite names both the column and the index of accounts in an error with \<^verbatim>\<open>UNIQUE\<close> in its text.\<close>

definition emailTaken :: "goerr \<Rightarrow> goerr" where
  "emailTaken e = (if e = ErrUnique \<or> e = ErrOwnerIndex then InputError ''A user with this email already exists'' else e)"

definition updateProfileTx :: "env \<Rightarrow> authenticated_session \<Rightarrow> string \<Rightarrow> string \<Rightarrow> string \<Rightarrow> string itx" where
  "updateProfileTx env current email displayName userAgent =
     (let i = au_id (as_user current); emailChanged = (email \<noteq> au_email (as_user current)) in
      bindT nowT (\<lambda>now.
      bindT (mapErrT emailTaken (updateAccount i (\<lambda>a. ac_authRevision a = as_authRevision current) (\<lambda>a. a\<lparr>ac_email := email, ac_displayName := displayName,
         ac_revision := ac_revision a + 1, ac_authRevision := ac_authRevision a + (if emailChanged then 1 else 0), ac_updated := now\<rparr>))) (\<lambda>changed.
      guardT (changed \<noteq> 1) ErrInvalidSession (
      bindT (if emailChanged
             then thenT (deleteSessions (\<lambda>r. ss_user r = i)) (
                  bindT randT (\<lambda>token. thenT (createSession env i token now userAgent 0) (returnT token)))
             else returnT []) (\<lambda>newToken.
      thenT (insertUserAudit i ''account.update'' i (JObj [(''email_changed'', JBool emailChanged)])) (
      thenT commitT (returnT newToken)))))))"

definition UpdateProfile ::
  "env \<Rightarrow> bool \<Rightarrow> authenticated_session \<Rightarrow> profile_input \<Rightarrow> world \<Rightarrow> world \<Rightarrow> identity \<Rightarrow> (goerr + user \<times> string) \<times> identity" where
  "UpdateProfile env slot current input w1 w2 s =
     (case autoT (bindT (checkedT (ValidateIdentity env (fi_email input) (fi_displayName input))) (\<lambda>(email, displayName).
                  thenT (if email \<noteq> au_email (as_user current)
                         then guardT (\<not> slot) ErrTooManyAttempts (verifyCurrent env (au_id (as_user current)) (fi_currentPassword input))
                         else returnT ()) (returnT (email, displayName)))) w1 s of
        (Inl e, _) \<Rightarrow> (Inl e, s)
      | (Inr (email, displayName), _) \<Rightarrow>
          (case atomicT (updateProfileTx env current email displayName (fi_userAgent input)) w2 s of
             (Inl e, s') \<Rightarrow> (Inl e, s')
           | (Inr newToken, s') \<Rightarrow> (Inr ((as_user current)\<lparr>au_email := email, au_displayName := displayName\<rparr>, newToken), s')))"

section \<open>Passwords\<close>

lemma base64Encode_chars: "c \<in> set (base64Encode s) \<Longrightarrow> base64Value c \<noteq> None"
proof -
  have "\<forall>b \<in> set (map of_char s). (b :: nat) < 256" by auto
  from sextets_bound [OF this] have "\<forall>v \<in> set (sextets (map of_char s)). v < 64" .
  then show "c \<in> set (base64Encode s) \<Longrightarrow> base64Value c \<noteq> None" by (auto simp: base64Encode_def base64Value_Digit)
qed

lemma base64_not_special: "CHR ''+'' \<notin> set (base64Encode s)" "CHR ''/'' \<notin> set (base64Encode s)" "CHR ''$'' \<notin> set (base64Encode s)"
proof -
  have none: "base64Value (CHR ''+'') = None" "base64Value (CHR ''/'') = None" "base64Value (CHR ''$'') = None" by (simp_all add: base64Value_def)
  show "CHR ''+'' \<notin> set (base64Encode s)" "CHR ''/'' \<notin> set (base64Encode s)" "CHR ''$'' \<notin> set (base64Encode s)"
    by (rule notI, drule base64Encode_chars, simp add: none)+
qed

lemma base64Std_roundtrip: "base64StdDecode (base64StdEncode s) = Some s"
proof -
  have "map (\<lambda>c. fromStd (toStd c)) (base64Encode s) = map (\<lambda>c. c) (base64Encode s)"
    using base64_not_special [of s] by (intro map_cong) (auto simp: fromStd_def toStd_def)
  then show ?thesis by (simp add: base64StdDecode_def base64StdEncode_def comp_def base64Decode_Encode)
qed

lemma base64Std_no_dollar: "CHR ''$'' \<notin> set (base64StdEncode s)"
  using base64_not_special(3) [of s] by (auto simp: base64StdEncode_def toStd_def)

lemma splitOn_encoded:
  "splitOn (CHR ''$'') (encodedHash env password salt) =
     [[], ''argon2id'', ''v=19'', argonParams, base64StdEncode salt, base64StdEncode (e_argon2 env password salt)]"
proof -
  have p: "CHR ''$'' \<notin> set argonParams" by (simp add: argonParams_def)
  show ?thesis
    using splitOn_one [OF p] splitOn_one [OF base64Std_no_dollar] splitOn_none [OF base64Std_no_dollar]
    by (simp add: encodedHash_def)
qed

text \<open>What a hash accepts is decided by Argon2id with the salt in it.\<close>

lemma HashPassword_accepts:
  assumes "\<And>p x. length (e_argon2 env p x) = 32" and "HashPassword env password w (n, s) = Inr (h, n', s')"
  obtains salt where "length salt = 16" "\<And>q. VerifyPassword env q h = Inr (e_argon2 env q salt = e_argon2 env password salt)" "s' = s"
proof -
  from assms(2) obtain salt where h: "h = encodedHash env password salt" and salt: "length salt = 16" and s: "s' = s"
    by (auto simp: HashPassword_def saltT_def tx_inv min_def elim!: tx_elim)
  have v: "VerifyPassword env q h = Inr (e_argon2 env q salt = e_argon2 env password salt)" for q
    by (simp add: h VerifyPassword_def Let_def splitOn_encoded base64Std_roundtrip salt assms(1))
  show ?thesis by (rule that [OF salt v s])
qed

text \<open>
  (C39) A password is verified against its own hash: what \<^verbatim>\<open>HashPassword\<close> returns is accepted by
  \<^verbatim>\<open>VerifyPassword\<close> for the same password, without an error, and for another password exactly when
  Argon2id derives the same key from it with the salt drawn. Argon2id returns the 32 bytes asked for.
\<close>

theorem HashPassword_verifies:
  assumes "\<And>p x. length (e_argon2 env p x) = 32" and "HashPassword env password w (n, s) = Inr (h, n', s')"
  shows "VerifyPassword env password h = Inr True \<and>
         (\<exists>salt. length salt = 16 \<and> (\<forall>q. VerifyPassword env q h = Inr (e_argon2 env q salt = e_argon2 env password salt)))"
proof -
  from assms obtain salt where "length salt = 16" "\<And>q. VerifyPassword env q h = Inr (e_argon2 env q salt = e_argon2 env password salt)"
    by (rule HashPassword_accepts) (rule that; assumption)
  then show ?thesis by auto
qed

theorem HashPassword_verifies_witness:
  "\<exists>h. HashPassword plainEnv ''correct horse'' quietWorld (0, ownerStore) = Inr (h, 1, ownerStore) \<and> VerifyPassword plainEnv ''correct horse'' h = Inr True"
proof -
  have len: "length (e_argon2 plainEnv p x) = 32" for p x by (simp add: plainEnv_def)
  have "\<exists>h. HashPassword plainEnv ''correct horse'' quietWorld (0, ownerStore) = Inr (h, 1, ownerStore)"
    by (simp add: HashPassword_def saltT_def tx_defs quietWorld_def)
  then obtain h where h: "HashPassword plainEnv ''correct horse'' quietWorld (0, ownerStore) = Inr (h, 1, ownerStore)" ..
  from HashPassword_verifies [OF len h] h show ?thesis by (intro exI [of _ h]) simp
qed

end
