(* ===== verification/Keys.thy ===== *)
theory Keys
  imports Identity Admission
begin

text \<open>
  The API keys of a user (\<^verbatim>\<open>features/keys/service.go\<close>): creation with a secret shown once,
  update under the user's grants, rotation, revocation, and the authentication of a request by its
  token. The theorems: what \<^verbatim>\<open>Create\<close> returns authenticates as the created key, a rotated or revoked
  secret never does, and what a principal allows the admission check grants.
\<close>

section \<open>Scopes (auth/scopes.go)\<close>

definition inferenceScopes :: "string list" where
  "inferenceScopes =
     [''chat:generate'', ''completions:generate'', ''messages:batches'', ''messages:web_search'', ''messages:web_fetch'',
      ''responses:generate'', ''responses:web_search'', ''responses:file_search'', ''embeddings:generate'', ''moderations:classify'',
      ''decisions:generate'', ''images:generate'', ''images:edit'', ''images:variation'', ''audio:speech'', ''audio:transcribe'',
      ''audio:translate'', ''realtime:connect'', ''media:generate'', ''batches:manage'', ''files:manage'', ''vector_stores:manage'',
      ''models:read'', ''tokens:count'']"

definition ValidInferenceScope :: "string \<Rightarrow> bool" where
  "ValidInferenceScope scope = list_ex (\<lambda>candidate. candidate = scope) inferenceScopes"

section \<open>Data\<close>

record api_key =
  ky_id :: string
  ky_label :: string
  ky_state :: string
  ky_scopes :: "string list"
  ky_models :: "string list"
  ky_connections :: "string list"
  ky_expires :: "string option"
  ky_revision :: int
  ky_created :: string
  ky_updated :: string

record key_input =
  ki_label :: string
  ki_scopes :: "string list"
  ki_models :: "string list"
  ki_connections :: "string list"
  ki_expires :: string
  ki_state :: string

record principal =
  pn_key :: string
  pn_owner :: string
  pn_scopes :: "string list"
  pn_models :: "string list"
  pn_connections :: "string list"

definition AllowsScope :: "principal \<Rightarrow> string \<Rightarrow> bool" where
  "AllowsScope p scope = stringContains (pn_scopes p) scope"

definition Allows :: "principal \<Rightarrow> string \<Rightarrow> string \<Rightarrow> string \<Rightarrow> bool" where
  "Allows p scope model connectionID =
     (if \<not> AllowsScope p scope \<or> \<not> stringContains (pn_connections p) connectionID then False
      else list_ex (\<lambda>pattern. path_Match pattern model = Some True) (pn_models p))"

section \<open>Reading keys\<close>

text \<open>\<^verbatim>\<open>_ = json.Unmarshal\<close> into a nil slice of strings: what the decoder has stored when it fails.\<close>

definition lenientStrings :: "string \<Rightarrow> string list" where
  "lenientStrings t =
     (case parseJson t of Some (JArr vs) \<Rightarrow> map (\<lambda>v. case v of JStr x \<Rightarrow> x | _ \<Rightarrow> []) vs | _ \<Rightarrow> [])"

definition scanKey :: "api_key_row \<Rightarrow> api_key option" where
  "scanKey k = map_option (\<lambda>scopes.
     \<lparr>ky_id = kr_id k, ky_label = kr_label k, ky_state = kr_state k, ky_scopes = scopes, ky_models = lenientStrings (kr_models k),
      ky_connections = lenientStrings (kr_connections k), ky_expires = map_option formatTime (kr_expires k), ky_revision = kr_revision k,
      ky_created = formatTime (kr_created k), ky_updated = formatTime (kr_updated k)\<rparr>) (unmarshalStrings (kr_scopes k))"

definition badGrants :: goerr where
  "badGrants = ErrMsg ''invalid grants''"

definition GetKey :: "string \<Rightarrow> string \<Rightarrow> api_key itx" where
  "GetKey ownerID keyID =
     bindT (oneT ErrNotFound key_table (\<lambda>k. kr_id k = keyID \<and> kr_owner k = ownerID)) (\<lambda>k. optionT badGrants (scanKey k))"

definition keyOrder :: "api_key_row \<Rightarrow> int \<times> string" where
  "keyOrder k = (kr_created k, kr_id k)"

text \<open>\<^verbatim>\<open>List\<close>: the page of the rows after the cursor (a zero time means none); each row read is decoded, the extra one too.\<close>

definition ListKeys :: "string \<Rightarrow> int \<Rightarrow> string \<Rightarrow> (api_key list \<times> string) itx" where
  "ListKeys ownerID limit0 cursor =
     (let limit = nat (if limit0 < 1 \<or> limit0 > 200 then 50 else limit0) in
      bindT (liftT (decodeCursor cursor)) (\<lambda>(before, beforeID).
      bindT (queryT (\<lambda>s. pageRows keyOrder limit (if before = 0 then None else Some (before, beforeID))
        (filter (\<lambda>k. kr_owner k = ownerID) (key_table s)))) (\<lambda>rows.
      bindT (optionT badGrants (those (map scanKey rows))) (\<lambda>items.
      returnT (take limit items, nextCursor keyOrder (snd (cutPage limit rows)))))))"

section \<open>Validation\<close>

definition validateKeyGrants :: "string list \<Rightarrow> string option" where
  "validateKeyGrants vs =
     (if length vs > 100 then Some ''too many grants''
      else if list_ex (\<lambda>v. TrimSpace v = [] \<or> length v > 200) vs then Some ''grants must be between 1 and 200 characters''
      else None)"

text \<open>The clock is read only when an expiry is given; \<^verbatim>\<open>parsed.After\<close> compares nanoseconds with it.\<close>

definition validateInput :: "key_input \<Rightarrow> (key_input \<times> int option) itx" where
  "validateInput input =
     (let label = TrimSpace (ki_label input) in
      guardT (label = [] \<or> runeCount label > 100) (ErrMsg ''label must be between 1 and 100 characters'') (
      guardT (ki_state input \<noteq> ''active'' \<and> ki_state input \<noteq> ''disabled'') (ErrMsg ''state must be active or disabled'') (
      bindT (case find (\<lambda>scope. \<not> ValidInferenceScope scope) (ki_scopes input) of
               None \<Rightarrow> returnT () | Some scope \<Rightarrow> failT (ErrMsg (''unsupported scope '' @ quoteText scope))) (\<lambda>_.
      bindT (case validateKeyGrants (ki_models input) of None \<Rightarrow> returnT () | Some e \<Rightarrow> failT (ErrMsg e)) (\<lambda>_.
      bindT (case validateKeyGrants (ki_connections input) of None \<Rightarrow> returnT () | Some e \<Rightarrow> failT (ErrMsg e)) (\<lambda>_.
      let validated = input\<lparr>ki_label := label, ki_scopes := unique (ki_scopes input), ki_models := unique (ki_models input),
            ki_connections := unique (ki_connections input)\<rparr> in
      if ki_expires input = [] then returnT (validated, None)
      else bindT (optionT (ErrMsg ''expiry must be a future RFC3339 time'') (parseRFC3339 (ki_expires input))) (\<lambda>parsed.
           bindT nowT (\<lambda>now.
           guardT (parsed \<le> now * 1000000) (ErrMsg ''expiry must be a future RFC3339 time'')
             (returnT (validated, Some (unixMilliOfNanos parsed)))))))))))"

definition allowedForUser :: "string \<Rightarrow> key_input \<Rightarrow> bool itx" where
  "allowedForUser userID input =
     bindT (oneT ErrNoRows accounts (\<lambda>a. ac_id a = userID \<and> ac_status a = ''active'')) (\<lambda>a.
     if ac_unrestricted a then returnT True
     else bindT (optionT badGrants (unmarshalStrings (ac_scopes a))) (\<lambda>scopes.
          bindT (optionT badGrants (unmarshalStrings (ac_models a))) (\<lambda>models.
          bindT (optionT badGrants (unmarshalStrings (ac_connections a))) (\<lambda>connections.
          returnT (subset_grants (ki_scopes input) scopes \<and> modelSubset (ki_models input) models \<and>
                   subset_grants (ki_connections input) connections)))))"

section \<open>Secrets\<close>

definition hexEncode :: "string \<Rightarrow> string" where
  "hexEncode s = concat (map (\<lambda>c. let n = (of_char c :: nat) in [hexDigit (n div 16), hexDigit (n mod 16)]) s)"

definition newSecret :: "env \<Rightarrow> ('s, string \<times> string \<times> string) txm" where
  "newSecret env =
     bindT randT (\<lambda>selectorSeed.
     let selector = hexEncode (take 8 (Verifier env selectorSeed)) in
     bindT randT (\<lambda>secret.
     let token = ''pag_'' @ selector @ ''_'' @ secret in
     returnT (token, selector, Verifier env token)))"

definition auditKey :: "string \<Rightarrow> string \<Rightarrow> string \<Rightarrow> unit itx" where
  "auditKey actorID action keyID =
     bindT randT (\<lambda>i. bindT nowT (\<lambda>now.
     insertTrail \<lparr>tr_id = ''aud_'' @ i, tr_actor = Some actorID, tr_action = action, tr_resourceType = ''api_key'', tr_resourceID = keyID,
       tr_detail = JObj [], tr_created = now\<rparr>))"

section \<open>Changing keys\<close>

text \<open>
  Each operation first runs what the source does before \<^verbatim>\<open>BeginTx\<close>, then the transaction, then the
  final \<^verbatim>\<open>Get\<close>; the parts have worlds of their own.
\<close>

definition createKeyTx :: "string \<Rightarrow> key_input \<Rightarrow> int option \<Rightarrow> string \<Rightarrow> string \<times> string \<times> string \<Rightarrow> int \<Rightarrow> unit itx" where
  "createKeyTx ownerID validated expiresAt keyID secret now =
     (case secret of (token, selector, verifier) \<Rightarrow>
      bindT (allowedForUser ownerID validated) (\<lambda>allowed.
      guardT (\<not> allowed) ErrDenied (
      thenT (insertKey \<lparr>kr_id = keyID, kr_owner = ownerID, kr_label = ki_label validated, kr_state = ''active'',
               kr_scopes = encodeStrings (ki_scopes validated), kr_models = encodeStrings (ki_models validated),
               kr_connections = encodeStrings (ki_connections validated), kr_expires = expiresAt, kr_revision = 1, kr_created = now, kr_updated = now\<rparr>) (
      thenT (insertSecret \<lparr>sc_selector = selector, sc_verifier = verifier, sc_key = keyID, sc_created = now, sc_expires = expiresAt, sc_revoked = None\<rparr>) (
      thenT (auditKey ownerID ''api_key.create'' keyID) commitT)))))"

definition prepareKey :: "env \<Rightarrow> key_input \<Rightarrow> (key_input \<times> int option \<times> string \<times> (string \<times> string \<times> string) \<times> int) itx" where
  "prepareKey env input =
     bindT (validateInput (input\<lparr>ki_state := ''active''\<rparr>)) (\<lambda>(validated, expiresAt).
     bindT randT (\<lambda>idPart.
     bindT (newSecret env) (\<lambda>secret.
     bindT nowT (\<lambda>now. returnT (validated, expiresAt, ''key_'' @ idPart, secret, now)))))"

definition CreateKey :: "env \<Rightarrow> string \<Rightarrow> key_input \<Rightarrow> world \<Rightarrow> world \<Rightarrow> world \<Rightarrow> identity \<Rightarrow> (goerr + api_key \<times> string) \<times> identity" where
  "CreateKey env ownerID input w1 w2 w3 s =
     (case autoT (prepareKey env input) w1 s of
        (Inl e, _) \<Rightarrow> (Inl e, s)
      | (Inr (validated, expiresAt, keyID, secret, now), _) \<Rightarrow>
          (case atomicT (createKeyTx ownerID validated expiresAt keyID secret now) w2 s of
             (Inl e, s') \<Rightarrow> (Inl e, s')
           | (Inr _, s') \<Rightarrow> (map_sum id (\<lambda>item. (item, fst secret)) (fst (autoT (GetKey ownerID keyID) w3 s')), s')))"

definition updateKeyTx :: "string \<Rightarrow> string \<Rightarrow> int \<Rightarrow> key_input \<Rightarrow> int option \<Rightarrow> unit itx" where
  "updateKeyTx ownerID keyID revision validated expiresAt =
     bindT (allowedForUser ownerID validated) (\<lambda>allowed.
     guardT (\<not> allowed) ErrDenied (
     bindT nowT (\<lambda>now.
     bindT (updateKeys (\<lambda>k. kr_id k = keyID \<and> kr_owner k = ownerID \<and> kr_revision k = revision \<and> kr_state k \<noteq> ''revoked'')
        (\<lambda>k. k\<lparr>kr_label := ki_label validated, kr_state := ki_state validated, kr_scopes := encodeStrings (ki_scopes validated),
          kr_models := encodeStrings (ki_models validated), kr_connections := encodeStrings (ki_connections validated), kr_expires := expiresAt,
          kr_revision := kr_revision k + 1, kr_updated := now\<rparr>)) (\<lambda>changed.
     guardT (changed \<noteq> 1) ErrConflict (
     thenT (updateSecrets (\<lambda>r. sc_key r = keyID \<and> sc_revoked r = None) (\<lambda>r. r\<lparr>sc_expires := expiresAt\<rparr>)) (
     thenT (auditKey ownerID ''api_key.update'' keyID) commitT))))))"

definition UpdateKey :: "string \<Rightarrow> string \<Rightarrow> int \<Rightarrow> key_input \<Rightarrow> world \<Rightarrow> world \<Rightarrow> world \<Rightarrow> identity \<Rightarrow> (goerr + api_key) \<times> identity" where
  "UpdateKey ownerID keyID revision input w1 w2 w3 s =
     (case autoT (thenT (GetKey ownerID keyID)
                    (validateInput (if ki_state input = [] then input\<lparr>ki_state := ''active''\<rparr> else input))) w1 s of
        (Inl e, _) \<Rightarrow> (Inl e, s)
      | (Inr (validated, expiresAt), _) \<Rightarrow>
          (case atomicT (updateKeyTx ownerID keyID revision validated expiresAt) w2 s of
             (Inl e, s') \<Rightarrow> (Inl e, s')
           | (Inr _, s') \<Rightarrow> (fst (autoT (GetKey ownerID keyID) w3 s'), s')))"

definition revokeKeyTx :: "string \<Rightarrow> string \<Rightarrow> int \<Rightarrow> unit itx" where
  "revokeKeyTx ownerID keyID revision =
     bindT nowT (\<lambda>now.
     bindT (updateKeys (\<lambda>k. kr_id k = keyID \<and> kr_owner k = ownerID \<and> kr_revision k = revision \<and> kr_state k \<noteq> ''revoked'')
        (\<lambda>k. k\<lparr>kr_state := ''revoked'', kr_revision := kr_revision k + 1, kr_updated := now\<rparr>)) (\<lambda>changed.
     guardT (changed \<noteq> 1) ErrConflict (
     thenT (updateSecrets (\<lambda>r. sc_key r = keyID \<and> sc_revoked r = None) (\<lambda>r. r\<lparr>sc_revoked := Some now\<rparr>)) (
     thenT (auditKey ownerID ''api_key.revoke'' keyID) commitT))))"

definition RevokeKey :: "string \<Rightarrow> string \<Rightarrow> int \<Rightarrow> world \<Rightarrow> world \<Rightarrow> identity \<Rightarrow> (goerr + unit) \<times> identity" where
  "RevokeKey ownerID keyID revision w1 w2 s =
     (case autoT (GetKey ownerID keyID) w1 s of
        (Inl e, _) \<Rightarrow> (Inl e, s)
      | (Inr _, _) \<Rightarrow> atomicT (revokeKeyTx ownerID keyID revision) w2 s)"

definition rotateKeyTx :: "string \<Rightarrow> string \<Rightarrow> int \<Rightarrow> string \<times> string \<times> string \<Rightarrow> unit itx" where
  "rotateKeyTx ownerID keyID revision secret =
     (case secret of (token, selector, verifier) \<Rightarrow>
      bindT nowT (\<lambda>now.
      bindT (oneT ErrConflict key_table (\<lambda>k. kr_id k = keyID \<and> kr_owner k = ownerID \<and> kr_revision k = revision \<and> kr_state k = ''active'')) (\<lambda>k.
      guardT (case kr_expires k of None \<Rightarrow> False | Some e \<Rightarrow> e \<le> now) ErrExpired (
      thenT (updateSecrets (\<lambda>r. sc_key r = keyID \<and> sc_revoked r = None) (\<lambda>r. r\<lparr>sc_revoked := Some now\<rparr>)) (
      thenT (insertSecret \<lparr>sc_selector = selector, sc_verifier = verifier, sc_key = keyID, sc_created = now, sc_expires = kr_expires k, sc_revoked = None\<rparr>) (
      thenT (updateKeys (\<lambda>k. kr_id k = keyID) (\<lambda>k. k\<lparr>kr_revision := kr_revision k + 1, kr_updated := now\<rparr>)) (
      thenT (auditKey ownerID ''api_key.rotate'' keyID) commitT)))))))"

definition RotateKey :: "env \<Rightarrow> string \<Rightarrow> string \<Rightarrow> int \<Rightarrow> world \<Rightarrow> world \<Rightarrow> world \<Rightarrow> identity \<Rightarrow> (goerr + api_key \<times> string) \<times> identity" where
  "RotateKey env ownerID keyID revision w1 w2 w3 s =
     (case autoT (thenT (GetKey ownerID keyID) (newSecret env)) w1 s of
        (Inl e, _) \<Rightarrow> (Inl e, s)
      | (Inr secret, _) \<Rightarrow>
          (case atomicT (rotateKeyTx ownerID keyID revision secret) w2 s of
             (Inl e, s') \<Rightarrow> (Inl e, s')
           | (Inr _, s') \<Rightarrow> (map_sum id (\<lambda>item. (item, fst secret)) (fst (autoT (GetKey ownerID keyID) w3 s')), s')))"

section \<open>Authentication\<close>

definition decodePrincipal :: "api_key_row \<Rightarrow> account_row \<Rightarrow> principal option" where
  "decodePrincipal k a =
     Option.bind (unmarshalStrings (kr_scopes k)) (\<lambda>scopes.
     Option.bind (unmarshalStrings (kr_models k)) (\<lambda>models.
     Option.bind (unmarshalStrings (kr_connections k)) (\<lambda>connections.
     if ac_unrestricted a
     then Some \<lparr>pn_key = kr_id k, pn_owner = kr_owner k, pn_scopes = scopes, pn_models = models, pn_connections = connections\<rparr>
     else Option.bind (unmarshalStrings (ac_scopes a)) (\<lambda>userScopes.
          Option.bind (unmarshalStrings (ac_models a)) (\<lambda>userModels.
          Option.bind (unmarshalStrings (ac_connections a)) (\<lambda>userConnections.
          Some \<lparr>pn_key = kr_id k, pn_owner = kr_owner k, pn_scopes = intersection scopes userScopes,
                pn_models = modelIntersection models userModels, pn_connections = intersection connections userConnections\<rparr>))))))"

text \<open>\<^verbatim>\<open>strings.SplitN(token, "_", 3)\<close> with three parts of which the first is \<^verbatim>\<open>pag\<close>: the second part.\<close>

definition tokenSelector :: "string \<Rightarrow> string option" where
  "tokenSelector token =
     Option.bind (cutOn (CHR ''_'') token) (\<lambda>(first, rest).
       if first \<noteq> ''pag'' then None else map_option fst (cutOn (CHR ''_'') rest))"

definition keyJoin :: "identity \<Rightarrow> (api_key_row \<times> account_row) list" where
  "keyJoin s = concat (map (\<lambda>k. map (Pair k) (filter (\<lambda>a. ac_id a = kr_owner k) (accounts s))) (key_table s))"

definition secretJoin :: "identity \<Rightarrow> (secret_row \<times> api_key_row \<times> account_row) list" where
  "secretJoin s = concat (map (\<lambda>r. map (Pair r) (filter (\<lambda>(k, a). kr_id k = sc_key r) (keyJoin s))) (secrets s))"

definition unexpired :: "int option \<Rightarrow> int \<Rightarrow> bool" where
  "unexpired e now = (case e of None \<Rightarrow> True | Some t \<Rightarrow> t > now)"

definition liveKey :: "int \<Rightarrow> api_key_row \<times> account_row \<Rightarrow> bool" where
  "liveKey now = (\<lambda>(k, a). kr_state k = ''active'' \<and> unexpired (kr_expires k) now \<and> ac_status a = ''active'')"

definition Authenticate :: "env \<Rightarrow> string \<Rightarrow> principal itx" where
  "Authenticate env token =
     (case tokenSelector token of
        None \<Rightarrow> failT ErrNotFound
      | Some selector \<Rightarrow>
          bindT nowT (\<lambda>now1. bindT nowT (\<lambda>now2.
          bindT (mapErrT (\<lambda>_. ErrNotFound) (oneT ErrNoRows secretJoin
            (\<lambda>(r, k, a). sc_selector r = selector \<and> sc_revoked r = None \<and> unexpired (sc_expires r) now1 \<and> liveKey now2 (k, a)))) (\<lambda>(r, k, a).
          guardT (Verifier env token \<noteq> sc_verifier r) ErrNotFound (optionT badGrants (decodePrincipal k a))))))"

definition PrincipalOf :: "string \<Rightarrow> principal itx" where
  "PrincipalOf keyID =
     bindT nowT (\<lambda>now.
     bindT (oneT ErrNotFound keyJoin (\<lambda>(k, a). kr_id k = keyID \<and> liveKey now (k, a))) (\<lambda>(k, a).
     optionT badGrants (decodePrincipal k a)))"

section \<open>Shapes of successful runs\<close>

text \<open>The grants of an input lie under those of an account.\<close>

definition grantable :: "account_row \<Rightarrow> key_input \<Rightarrow> bool" where
  "grantable a input \<longleftrightarrow> ac_unrestricted a \<or>
     (case (unmarshalStrings (ac_scopes a), unmarshalStrings (ac_models a), unmarshalStrings (ac_connections a)) of
        (Some scopes, Some models, Some connections) \<Rightarrow>
          subset_grants (ki_scopes input) scopes \<and> modelSubset (ki_models input) models \<and> subset_grants (ki_connections input) connections
      | _ \<Rightarrow> False)"

lemma allowedForUser_Inr:
  assumes "allowedForUser userID input w (n, s) = Inr (b, n', s')"
  obtains a where "s' = s" "find (\<lambda>a. ac_id a = userID \<and> ac_status a = ''active'') (accounts s) = Some a" "b = grantable a input"
  using assms by (clarsimp simp: allowedForUser_def tx_inv grantable_def split: if_splits elim!: tx_elim)

lemma auditKey_Inr:
  assumes "auditKey actorID action keyID w (n, s) = Inr (x, n', s')"
  obtains row where "s' = trail_update (\<lambda>rs. rs @ [row]) s"
  using assms by (clarsimp simp: auditKey_def tx_inv elim!: tx_elim)

lemma newSecret_Inr:
  assumes "newSecret env w (n, s) = Inr (x, n', s')"
  obtains seed secret where "s' = s"
    "x = (''pag_'' @ hexEncode (take 8 (Verifier env seed)) @ ''_'' @ secret, hexEncode (take 8 (Verifier env seed)),
          Verifier env (''pag_'' @ hexEncode (take 8 (Verifier env seed)) @ ''_'' @ secret))"
  using assms by (clarsimp simp: newSecret_def Let_def tx_inv elim!: tx_elim)

lemma validateInput_Inr:
  assumes "validateInput input w (n, s) = Inr ((v, e), n', s')"
  shows "s' = s \<and> v = input\<lparr>ki_label := TrimSpace (ki_label input), ki_scopes := unique (ki_scopes input), ki_models := unique (ki_models input),
            ki_connections := unique (ki_connections input)\<rparr> \<and>
         e = (if ki_expires input = [] then None else map_option unixMilliOfNanos (parseRFC3339 (ki_expires input))) \<and>
         (ki_state input = ''active'' \<or> ki_state input = ''disabled'') \<and> list_all ValidInferenceScope (ki_scopes input)"
  using assms by (clarsimp simp: validateInput_def Let_def tx_inv find_None_iff list_all_iff split: if_splits option.splits elim!: tx_elim)

section \<open>Tokens and joins\<close>

lemma hexDigit_not_separator: "n < 16 \<Longrightarrow> hexDigit n \<noteq> CHR ''_''"
proof
  assume "n < 16" "hexDigit n = CHR ''_''"
  then have "hexVal (CHR ''_'') = Some n" using hexVal_hexDigit [of n] by simp
  then show False by (simp add: hexVal_def)
qed

lemma hexEncode_no_separator: "CHR ''_'' \<notin> set (hexEncode s)"
proof -
  have "hexDigit ((of_char c :: nat) div 16) \<noteq> CHR ''_''" "hexDigit ((of_char c :: nat) mod 16) \<noteq> CHR ''_''" for c
    by (rule hexDigit_not_separator, simp add: less_mult_imp_div_less)+
  then show ?thesis by (auto simp: hexEncode_def Let_def dest: sym)
qed

lemma tokenSelector_token: "tokenSelector (''pag_'' @ hexEncode x @ ''_'' @ secret) = Some (hexEncode x)"
  using cutOn_append [OF hexEncode_no_separator, of x secret] by (simp add: tokenSelector_def)

lemma find_unique:
  assumes "x \<in> set xs" "p x" "\<And>y. y \<in> set xs \<Longrightarrow> p y \<Longrightarrow> y = x"
  shows "find p xs = Some x"
proof (cases "find p xs")
  case None
  with assms(1,2) show ?thesis by (simp add: find_None_iff)
next
  case (Some y)
  with find_SomeD [OF Some] assms(3) show ?thesis by simp
qed

lemma distinct_keyD: "distinct (map f xs) \<Longrightarrow> x \<in> set xs \<Longrightarrow> y \<in> set xs \<Longrightarrow> f x = f y \<Longrightarrow> x = y"
  by (simp add: distinct_map inj_on_def)

lemma in_keyJoin: "(k, a) \<in> set (keyJoin s) \<longleftrightarrow> k \<in> set (key_table s) \<and> a \<in> set (accounts s) \<and> ac_id a = kr_owner k"
  by (auto simp: keyJoin_def)

lemma in_secretJoin:
  "(r, k, a) \<in> set (secretJoin s) \<longleftrightarrow> r \<in> set (secrets s) \<and> (k, a) \<in> set (keyJoin s) \<and> kr_id k = sc_key r"
  by (auto simp: secretJoin_def)

text \<open>A row that is the only one with its selector is what the query finds.\<close>

lemma find_secretJoin:
  assumes "r \<in> set (secrets s)" "k \<in> set (key_table s)" "a \<in> set (accounts s)" "kr_id k = sc_key r" "ac_id a = kr_owner k"
    and r: "\<And>x. x \<in> set (secrets s) \<Longrightarrow> sc_selector x = sc_selector r \<Longrightarrow> x = r"
    and k: "\<And>x. x \<in> set (key_table s) \<Longrightarrow> kr_id x = kr_id k \<Longrightarrow> x = k"
    and a: "distinct (map ac_id (accounts s))" and "sc_selector r = selector" "q r k a"
  shows "find (\<lambda>(r, k, a). sc_selector r = selector \<and> q r k a) (secretJoin s) = Some (r, k, a)"
proof (rule find_unique)
  show "(r, k, a) \<in> set (secretJoin s)" using assms(1-5) by (simp add: in_secretJoin in_keyJoin)
  show "case (r, k, a) of (r, k, a) \<Rightarrow> sc_selector r = selector \<and> q r k a" using assms(9,10) by simp
  fix y assume y: "y \<in> set (secretJoin s)" "case y of (r, k, a) \<Rightarrow> sc_selector r = selector \<and> q r k a"
  obtain r' k' a' where [simp]: "y = (r', k', a')" by (cases y)
  from y have m: "r' \<in> set (secrets s)" "k' \<in> set (key_table s)" "a' \<in> set (accounts s)" "ac_id a' = kr_owner k'" "kr_id k' = sc_key r'"
    "sc_selector r' = selector" by (auto simp: in_secretJoin in_keyJoin)
  have "r' = r" using r m(1,6) assms(9) by simp
  moreover have "k' = k" using k m(2,5) assms(4) \<open>r' = r\<close> by simp
  moreover have "a' = a" using distinct_keyD [OF a m(3) assms(3)] m(4) assms(5) \<open>k' = k\<close> by simp
  ultimately show "y = (r, k, a)" by simp
qed

lemma Authenticate_run:
  assumes "tokenSelector token = Some selector"
    "find (\<lambda>(r, k, a). sc_selector r = selector \<and> sc_revoked r = None \<and> unexpired (sc_expires r) (w_now w n) \<and> liveKey (w_now w (Suc n)) (k, a))
       (secretJoin s) = Some (r, k, a)"
    "\<not> w_fault w (Suc (Suc n))" "sc_verifier r = Verifier env token" "decodePrincipal k a = Some p"
  shows "Authenticate env token w (n, s) = Inr (p, Suc (Suc (Suc n)), s)"
  using assms by (simp add: Authenticate_def tx_defs)

lemma Authenticate_Inr:
  assumes "Authenticate env token w (n, s) = Inr (p, n', s')"
  obtains r k a now where "s' = s" "tokenSelector token = Some (sc_selector r)" "r \<in> set (secrets s)" "(k, a) \<in> set (keyJoin s)" "kr_id k = sc_key r"
    "sc_revoked r = None" "unexpired (sc_expires r) (w_now w n)" "liveKey now (k, a)" "sc_verifier r = Verifier env token" "decodePrincipal k a = Some p"
proof (cases "tokenSelector token")
  case None
  with assms show ?thesis by (simp add: Authenticate_def tx_inv)
next
  case (Some sel)
  with assms obtain r k a where m: "s' = s" "sc_verifier r = Verifier env token" "decodePrincipal k a = Some p"
    and f: "find (\<lambda>(r, k, a). sc_selector r = sel \<and> sc_revoked r = None \<and> unexpired (sc_expires r) (w_now w n) \<and> liveKey (w_now w (Suc n)) (k, a))
       (secretJoin s) = Some (r, k, a)"
    by (auto simp: Authenticate_def tx_inv elim!: tx_elim)
  from find_SomeD [OF f] m Some show ?thesis by (intro that [of r k a "w_now w (Suc n)"]) (auto simp: in_secretJoin)
qed

section \<open>Creation and authentication\<close>

lemma createKeyTx_Inr:
  assumes "createKeyTx ownerID v e keyID (token, selector, verifier) now w (n, s) = Inr (x, n', s')"
  obtains a row where "find (\<lambda>a. ac_id a = ownerID \<and> ac_status a = ''active'') (accounts s) = Some a" "grantable a v"
    "\<forall>k \<in> set (key_table s). kr_id k \<noteq> keyID" "\<forall>r \<in> set (secrets s). sc_selector r \<noteq> selector"
    "s' = trail_update (\<lambda>rs. rs @ [row]) (secrets_update (\<lambda>rs. rs @
       [\<lparr>sc_selector = selector, sc_verifier = verifier, sc_key = keyID, sc_created = now, sc_expires = e, sc_revoked = None\<rparr>])
       (key_table_update (\<lambda>rs. rs @ [\<lparr>kr_id = keyID, kr_owner = ownerID, kr_label = ki_label v, kr_state = ''active'',
          kr_scopes = encodeStrings (ki_scopes v), kr_models = encodeStrings (ki_models v), kr_connections = encodeStrings (ki_connections v),
          kr_expires = e, kr_revision = 1, kr_created = now, kr_updated = now\<rparr>]) s))"
  using assms
  by (clarsimp simp: createKeyTx_def tx_inv list_ex_iff elim!: tx_elim allowedForUser_Inr auditKey_Inr)

lemma prepareKey_Inr:
  assumes "prepareKey env input w (n, s) = Inr ((v, e, keyID, secret, now), n', s')"
  obtains seed part where "v = input\<lparr>ki_label := TrimSpace (ki_label input), ki_scopes := unique (ki_scopes input), ki_models := unique (ki_models input),
            ki_connections := unique (ki_connections input), ki_state := ''active''\<rparr>"
    "e = (if ki_expires input = [] then None else map_option unixMilliOfNanos (parseRFC3339 (ki_expires input)))"
    "secret = (''pag_'' @ hexEncode (take 8 (Verifier env seed)) @ ''_'' @ part, hexEncode (take 8 (Verifier env seed)),
          Verifier env (''pag_'' @ hexEncode (take 8 (Verifier env seed)) @ ''_'' @ part))"
  using assms
  by (clarsimp simp: prepareKey_def tx_inv elim!: tx_elim newSecret_Inr dest!: validateInput_Inr)

lemma GetKey_Inr:
  assumes "GetKey ownerID keyID w (n, s) = Inr (item, n', s')"
  obtains k where "k \<in> set (key_table s)" "kr_id k = keyID" "kr_owner k = ownerID" "scanKey k = Some item" "ky_id item = keyID" "s' = s"
  using assms by (auto simp: GetKey_def tx_inv scanKey_def elim!: tx_elim dest!: find_SomeD)

lemma map_sum_Inr: "map_sum id f x = Inr y \<longleftrightarrow> (\<exists>z. x = Inr z \<and> y = f z)"
  by (cases x) auto

lemma CreateKey_Inr:
  assumes "CreateKey env ownerID input w1 w2 w3 s = (Inr (item, token), s')"
  obtains v e keyID secret now where "fst (autoT (prepareKey env input) w1 s) = Inr (v, e, keyID, secret, now)"
    "atomicT (createKeyTx ownerID v e keyID secret now) w2 s = (Inr (), s')" "fst (autoT (GetKey ownerID keyID) w3 s') = Inr item" "token = fst secret"
  using assms by (auto simp: CreateKey_def map_sum_Inr split: prod.splits sum.splits)

lemma fst_autoT_Inr: "fst (autoT m w s) = Inr x \<Longrightarrow> \<exists>n' s'. m w (0, s) = Inr (x, n', s')"
  by (auto simp: autoT_def split: sum.splits)

lemma intersection_covered: "subset_grants (unique xs) c \<Longrightarrow> intersection (unique xs) c = unique xs"
  by (simp add: subset_grants_iff intersection_def filter_id_conv subset_iff)

lemma modelIntersection_covered: "modelSubset (unique xs) c \<Longrightarrow> modelIntersection (unique xs) c = unique xs"
  by (auto simp: modelSubset_iff modelIntersection_def filter_id_conv list_ex_iff)

lemma decodePrincipal_granted:
  assumes "grantable a v" "ki_scopes v = unique xs" "ki_models v = unique ys" "ki_connections v = unique zs"
    "kr_scopes k = encodeStrings (unique xs)" "kr_models k = encodeStrings (unique ys)" "kr_connections k = encodeStrings (unique zs)"
  shows "decodePrincipal k a = Some \<lparr>pn_key = kr_id k, pn_owner = kr_owner k, pn_scopes = unique xs, pn_models = unique ys, pn_connections = unique zs\<rparr>"
  using assms
  by (auto simp: decodePrincipal_def grantable_def intersection_covered modelIntersection_covered split: option.splits)

text \<open>
  (C14) The token that \<^verbatim>\<open>Create\<close> hands out authenticates, at once and until its expiry, as the created key
  with exactly the grants asked for (duplicates dropped): the restriction to the user's grants takes
  nothing away, because \<^verbatim>\<open>Create\<close> has checked them. For a store whose account ids are unique and
  requests on which the driver does not fail.
\<close>

theorem CreateKey_authenticates:
  assumes ids: "distinct (map ac_id (accounts s))"
    and run: "CreateKey env ownerID input w1 w2 w3 s = (Inr (item, token), s')"
    and early: "\<And>p n. ki_expires input \<noteq> [] \<Longrightarrow> parseRFC3339 (ki_expires input) = Some p \<Longrightarrow> w_now w n < unixMilliOfNanos p"
    and calm: "\<And>n. \<not> w_fault w n"
  shows "fst (autoT (Authenticate env token) w s') =
           Inr \<lparr>pn_key = ky_id item, pn_owner = ownerID, pn_scopes = unique (ki_scopes input), pn_models = unique (ki_models input),
                pn_connections = unique (ki_connections input)\<rparr>"
proof -
  from run obtain v e keyID secret now where prep: "fst (autoT (prepareKey env input) w1 s) = Inr (v, e, keyID, secret, now)"
    and tx: "atomicT (createKeyTx ownerID v e keyID secret now) w2 s = (Inr (), s')"
    and got: "fst (autoT (GetKey ownerID keyID) w3 s') = Inr item" and token: "token = fst secret" by (rule CreateKey_Inr)
  from fst_autoT_Inr [OF prep] obtain n1 s1 where "prepareKey env input w1 (0, s) = Inr ((v, e, keyID, secret, now), n1, s1)" by blast
  then obtain seed part where v: "v = input\<lparr>ki_label := TrimSpace (ki_label input), ki_scopes := unique (ki_scopes input),
        ki_models := unique (ki_models input), ki_connections := unique (ki_connections input), ki_state := ''active''\<rparr>"
    and e: "e = (if ki_expires input = [] then None else map_option unixMilliOfNanos (parseRFC3339 (ki_expires input)))"
    and sec: "secret = (''pag_'' @ hexEncode (take 8 (Verifier env seed)) @ ''_'' @ part, hexEncode (take 8 (Verifier env seed)),
          Verifier env (''pag_'' @ hexEncode (take 8 (Verifier env seed)) @ ''_'' @ part))" by (rule prepareKey_Inr)
  let ?sel = "hexEncode (take 8 (Verifier env seed))"
  let ?r = "\<lparr>sc_selector = ?sel, sc_verifier = Verifier env token, sc_key = keyID, sc_created = now, sc_expires = e, sc_revoked = None\<rparr>"
  let ?k = "\<lparr>kr_id = keyID, kr_owner = ownerID, kr_label = ki_label v, kr_state = ''active'', kr_scopes = encodeStrings (ki_scopes v),
     kr_models = encodeStrings (ki_models v), kr_connections = encodeStrings (ki_connections v), kr_expires = e, kr_revision = 1, kr_created = now, kr_updated = now\<rparr>"
  from atomicT_Inr [OF tx] obtain n n' where "createKeyTx ownerID v e keyID secret now w2 (n, s) = Inr ((), n', s')" by blast
  then have "createKeyTx ownerID v e keyID (token, ?sel, Verifier env token) now w2 (n, s) = Inr ((), n', s')" using token sec by simp
  then obtain a row where a: "find (\<lambda>a. ac_id a = ownerID \<and> ac_status a = ''active'') (accounts s) = Some a" "grantable a v"
    and new: "\<forall>k \<in> set (key_table s). kr_id k \<noteq> keyID" "\<forall>r \<in> set (secrets s). sc_selector r \<noteq> ?sel"
    and s': "s' = trail_update (\<lambda>rs. rs @ [row]) (secrets_update (\<lambda>rs. rs @ [?r]) (key_table_update (\<lambda>rs. rs @ [?k]) s))" by (rule createKeyTx_Inr)
  from find_SomeD [OF a(1)] have am: "a \<in> set (accounts s)" "ac_id a = ownerID" "ac_status a = ''active''" by auto
  have u: "unexpired e (w_now w m)" for m using early e by (auto simp: unexpired_def split: option.splits)
  have f: "find (\<lambda>(r, k, a). sc_selector r = ?sel \<and> sc_revoked r = None \<and> unexpired (sc_expires r) (w_now w 0) \<and> liveKey (w_now w (Suc 0)) (k, a))
     (secretJoin s') = Some (?r, ?k, a)"
    by (rule find_secretJoin) (use new am ids u in \<open>auto simp: s' liveKey_def\<close>)
  have d: "decodePrincipal ?k a = Some \<lparr>pn_key = keyID, pn_owner = ownerID, pn_scopes = unique (ki_scopes input),
      pn_models = unique (ki_models input), pn_connections = unique (ki_connections input)\<rparr>"
    using decodePrincipal_granted [OF a(2)] by (simp add: v)
  have sel: "tokenSelector token = Some ?sel" by (simp only: token sec fst_conv tokenSelector_token)
  have "Authenticate env token w (0, s') = Inr (\<lparr>pn_key = keyID, pn_owner = ownerID, pn_scopes = unique (ki_scopes input),
      pn_models = unique (ki_models input), pn_connections = unique (ki_connections input)\<rparr>, Suc (Suc (Suc 0)), s')"
    by (rule Authenticate_run [OF sel f calm _ d]) simp
  moreover have "ky_id item = keyID" using fst_autoT_Inr [OF got] by (auto elim: GetKey_Inr)
  ultimately show ?thesis by (simp add: autoT_def)
qed

definition keyInput :: key_input where
  "keyInput = \<lparr>ki_label = ''k'', ki_scopes = [''chat:generate''], ki_models = [''gpt-*''], ki_connections = [''c1''], ki_expires = [], ki_state = []\<rparr>"

definition sampleKeyRow :: api_key_row where
  "sampleKeyRow = \<lparr>kr_id = ''key_r'', kr_owner = ''u1'', kr_label = ''k'', kr_state = ''active'', kr_scopes = encodeStrings [''chat:generate''],
     kr_models = encodeStrings [''gpt-*''], kr_connections = encodeStrings [''c1''], kr_expires = None, kr_revision = 1, kr_created = 5, kr_updated = 5\<rparr>"

lemma keyInput_checks:
  "TrimSpace ''k'' = ''k''" "runeCount ''k'' = 1" "ValidInferenceScope ''chat:generate''" "validateKeyGrants [''gpt-*''] = None"
  "validateKeyGrants [''c1''] = None" "hexEncode ''r'' = ''72''"
proof -
  have "char_of (55 :: nat) = CHR ''7''" "char_of (50 :: nat) = CHR ''2''" by code_simp+
  then show "hexEncode ''r'' = ''72''" by (simp add: hexEncode_def hexDigit_def)
  show "TrimSpace ''k'' = ''k''" by code_simp
  show "validateKeyGrants [''gpt-*''] = None" by code_simp
  show "validateKeyGrants [''c1''] = None" by code_simp
  show "runeCount ''k'' = 1" by (simp add: runeCount_def Let_def)
  show "ValidInferenceScope ''chat:generate''" by (simp add: ValidInferenceScope_def inferenceScopes_def)
qed

lemma prepareKey_sample:
  "fst (autoT (prepareKey plainEnv keyInput) quietWorld ownerStore) =
     Inr (keyInput\<lparr>ki_state := ''active''\<rparr>, None, ''key_r'', (''pag_72_r'', ''72'', ''pag_72_r''), 5)"
  by (simp add: autoT_def prepareKey_def validateInput_def newSecret_def tx_defs quietWorld_def keyInput_def keyInput_checks Verifier_def plainEnv_def
      Let_def unique_def)

lemma createKeyTx_sample:
  "\<exists>s'. atomicT (createKeyTx ''u1'' (keyInput\<lparr>ki_state := ''active''\<rparr>) None ''key_r'' (''pag_72_r'', ''72'', ''pag_72_r'') 5) quietWorld ownerStore = (Inr (), s') \<and>
     key_table s' = [sampleKeyRow] \<and> accounts s' = [ownerAccount] \<and>
     secrets s' = [\<lparr>sc_selector = ''72'', sc_verifier = ''pag_72_r'', sc_key = ''key_r'', sc_created = 5, sc_expires = None, sc_revoked = None\<rparr>]"
  by (simp add: atomicT_def createKeyTx_def allowedForUser_def auditKey_def identity_defs tx_defs hasAccount_def quietWorld_def keyInput_def
      ownerStore_def ownerAccount_def sampleKeyRow_def)

lemma CreateKey_sample:
  "\<exists>item s'. CreateKey plainEnv ''u1'' keyInput quietWorld quietWorld quietWorld ownerStore = (Inr (item, ''pag_72_r''), s')"
proof -
  from createKeyTx_sample obtain s' where
    a: "atomicT (createKeyTx ''u1'' (keyInput\<lparr>ki_state := ''active''\<rparr>) None ''key_r'' (''pag_72_r'', ''72'', ''pag_72_r'') 5) quietWorld ownerStore = (Inr (), s')"
    and k: "key_table s' = [sampleKeyRow]" by blast
  have "\<exists>item. fst (autoT (GetKey ''u1'' ''key_r'') quietWorld s') = Inr item"
    by (simp add: autoT_def GetKey_def tx_defs k quietWorld_def scanKey_def sampleKeyRow_def)
  with a prepareKey_sample show ?thesis by (auto simp: CreateKey_def split: prod.splits sum.splits)
qed

theorem CreateKey_authenticates_witness:
  "\<exists>item s'. CreateKey plainEnv ''u1'' keyInput quietWorld quietWorld quietWorld ownerStore = (Inr (item, ''pag_72_r''), s') \<and>
     fst (autoT (Authenticate plainEnv ''pag_72_r'') quietWorld s') =
       Inr \<lparr>pn_key = ky_id item, pn_owner = ''u1'', pn_scopes = [''chat:generate''], pn_models = [''gpt-*''], pn_connections = [''c1'']\<rparr>"
proof -
  obtain item s' where run: "CreateKey plainEnv ''u1'' keyInput quietWorld quietWorld quietWorld ownerStore = (Inr (item, ''pag_72_r''), s')"
    using CreateKey_sample by blast
  have "distinct (map ac_id (accounts ownerStore))" by (simp add: ownerStore_def)
  from CreateKey_authenticates [OF this run, of quietWorld] run show ?thesis by (auto simp: keyInput_def quietWorld_def unique_def)
qed

section \<open>Rotation\<close>

lemma list_ex_updateWhere: "(\<And>r. q (f r) = q r) \<Longrightarrow> list_ex q (updateWhere p f rs) = list_ex q rs"
  by (induction rs) simp_all

lemma rotateKeyTx_Inr:
  assumes "rotateKeyTx ownerID keyID revision (token, selector, verifier) w (n, s) = Inr (x, n', s')"
  obtains now k where "k \<in> set (key_table s)" "kr_id k = keyID" "kr_owner k = ownerID" "kr_revision k = revision" "kr_state k = ''active''"
    "\<forall>r \<in> set (secrets s). sc_selector r \<noteq> selector"
    "accounts s' = accounts s"
    "key_table s' = updateWhere (\<lambda>k. kr_id k = keyID) (\<lambda>k. k\<lparr>kr_revision := kr_revision k + 1, kr_updated := now\<rparr>) (key_table s)"
    "secrets s' = updateWhere (\<lambda>r. sc_key r = keyID \<and> sc_revoked r = None) (\<lambda>r. r\<lparr>sc_revoked := Some now\<rparr>) (secrets s) @
       [\<lparr>sc_selector = selector, sc_verifier = verifier, sc_key = keyID, sc_created = now, sc_expires = kr_expires k, sc_revoked = None\<rparr>]"
proof -
  let ?p = "\<lambda>k. kr_id k = keyID \<and> kr_owner k = ownerID \<and> kr_revision k = revision \<and> kr_state k = ''active''"
  from assms obtain now k m s1 where f: "find ?p (key_table s) = Some k"
    and c: "\<not> list_ex (\<lambda>r. sc_selector r = selector) (updateWhere (\<lambda>r. sc_key r = keyID \<and> sc_revoked r = None) (\<lambda>r. r\<lparr>sc_revoked := Some now\<rparr>) (secrets s))"
    and a: "accounts s' = accounts s"
    "key_table s' = updateWhere (\<lambda>k. kr_id k = keyID) (\<lambda>k. k\<lparr>kr_revision := kr_revision k + 1, kr_updated := now\<rparr>) (key_table s)"
    "secrets s' = updateWhere (\<lambda>r. sc_key r = keyID \<and> sc_revoked r = None) (\<lambda>r. r\<lparr>sc_revoked := Some now\<rparr>) (secrets s) @
       [\<lparr>sc_selector = selector, sc_verifier = verifier, sc_key = keyID, sc_created = now, sc_expires = kr_expires k, sc_revoked = None\<rparr>]"
    by (clarsimp simp: rotateKeyTx_def tx_inv elim!: tx_elim auditKey_Inr)
  from c have "\<forall>r \<in> set (secrets s). sc_selector r \<noteq> selector" by (simp add: list_ex_updateWhere) (simp add: list_ex_iff)
  with find_SomeD [OF f] a show ?thesis by (intro that [of k now]) auto
qed

lemma RotateKey_Inr:
  assumes "RotateKey env ownerID keyID revision w1 w2 w3 s = (Inr (item, token), s')"
  obtains seed part n n' where "token = ''pag_'' @ hexEncode (take 8 (Verifier env seed)) @ ''_'' @ part"
    "rotateKeyTx ownerID keyID revision (token, hexEncode (take 8 (Verifier env seed)), Verifier env token) w2 (n, s) = Inr ((), n', s')"
proof -
  from assms obtain secret where f: "fst (autoT (thenT (GetKey ownerID keyID) (newSecret env)) w1 s) = Inr secret"
    and tx: "atomicT (rotateKeyTx ownerID keyID revision secret) w2 s = (Inr (), s')" and token: "token = fst secret"
    by (auto simp: RotateKey_def map_sum_Inr split: prod.splits sum.splits)
  from fst_autoT_Inr [OF f] obtain n1 s1 where "thenT (GetKey ownerID keyID) (newSecret env) w1 (0, s) = Inr (secret, n1, s1)" by blast
  then obtain x m s2 where "newSecret env w1 (m, s2) = Inr (secret, n1, s1)" by (rule thenT_E)
  then obtain seed part where "secret = (''pag_'' @ hexEncode (take 8 (Verifier env seed)) @ ''_'' @ part, hexEncode (take 8 (Verifier env seed)),
          Verifier env (''pag_'' @ hexEncode (take 8 (Verifier env seed)) @ ''_'' @ part))" by (rule newSecret_Inr)
  with atomicT_Inr [OF tx] token that [of seed part] show ?thesis by auto
qed

lemma PrincipalOf_Inr:
  assumes "PrincipalOf keyID w (n, s) = Inr (p, n', s')"
  obtains k a where "(k, a) \<in> set (keyJoin s)" "kr_id k = keyID" "liveKey (w_now w n) (k, a)" "decodePrincipal k a = Some p" "s' = s"
  using assms by (auto simp: PrincipalOf_def tx_inv elim!: tx_elim dest!: find_SomeD)

lemma liveKey_earlier: "liveKey t (k, a) \<Longrightarrow> t' \<le> t \<Longrightarrow> liveKey t' (k, a)"
  by (auto simp: liveKey_def unexpired_def split: option.splits)

lemma rotateKeyTx_old:
  assumes run: "rotateKeyTx ownerID keyID revision (token, sel, verifier) w (n, s) = Inr (x, n', s')" and ids: "distinct (map sc_selector (secrets s))"
    and r: "r \<in> set (secrets s)" "sc_key r = keyID" "tokenSelector t = Some (sc_selector r)"
  shows "Authenticate env t w' (m, s') \<noteq> Inr (p, m', s1)"
proof
  assume auth: "Authenticate env t w' (m, s') = Inr (p, m', s1)"
  from run obtain now k where k: "k \<in> set (key_table s)" "kr_id k = keyID" "kr_owner k = ownerID" "kr_revision k = revision" "kr_state k = ''active''"
    and new: "\<forall>r \<in> set (secrets s). sc_selector r \<noteq> sel"
    and s': "accounts s' = accounts s"
    "key_table s' = updateWhere (\<lambda>k. kr_id k = keyID) (\<lambda>k. k\<lparr>kr_revision := kr_revision k + 1, kr_updated := now\<rparr>) (key_table s)"
    "secrets s' = updateWhere (\<lambda>r. sc_key r = keyID \<and> sc_revoked r = None) (\<lambda>r. r\<lparr>sc_revoked := Some now\<rparr>) (secrets s) @
      [\<lparr>sc_selector = sel, sc_verifier = verifier, sc_key = keyID, sc_created = now, sc_expires = kr_expires k, sc_revoked = None\<rparr>]"
    by (rule rotateKeyTx_Inr)
  from auth obtain r' where r': "tokenSelector t = Some (sc_selector r')" "r' \<in> set (secrets s')" "sc_revoked r' = None" by (rule Authenticate_Inr)
  with r new obtain q where q: "q \<in> set (secrets s)" "r' = (if sc_key q = keyID \<and> sc_revoked q = None then q\<lparr>sc_revoked := Some now\<rparr> else q)"
    by (auto simp: s' set_updateWhere)
  then have "sc_selector q = sc_selector r" using r r' by (simp split: if_splits)
  then have "q = r" using distinct_keyD [OF ids q(1) r(1)] by simp
  with q r r' show False by (simp split: if_splits)
qed

lemma rotateKeyTx_new:
  assumes run: "rotateKeyTx ownerID keyID revision (token, sel, Verifier env token) w (n, s) = Inr (x, n', s')"
    and ids: "distinct (map ac_id (accounts s))" "distinct (map kr_id (key_table s))" and token: "tokenSelector token = Some sel"
    and p: "PrincipalOf keyID w1 (m, s') = Inr (p, m', s1)" and w: "\<And>n. \<not> w_fault w2 n" "\<And>n. w_now w2 n \<le> w_now w1 m"
  shows "Authenticate env token w2 (l, s') = Inr (p, Suc (Suc (Suc l)), s')"
proof -
  from run obtain now k where k: "k \<in> set (key_table s)" "kr_id k = keyID" "kr_owner k = ownerID" "kr_revision k = revision" "kr_state k = ''active''"
    and new: "\<forall>r \<in> set (secrets s). sc_selector r \<noteq> sel"
    and s': "accounts s' = accounts s"
    "key_table s' = updateWhere (\<lambda>k. kr_id k = keyID) (\<lambda>k. k\<lparr>kr_revision := kr_revision k + 1, kr_updated := now\<rparr>) (key_table s)"
    "secrets s' = updateWhere (\<lambda>r. sc_key r = keyID \<and> sc_revoked r = None) (\<lambda>r. r\<lparr>sc_revoked := Some now\<rparr>) (secrets s) @
      [\<lparr>sc_selector = sel, sc_verifier = Verifier env token, sc_key = keyID, sc_created = now, sc_expires = kr_expires k, sc_revoked = None\<rparr>]"
    by (rule rotateKeyTx_Inr)
  let ?r = "\<lparr>sc_selector = sel, sc_verifier = Verifier env token, sc_key = keyID, sc_created = now, sc_expires = kr_expires k, sc_revoked = None\<rparr>"
  have only: "y = ?r" if "y \<in> set (secrets s')" "sc_selector y = sel" for y
    using that new by (auto simp: s'(3) set_updateWhere split: if_splits)
  from p obtain k' a where ka: "(k', a) \<in> set (keyJoin s')" "kr_id k' = keyID" "liveKey (w_now w1 m) (k', a)" "decodePrincipal k' a = Some p"
    by (rule PrincipalOf_Inr)
  then have j: "k' \<in> set (key_table s')" "a \<in> set (accounts s')" "ac_id a = kr_owner k'" by (auto simp: in_keyJoin)
  have ids': "distinct (map kr_id (key_table s'))" using ids(2) by (simp add: s' map_updateWhere)
  from j(1) obtain q where q: "q \<in> set (key_table s)" "kr_id q = kr_id k'" "kr_expires q = kr_expires k'" by (auto simp: s' set_updateWhere split: if_splits)
  then have ex: "kr_expires k = kr_expires k'" using distinct_keyD [OF ids(2) q(1) k(1)] ka(2) k(2) by simp
  have live: "liveKey (w_now w2 i) (k', a)" for i using liveKey_earlier [OF ka(3) w(2)] .
  then have "unexpired (sc_expires ?r) (w_now w2 l)" using ex by (simp add: liveKey_def)
  with live have q: "sc_revoked ?r = None \<and> unexpired (sc_expires ?r) (w_now w2 l) \<and> liveKey (w_now w2 (Suc l)) (k', a)" by simp
  have "find (\<lambda>(r, k, a). sc_selector r = sel \<and> sc_revoked r = None \<and> unexpired (sc_expires r) (w_now w2 l) \<and> liveKey (w_now w2 (Suc l)) (k, a))
     (secretJoin s') = Some (?r, k', a)"
  proof (rule find_secretJoin [OF _ j(1,2) _ j(3),
      where q = "\<lambda>r k a. sc_revoked r = None \<and> unexpired (sc_expires r) (w_now w2 l) \<and> liveKey (w_now w2 (Suc l)) (k, a)"])
    show "y = k'" if "y \<in> set (key_table s')" "kr_id y = kr_id k'" for y using distinct_keyD [OF ids' that(1) j(1) that(2)] .
    show "y = ?r" if "y \<in> set (secrets s')" "sc_selector y = sc_selector ?r" for y using only [OF that(1)] that(2) by simp
  qed (use ids(1) ka(2) q in \<open>simp_all add: s'(1,3)\<close>)
  from Authenticate_run [OF token this w(1) _ ka(4)] show ?thesis by simp
qed

text \<open>
  (C15) \<^verbatim>\<open>Rotate\<close> replaces the secret: no token with the selector of an earlier secret of the key authenticates
  any more, and the new token authenticates as the key's principal whenever the key has one at that
  time or later. For a store whose ids and selectors are unique and requests on which the driver does
  not fail.
\<close>

theorem RotateKey_replaces:
  assumes ids: "distinct (map ac_id (accounts s))" "distinct (map kr_id (key_table s))" "distinct (map sc_selector (secrets s))"
    and run: "RotateKey env ownerID keyID revision w1 w2 w3 s = (Inr (item, token), s')"
  shows "(\<forall>r t w. r \<in> set (secrets s) \<and> sc_key r = keyID \<and> tokenSelector t = Some (sc_selector r) \<longrightarrow>
            (\<nexists>p. fst (autoT (Authenticate env t) w s') = Inr p)) \<and>
         (\<forall>w w' p. fst (autoT (PrincipalOf keyID) w' s') = Inr p \<and> (\<forall>n. \<not> w_fault w n \<and> w_now w n \<le> w_now w' 0) \<longrightarrow>
            fst (autoT (Authenticate env token) w s') = Inr p)"
proof -
  from run obtain seed part n n' where token: "token = ''pag_'' @ hexEncode (take 8 (Verifier env seed)) @ ''_'' @ part"
    and tx: "rotateKeyTx ownerID keyID revision (token, hexEncode (take 8 (Verifier env seed)), Verifier env token) w2 (n, s) = Inr ((), n', s')"
    by (rule RotateKey_Inr)
  have "tokenSelector token = Some (hexEncode (take 8 (Verifier env seed)))" by (simp only: token tokenSelector_token)
  note new = rotateKeyTx_new [OF tx ids(1,2) this]
  show ?thesis
  proof (intro conjI allI impI; elim conjE)
    fix r t w assume "r \<in> set (secrets s)" "sc_key r = keyID" "tokenSelector t = Some (sc_selector r)"
    from rotateKeyTx_old [OF tx ids(3) this] show "\<nexists>p. fst (autoT (Authenticate env t) w s') = Inr p" by (auto dest: fst_autoT_Inr)
  next
    fix w w' :: world and p assume p: "fst (autoT (PrincipalOf keyID) w' s') = Inr p" and w: "\<forall>n. \<not> w_fault w n \<and> w_now w n \<le> w_now w' 0"
    from fst_autoT_Inr [OF p] obtain m s1 where "PrincipalOf keyID w' (0, s') = Inr (p, m, s1)" by blast
    from new [OF this, of w 0] w show "fst (autoT (Authenticate env token) w s') = Inr p" by (simp add: autoT_def)
  qed
qed

definition sampleSecret :: secret_row where
  "sampleSecret = \<lparr>sc_selector = ''72'', sc_verifier = ''pag_72_r'', sc_key = ''key_r'', sc_created = 5, sc_expires = None, sc_revoked = None\<rparr>"

definition keyStore :: identity where
  "keyStore = ownerStore\<lparr>key_table := [sampleKeyRow], secrets := [sampleSecret]\<rparr>"

definition laterWorld :: world where
  "laterWorld = \<lparr>w_now = (\<lambda>n. 9), w_rand = (\<lambda>n. Some ''q''), w_fault = (\<lambda>n. False)\<rparr>"

lemma RotateKey_sample:
  "\<exists>item s'. RotateKey plainEnv ''u1'' ''key_r'' 1 laterWorld laterWorld laterWorld keyStore = (Inr (item, ''pag_71_q''), s')"
proof -
  have "char_of (55 :: nat) = CHR ''7''" "char_of (49 :: nat) = CHR ''1''" by code_simp+
  then have hex: "hexEncode ''q'' = ''71''" by (simp add: hexEncode_def hexDigit_def)
  have p: "fst (autoT (thenT (GetKey ''u1'' ''key_r'') (newSecret plainEnv)) laterWorld keyStore) = Inr (''pag_71_q'', ''71'', ''pag_71_q'')"
    by (simp add: autoT_def GetKey_def newSecret_def tx_defs laterWorld_def keyStore_def scanKey_def sampleKeyRow_def Verifier_def plainEnv_def hex Let_def)
  have "\<exists>s'. atomicT (rotateKeyTx ''u1'' ''key_r'' 1 (''pag_71_q'', ''71'', ''pag_71_q'')) laterWorld keyStore = (Inr (), s') \<and>
      key_table s' = [sampleKeyRow\<lparr>kr_revision := 2, kr_updated := 9\<rparr>]"
    by (simp add: atomicT_def rotateKeyTx_def auditKey_def identity_defs tx_defs hasAccount_def laterWorld_def keyStore_def ownerStore_def
        sampleKeyRow_def sampleSecret_def ownerAccount_def)
  then obtain s' where tx: "atomicT (rotateKeyTx ''u1'' ''key_r'' 1 (''pag_71_q'', ''71'', ''pag_71_q'')) laterWorld keyStore = (Inr (), s')"
    and k: "key_table s' = [sampleKeyRow\<lparr>kr_revision := 2, kr_updated := 9\<rparr>]" by blast
  have "\<exists>item. fst (autoT (GetKey ''u1'' ''key_r'') laterWorld s') = Inr item"
    by (simp add: autoT_def GetKey_def tx_defs k laterWorld_def scanKey_def sampleKeyRow_def)
  with p tx show ?thesis by (auto simp: RotateKey_def split: prod.splits sum.splits)
qed

theorem RotateKey_replaces_witness:
  "\<exists>item s'. RotateKey plainEnv ''u1'' ''key_r'' 1 laterWorld laterWorld laterWorld keyStore = (Inr (item, ''pag_71_q''), s') \<and>
     (\<nexists>p. fst (autoT (Authenticate plainEnv ''pag_72_r'') laterWorld s') = Inr p)"
proof -
  obtain item s' where run: "RotateKey plainEnv ''u1'' ''key_r'' 1 laterWorld laterWorld laterWorld keyStore = (Inr (item, ''pag_71_q''), s')"
    using RotateKey_sample by blast
  have ids: "distinct (map ac_id (accounts keyStore))" "distinct (map kr_id (key_table keyStore))" "distinct (map sc_selector (secrets keyStore))"
    by (simp_all add: keyStore_def ownerStore_def)
  have "sampleSecret \<in> set (secrets keyStore)" "sc_key sampleSecret = ''key_r''" "tokenSelector ''pag_72_r'' = Some (sc_selector sampleSecret)"
    by (simp_all add: keyStore_def sampleSecret_def tokenSelector_def)
  with RotateKey_replaces [OF ids run] run show ?thesis by blast
qed

section \<open>Keys and admission\<close>

text \<open>Without a backslash in a kept pattern, what matches under the intersection matches under the ceiling.\<close>

lemma modelIntersection_allowed:
  assumes "list_ex (\<lambda>v. path_Match v model = Some True) (modelIntersection xs ceiling)" "\<forall>v \<in> set (modelIntersection xs ceiling). CHR 0x5C \<notin> set v"
  shows "modelAllowed xs model \<and> modelAllowed ceiling model"
proof -
  from assms obtain v where v: "v \<in> set (modelIntersection xs ceiling)" "path_Match v model = Some True" "CHR 0x5C \<notin> set v" by (auto simp: list_ex_iff)
  then obtain a where "a \<in> set ceiling" "modelCovered v a" "v \<in> set xs" by (auto simp: set_modelIntersection)
  with v modelCovered_sound [of v a model] show ?thesis by (auto simp: modelAllowed_iff)
qed

lemma Allows_admissionGranted:
  assumes d: "decodePrincipal k a = Some p" and al: "Allows p (ai_scope input) (ai_modelID input) (ai_connectionID input)"
    and esc: "\<forall>v \<in> set (pn_models p). CHR 0x5C \<notin> set v"
    and u: "unmarshalStrings (ac_scopes a) \<noteq> None" "unmarshalStrings (ac_models a) \<noteq> None" "unmarshalStrings (ac_connections a) \<noteq> None"
  shows "admissionGranted input (ac_unrestricted a) (kr_scopes k) (kr_models k) (kr_connections k) (ac_scopes a) (ac_models a) (ac_connections a) = Some True"
proof (cases "ac_unrestricted a")
  case True
  with assms show ?thesis by (auto simp: decodePrincipal_def Allows_def AllowsScope_def admissionGranted_def modelAllowed_iff list_ex_iff split: bind_splits if_splits)
next
  case False
  from d False obtain scopes models connections uscopes umodels uconnections where
    um: "unmarshalStrings (kr_scopes k) = Some scopes" "unmarshalStrings (kr_models k) = Some models" "unmarshalStrings (kr_connections k) = Some connections"
    "unmarshalStrings (ac_scopes a) = Some uscopes" "unmarshalStrings (ac_models a) = Some umodels" "unmarshalStrings (ac_connections a) = Some uconnections"
    and p: "p = \<lparr>pn_key = kr_id k, pn_owner = kr_owner k, pn_scopes = intersection scopes uscopes,
                pn_models = modelIntersection models umodels, pn_connections = intersection connections uconnections\<rparr>"
    by (auto simp: decodePrincipal_def split: bind_splits)
  from al p have "ai_scope input \<in> set (intersection scopes uscopes)" "ai_connectionID input \<in> set (intersection connections uconnections)"
    "list_ex (\<lambda>v. path_Match v (ai_modelID input) = Some True) (modelIntersection models umodels)"
    by (auto simp: Allows_def AllowsScope_def split: if_splits)
  moreover from this(3) esc p have "modelAllowed models (ai_modelID input) \<and> modelAllowed umodels (ai_modelID input)"
    by (intro modelIntersection_allowed) simp_all
  ultimately show ?thesis by (simp add: admissionGranted_def um)
qed

lemma find_keyed: "distinct (map f xs) \<Longrightarrow> x \<in> set xs \<Longrightarrow> f x = key \<Longrightarrow> q x \<Longrightarrow> find (\<lambda>y. f y = key \<and> q y) xs = Some x"
  by (rule find_unique) (blast dest: distinct_keyD)+

lemma find_map: "find p (map f xs) = map_option f (find (\<lambda>x. p (f x)) xs)"
  by (induction xs) auto

text \<open>The usage service finds the live row of a key and its account where \<^verbatim>\<open>keys\<close> finds them.\<close>

lemma activeKey_view:
  assumes ids: "distinct (map ac_id (accounts s))" "distinct (map kr_id (key_table s))"
    and ka: "(k, a) \<in> set (keyJoin s)" "liveKey now (k, a)" "unexpired (kr_expires k) effective"
    and view: "users st = usageUsers s" "api_keys st = usageKeys s"
  shows "activeKey (kr_id k) effective st = Some (usageKey k, usageUser a)"
proof -
  have m: "k \<in> set (key_table s)" "a \<in> set (accounts s)" "ac_id a = kr_owner k" using ka(1) by (auto simp: in_keyJoin)
  have "find (\<lambda>x. kr_id x = kr_id k \<and> kr_state x = ''active'' \<and> unexpired (kr_expires x) effective) (key_table s) = Some k"
    using ka(2,3) by (intro find_keyed [OF ids(2) m(1)]) (simp_all add: liveKey_def)
  moreover have "find (\<lambda>x. ac_id x = kr_owner k \<and> ac_status x = ''active'') (accounts s) = Some a"
    using ka(2) by (intro find_keyed [OF ids(1) m(2,3)]) (simp add: liveKey_def)
  ultimately show ?thesis
    by (simp add: activeKey_def view usageKeys_def usageUsers_def find_map usageKey_def usageUser_def unexpired_def)
qed

text \<open>
  (C12) The admission accepts what the door accepted: if a token authenticates as a principal without a
  backslash in its model patterns, and that principal allows a scope, a model and a connection, then
  \<^verbatim>\<open>admissionGranted\<close> inside \<^verbatim>\<open>Admit\<close>, reading the same accounts and keys, authorises the request for the
  same owner, provided the key has not expired at the admission's time. (Not without the condition on the
  backslash: \<open>modelIntersection_escape\<close>.) Assumed besides: unique ids, account grants that are valid JSON
  lists, and a driver that does not fail the query.
\<close>

theorem Authenticate_then_admitted:
  assumes auth: "fst (autoT (Authenticate env token) w s) = Inr p"
    and view: "users st = usageUsers s" "api_keys st = usageKeys s" and ids: "distinct (map ac_id (accounts s))" "distinct (map kr_id (key_table s))"
    and json: "\<forall>a \<in> set (accounts s). unmarshalStrings (ac_scopes a) \<noteq> None \<and> unmarshalStrings (ac_models a) \<noteq> None \<and> unmarshalStrings (ac_connections a) \<noteq> None"
    and al: "Allows p (ai_scope input) (ai_modelID input) (ai_connectionID input)" and key: "ai_keyID input = pn_key p"
    and esc: "\<forall>v \<in> set (pn_models p). CHR 0x5C \<notin> set v"
    and exp: "\<forall>k \<in> set (key_table s). kr_id k = pn_key p \<longrightarrow> unexpired (kr_expires k) effective" and ok: "\<not> w_fault w' n"
  shows "authorizeKey input effective w' (n, st) = Inr (pn_owner p, Suc n, st)"
proof -
  from fst_autoT_Inr [OF auth] obtain m s1 where "Authenticate env token w (0, s) = Inr (p, m, s1)" by blast
  then obtain r k a now where ka: "(k, a) \<in> set (keyJoin s)" and live: "liveKey now (k, a)" and d: "decodePrincipal k a = Some p" by (rule Authenticate_Inr)
  have p: "pn_key p = kr_id k" "pn_owner p = kr_owner k" using d by (auto simp: decodePrincipal_def split: bind_splits if_splits)
  have "unexpired (kr_expires k) effective" using ka exp p by (auto simp: in_keyJoin)
  from activeKey_view [OF ids ka live this view] have "activeKey (ai_keyID input) effective st = Some (usageKey k, usageUser a)" by (simp add: key p)
  moreover have "admissionGranted input (ac_unrestricted a) (kr_scopes k) (kr_models k) (kr_connections k) (ac_scopes a) (ac_models a) (ac_connections a) = Some True"
    using Allows_admissionGranted [OF d al esc] json ka unfolding in_keyJoin by blast
  ultimately show ?thesis by (simp add: authorizeKey_def tx_defs ok p usageKey_def usageUser_def)
qed

definition doorInput :: admission_input where
  "doorInput = \<lparr>ai_requestID = [], ai_keyID = ''key_r'', ai_connectionID = ''c1'', ai_modelID = ''gpt-4'', ai_upstreamModelRecordID = [],
     ai_upstreamModelID = [], ai_connectionRevision = 1, ai_modelRevision = 1, ai_operation = ''chat'', ai_targetOperation = [], ai_scope = ''chat:generate'',
     ai_dialect = ''openai'', ai_targetDialect = [], ai_translationApplied = False, ai_requestToolCount = 0, ai_webSearchMaxCalls = 0,
     ai_webFetchPresent = False, ai_selectionReason = [], ai_rejectedCandidatesJSON = [], ai_requiredPriceVersionID = [], ai_priceQuoteAt = 0,
     ai_quotedPriceVersionID = None, ai_requireFreePrice = False, ai_priceUnavailable = False, ai_snapshotPriceOnly = False, ai_bodyBytes = 10,
     ai_batchItems = 1, ai_streaming = False, ai_estimatedInputTokens = 100, ai_estimatedOutputTokens = 50, ai_enforceInputBound = False,
     ai_inputBounded = False, ai_enforceOutputBound = False, ai_outputBounded = False\<rparr>"

definition doorStore :: store where
  "doorStore = emptyStore\<lparr>users := usageUsers keyStore, api_keys := usageKeys keyStore\<rparr>"

definition doorPrincipal :: principal where
  "doorPrincipal = \<lparr>pn_key = ''key_r'', pn_owner = ''u1'', pn_scopes = [''chat:generate''], pn_models = [''gpt-*''], pn_connections = [''c1'']\<rparr>"

lemma Authenticate_door: "fst (autoT (Authenticate plainEnv ''pag_72_r'') quietWorld keyStore) = Inr doorPrincipal"
proof -
  have sel: "tokenSelector ''pag_72_r'' = Some ''72''" by (simp add: tokenSelector_def)
  have d: "decodePrincipal sampleKeyRow ownerAccount = Some doorPrincipal"
    by (simp add: decodePrincipal_def sampleKeyRow_def ownerAccount_def doorPrincipal_def unmarshalStrings_encode)
  have f: "find (\<lambda>(r, k, a). sc_selector r = ''72'' \<and> sc_revoked r = None \<and> unexpired (sc_expires r) (w_now quietWorld 0) \<and>
      liveKey (w_now quietWorld (Suc 0)) (k, a)) (secretJoin keyStore) = Some (sampleSecret, sampleKeyRow, ownerAccount)"
    by (simp add: secretJoin_def keyJoin_def keyStore_def ownerStore_def sampleKeyRow_def sampleSecret_def ownerAccount_def liveKey_def unexpired_def)
  have "Authenticate plainEnv ''pag_72_r'' quietWorld (0, keyStore) = Inr (doorPrincipal, Suc (Suc (Suc 0)), keyStore)"
    by (rule Authenticate_run [OF sel f _ _ d]) (simp_all add: quietWorld_def sampleSecret_def Verifier_def plainEnv_def)
  then show ?thesis by (simp add: autoT_def)
qed

theorem Authenticate_then_admitted_witness:
  "fst (autoT (Authenticate plainEnv ''pag_72_r'') quietWorld keyStore) = Inr doorPrincipal \<and>
   authorizeKey doorInput 5 quietWorld (0, doorStore) = Inr (''u1'', 1, doorStore)"
proof -
  have "unmarshalStrings ''[]'' = Some []" by code_simp
  then have json: "\<forall>a \<in> set (accounts keyStore). unmarshalStrings (ac_scopes a) \<noteq> None \<and> unmarshalStrings (ac_models a) \<noteq> None \<and>
      unmarshalStrings (ac_connections a) \<noteq> None" by (simp add: keyStore_def ownerStore_def ownerAccount_def)
  have "path_Match ''gpt-*'' ''gpt-4'' = Some True" by code_simp
  then have al: "Allows doorPrincipal (ai_scope doorInput) (ai_modelID doorInput) (ai_connectionID doorInput)"
    by (simp add: Allows_def AllowsScope_def stringContains_def doorPrincipal_def doorInput_def)
  have ids: "distinct (map ac_id (accounts keyStore))" "distinct (map kr_id (key_table keyStore))" by (simp_all add: keyStore_def ownerStore_def)
  have view: "users doorStore = usageUsers keyStore" "api_keys doorStore = usageKeys keyStore" by (simp_all add: doorStore_def)
  have exp: "\<forall>k \<in> set (key_table keyStore). kr_id k = pn_key doorPrincipal \<longrightarrow> unexpired (kr_expires k) 5"
    by (simp add: keyStore_def sampleKeyRow_def unexpired_def)
  have "ai_keyID doorInput = pn_key doorPrincipal" "\<forall>v \<in> set (pn_models doorPrincipal). CHR 0x5C \<notin> set v" "\<not> w_fault quietWorld 0"
    by (simp_all add: doorInput_def doorPrincipal_def quietWorld_def)
  from Authenticate_then_admitted [OF Authenticate_door view ids json al this(1,2) exp this(3)] Authenticate_door
  show ?thesis by (simp add: doorPrincipal_def)
qed

end
