(* ===== verification/Users.thy ===== *)
theory Users
  imports Auth Keys
begin

text \<open>
  User management (\<^verbatim>\<open>features/users/service.go\<close>): accounts created suspended with an activation code,
  grants given under the ceiling of the giver and clamped onto the keys of the receiver, status and
  email changes, codes, and the transfer of ownership. An owner manages every account, an admin the
  members.
\<close>

section \<open>Data\<close>

record grants =
  gr_unrestricted :: bool
  gr_scopes :: "string list"
  gr_models :: "string list"
  gr_connections :: "string list"

record user_view =
  uv_id :: string
  uv_email :: string
  uv_displayName :: string
  uv_role :: string
  uv_status :: string
  uv_revision :: int
  uv_created :: string
  uv_updated :: string
  uv_grants :: grants

record create_input =
  cu_email :: string
  cu_displayName :: string
  cu_role :: string
  cu_grants :: grants

record update_input =
  uu_displayName :: "string option"
  uu_email :: "string option"
  uu_status :: "string option"

definition codeLifetime :: int where
  "codeLifetime = 86400000"

section \<open>Grants\<close>

text \<open>The package has its own copies of the functions on grants; they keep duplicates where \<^verbatim>\<open>keys\<close> drops them.\<close>

definition subsetUsers :: "string list \<Rightarrow> string list \<Rightarrow> bool" where
  "subsetUsers vs ceiling = list_all (\<lambda>v. v \<in> set ceiling) vs"

definition intersectionUsers :: "string list \<Rightarrow> string list \<Rightarrow> string list" where
  "intersectionUsers vs ceiling = filter (\<lambda>v. subsetUsers [v] ceiling) vs"

definition modelIntersectionUsers :: "string list \<Rightarrow> string list \<Rightarrow> string list" where
  "modelIntersectionUsers vs ceiling = filter (\<lambda>v. list_ex (modelCovered v) ceiling) (unique vs)"

definition modelSubsetUsers :: "string list \<Rightarrow> string list \<Rightarrow> bool" where
  "modelSubsetUsers vs ceiling \<longleftrightarrow> length (modelIntersectionUsers vs ceiling) = length (unique vs)"

definition encodeUsers :: "string list \<Rightarrow> string" where
  "encodeUsers vs = encodeStrings (unique vs)"

text \<open>The lists that \<^verbatim>\<open>validateGrants\<close> makes unique are those of its own copy of the struct: the caller's stay.\<close>

definition validateGrants :: "grants \<Rightarrow> goerr + unit" where
  "validateGrants g =
     (case find (\<lambda>scope. \<not> ValidInferenceScope scope) (gr_scopes g) of
        Some scope \<Rightarrow> Inl (InputError (''Unsupported inference scope: '' @ scope))
      | None \<Rightarrow>
          (case List.map_filter (\<lambda>vs. if length vs > 100 then Some ''No more than 100 grants are allowed per group''
                    else if list_ex (\<lambda>v. TrimSpace v = [] \<or> length v > 200) vs then Some ''Grants must be between 1 and 200 characters''
                    else None) [gr_scopes g, gr_models g, gr_connections g] of
             [] \<Rightarrow> Inr ()
           | e # _ \<Rightarrow> Inl (InputError e)))"

definition decodeGrants :: "account_row \<Rightarrow> grants option" where
  "decodeGrants a =
     Option.bind (unmarshalStrings (ac_scopes a)) (\<lambda>scopes.
     Option.bind (unmarshalStrings (ac_models a)) (\<lambda>models.
     map_option (\<lambda>connections. \<lparr>gr_unrestricted = ac_unrestricted a, gr_scopes = scopes, gr_models = models, gr_connections = connections\<rparr>)
       (unmarshalStrings (ac_connections a))))"

section \<open>Reading users\<close>

definition refreshActor :: "string \<Rightarrow> account_row itx" where
  "refreshActor i = oneT ErrDenied accounts (\<lambda>a. ac_id a = i \<and> ac_status a = ''active'')"

definition shownStatus :: "identity \<Rightarrow> account_row \<Rightarrow> string" where
  "shownStatus s a =
     (if ac_status a = ''suspended'' \<and> list_ex (\<lambda>r. tk_user r = ac_id a \<and> tk_purpose r = ''activation'') (codes s)
      then ''pending_activation'' else ac_status a)"

definition viewUser :: "account_row \<times> string \<Rightarrow> user_view option" where
  "viewUser = (\<lambda>(a, status). map_option (\<lambda>g.
     \<lparr>uv_id = ac_id a, uv_email = ac_email a, uv_displayName = ac_displayName a, uv_role = ac_role a, uv_status = status, uv_revision = ac_revision a,
      uv_created = formatTime (ac_created a), uv_updated = formatTime (ac_updated a), uv_grants = g\<rparr>) (decodeGrants a))"

definition readUser :: "string \<Rightarrow> (user_view \<times> string) itx" where
  "readUser i =
     bindT (queryT (\<lambda>s. map_option (\<lambda>a. (a, shownStatus s a)) (find (\<lambda>a. ac_id a = i) (accounts s)))) (\<lambda>row.
     bindT (optionT ErrNotFound row) (\<lambda>(a, status).
     bindT (optionT badUserGrants (viewUser (a, status))) (\<lambda>item. returnT (item, ac_status a))))"

definition canManage :: "account_row \<Rightarrow> user_view \<Rightarrow> bool" where
  "canManage actor target \<longleftrightarrow> ac_role actor = ''owner'' \<or> ac_role actor = ''admin'' \<and> uv_role target = ''member''"

definition GetUser :: "string \<Rightarrow> string \<Rightarrow> user_view itx" where
  "GetUser actorID targetID =
     bindT (refreshActor actorID) (\<lambda>actor.
     bindT (readUser targetID) (\<lambda>(target, _).
     guardT (\<not> canManage actor target) ErrNotFound (returnT target)))"

definition accountOrder :: "account_row \<Rightarrow> int \<times> string" where
  "accountOrder a = (ac_created a, ac_id a)"

definition ListUsers :: "string \<Rightarrow> int \<Rightarrow> string \<Rightarrow> (user_view list \<times> string) itx" where
  "ListUsers actorID limit0 cursor =
     bindT (refreshActor actorID) (\<lambda>actor.
     guardT (ac_role actor \<noteq> ''owner'' \<and> ac_role actor \<noteq> ''admin'') ErrDenied (
     let limit = nat (if limit0 < 1 \<or> limit0 > 200 then 50 else limit0) in
     bindT (case decodeCursor cursor of Inl _ \<Rightarrow> failT (InputError ''Cursor is invalid'') | Inr c \<Rightarrow> returnT c) (\<lambda>(beforeTime, beforeID).
     bindT (queryT (\<lambda>s. map (\<lambda>a. (a, shownStatus s a)) (pageRows accountOrder limit (if beforeTime = 0 then None else Some (beforeTime, beforeID))
        (filter (\<lambda>a. ac_role actor = ''admin'' \<longrightarrow> ac_role a = ''member'') (accounts s))))) (\<lambda>rows.
     bindT (optionT badUserGrants (those (map viewUser rows))) (\<lambda>items.
     returnT (take limit items, nextCursor accountOrder (snd (cutPage limit (map fst rows)))))))))"

section \<open>Helpers of the changes\<close>

definition canGrant :: "string \<Rightarrow> grants \<Rightarrow> bool itx" where
  "canGrant actorID g =
     bindT (oneT ErrNoRows accounts (\<lambda>a. ac_id a = actorID \<and> ac_status a = ''active'')) (\<lambda>a.
     if ac_unrestricted a then returnT True
     else bindT (optionT badUserGrants (decodeGrants a)) (\<lambda>ceiling.
          returnT (subsetUsers (gr_scopes g) (gr_scopes ceiling) \<and> modelSubsetUsers (gr_models g) (gr_models ceiling) \<and>
                   subsetUsers (gr_connections g) (gr_connections ceiling))))"

definition clampKey :: "grants \<Rightarrow> int \<Rightarrow> api_key_row \<Rightarrow> unit itx" where
  "clampKey ceiling now key =
     bindT (optionT badUserGrants (unmarshalStrings (kr_scopes key))) (\<lambda>scopes.
     bindT (optionT badUserGrants (unmarshalStrings (kr_models key))) (\<lambda>models.
     bindT (optionT badUserGrants (unmarshalStrings (kr_connections key))) (\<lambda>connections.
     let newScopes = encodeUsers (intersectionUsers scopes (gr_scopes ceiling));
         newModels = encodeUsers (modelIntersectionUsers models (gr_models ceiling));
         newConnections = encodeUsers (intersectionUsers connections (gr_connections ceiling)) in
     if newScopes = kr_scopes key \<and> newModels = kr_models key \<and> newConnections = kr_connections key then returnT ()
     else thenT (updateKeys (\<lambda>k. kr_id k = kr_id key) (\<lambda>k. k\<lparr>kr_scopes := newScopes, kr_models := newModels, kr_connections := newConnections,
            kr_revision := kr_revision k + 1, kr_updated := now\<rparr>)) (returnT ()))))"

definition clampKeys :: "string \<Rightarrow> grants \<Rightarrow> int \<Rightarrow> unit itx" where
  "clampKeys userID ceiling now = bindT (rowsT key_table (\<lambda>k. kr_owner k = userID)) (forT (clampKey ceiling now))"

definition insertCode :: "env \<Rightarrow> string \<Rightarrow> string \<Rightarrow> string \<Rightarrow> int \<Rightarrow> unit itx" where
  "insertCode env userID purpose code now =
     insertCodeRow \<lparr>tk_verifier = Verifier env code, tk_user = userID, tk_purpose = purpose, tk_expires = now + codeLifetime, tk_created = now\<rparr>"

definition auditUser :: "string \<Rightarrow> string \<Rightarrow> string \<Rightarrow> json \<Rightarrow> unit itx" where
  "auditUser actorID action resourceID detail =
     bindT randT (\<lambda>i. bindT nowT (\<lambda>now.
     insertTrail \<lparr>tr_id = ''aud_'' @ i, tr_actor = Some actorID, tr_action = action, tr_resourceType = ''user'', tr_resourceID = resourceID,
       tr_detail = detail, tr_created = now\<rparr>))"

section \<open>Creating users\<close>

definition pendingRow :: "string \<Rightarrow> string \<Rightarrow> string \<Rightarrow> create_input \<Rightarrow> int \<Rightarrow> account_row" where
  "pendingRow i email displayName input now =
     \<lparr>ac_id = i, ac_email = email, ac_displayName = displayName, ac_passwordHash = ''!'', ac_role = cu_role input, ac_status = ''suspended'',
      ac_authRevision = 1, ac_revision = 1, ac_unrestricted = False, ac_scopes = encodeUsers (gr_scopes (cu_grants input)),
      ac_models = encodeUsers (gr_models (cu_grants input)), ac_connections = encodeUsers (gr_connections (cu_grants input)),
      ac_created = now, ac_updated = now\<rparr>"

definition createUserTx :: "env \<Rightarrow> string \<Rightarrow> create_input \<Rightarrow> string \<Rightarrow> string \<Rightarrow> string \<Rightarrow> string \<Rightarrow> int \<Rightarrow> unit itx" where
  "createUserTx env actorID input email displayName userID code now =
     bindT (refreshActor actorID) (\<lambda>actor.
     guardT (ac_role actor = ''owner'' \<and> cu_role input \<noteq> ''admin'' \<and> cu_role input \<noteq> ''member'' \<or>
             ac_role actor = ''admin'' \<and> cu_role input \<noteq> ''member'' \<or> ac_role actor \<noteq> ''owner'' \<and> ac_role actor \<noteq> ''admin'') ErrDenied (
     bindT (canGrant actorID (cu_grants input)) (\<lambda>allowed.
     guardT (\<not> allowed) ErrDenied (
     thenT (mapErrT emailTaken (insertAccount (pendingRow userID email displayName input now))) (
     thenT (insertCode env userID ''activation'' code now) (
     thenT (auditUser actorID ''user.create'' userID (JObj [(''role'', JStr (cu_role input))])) commitT))))))"

definition CreateUser :: "env \<Rightarrow> string \<Rightarrow> create_input \<Rightarrow> world \<Rightarrow> world \<Rightarrow> identity \<Rightarrow> (goerr + user_view \<times> string) \<times> identity" where
  "CreateUser env actorID input0 w1 w2 s =
     (let input = input0\<lparr>cu_grants := (cu_grants input0)\<lparr>gr_unrestricted := False\<rparr>\<rparr> in
      case autoT (bindT (checkedT (ValidateIdentity env (cu_email input) (cu_displayName input))) (\<lambda>(email, displayName).
                  thenT (checkedT (validateGrants (cu_grants input))) (
                  bindT randT (\<lambda>idPart. bindT randT (\<lambda>code. bindT nowT (\<lambda>now. returnT (email, displayName, ''usr_'' @ idPart, code, now))))))) w1 s of
        (Inl e, _) \<Rightarrow> (Inl e, s)
      | (Inr (email, displayName, userID, code, now), _) \<Rightarrow>
          (case atomicT (createUserTx env actorID input email displayName userID code now) w2 s of
             (Inl e, s') \<Rightarrow> (Inl e, s')
           | (Inr _, s') \<Rightarrow> (Inr (\<lparr>uv_id = userID, uv_email = email, uv_displayName = displayName, uv_role = cu_role input,
               uv_status = ''pending_activation'', uv_revision = 1, uv_created = formatTime now, uv_updated = formatTime now, uv_grants = cu_grants input\<rparr>, code), s')))"

section \<open>Changing users\<close>

definition jstrings :: "string list \<Rightarrow> json" where
  "jstrings vs = JArr (map JStr vs)"

definition updateGrantsTx :: "string \<Rightarrow> string \<Rightarrow> int \<Rightarrow> grants \<Rightarrow> unit itx" where
  "updateGrantsTx actorID targetID revision g =
     bindT (refreshActor actorID) (\<lambda>actor.
     bindT (readUser targetID) (\<lambda>(target, _).
     guardT (uv_revision target \<noteq> revision) ErrConflict (
     guardT (\<not> canManage actor target) ErrDenied (
     bindT (canGrant actorID g) (\<lambda>allowed.
     guardT (\<not> allowed) ErrDenied (
     bindT nowT (\<lambda>now.
     bindT (updateAccount targetID (\<lambda>a. ac_revision a = revision) (\<lambda>a. a\<lparr>ac_scopes := encodeUsers (gr_scopes g), ac_models := encodeUsers (gr_models g),
        ac_connections := encodeUsers (gr_connections g), ac_revision := ac_revision a + 1, ac_authRevision := ac_authRevision a + 1, ac_updated := now\<rparr>)) (\<lambda>changed.
     guardT (changed \<noteq> 1) ErrConflict (
     thenT (clampKeys targetID g now) (
     thenT (deleteSessions (\<lambda>r. ss_user r = targetID)) (
     thenT (auditUser actorID ''user.grants_update'' targetID
       (jmap [(''scopes'', jstrings (gr_scopes g)), (''model_patterns'', jstrings (gr_models g)), (''connection_ids'', jstrings (gr_connections g))])) commitT)))))))))))"

definition UpdateGrants :: "string \<Rightarrow> string \<Rightarrow> int \<Rightarrow> grants \<Rightarrow> world \<Rightarrow> world \<Rightarrow> identity \<Rightarrow> (goerr + user_view) \<times> identity" where
  "UpdateGrants actorID targetID revision g0 w1 w2 s =
     (let g = g0\<lparr>gr_unrestricted := False\<rparr> in
      case validateGrants g of
        Inl e \<Rightarrow> (Inl e, s)
      | Inr _ \<Rightarrow>
          (case atomicT (updateGrantsTx actorID targetID revision g) w1 s of
             (Inl e, s') \<Rightarrow> (Inl e, s')
           | (Inr _, s') \<Rightarrow> (fst (autoT (GetUser actorID targetID) w2 s'), s')))"

text \<open>The new email, display name and status of \<^verbatim>\<open>Update\<close>.\<close>

definition newIdentity :: "env \<Rightarrow> user_view \<Rightarrow> update_input \<Rightarrow> goerr + string \<times> string" where
  "newIdentity env target input =
     (case (case uu_email input of None \<Rightarrow> Inr (uv_email target) | Some e \<Rightarrow> map_sum id fst (ValidateIdentity env e (uv_displayName target))) of
        Inl e \<Rightarrow> Inl e
      | Inr email \<Rightarrow>
          (case uu_displayName input of
             None \<Rightarrow> Inr (email, uv_displayName target)
           | Some d \<Rightarrow> map_sum id (\<lambda>r. (email, snd r)) (ValidateIdentity env email d)))"

definition newStatus :: "user_view \<Rightarrow> string \<Rightarrow> update_input \<Rightarrow> goerr + string" where
  "newStatus target rawStatus input =
     (case uu_status input of
        None \<Rightarrow> Inr rawStatus
      | Some status \<Rightarrow>
          if status \<noteq> ''active'' \<and> status \<noteq> ''suspended'' then Inl (InputError ''Status must be active or suspended'')
          else if uv_status target = ''pending_activation'' \<and> status = ''active'' then Inl (InputError ''Pending users must activate with their code'')
          else Inr status)"

definition updateUserTx :: "env \<Rightarrow> string \<Rightarrow> string \<Rightarrow> int \<Rightarrow> update_input \<Rightarrow> unit itx" where
  "updateUserTx env actorID targetID revision input =
     bindT (refreshActor actorID) (\<lambda>actor.
     bindT (readUser targetID) (\<lambda>(target, rawStatus).
     guardT (\<not> canManage actor target) ErrDenied (
     guardT (uv_revision target \<noteq> revision) ErrConflict (
     bindT (checkedT (newIdentity env target input)) (\<lambda>(email, displayName).
     bindT (checkedT (newStatus target rawStatus input)) (\<lambda>status.
     bindT nowT (\<lambda>now.
     bindT (mapErrT emailTaken (updateAccount targetID (\<lambda>a. ac_revision a = revision) (\<lambda>a. a\<lparr>ac_email := email, ac_displayName := displayName,
        ac_status := status, ac_revision := ac_revision a + 1,
        ac_authRevision := ac_authRevision a + (if ac_status a \<noteq> status \<or> \<not> sameEmail (ac_email a) email then 1 else 0), ac_updated := now\<rparr>))) (\<lambda>changed.
     guardT (changed \<noteq> 1) ErrConflict (
     thenT (if status \<noteq> rawStatus \<or> email \<noteq> uv_email target then thenT (deleteSessions (\<lambda>r. ss_user r = targetID)) (returnT ()) else returnT ()) (
     thenT (if uu_status input = Some ''suspended'' then thenT (deleteCodes (\<lambda>r. tk_user r = targetID)) (returnT ()) else returnT ()) (
     thenT (auditUser actorID ''user.update'' targetID (JObj [(''status'', JStr status)])) commitT)))))))))))"

definition UpdateUser :: "env \<Rightarrow> string \<Rightarrow> string \<Rightarrow> int \<Rightarrow> update_input \<Rightarrow> world \<Rightarrow> world \<Rightarrow> identity \<Rightarrow> (goerr + user_view) \<times> identity" where
  "UpdateUser env actorID targetID revision input w1 w2 s =
     (if targetID = actorID then (Inl ErrDenied, s)
      else case atomicT (updateUserTx env actorID targetID revision input) w1 s of
             (Inl e, s') \<Rightarrow> (Inl e, s')
           | (Inr _, s') \<Rightarrow> (fst (autoT (GetUser actorID targetID) w2 s'), s'))"

section \<open>Codes and ownership\<close>

definition issueCodeTx :: "env \<Rightarrow> string \<Rightarrow> string \<Rightarrow> string \<Rightarrow> string \<Rightarrow> unit itx" where
  "issueCodeTx env actorID targetID purpose code =
     bindT (refreshActor actorID) (\<lambda>actor.
     bindT (readUser targetID) (\<lambda>(target, rawStatus).
     guardT (\<not> canManage actor target) ErrDenied (
     guardT (purpose = ''activation'' \<and> uv_status target \<noteq> ''pending_activation'') (InputError ''User is already activated'') (
     guardT (purpose = ''recovery'' \<and> rawStatus \<noteq> ''active'') (InputError ''Reactivate the user before issuing a recovery code'') (
     bindT nowT (\<lambda>now.
     thenT (deleteCodes (\<lambda>r. tk_user r = targetID)) (
     thenT (insertCode env targetID purpose code now) (
     thenT (if purpose = ''recovery''
            then thenT (updateAccount targetID (\<lambda>_. True) (\<lambda>a. a\<lparr>ac_authRevision := ac_authRevision a + 1, ac_revision := ac_revision a + 1, ac_updated := now\<rparr>))
                   (thenT (deleteSessions (\<lambda>r. ss_user r = targetID)) (returnT ()))
            else returnT ()) (
     thenT (auditUser actorID (''user.'' @ purpose @ ''_code'') targetID (JObj [])) commitT)))))))))"

definition IssueCode :: "env \<Rightarrow> string \<Rightarrow> string \<Rightarrow> string \<Rightarrow> world \<Rightarrow> world \<Rightarrow> identity \<Rightarrow> (goerr + string) \<times> identity" where
  "IssueCode env actorID targetID purpose w1 w2 s =
     (if purpose \<noteq> ''activation'' \<and> purpose \<noteq> ''recovery'' then (Inl ErrNotFound, s)
      else case autoT randT w1 s of
             (Inl e, _) \<Rightarrow> (Inl e, s)
           | (Inr code, _) \<Rightarrow>
               (case atomicT (issueCodeTx env actorID targetID purpose code) w2 s of
                  (Inl e, s') \<Rightarrow> (Inl e, s')
                | (Inr _, s') \<Rightarrow> (Inr code, s')))"

definition noGrants :: grants where
  "noGrants = \<lparr>gr_unrestricted = False, gr_scopes = [], gr_models = [], gr_connections = []\<rparr>"

definition demoted :: "int \<Rightarrow> account_row \<Rightarrow> account_row" where
  "demoted now a = a\<lparr>ac_role := ''admin'', ac_unrestricted := False, ac_scopes := ''[]'', ac_models := ''[]'',
     ac_connections := ''[]'', ac_revision := ac_revision a + 1, ac_authRevision := ac_authRevision a + 1, ac_updated := now\<rparr>"

definition promoted :: "int \<Rightarrow> account_row \<Rightarrow> account_row" where
  "promoted now a = a\<lparr>ac_role := ''owner'', ac_unrestricted := True, ac_revision := ac_revision a + 1,
     ac_authRevision := ac_authRevision a + 1, ac_updated := now\<rparr>"

definition transferOwnerTx :: "string \<Rightarrow> string \<Rightarrow> int \<Rightarrow> unit itx" where
  "transferOwnerTx actorID targetID targetRevision =
     bindT (mapErrT (\<lambda>_. ErrDenied) (refreshActor actorID)) (\<lambda>actor.
     guardT (ac_role actor \<noteq> ''owner'') ErrDenied (
     bindT (readUser targetID) (\<lambda>(target, rawStatus).
     guardT (uv_role target \<noteq> ''admin'' \<or> rawStatus \<noteq> ''active'' \<or> uv_revision target \<noteq> targetRevision) ErrConflict (
     bindT nowT (\<lambda>now.
     bindT (updateAccount actorID (\<lambda>a. ac_role a = ''owner'') (demoted now)) (\<lambda>oldOwner.
     guardT (oldOwner \<noteq> 1) ErrDenied (
     bindT (updateAccount targetID (\<lambda>a. ac_role a = ''admin'' \<and> ac_status a = ''active'' \<and> ac_revision a = targetRevision) (promoted now)) (\<lambda>changed.
     guardT (changed \<noteq> 1) ErrConflict (
     thenT (deleteSessions (\<lambda>r. ss_user r = actorID \<or> ss_user r = targetID)) (
     thenT (deleteCodes (\<lambda>r. tk_user r = actorID \<or> tk_user r = targetID)) (
     thenT (clampKeys actorID noGrants now) (
     thenT (auditUser actorID ''owner.transfer'' targetID (JObj [])) commitT))))))))))))"

definition TransferOwner :: "string \<Rightarrow> string \<Rightarrow> int \<Rightarrow> world \<Rightarrow> identity \<Rightarrow> (goerr + unit) \<times> identity" where
  "TransferOwner actorID targetID targetRevision w s =
     (if actorID = targetID then (Inl ErrDenied, s) else atomicT (transferOwnerTx actorID targetID targetRevision) w s)"

section \<open>Shapes of successful runs\<close>

lemma readUser_Inr:
  assumes "readUser i w (n, s) = Inr ((v, status), n', s')"
  obtains a where "s' = s" "find (\<lambda>a. ac_id a = i) (accounts s) = Some a" "status = ac_status a" "uv_id v = ac_id a" "uv_role v = ac_role a"
    "uv_revision v = ac_revision a" "uv_email v = ac_email a" "uv_displayName v = ac_displayName a" "uv_status v = shownStatus s a"
  using assms by (auto simp: readUser_def tx_inv viewUser_def elim!: tx_elim)

lemma refreshActor_Inr:
  assumes "refreshActor i w (n, s) = Inr (a, n', s')"
  obtains "s' = s" "find (\<lambda>a. ac_id a = i \<and> ac_status a = ''active'') (accounts s) = Some a"
  using assms by (auto simp: refreshActor_def tx_inv)

text \<open>The bounds of a grant, as \<open>grantable\<close> states them for a key.\<close>

definition mayGrant :: "account_row \<Rightarrow> grants \<Rightarrow> bool" where
  "mayGrant a g \<longleftrightarrow> ac_unrestricted a \<or>
     (case decodeGrants a of None \<Rightarrow> False | Some c \<Rightarrow>
        set (gr_scopes g) \<subseteq> set (gr_scopes c) \<and> (\<forall>v \<in> set (gr_models g). \<exists>m \<in> set (gr_models c). modelCovered v m) \<and>
        set (gr_connections g) \<subseteq> set (gr_connections c))"

lemma subsetUsers_iff: "subsetUsers vs c \<longleftrightarrow> set vs \<subseteq> set c"
  by (auto simp: subsetUsers_def list_all_iff)

lemma modelIntersectionUsers_same: "modelIntersectionUsers = modelIntersection"
  by (simp add: fun_eq_iff modelIntersectionUsers_def modelIntersection_def)

lemma modelSubsetUsers_same: "modelSubsetUsers = modelSubset"
  by (simp add: fun_eq_iff modelSubsetUsers_def modelSubset_def modelIntersectionUsers_same)

lemma set_intersectionUsers: "set (intersectionUsers vs c) = set vs \<inter> set c"
  by (auto simp: intersectionUsers_def subsetUsers_iff)

lemma canGrant_Inr:
  assumes "canGrant i g w (n, s) = Inr (b, n', s')"
  obtains a where "s' = s" "find (\<lambda>a. ac_id a = i \<and> ac_status a = ''active'') (accounts s) = Some a" "b = mayGrant a g"
  using assms
  by (auto simp: canGrant_def tx_inv mayGrant_def subsetUsers_iff modelSubsetUsers_same modelSubset_iff elim!: tx_elim split: if_splits)

lemma auditUser_Inr:
  assumes "auditUser actorID action i d w (n, s) = Inr (x, n', s')"
  obtains row where "s' = trail_update (\<lambda>rs. rs @ [row]) s"
  using assms by (clarsimp simp: auditUser_def tx_inv elim!: tx_elim)

lemma checkedT_Inr [tx_inv]: "checkedT r w (n, s) = Inr (x, n', s') \<longleftrightarrow> r = Inr x \<and> n' = n \<and> s' = s"
  by (auto simp: checkedT_def tx_inv split: sum.splits)

lemma keepsT_checked [keeps]: "keepsT I (checkedT r)"
  unfolding checkedT_def by (intro keeps)

lemma clampKeys_keeps_accounts [keeps]: "keepsT (\<lambda>s. P (accounts s)) (clampKeys u g now)"
  unfolding clampKeys_def clampKey_def Let_def by (intro keeps)

lemma createUserTx_Inr:
  assumes "createUserTx env i input email d u code now w (n, s) = Inr (x, n', s')"
  obtains actor where "find (\<lambda>a. ac_id a = i \<and> ac_status a = ''active'') (accounts s) = Some actor" "mayGrant actor (cu_grants input)"
    "ac_role actor = ''owner'' \<and> cu_role input \<in> {''admin'', ''member''} \<or> ac_role actor = ''admin'' \<and> cu_role input = ''member''"
    "\<not> list_ex (\<lambda>b. ac_id b = u \<or> sameEmail (ac_email b) email) (accounts s)"
    "accounts s' = accounts s @ [pendingRow u email d input now]" "key_table s' = key_table s" "secrets s' = secrets s"
proof -
  have p: "ac_id (pendingRow u email d input now) = u" "ac_email (pendingRow u email d input now) = email" by (simp_all add: pendingRow_def)
  from assms show ?thesis
    by (clarsimp simp: createUserTx_def insertCode_def tx_inv p elim!: tx_elim refreshActor_Inr canGrant_Inr auditUser_Inr) (rule that, auto)
qed

lemma updateUserTx_Inr:
  assumes "updateUserTx env i u rv input w (n, s) = Inr (x, n', s')"
  obtains actor target email d status now where
    "find (\<lambda>a. ac_id a = i \<and> ac_status a = ''active'') (accounts s) = Some actor" "find (\<lambda>a. ac_id a = u) (accounts s) = Some target"
    "ac_role actor = ''owner'' \<or> ac_role actor = ''admin'' \<and> ac_role target = ''member''" "ac_revision target = rv"
    "accounts s' = updateWhere (\<lambda>a. ac_id a = u \<and> ac_revision a = rv) (\<lambda>a. a\<lparr>ac_email := email, ac_displayName := d,
        ac_status := status, ac_revision := ac_revision a + 1,
        ac_authRevision := ac_authRevision a + (if ac_status a \<noteq> status \<or> \<not> sameEmail (ac_email a) email then 1 else 0), ac_updated := now\<rparr>) (accounts s)"
  using assms
  by (clarsimp simp: updateUserTx_def tx_inv canManage_def split: if_splits elim!: tx_elim refreshActor_Inr readUser_Inr auditUser_Inr)

lemma issueCodeTx_Inr:
  assumes "issueCodeTx env i u purpose code w (n, s) = Inr (x, n', s')"
  obtains (kept) actor target where
    "find (\<lambda>a. ac_id a = i \<and> ac_status a = ''active'') (accounts s) = Some actor" "find (\<lambda>a. ac_id a = u) (accounts s) = Some target"
    "ac_role actor = ''owner'' \<or> ac_role actor = ''admin'' \<and> ac_role target = ''member''" "accounts s' = accounts s"
  | (bumped) actor target now where
    "find (\<lambda>a. ac_id a = i \<and> ac_status a = ''active'') (accounts s) = Some actor" "find (\<lambda>a. ac_id a = u) (accounts s) = Some target"
    "ac_role actor = ''owner'' \<or> ac_role actor = ''admin'' \<and> ac_role target = ''member''"
    "accounts s' = updateWhere (\<lambda>a. ac_id a = u)
       (\<lambda>a. a\<lparr>ac_authRevision := ac_authRevision a + 1, ac_revision := ac_revision a + 1, ac_updated := now\<rparr>) (accounts s)"
  using assms
  by (clarsimp simp: issueCodeTx_def insertCode_def tx_inv canManage_def split: if_splits elim!: tx_elim refreshActor_Inr readUser_Inr auditUser_Inr)

lemma transferOwnerTx_Inr:
  assumes "transferOwnerTx i u rv w (n, s) = Inr (x, n', s')"
  obtains now where
    "length (filter (\<lambda>a. ac_id a = i \<and> ac_role a = ''owner'') (accounts s)) = 1"
    "length (filter (\<lambda>a. ac_id a = u \<and> ac_role a = ''admin'' \<and> ac_status a = ''active'' \<and> ac_revision a = rv)
       (updateWhere (\<lambda>a. ac_id a = i \<and> ac_role a = ''owner'') (demoted now) (accounts s))) = 1"
    "accounts s' = updateWhere (\<lambda>a. ac_id a = u \<and> ac_role a = ''admin'' \<and> ac_status a = ''active'' \<and> ac_revision a = rv) (promoted now)
       (updateWhere (\<lambda>a. ac_id a = i \<and> ac_role a = ''owner'') (demoted now) (accounts s))"
proof -
  have clamp: "clampKeys i noGrants now w (m, t) = Inr (y, m', t') \<Longrightarrow> accounts t' = accounts t" for now m t y m' t'
    using keepsT_D [OF clampKeys_keeps_accounts [of "\<lambda>as. as = accounts t"]] by blast
  from assms show ?thesis
    by (clarsimp simp: transferOwnerTx_def tx_inv elim!: tx_elim refreshActor_Inr readUser_Inr auditUser_Inr dest!: clamp) (rule that, simp_all)
qed

section \<open>Clamped keys\<close>

text \<open>The stored grants of a key lie under a ceiling.\<close>

definition withinGrants :: "grants \<Rightarrow> api_key_row \<Rightarrow> bool" where
  "withinGrants g k \<longleftrightarrow>
     (case (unmarshalStrings (kr_scopes k), unmarshalStrings (kr_models k), unmarshalStrings (kr_connections k)) of
        (Some scopes, Some models, Some connections) \<Rightarrow>
          set scopes \<subseteq> set (gr_scopes g) \<and> (\<forall>v \<in> set models. \<exists>m \<in> set (gr_models g). modelCovered v m) \<and> set connections \<subseteq> set (gr_connections g)
      | _ \<Rightarrow> False)"

lemma withinGrants_flag: "withinGrants (g\<lparr>gr_unrestricted := b\<rparr>) k = withinGrants g k"
  by (simp add: withinGrants_def split: option.split)

lemma clampKey_Inr:
  assumes "clampKey g now key w (n, s) = Inr (x, n', s')"
  obtains f where "s' = s \<and> withinGrants g key \<or> s' = key_table_update (updateWhere (\<lambda>k. kr_id k = kr_id key) f) s"
    "\<And>k. kr_id (f k) = kr_id k \<and> kr_owner (f k) = kr_owner k \<and> kr_state (f k) = kr_state k \<and> withinGrants g (f k)"
proof -
  from assms obtain scopes models connections where
    u: "unmarshalStrings (kr_scopes key) = Some scopes" "unmarshalStrings (kr_models key) = Some models" "unmarshalStrings (kr_connections key) = Some connections"
    by (auto simp: clampKey_def tx_inv elim!: tx_elim)
  let ?sc = "encodeUsers (intersectionUsers scopes (gr_scopes g))" and ?mo = "encodeUsers (modelIntersectionUsers models (gr_models g))"
    and ?co = "encodeUsers (intersectionUsers connections (gr_connections g))"
  let ?f = "\<lambda>k. k\<lparr>kr_scopes := ?sc, kr_models := ?mo, kr_connections := ?co, kr_revision := kr_revision k + 1, kr_updated := now\<rparr>"
  have within: "withinGrants g k" if "kr_scopes k = ?sc" "kr_models k = ?mo" "kr_connections k = ?co" for k
    using that by (auto simp: withinGrants_def encodeUsers_def set_intersectionUsers modelIntersectionUsers_same set_modelIntersection)
  have "s' = s \<and> withinGrants g key \<or> s' = key_table_update (updateWhere (\<lambda>k. kr_id k = kr_id key) ?f) s"
    using assms u within [of key] by (clarsimp simp: clampKey_def tx_inv Let_def split: if_splits elim!: tx_elim)
  moreover have "kr_id (?f k) = kr_id k \<and> kr_owner (?f k) = kr_owner k \<and> kr_state (?f k) = kr_state k \<and> withinGrants g (?f k)" for k
    using within [of "?f k"] by simp
  ultimately show ?thesis by (rule that)
qed

lemma clamp_run:
  assumes "forT (clampKey g now) ks w (n, s) = Inr (x, n', s')"
    and "distinct (map kr_id ks)" "set ks \<subseteq> set (key_table s)" "distinct (map kr_id (key_table s))"
  shows "map (\<lambda>k. (kr_id k, kr_owner k, kr_state k)) (key_table s') = map (\<lambda>k. (kr_id k, kr_owner k, kr_state k)) (key_table s) \<and>
    (\<exists>kt. s' = s\<lparr>key_table := kt\<rparr>) \<and>
    (\<forall>k \<in> set (key_table s'). if kr_id k \<in> kr_id ` set ks then withinGrants g k else k \<in> set (key_table s))"
  using assms
proof (induction ks arbitrary: n s)
  case Nil
  then show ?case by (auto simp: tx_inv intro: exI [of _ "key_table s"])
next
  case (Cons key ks)
  from Cons.prems(1) obtain y m s1 where first: "clampKey g now key w (n, s) = Inr (y, m, s1)" and rest: "forT (clampKey g now) ks w (m, s1) = Inr (x, n', s')"
    by (auto elim: tx_elim)
  from first obtain f where f: "s1 = s \<and> withinGrants g key \<or> s1 = key_table_update (updateWhere (\<lambda>k. kr_id k = kr_id key) f) s"
    "\<And>k. kr_id (f k) = kr_id k \<and> kr_owner (f k) = kr_owner k \<and> kr_state (f k) = kr_state k \<and> withinGrants g (f k)" by (rule clampKey_Inr) blast
  have key: "key \<in> set (key_table s)" using Cons.prems(3) by simp
  have same: "k = key" if "k \<in> set (key_table s)" "kr_id k = kr_id key" for k using distinct_keyD [OF Cons.prems(4) that(1) key that(2)] .
  have cols: "map (\<lambda>k. (kr_id k, kr_owner k, kr_state k)) (key_table s1) = map (\<lambda>k. (kr_id k, kr_owner k, kr_state k)) (key_table s)"
    using f by (auto simp: map_updateWhere)
  then have ids: "map kr_id (key_table s1) = map kr_id (key_table s)" by (metis (no_types, lifting) fst_conv map_eq_conv map_map comp_apply)
  have shape: "\<exists>kt. s1 = s\<lparr>key_table := kt\<rparr>" using f(1) by (intro exI [of _ "key_table s1"]) (cases s, auto)
  have now1: "if kr_id k = kr_id key then withinGrants g k else k \<in> set (key_table s)" if "k \<in> set (key_table s1)" for k
    using f(1) that same f(2) by (auto simp: set_updateWhere split: if_splits)
  have keep: "k \<in> set (key_table s1)" if "k \<in> set (key_table s)" "kr_id k \<noteq> kr_id key" for k
    using f(1) that by (auto simp: set_updateWhere)
  have "set ks \<subseteq> set (key_table s1)"
  proof
    fix k assume k: "k \<in> set ks"
    then have "kr_id k \<noteq> kr_id key" using Cons.prems(2) imageI [OF k, of kr_id] by (metis distinct.simps(2) list.simps(9) set_map)
    with k Cons.prems(3) show "k \<in> set (key_table s1)" by (intro keep) auto
  qed
  from Cons.IH [OF rest _ this] Cons.prems(2,4) ids have
    ih: "map (\<lambda>k. (kr_id k, kr_owner k, kr_state k)) (key_table s') = map (\<lambda>k. (kr_id k, kr_owner k, kr_state k)) (key_table s1)"
    "\<exists>kt. s' = s1\<lparr>key_table := kt\<rparr>" "\<forall>k \<in> set (key_table s'). if kr_id k \<in> kr_id ` set ks then withinGrants g k else k \<in> set (key_table s1)"
    by auto
  have "if kr_id k \<in> kr_id ` set (key # ks) then withinGrants g k else k \<in> set (key_table s)" if k: "k \<in> set (key_table s')" for k
  proof (cases "kr_id k \<in> kr_id ` set ks")
    case True
    with ih(3) k show ?thesis by simp
  next
    case False
    with ih(3) k have "k \<in> set (key_table s1)" by auto
    from now1 [OF this] False show ?thesis by auto
  qed
  with ih(1,2) cols shape show ?case by auto
qed

lemma updateGrantsTx_Inr:
  assumes "updateGrantsTx i u rv g w (n, s) = Inr (x, n', s')"
  obtains actor target now m y m' s2 where
    "find (\<lambda>a. ac_id a = i \<and> ac_status a = ''active'') (accounts s) = Some actor" "find (\<lambda>a. ac_id a = u) (accounts s) = Some target"
    "ac_role actor = ''owner'' \<or> ac_role actor = ''admin'' \<and> ac_role target = ''member''" "mayGrant actor g" "ac_revision target = rv"
    "clampKeys u g now w (m, accounts_update (updateWhere (\<lambda>a. ac_id a = u \<and> ac_revision a = rv)
        (\<lambda>a. a\<lparr>ac_scopes := encodeUsers (gr_scopes g), ac_models := encodeUsers (gr_models g), ac_connections := encodeUsers (gr_connections g),
           ac_revision := ac_revision a + 1, ac_authRevision := ac_authRevision a + 1, ac_updated := now\<rparr>)) s) = Inr (y, m', s2)"
    "accounts s' = accounts s2" "key_table s' = key_table s2" "sessions s' = filter (\<lambda>r. ss_user r \<noteq> u) (sessions s2)"
  using assms
  by (clarsimp simp: updateGrantsTx_def tx_inv canManage_def elim!: tx_elim refreshActor_Inr readUser_Inr canGrant_Inr auditUser_Inr)

text \<open>
  (C13) \<^verbatim>\<open>UpdateGrants\<close> never widens and always narrows: when it succeeds (in a store with unique account and key
  ids) the actor manages the target (an owner, or an admin over a member) and the new grants lie under
  the actor's own, unless the actor is unrestricted; the target's stored grants are the new ones; every
  key of the target, whatever its state, has been cut down to them; keys of other users are as before;
  and the target has no session left.
\<close>

theorem UpdateGrants_clamps:
  assumes ids: "distinct (map ac_id (accounts s))" "distinct (map kr_id (key_table s))"
    and run: "UpdateGrants actorID targetID rv g w1 w2 s = (Inr v, s')"
  shows "\<exists>actor target a'. actor \<in> set (accounts s) \<and> ac_id actor = actorID \<and> ac_status actor = ''active'' \<and> mayGrant actor g \<and>
           target \<in> set (accounts s) \<and> ac_id target = targetID \<and> ac_revision target = rv \<and>
           (ac_role actor = ''owner'' \<or> ac_role actor = ''admin'' \<and> ac_role target = ''member'') \<and>
           a' \<in> set (accounts s') \<and> ac_id a' = targetID \<and> decodeGrants a' = Some \<lparr>gr_unrestricted = ac_unrestricted target,
             gr_scopes = unique (gr_scopes g), gr_models = unique (gr_models g), gr_connections = unique (gr_connections g)\<rparr> \<and>
           (\<forall>k \<in> set (key_table s'). if kr_owner k = targetID then withinGrants g k else k \<in> set (key_table s)) \<and>
           (\<forall>r \<in> set (sessions s'). ss_user r \<noteq> targetID)"
proof -
  let ?g = "g\<lparr>gr_unrestricted := False\<rparr>"
  from run have "atomicT (updateGrantsTx actorID targetID rv ?g) w1 s = (Inr (), s')"
    by (auto simp: UpdateGrants_def Let_def split: prod.splits sum.splits)
  from atomicT_Inr [OF this] obtain n n' where "updateGrantsTx actorID targetID rv ?g w1 (n, s) = Inr ((), n', s')" by blast
  then show ?thesis
  proof (rule updateGrantsTx_Inr)
    fix actor target now m y m' s2
    let ?F = "\<lambda>a. a\<lparr>ac_scopes := encodeUsers (gr_scopes ?g), ac_models := encodeUsers (gr_models ?g), ac_connections := encodeUsers (gr_connections ?g),
           ac_revision := ac_revision a + 1, ac_authRevision := ac_authRevision a + 1, ac_updated := now\<rparr>"
    let ?s1 = "accounts_update (updateWhere (\<lambda>a. ac_id a = targetID \<and> ac_revision a = rv) ?F) s"
    assume f: "find (\<lambda>a. ac_id a = actorID \<and> ac_status a = ''active'') (accounts s) = Some actor" "find (\<lambda>a. ac_id a = targetID) (accounts s) = Some target"
      "ac_role actor = ''owner'' \<or> ac_role actor = ''admin'' \<and> ac_role target = ''member''" "mayGrant actor ?g" "ac_revision target = rv"
      and clamp: "clampKeys targetID ?g now w1 (m, ?s1) = Inr (y, m', s2)"
      and s': "accounts s' = accounts s2" "key_table s' = key_table s2" "sessions s' = filter (\<lambda>r. ss_user r \<noteq> targetID) (sessions s2)"
    from clamp obtain m1 where loop: "forT (clampKey ?g now) (filter (\<lambda>k. kr_owner k = targetID) (key_table s)) w1 (m1, ?s1) = Inr (y, m', s2)"
      by (auto simp: clampKeys_def tx_inv elim!: tx_elim)
    have "distinct (map kr_id (filter (\<lambda>k. kr_owner k = targetID) (key_table s)))" using ids(2) by (rule distinct_map_filter)
    from clamp_run [OF loop this] ids(2) have cols: "map (\<lambda>k. (kr_id k, kr_owner k, kr_state k)) (key_table s') = map (\<lambda>k. (kr_id k, kr_owner k, kr_state k)) (key_table s)"
      and shape: "\<exists>kt. s2 = ?s1\<lparr>key_table := kt\<rparr>"
      and keys: "\<forall>k \<in> set (key_table s'). if kr_id k \<in> kr_id ` set (filter (\<lambda>k. kr_owner k = targetID) (key_table s)) then withinGrants ?g k else k \<in> set (key_table s)"
      by (auto simp: s'(2))
    from shape have acc: "accounts s' = updateWhere (\<lambda>a. ac_id a = targetID \<and> ac_revision a = rv) ?F (accounts s)" by (auto simp: s'(1))
    from find_SomeD [OF f(2)] f(5) have t: "target \<in> set (accounts s)" "ac_id target = targetID" "ac_revision target = rv" by simp_all
    have new2: "ac_id (?F target) = targetID" using t by simp
    have new: "?F target \<in> set (accounts s')" using t unfolding acc set_updateWhere by (intro image_eqI [of _ _ target]) simp_all
    have dec: "decodeGrants (?F target) = Some \<lparr>gr_unrestricted = ac_unrestricted target,
             gr_scopes = unique (gr_scopes g), gr_models = unique (gr_models g), gr_connections = unique (gr_connections g)\<rparr>"
      by (simp add: decodeGrants_def encodeUsers_def)
    have ks: "if kr_owner k = targetID then withinGrants g k else k \<in> set (key_table s)" if k: "k \<in> set (key_table s')" for k
    proof -
      from k cols have "(kr_id k, kr_owner k, kr_state k) \<in> set (map (\<lambda>k. (kr_id k, kr_owner k, kr_state k)) (key_table s))" by (metis (no_types, lifting) image_eqI list.set_map)
      then obtain k0 where k0: "k0 \<in> set (key_table s)" "kr_id k0 = kr_id k" "kr_owner k0 = kr_owner k" by auto
      have "kr_id k \<in> kr_id ` set (filter (\<lambda>k. kr_owner k = targetID) (key_table s)) \<longleftrightarrow> kr_owner k = targetID"
      proof
        assume "kr_id k \<in> kr_id ` set (filter (\<lambda>k. kr_owner k = targetID) (key_table s))"
        then obtain k1 where "k1 \<in> set (key_table s)" "kr_owner k1 = targetID" "kr_id k1 = kr_id k0" using k0 by auto
        with distinct_keyD [OF ids(2) _ k0(1)] k0(3) show "kr_owner k = targetID" by metis
      next
        assume "kr_owner k = targetID"
        with k0 show "kr_id k \<in> kr_id ` set (filter (\<lambda>k. kr_owner k = targetID) (key_table s))" by (intro image_eqI [of _ _ k0]) simp_all
      qed
      with bspec [OF keys k] show ?thesis by (simp only: withinGrants_flag)
    qed
    have may: "mayGrant actor g" using f(4) by (simp add: mayGrant_def split: option.splits)
    from find_SomeD [OF f(1)] have a: "actor \<in> set (accounts s)" "ac_id actor = actorID" "ac_status actor = ''active''" by simp_all
    have "ss_user r \<noteq> targetID" if "r \<in> set (sessions s')" for r using that by (simp add: s'(3))
    with a may t f(3) new new2 dec ks show ?thesis
      by (intro exI [of _ actor] exI [of _ target] exI [of _ "?F target"] conjI ballI; assumption?; (fact | simp))
  qed
qed

section \<open>A sample team\<close>

definition memberAccount :: account_row where
  "memberAccount = ownerAccount\<lparr>ac_id := ''u2'', ac_email := ''m@x'', ac_role := ''member'', ac_unrestricted := False\<rparr>"

definition teamStore :: identity where
  "teamStore = ownerStore\<lparr>accounts := [ownerAccount, memberAccount], key_table := [sampleKeyRow\<lparr>kr_owner := ''u2''\<rparr>]\<rparr>"

definition chatGrants :: grants where
  "chatGrants = \<lparr>gr_unrestricted = False, gr_scopes = [''chat:generate''], gr_models = [], gr_connections = []\<rparr>"

lemma validateGrants_sample: "validateGrants chatGrants = Inr ()"
proof -
  have "TrimSpace ''chat:generate'' = ''chat:generate''" by code_simp
  then show ?thesis by (simp add: validateGrants_def chatGrants_def ValidInferenceScope_def inferenceScopes_def map_filter_def)
qed

lemma unmarshal_empty: "unmarshalStrings ''[]'' = Some []"
  using unmarshalStrings_encode [of "[]"] by (simp add: encodeStrings_def)

lemmas team_defs = teamStore_def memberAccount_def ownerStore_def ownerAccount_def quietWorld_def chatGrants_def sampleKeyRow_def
lemmas team_bodies = refreshActor_def readUser_def viewUser_def decodeGrants_def canManage_def canGrant_def shownStatus_def auditUser_def
  identity_defs tx_defs hasAccount_def autoT_def atomicT_def

lemma sampleEmails: "\<not> sameEmail ''o@x'' ''m@x''"
  by code_simp

lemma updateGrantsTx_sample:
  "\<exists>s'. atomicT (updateGrantsTx ''u1'' ''u2'' 1 chatGrants) quietWorld teamStore = (Inr (), s') \<and>
     accounts s' = [ownerAccount, memberAccount\<lparr>ac_scopes := encodeUsers [''chat:generate''], ac_models := encodeUsers [], ac_connections := encodeUsers [],
       ac_revision := 2, ac_authRevision := 2, ac_updated := 5\<rparr>]"
  by (simp add: updateGrantsTx_def clampKeys_def clampKey_def Let_def unmarshal_empty sampleEmails activeOwner_def accountCheck_def team_defs team_bodies)

theorem UpdateGrants_clamps_witness:
  "\<exists>v s'. UpdateGrants ''u1'' ''u2'' 1 chatGrants quietWorld quietWorld teamStore = (Inr v, s') \<and>
     (\<forall>k \<in> set (key_table s'). kr_owner k = ''u2'' \<longrightarrow> withinGrants chatGrants k)"
proof -
  from updateGrantsTx_sample obtain s' where tx: "atomicT (updateGrantsTx ''u1'' ''u2'' 1 chatGrants) quietWorld teamStore = (Inr (), s')"
    and a: "accounts s' = [ownerAccount, memberAccount\<lparr>ac_scopes := encodeUsers [''chat:generate''], ac_models := encodeUsers [], ac_connections := encodeUsers [],
       ac_revision := 2, ac_authRevision := 2, ac_updated := 5\<rparr>]" by blast
  have "\<exists>v. fst (autoT (GetUser ''u1'' ''u2'') quietWorld s') = Inr v"
    by (simp add: GetUser_def a encodeUsers_def team_bodies) (simp add: team_defs)
  then obtain v where v: "fst (autoT (GetUser ''u1'' ''u2'') quietWorld s') = Inr v" ..
  have "chatGrants\<lparr>gr_unrestricted := False\<rparr> = chatGrants" by (simp add: chatGrants_def)
  then have run: "UpdateGrants ''u1'' ''u2'' 1 chatGrants quietWorld quietWorld teamStore = (Inr v, s')"
    using tx v by (simp add: UpdateGrants_def validateGrants_sample)
  have "distinct (map ac_id (accounts teamStore))" "distinct (map kr_id (key_table teamStore))" by (simp_all add: team_defs)
  from UpdateGrants_clamps [OF this run] run show ?thesis by auto
qed

section \<open>A pending user made active\<close>

text \<open>
  \<^verbatim>\<open>Update\<close> refuses to make a pending user active: that is for the holder of the activation code. But a
  user is pending only while the code exists, and suspending the user deletes it, so suspending and
  then activating passes: the account is active with the password hash \<^verbatim>\<open>!\<close> of \<^verbatim>\<open>Create\<close>, against which
  no password can be verified.
\<close>

definition pendingAccount :: account_row where
  "pendingAccount = memberAccount\<lparr>ac_status := ''suspended'', ac_passwordHash := ''!''\<rparr>"

definition pendingStore :: identity where
  "pendingStore = ownerStore\<lparr>accounts := [ownerAccount, pendingAccount],
     codes := [\<lparr>tk_verifier = ''c'', tk_user = ''u2'', tk_purpose = ''activation'', tk_expires = 100, tk_created = 5\<rparr>]\<rparr>"

definition toStatus :: "string \<Rightarrow> update_input" where
  "toStatus status = \<lparr>uu_displayName = None, uu_email = None, uu_status = Some status\<rparr>"

lemma pending_user_activated:
  "atomicT (updateUserTx plainEnv ''u1'' ''u2'' 1 (toStatus ''active'')) quietWorld pendingStore =
     (Inl (InputError ''Pending users must activate with their code''), pendingStore)"
  "\<exists>s1. atomicT (updateUserTx plainEnv ''u1'' ''u2'' 1 (toStatus ''suspended'')) quietWorld pendingStore = (Inr (), s1) \<and>
     (\<exists>s2. atomicT (updateUserTx plainEnv ''u1'' ''u2'' 2 (toStatus ''active'')) laterWorld s1 = (Inr (), s2) \<and>
        (\<exists>a \<in> set (accounts s2). ac_id a = ''u2'' \<and> ac_status a = ''active'' \<and> ac_passwordHash a = ''!''))"
  "VerifyPassword env password ''!'' = Inl ''stored password hash uses unsupported parameters''"
proof -
  have j: "unmarshalStrings ''[]'' = Some []" by code_simp
  have m: "sameEmail ''m@x'' ''m@x''" "\<not> sameEmail ''o@x'' ''m@x''" by code_simp+
  note defs = atomicT_def updateUserTx_def refreshActor_def readUser_def viewUser_def decodeGrants_def shownStatus_def newIdentity_def newStatus_def
    canManage_def auditUser_def checkedT_def identity_defs tx_defs hasAccount_def accountCheck_def activeOwner_def pendingStore_def pendingAccount_def memberAccount_def
    ownerStore_def ownerAccount_def quietWorld_def laterWorld_def toStatus_def j m
  show "atomicT (updateUserTx plainEnv ''u1'' ''u2'' 1 (toStatus ''active'')) quietWorld pendingStore =
     (Inl (InputError ''Pending users must activate with their code''), pendingStore)" by (simp add: defs)
  show "\<exists>s1. atomicT (updateUserTx plainEnv ''u1'' ''u2'' 1 (toStatus ''suspended'')) quietWorld pendingStore = (Inr (), s1) \<and>
     (\<exists>s2. atomicT (updateUserTx plainEnv ''u1'' ''u2'' 2 (toStatus ''active'')) laterWorld s1 = (Inr (), s2) \<and>
        (\<exists>a \<in> set (accounts s2). ac_id a = ''u2'' \<and> ac_status a = ''active'' \<and> ac_passwordHash a = ''!''))" by (simp add: defs)
  have "splitOn (CHR ''$'') ''!'' = [''!'']" by code_simp
  then show "VerifyPassword env password ''!'' = Inl ''stored password hash uses unsupported parameters''" by (simp add: VerifyPassword_def)
qed

end
