(* ===== verification/Access.thy ===== *)
theory Access
  imports Users
begin

text \<open>
  The three identity services as one transition system: every operation that changes a table is a
  constructor, a run is any sequence of them with any arguments and worlds, and an invariant of the
  services is a predicate that each of their transactions keeps.
\<close>

section \<open>Operations\<close>

datatype access =
    ACreateKey env string key_input world world world
  | AUpdateKey string string int key_input world world world
  | ARevokeKey string string int world world
  | ARotateKey env string string int world world world
  | AClaim env bool claim_input world world
  | ALogin env bool "(goerr + string) option" login_input "nat \<Rightarrow> world"
  | ASession env string world
  | AActivate env bool activate_input world world
  | ALogout env string world
  | ARecovery env string world
  | ARevokeSession string string world
  | AChangePassword env bool authenticated_session string string string world world
  | AUpdateProfile env bool authenticated_session profile_input world world
  | ACreateUser env string create_input world world
  | AUpdateGrants string string int grants world world
  | AUpdateUser env string string int update_input world world
  | AIssueCode env string string string world world
  | ATransferOwner string string int world

fun act :: "access \<Rightarrow> identity \<Rightarrow> identity" where
  "act (ACreateKey env i input w1 w2 w3) s = snd (CreateKey env i input w1 w2 w3 s)"
| "act (AUpdateKey i k rv input w1 w2 w3) s = snd (UpdateKey i k rv input w1 w2 w3 s)"
| "act (ARevokeKey i k rv w1 w2) s = snd (RevokeKey i k rv w1 w2 s)"
| "act (ARotateKey env i k rv w1 w2 w3) s = snd (RotateKey env i k rv w1 w2 w3 s)"
| "act (AClaim env slot input w1 w2) s = snd (Claim env slot input w1 w2 s)"
| "act (ALogin env slot cached input ws) s = snd (Login env slot cached input ws s)"
| "act (ASession env token w) s = snd (autoT (SessionInfo env token) w s)"
| "act (AActivate env slot input w1 w2) s = snd (Activate env slot input w1 w2 s)"
| "act (ALogout env token w) s = snd (autoT (Logout env token) w s)"
| "act (ARecovery env code w) s = snd (PrepareOwnerRecovery env code w s)"
| "act (ARevokeSession u i w) s = snd (autoT (RevokeSession u i) w s)"
| "act (AChangePassword env slot c old new ua w1 w2) s = snd (ChangePassword env slot c old new ua w1 w2 s)"
| "act (AUpdateProfile env slot c input w1 w2) s = snd (UpdateProfile env slot c input w1 w2 s)"
| "act (ACreateUser env i input w1 w2) s = snd (CreateUser env i input w1 w2 s)"
| "act (AUpdateGrants i t rv g w1 w2) s = snd (UpdateGrants i t rv g w1 w2 s)"
| "act (AUpdateUser env i t rv input w1 w2) s = snd (UpdateUser env i t rv input w1 w2 s)"
| "act (AIssueCode env i t purpose w1 w2) s = snd (IssueCode env i t purpose w1 w2 s)"
| "act (ATransferOwner i t rv w) s = snd (TransferOwner i t rv w s)"

inductive acts :: "identity \<Rightarrow> identity \<Rightarrow> bool" where
  acts_refl: "acts s s"
| acts_step: "acts s s' \<Longrightarrow> acts s (act a s')"

section \<open>Invariants of the services\<close>

text \<open>
  What has to be shown of a predicate: that each body run in a transaction, or as a statement of its
  own, keeps it. \<open>SessionInfo\<close>, \<open>Login\<close> and the other reads are among them through the statements they run.
\<close>

locale access_invariant =
  fixes good :: "identity \<Rightarrow> bool"
  assumes createKey: "keepsT good (createKeyTx i v e k (t, sel, ver) now)"
    and updateKey: "keepsT good (updateKeyTx i k rv v e)"
    and revokeKey: "keepsT good (revokeKeyTx i k rv)"
    and rotateKey: "keepsT good (rotateKeyTx i k rv (t, sel, ver))"
    and claim: "keepsT good (claimTx env em d h i t)"
    and throttle: "keepsT good (upsertThrottle th)" "keepsT good (deleteThrottles p)"
    and session: "keepsT good (insertSessionSelect pa mk)" "keepsT good (updateSessions q f)" "keepsT good (deleteSessions q)"
    and activate: "keepsT good (activateTx env ai h t)"
    and recovery: "keepsT good (prepareOwnerRecoveryTx env t)"
    and password: "keepsT good (changePasswordTx env cur h t ua)"
    and profile: "keepsT good (updateProfileTx env cur em d ua)"
    and createUser: "keepsT good (createUserTx env i ci em d u t now)"
    and grants: "keepsT good (updateGrantsTx i u rv g)"
    and update: "i \<noteq> u \<Longrightarrow> keepsT good (updateUserTx env i u rv ui)"
    and code: "keepsT good (issueCodeTx env i u purpose t)"
    and transfer: "i \<noteq> u \<Longrightarrow> keepsT good (transferOwnerTx i u rv)"
begin

lemmas tx_keeps = createKey updateKey revokeKey rotateKey claim activate recovery password profile createUser grants code

lemma atomic: "keepsT good m \<Longrightarrow> good s \<Longrightarrow> atomicT m w s = (r, s') \<Longrightarrow> good s'"
  using keepsT_atomic [of good m s w] by simp

lemma alone: "keepsT good m \<Longrightarrow> good s \<Longrightarrow> autoT m w s = (r, s') \<Longrightarrow> good s'"
  using keepsT_auto [of good m s w] by simp

lemma keys_step:
  assumes "good s"
  shows "good (snd (CreateKey env i input w1 w2 w3 s))" "good (snd (UpdateKey i k rv input w1 w2 w3 s))"
    "good (snd (RevokeKey i k rv w1 w2 s))" "good (snd (RotateKey env i k rv w1 w2 w3 s))"
  using assms
  by (auto simp: CreateKey_def UpdateKey_def RevokeKey_def RotateKey_def split: prod.splits sum.splits
      dest: atomic [OF createKey assms] atomic [OF updateKey assms] atomic [OF rotateKey assms] intro: keepsT_atomic [OF revokeKey assms])

lemma createSession: "keepsT good (createSession env i t now ua e)"
  unfolding createSession_def by (intro keeps session)

lemma login_step: "good s \<Longrightarrow> good (snd (Login env slot cached input ws s))"
proof -
  assume s: "good s"
  have failure: "keepsT good (recordLoginFailure env subject limit)" for subject limit
    unfolding recordLoginFailure_def Let_def by (intro keeps throttle)
  have failures: "good (snd (recordLoginFailures env email source w1 w2 s))" for email source w1 w2
    using s by (auto simp: recordLoginFailures_def split: prod.splits sum.splits
        dest: atomic [OF failure] intro: keepsT_atomic [OF failure])
  have start: "good s \<Longrightarrow> good (snd (startSession env user ua e w1 w2 s))" for s user ua e w1 w2
  proof -
    assume s: "good s"
    have "keepsT good (bindT nowT (\<lambda>now. thenT (createSession env (au_id user) t now ua e) commitT))" for t by (intro keeps createSession)
    from atomic [OF this s] s show ?thesis by (auto simp: startSession_def split: prod.splits sum.splits)
  qed
  have clear: "keepsT good (clearThrottle env email)" for email unfolding clearThrottle_def by (rule throttle)
  show ?thesis using s failures start alone [OF clear s]
    by (auto simp: Login_def Let_def split: prod.splits sum.splits option.splits; metis snd_conv)
qed

lemma auth_step:
  assumes "good s"
  shows "good (snd (Claim env slot ci w1 w2 s))" "good (snd (Activate env slot vi w1 w2 s))" "good (snd (PrepareOwnerRecovery env t w s))"
    "good (snd (ChangePassword env slot cur old new ua w1 w2 s))" "good (snd (UpdateProfile env slot cur fi w1 w2 s))"
    "good (snd (autoT (SessionInfo env t) w s))" "good (snd (autoT (Logout env t) w s))" "good (snd (autoT (RevokeSession i t) w s))"
proof -
  have "keepsT good (SessionInfo env t)" "keepsT good (Logout env t)" "keepsT good (RevokeSession i t)"
    unfolding SessionInfo_def Logout_def RevokeSession_def Let_def by (intro keeps session)+
  then show "good (snd (autoT (SessionInfo env t) w s))" "good (snd (autoT (Logout env t) w s))" "good (snd (autoT (RevokeSession i t) w s))"
    using assms by (auto intro: keepsT_auto)
qed (use assms in \<open>auto simp: Claim_def Activate_def PrepareOwnerRecovery_def ChangePassword_def UpdateProfile_def split: prod.splits sum.splits
    dest: atomic [OF claim assms] atomic [OF activate assms] atomic [OF password assms] atomic [OF profile assms] intro: keepsT_atomic [OF recovery assms]\<close>)

lemma users_step:
  assumes "good s"
  shows "good (snd (CreateUser env i cu w1 w2 s))" "good (snd (UpdateGrants i u rv g w1 w2 s))" "good (snd (UpdateUser env i u rv ui w1 w2 s))"
    "good (snd (IssueCode env i u purpose w1 w2 s))" "good (snd (TransferOwner i u rv w1 s))"
  using assms
  by (auto simp: CreateUser_def UpdateGrants_def UpdateUser_def IssueCode_def TransferOwner_def Let_def split: prod.splits sum.splits
      dest: atomic [OF createUser assms] atomic [OF grants assms] atomic [OF update assms, rotated] atomic [OF code assms]
      intro: keepsT_atomic [OF transfer assms])

lemma step: "good s \<Longrightarrow> good (act a s)"
  by (cases a) (simp_all add: keys_step login_step auth_step users_step)

lemma run: "acts s s' \<Longrightarrow> good s \<Longrightarrow> good s'"
  by (induction rule: acts.induct) (simp_all add: step)

end

section \<open>One owner\<close>

text \<open>Unique ids, \<open>n\<close> accounts with the role of owner, all of them active.\<close>

definition ownersAre :: "nat \<Rightarrow> account_row list \<Rightarrow> bool" where
  "ownersAre n as \<longleftrightarrow> distinct (map ac_id as) \<and> length (filter (\<lambda>a. ac_role a = ''owner'') as) = n \<and>
     (\<forall>a \<in> set as. ac_role a = ''owner'' \<longrightarrow> ac_status a = ''active'')"

lemma filter_updateWhere: "(\<And>r. r \<in> set rs \<Longrightarrow> p r \<Longrightarrow> q (f r) = q r) \<Longrightarrow> length (filter q (updateWhere p f rs)) = length (filter q rs)"
  by (induction rs) auto

lemma ownersAre_update:
  assumes "ownersAre n as"
    and "\<And>a. a \<in> set as \<Longrightarrow> p a \<Longrightarrow> ac_id (f a) = ac_id a \<and> ac_role (f a) = ac_role a \<and> (ac_role a = ''owner'' \<longrightarrow> ac_status a = ''active'' \<longrightarrow> ac_status (f a) = ''active'')"
  shows "ownersAre n (updateWhere p f as)"
proof -
  have "map ac_id (updateWhere p f as) = map ac_id as" using assms(2) by (induction as) auto
  moreover have "length (filter (\<lambda>a. ac_role a = ''owner'') (updateWhere p f as)) = length (filter (\<lambda>a. ac_role a = ''owner'') as)"
    using assms(2) by (intro filter_updateWhere) simp
  ultimately show ?thesis using assms unfolding ownersAre_def set_updateWhere by auto
qed

lemma updateAccount_owners:
  assumes "\<And>a. ac_id (f a) = ac_id a" "\<And>a. ac_role (f a) = ac_role a" "\<And>a. ac_status a = ''active'' \<Longrightarrow> ac_status (f a) = ''active''"
  shows "keepsT (\<lambda>s. ownersAre n (accounts s)) (updateAccount i p f)"
  using assms by (auto simp: keepsT_def okT_def tx_inv intro: ownersAre_update)

lemma insertAccount_owners: "ac_role a \<noteq> ''owner'' \<Longrightarrow> keepsT (\<lambda>s. ownersAre n (accounts s)) (insertAccount a)"
  by (auto simp: keepsT_def okT_def tx_inv ownersAre_def list_ex_iff)

lemma insertSessionSelect_accounts [keeps]: "keepsT (\<lambda>s. P (accounts s)) (insertSessionSelect p mk)"
  by (auto simp: keepsT_def okT_def insertSessionSelect_def stmtT_def split: if_splits option.splits)

lemmas account_bodies = createKeyTx_def updateKeyTx_def revokeKeyTx_def rotateKeyTx_def allowedForUser_def auditKey_def
  activateTx_def prepareOwnerRecoveryTx_def changePasswordTx_def updateProfileTx_def createSession_def insertUserAudit_def
  updateGrantsTx_def refreshActor_def readUser_def canGrant_def auditUser_def issueCodeTx_def insertCode_def

lemma owners_bodies:
  "keepsT (\<lambda>s. P (accounts s)) (createKeyTx i v e k (t, sel, ver) now)" "keepsT (\<lambda>s. P (accounts s)) (updateKeyTx i k rv v e)"
  "keepsT (\<lambda>s. P (accounts s)) (revokeKeyTx i k rv)" "keepsT (\<lambda>s. P (accounts s)) (rotateKeyTx i k rv (t, sel, ver))"
  "keepsT (\<lambda>s. ownersAre n (accounts s)) (activateTx env ai h t)" "keepsT (\<lambda>s. ownersAre n (accounts s)) (prepareOwnerRecoveryTx env t)"
  "keepsT (\<lambda>s. ownersAre n (accounts s)) (changePasswordTx env cur h t ua)" "keepsT (\<lambda>s. ownersAre n (accounts s)) (updateProfileTx env cur em d ua)"
  "keepsT (\<lambda>s. ownersAre n (accounts s)) (updateGrantsTx i u rv g)" "keepsT (\<lambda>s. ownersAre n (accounts s)) (issueCodeTx env i u purpose t)"
  unfolding account_bodies Let_def prod.case by (intro keeps updateAccount_owners; simp)+

lemma createUser_owners: "keepsT (\<lambda>s. ownersAre n (accounts s)) (createUserTx env i ci em d u t now)"
  unfolding keepsT_def
proof (rule okT_I)
  fix w m s x m' s' assume inv: "ownersAre n (accounts s)" and "createUserTx env i ci em d u t now w (m, s) = Inr (x, m', s')"
  from this(2) show "ownersAre n (accounts s')"
  proof (rule createUserTx_Inr)
    fix actor assume "ac_role actor = ''owner'' \<and> cu_role ci \<in> {''admin'', ''member''} \<or> ac_role actor = ''admin'' \<and> cu_role ci = ''member''"
      "\<not> list_ex (\<lambda>b. ac_id b = u \<or> sameEmail (ac_email b) em) (accounts s)" "accounts s' = accounts s @ [pendingRow u em d ci now]"
    with inv show ?thesis by (auto simp: ownersAre_def pendingRow_def list_ex_iff)
  qed
qed

lemma at_most_one: "length xs \<le> Suc 0 \<Longrightarrow> x \<in> set xs \<Longrightarrow> y \<in> set xs \<Longrightarrow> x = y"
  by (cases xs; cases "tl xs") auto

lemma updateUser_owners:
  assumes "i \<noteq> u" "n \<le> 1"
  shows "keepsT (\<lambda>s. ownersAre n (accounts s)) (updateUserTx env i u rv ui)"
  unfolding keepsT_def
proof (rule okT_I)
  fix w m s x m' s' assume inv: "ownersAre n (accounts s)" and "updateUserTx env i u rv ui w (m, s) = Inr (x, m', s')"
  from this(2) show "ownersAre n (accounts s')"
  proof (rule updateUserTx_Inr)
    fix actor target email d status now
    assume a: "find (\<lambda>a. ac_id a = i \<and> ac_status a = ''active'') (accounts s) = Some actor" "find (\<lambda>a. ac_id a = u) (accounts s) = Some target"
      "ac_role actor = ''owner'' \<or> ac_role actor = ''admin'' \<and> ac_role target = ''member''"
      and s': "accounts s' = updateWhere (\<lambda>a. ac_id a = u \<and> ac_revision a = rv) (\<lambda>a. a\<lparr>ac_email := email, ac_displayName := d,
        ac_status := status, ac_revision := ac_revision a + 1,
        ac_authRevision := ac_authRevision a + (if ac_status a \<noteq> status \<or> \<not> sameEmail (ac_email a) email then 1 else 0), ac_updated := now\<rparr>) (accounts s)"
    from find_SomeD [OF a(1)] find_SomeD [OF a(2)] have m: "actor \<in> set (accounts s)" "target \<in> set (accounts s)" "ac_id actor = i" "ac_id target = u" by auto
    have "ac_role target \<noteq> ''owner''"
    proof
      assume o: "ac_role target = ''owner''"
      then have "ac_role actor = ''owner''" using a(3) by simp
      with o m have both: "actor \<in> set (filter (\<lambda>a. ac_role a = ''owner'') (accounts s))" "target \<in> set (filter (\<lambda>a. ac_role a = ''owner'') (accounts s))"
        by simp_all
      have "length (filter (\<lambda>a. ac_role a = ''owner'') (accounts s)) \<le> Suc 0" using inv assms(2) by (simp add: ownersAre_def)
      from at_most_one [OF this both] have "actor = target" .
      with m assms(1) show False by simp
    qed
    then have "ac_role a \<noteq> ''owner''" if "a \<in> set (accounts s)" "ac_id a = u" for a
      using distinct_keyD [of ac_id "accounts s" a target] inv m that by (simp add: ownersAre_def)
    then show ?thesis unfolding s' by (intro ownersAre_update [OF inv]) auto
  qed
qed

lemma filter_leave: "(\<And>r. p r \<Longrightarrow> \<not> q (f r)) \<Longrightarrow> filter q (updateWhere p f rs) = filter (\<lambda>r. q r \<and> \<not> p r) rs"
  by (induction rs) auto

lemma filter_enter:
  "(\<And>r. p r \<Longrightarrow> q (f r)) \<Longrightarrow> length (filter q (updateWhere p f rs)) = length (filter (\<lambda>r. q r \<and> \<not> p r) rs) + length (filter p rs)"
  by (induction rs) auto

lemma transfer_owners:
  assumes ids: "ownersAre n as" "n \<le> 1" and one: "length (filter (\<lambda>a. ac_id a = i \<and> ac_role a = ''owner'') as) = 1"
    and two: "length (filter (\<lambda>a. ac_id a = u \<and> ac_role a = ''admin'' \<and> ac_status a = ''active'' \<and> ac_revision a = rv)
       (updateWhere (\<lambda>a. ac_id a = i \<and> ac_role a = ''owner'') (demoted now) as)) = 1"
  shows "ownersAre n (updateWhere (\<lambda>a. ac_id a = u \<and> ac_role a = ''admin'' \<and> ac_status a = ''active'' \<and> ac_revision a = rv) (promoted now)
       (updateWhere (\<lambda>a. ac_id a = i \<and> ac_role a = ''owner'') (demoted now) as))"
    (is "ownersAre n (updateWhere ?p2 (promoted now) ?bs)")
proof -
  let ?p1 = "\<lambda>a. ac_id a = i \<and> ac_role a = ''owner''" and ?own = "\<lambda>a. ac_role a = ''owner''"
  have split: "length (filter ?own as) = length (filter (\<lambda>a. ?own a \<and> \<not> ?p1 a) as) + length (filter ?p1 as)"
    by (induction as) auto
  have "length (filter ?own as) = n" using ids(1) by (simp add: ownersAre_def)
  with split one ids(2) have "n = 1" "length (filter (\<lambda>a. ?own a \<and> \<not> ?p1 a) as) = 0" by linarith+
  then have n: "n = 1" "filter (\<lambda>a. ?own a \<and> \<not> ?p1 a) as = []" by (simp_all only: length_0_conv)
  have none: "filter ?own ?bs = []" using n(2) by (subst filter_leave) (simp_all add: demoted_def)
  then have "filter (\<lambda>a. ?own a \<and> \<not> ?p2 a) ?bs = []" by (auto simp: filter_empty_conv)
  then have "length (filter ?own (updateWhere ?p2 (promoted now) ?bs)) = n"
    using two n(1) by (subst filter_enter) (simp_all add: promoted_def)
  moreover have "map ac_id (updateWhere ?p2 (promoted now) ?bs) = map ac_id as"
    by (simp add: map_updateWhere promoted_def demoted_def)
  moreover have "ac_status a = ''active''" if a: "a \<in> set (updateWhere ?p2 (promoted now) ?bs)" "?own a" for a
  proof -
    from a(1) obtain b where b: "b \<in> set ?bs" "a = (if ?p2 b then promoted now b else b)"
      by (subst (asm) set_updateWhere) (erule imageE)
    show ?thesis
    proof (cases "?p2 b")
      case True
      with b show ?thesis by (simp add: promoted_def)
    next
      case False
      with a(2) b have "b \<in> set (filter ?own ?bs)" by simp
      with none show ?thesis by simp
    qed
  qed
  ultimately show ?thesis using ids(1) by (simp add: ownersAre_def)
qed

lemma transferOwner_owners: "n \<le> 1 \<Longrightarrow> keepsT (\<lambda>s. ownersAre n (accounts s)) (transferOwnerTx i u rv)"
  unfolding keepsT_def
proof (rule okT_I)
  fix w m s x m' s' assume "n \<le> 1" "ownersAre n (accounts s)" and run: "transferOwnerTx i u rv w (m, s) = Inr (x, m', s')"
  from run show "ownersAre n (accounts s')"
    by (rule transferOwnerTx_Inr) (simp only:, rule transfer_owners [OF \<open>ownersAre n (accounts s)\<close> \<open>n \<le> 1\<close>])
qed

text \<open>The claim makes the first owner, and only when there is none.\<close>

lemma claimTx_Inr:
  assumes "claimTx env em d h i t w (n, s) = Inr (x, n', s')"
  obtains now where "filter activeOwner (accounts s) = []" "\<forall>a \<in> set (accounts s). ac_id a \<noteq> i" "accounts s' = accounts s @ [ownerRow i em d h now]"
proof -
  have session: "createSession env i t now [] 0 w (m, s1) = Inr (y, m', s2) \<Longrightarrow> accounts s2 = accounts s1" for now m s1 y m' s2
  proof -
    assume run: "createSession env i t now [] 0 w (m, s1) = Inr (y, m', s2)"
    have "keepsT (\<lambda>s. (\<lambda>as. as = accounts s1) (accounts s)) (createSession env i t now [] 0)" unfolding createSession_def by (intro keeps)
    from keepsT_D [OF this refl run] show ?thesis .
  qed
  have audit: "insertUserAudit i a r dt w (m, s1) = Inr (y, m', s2) \<Longrightarrow> accounts s2 = accounts s1" for a r dt m s1 y m' s2
    by (clarsimp simp: insertUserAudit_def tx_inv elim!: tx_elim)
  have o: "ac_id (ownerRow i em d h now) = i" for now by (simp add: ownerRow_def)
  from assms show ?thesis
    by (clarsimp simp: claimTx_def tx_inv o list_ex_iff elim!: tx_elim dest!: session audit) (rule that, auto)
qed

lemma ownerRow_appended:
  assumes "ownersAre n as" "filter activeOwner as = []" "\<forall>a \<in> set as. ac_id a \<noteq> i"
  shows "n = 0" "ownersAre 1 (as @ [ownerRow i em d h now])"
proof -
  have "filter (\<lambda>a. ac_role a = ''owner'') as = filter activeOwner as"
    using assms(1) by (intro filter_cong) (auto simp: ownersAre_def activeOwner_def)
  with assms show "n = 0" "ownersAre 1 (as @ [ownerRow i em d h now])" by (auto simp: ownersAre_def ownerRow_def)
qed

lemma claim_owners: "keepsT (\<lambda>s. ownersAre 1 (accounts s)) (claimTx env em d h i t)"
  unfolding keepsT_def by (rule okT_I, erule claimTx_Inr) (drule ownerRow_appended(1), assumption+, simp)

lemma claim_first: "keepsT (\<lambda>s. ownersAre 0 (accounts s) \<or> ownersAre 1 (accounts s)) (claimTx env em d h i t)"
  unfolding keepsT_def
proof (rule okT_I)
  fix w m s x m' s' assume "ownersAre 0 (accounts s) \<or> ownersAre 1 (accounts s)" and run: "claimTx env em d h i t w (m, s) = Inr (x, m', s')"
  then obtain n where n: "ownersAre n (accounts s)" by blast
  from run show "ownersAre 0 (accounts s') \<or> ownersAre 1 (accounts s')"
    by (rule claimTx_Inr) (rule disjI2, simp only:, rule ownerRow_appended(2) [OF n])
qed

interpretation owned: access_invariant "\<lambda>s. ownersAre 1 (accounts s)"
  by unfold_locales (intro keeps owners_bodies claim_owners createUser_owners updateUser_owners transferOwner_owners; simp)+

lemma keepsT_disj: "keepsT P m \<Longrightarrow> keepsT Q m \<Longrightarrow> keepsT (\<lambda>s. P s \<or> Q s) m"
  unfolding keepsT_def okT_def by blast

interpretation ownable: access_invariant "\<lambda>s. ownersAre 0 (accounts s) \<or> ownersAre 1 (accounts s)"
  by unfold_locales
    ((rule claim_first | intro keepsT_disj), (intro keeps owners_bodies createUser_owners updateUser_owners transferOwner_owners; simp)+)+

lemma Claim_refused:
  assumes "ownersAre 1 (accounts s)"
  shows "fst (Claim env slot input w1 w2 s) \<noteq> Inr r"
proof
  assume "fst (Claim env slot input w1 w2 s) = Inr r"
  then obtain em d h i t u s' where "atomicT (claimTx env em d h i t) w2 s = (Inr u, s')" by (auto simp: Claim_def split: prod.splits sum.splits)
  from atomicT_Inr [OF this] obtain n n' where "claimTx env em d h i t w2 (n, s) = Inr (u, n', s')" by blast
  then show False by (rule claimTx_Inr) (use ownerRow_appended(1) [OF assms] in simp)
qed

text \<open>
  (C5) Once the instance is claimed it has exactly one account with the role of owner, and that account is
  active, after any sequence of operations of the three services with any arguments, clocks, random
  tokens and driver failures: no transfer, suspension, activation or second claim loses it or makes
  another, and every later claim is refused. Before the claim, starting from empty tables, there is no
  owner at all.
\<close>

theorem one_active_owner:
  assumes "acts s s'"
  shows "(ownersAre 1 (accounts s) \<longrightarrow> ownersAre 1 (accounts s') \<and> fst (Claim env slot input w1 w2 s') \<noteq> Inr r) \<and>
         (accounts s = [] \<longrightarrow> ownersAre 0 (accounts s') \<or> ownersAre 1 (accounts s'))"
proof -
  have "accounts s = [] \<Longrightarrow> ownersAre 0 (accounts s)" by (simp add: ownersAre_def)
  then show ?thesis using owned.run [OF assms] ownable.run [OF assms] Claim_refused by blast
qed

theorem one_active_owner_witness:
  "acts ownerStore (act (AUpdateUser plainEnv ''u1'' ''u1'' 1 \<lparr>uu_displayName = None, uu_email = None, uu_status = Some ''suspended''\<rparr> quietWorld quietWorld) ownerStore) \<and>
   ownersAre 1 (accounts (act (AUpdateUser plainEnv ''u1'' ''u1'' 1 \<lparr>uu_displayName = None, uu_email = None, uu_status = Some ''suspended''\<rparr> quietWorld quietWorld) ownerStore))"
proof -
  let ?s' = "act (AUpdateUser plainEnv ''u1'' ''u1'' 1 \<lparr>uu_displayName = None, uu_email = None, uu_status = Some ''suspended''\<rparr> quietWorld quietWorld) ownerStore"
  have run: "acts ownerStore ?s'" by (rule acts_step [OF acts_refl])
  have "ownersAre 1 (accounts ownerStore)" by (simp add: ownersAre_def ownerStore_def ownerAccount_def)
  with one_active_owner [OF run] run show ?thesis by blast
qed

section \<open>Revoked keys\<close>

definition revokedKey :: "string \<Rightarrow> api_key_row list \<Rightarrow> bool" where
  "revokedKey i ks \<longleftrightarrow> (\<exists>k \<in> set ks. kr_id k = i) \<and> (\<forall>k \<in> set ks. kr_id k = i \<longrightarrow> kr_state k = ''revoked'')"

lemma revokedKey_update:
  assumes "revokedKey i ks" "\<And>k. kr_id (f k) = kr_id k" "\<And>k. p k \<Longrightarrow> kr_state k = ''revoked'' \<Longrightarrow> kr_state (f k) = ''revoked''"
  shows "revokedKey i (updateWhere p f ks)"
proof -
  have "kr_id (if p k then f k else k) = kr_id k" for k using assms(2) by simp
  moreover have "kr_state k = ''revoked'' \<Longrightarrow> kr_state (if p k then f k else k) = ''revoked''" for k using assms(3) by simp
  ultimately show ?thesis using assms(1) by (simp add: revokedKey_def set_updateWhere del: if_image_distrib)
qed

lemma updateKeys_revoked:
  "(\<And>k. kr_id (f k) = kr_id k) \<Longrightarrow> (\<And>k. p k \<Longrightarrow> kr_state k = ''revoked'' \<Longrightarrow> kr_state (f k) = ''revoked'') \<Longrightarrow>
   keepsT (\<lambda>s. revokedKey i (key_table s)) (updateKeys p f)"
  unfolding keepsT_def by (rule okT_I) (simp add: tx_inv revokedKey_update)

lemma key_table_keeps:
  "keepsT (\<lambda>s. revokedKey i (key_table s)) (insertKey k)" "keepsT (\<lambda>s. P (key_table s)) (insertSecret r)" "keepsT (\<lambda>s. P (key_table s)) (updateSecrets q g)"
  "keepsT (\<lambda>s. P (key_table s)) (insertSessionSelect pa mk)"
  by (auto simp: keepsT_def okT_def tx_inv revokedKey_def list_ex_iff insertSessionSelect_def stmtT_def split: if_splits option.splits)

interpretation revoked: access_invariant "\<lambda>s. revokedKey i (key_table s)" for i
  by unfold_locales
    ((unfold account_bodies claimTx_def createUserTx_def updateUserTx_def transferOwnerTx_def clampKeys_def clampKey_def Let_def prod.case)?;
     intro keeps key_table_keeps updateKeys_revoked; simp)+

lemma revokeKeyTx_revokes:
  assumes ids: "distinct (map kr_id (key_table s))" and run: "revokeKeyTx o1 i rv w (n, s) = Inr (x, n', s')"
  shows "revokedKey i (key_table s')"
proof -
  let ?p = "\<lambda>k. kr_id k = i \<and> kr_owner k = o1 \<and> kr_revision k = rv \<and> kr_state k \<noteq> ''revoked''"
  from run obtain now where one: "length (filter ?p (key_table s)) = 1"
    and s': "key_table s' = updateWhere ?p (\<lambda>k. k\<lparr>kr_state := ''revoked'', kr_revision := kr_revision k + 1, kr_updated := now\<rparr>) (key_table s)"
    by (clarsimp simp: revokeKeyTx_def tx_inv elim!: tx_elim auditKey_Inr)
  from one obtain k where "filter ?p (key_table s) = [k]" by (cases "filter ?p (key_table s)") simp_all
  then have "k \<in> set (filter ?p (key_table s))" by simp
  then have k: "k \<in> set (key_table s)" "?p k" by simp_all
  have only: "y = k" if "y \<in> set (key_table s)" "kr_id y = i" for y using distinct_keyD [OF ids that(1) k(1)] that(2) k(2) by simp
  have "map kr_id (key_table s') = map kr_id (key_table s)" by (simp add: s' map_updateWhere)
  then have "kr_id ` set (key_table s') = kr_id ` set (key_table s)" by (metis set_map)
  then have "i \<in> kr_id ` set (key_table s')" using k by blast
  moreover have "kr_state y = ''revoked''" if y: "y \<in> set (key_table s')" "kr_id y = i" for y
  proof -
    from y(1) obtain z where z: "z \<in> set (key_table s)" "y = (if ?p z then z\<lparr>kr_state := ''revoked'', kr_revision := kr_revision z + 1, kr_updated := now\<rparr> else z)"
      unfolding s' by (subst (asm) set_updateWhere) (erule imageE)
    then have "kr_id z = i" using y(2) by (simp split: if_splits)
    with only z(1) have "z = k" by simp
    with z(2) k(2) show ?thesis by simp
  qed
  ultimately show ?thesis by (auto simp: revokedKey_def)
qed

text \<open>
  (C6) Revocation is final: after a successful \<^verbatim>\<open>Revoke\<close> of a key (in a table with unique key ids) and any
  further sequence of operations of the three services, no token ever authenticates as that key
  again and the key has no principal.
\<close>

theorem RevokeKey_final:
  assumes "distinct (map kr_id (key_table s0))" and run: "RevokeKey ownerID keyID rv w1 w2 s0 = (Inr (), s)" and later: "acts s s'"
  shows "(fst (autoT (Authenticate env token) w s') = Inr p \<longrightarrow> pn_key p \<noteq> keyID) \<and> fst (autoT (PrincipalOf keyID) w s') \<noteq> Inr q"
proof -
  from run have "atomicT (revokeKeyTx ownerID keyID rv) w2 s0 = (Inr (), s)" by (auto simp: RevokeKey_def split: prod.splits sum.splits)
  from atomicT_Inr [OF this] revokeKeyTx_revokes [OF assms(1)] have "revokedKey keyID (key_table s)" by blast
  with revoked.run [OF later] have r: "revokedKey keyID (key_table s')" by blast
  have dead: "kr_id k \<noteq> keyID" if "(k, a) \<in> set (keyJoin s')" "liveKey now (k, a)" for k a now
    using that r by (auto simp: in_keyJoin liveKey_def revokedKey_def)
  have "pn_key p \<noteq> keyID" if "fst (autoT (Authenticate env token) w s') = Inr p"
  proof -
    from fst_autoT_Inr [OF that] obtain n s1 where "Authenticate env token w (0, s') = Inr (p, n, s1)" by blast
    then show ?thesis by (rule Authenticate_Inr) (use dead in \<open>auto simp: decodePrincipal_def split: bind_splits if_splits\<close>)
  qed
  moreover have "fst (autoT (PrincipalOf keyID) w s') \<noteq> Inr q"
  proof
    assume "fst (autoT (PrincipalOf keyID) w s') = Inr q"
    from fst_autoT_Inr [OF this] obtain n s1 where "PrincipalOf keyID w (0, s') = Inr (q, n, s1)" by blast
    then show False by (rule PrincipalOf_Inr) (use dead in blast)
  qed
  ultimately show ?thesis by blast
qed

theorem RevokeKey_final_witness:
  "\<exists>s. RevokeKey ''u1'' ''key_r'' 1 quietWorld laterWorld keyStore = (Inr (), s) \<and>
     (\<forall>q. fst (autoT (PrincipalOf ''key_r'') laterWorld (act (ARotateKey plainEnv ''u1'' ''key_r'' 2 laterWorld laterWorld laterWorld) s)) \<noteq> Inr q)"
proof -
  have g: "\<exists>item. fst (autoT (GetKey ''u1'' ''key_r'') quietWorld keyStore) = Inr item"
    by (simp add: autoT_def GetKey_def tx_defs quietWorld_def keyStore_def scanKey_def sampleKeyRow_def)
  have "\<exists>s. atomicT (revokeKeyTx ''u1'' ''key_r'' 1) laterWorld keyStore = (Inr (), s)"
    by (simp add: atomicT_def revokeKeyTx_def auditKey_def identity_defs tx_defs hasAccount_def laterWorld_def keyStore_def ownerStore_def
        sampleKeyRow_def sampleSecret_def ownerAccount_def)
  then obtain s where tx: "atomicT (revokeKeyTx ''u1'' ''key_r'' 1) laterWorld keyStore = (Inr (), s)" ..
  from g obtain item where "fst (autoT (GetKey ''u1'' ''key_r'') quietWorld keyStore) = Inr item" ..
  with tx have run: "RevokeKey ''u1'' ''key_r'' 1 quietWorld laterWorld keyStore = (Inr (), s)"
    by (cases "autoT (GetKey ''u1'' ''key_r'') quietWorld keyStore") (simp add: RevokeKey_def)
  have "distinct (map kr_id (key_table keyStore))" by (simp add: keyStore_def)
  from RevokeKey_final [OF this run acts_step [OF acts_refl]] run show ?thesis by blast
qed

section \<open>What an admin may touch\<close>

abbreviation nonMembers :: "identity \<Rightarrow> account_row list" where
  "nonMembers s \<equiv> filter (\<lambda>a. ac_role a \<noteq> ''member'') (accounts s)"

lemma filter_untouched: "(\<And>r. r \<in> set rs \<Longrightarrow> p r \<Longrightarrow> \<not> q r \<and> \<not> q (f r)) \<Longrightarrow> filter q (updateWhere p f rs) = filter q rs"
  by (induction rs) auto

lemma member_rewritten:
  assumes "distinct (map ac_id (accounts s))" "find (\<lambda>a. ac_id a = u) (accounts s) = Some target" "ac_role target = ''member''"
    "\<And>a. ac_role (f a) = ac_role a" "accounts s' = updateWhere (\<lambda>a. ac_id a = u \<and> p a) f (accounts s)"
  shows "nonMembers s' = nonMembers s"
proof -
  from find_SomeD [OF assms(2)] have t: "target \<in> set (accounts s)" "ac_id target = u" by simp_all
  have "ac_role a = ''member''" if "a \<in> set (accounts s)" "ac_id a = u" for a
    using distinct_keyD [OF assms(1) that(1) t(1)] that(2) t(2) assms(3) by simp
  then show ?thesis using assms(4) unfolding assms(5) by (intro filter_untouched) simp
qed

lemma admin_txs:
  assumes ids: "distinct (map ac_id (accounts s))" and actor: "find (\<lambda>a. ac_id a = i \<and> ac_status a = ''active'') (accounts s) = Some actor"
    and admin: "ac_role actor = ''admin''"
  shows "createUserTx env i ci em d u t now w (n, s) = Inr (x, n', s') \<Longrightarrow> nonMembers s' = nonMembers s"
    and "updateGrantsTx i u rv g w (n, s) = Inr (x, n', s') \<Longrightarrow> nonMembers s' = nonMembers s"
    and "updateUserTx env i u rv ui w (n, s) = Inr (x, n', s') \<Longrightarrow> nonMembers s' = nonMembers s"
    and "issueCodeTx env i u purpose t w (n, s) = Inr (x, n', s') \<Longrightarrow> nonMembers s' = nonMembers s"
    and "transferOwnerTx i u rv w (n, s) \<noteq> Inr (x, n', s')"
proof -
  show "createUserTx env i ci em d u t now w (n, s) = Inr (x, n', s') \<Longrightarrow> nonMembers s' = nonMembers s"
    by (erule createUserTx_Inr) (use actor admin in \<open>simp add: pendingRow_def\<close>)
  show "updateGrantsTx i u rv g w (n, s) = Inr (x, n', s') \<Longrightarrow> nonMembers s' = nonMembers s"
  proof (erule updateGrantsTx_Inr)
    fix actor' target now m y m' s2
    assume a: "find (\<lambda>a. ac_id a = i \<and> ac_status a = ''active'') (accounts s) = Some actor'" "find (\<lambda>a. ac_id a = u) (accounts s) = Some target"
      "ac_role actor' = ''owner'' \<or> ac_role actor' = ''admin'' \<and> ac_role target = ''member''"
      and clamp: "clampKeys u g now w (m, accounts_update (updateWhere (\<lambda>a. ac_id a = u \<and> ac_revision a = rv)
        (\<lambda>a. a\<lparr>ac_scopes := encodeUsers (gr_scopes g), ac_models := encodeUsers (gr_models g), ac_connections := encodeUsers (gr_connections g),
           ac_revision := ac_revision a + 1, ac_authRevision := ac_authRevision a + 1, ac_updated := now\<rparr>)) s) = Inr (y, m', s2)" (is "clampKeys u g now w (m, ?s1) = _")
      and acc: "accounts s' = accounts s2"
    have member: "ac_role target = ''member''" using a actor admin by simp
    have "accounts s2 = accounts ?s1"
      using keepsT_D [OF clampKeys_keeps_accounts [of "\<lambda>as. as = accounts ?s1"] refl clamp] .
    then show "nonMembers s' = nonMembers s" by (intro member_rewritten [OF ids a(2) member]) (simp_all add: acc)
  qed
  show "updateUserTx env i u rv ui w (n, s) = Inr (x, n', s') \<Longrightarrow> nonMembers s' = nonMembers s"
  proof (erule updateUserTx_Inr)
    fix actor' target email d status now
    assume a: "find (\<lambda>a. ac_id a = i \<and> ac_status a = ''active'') (accounts s) = Some actor'" "find (\<lambda>a. ac_id a = u) (accounts s) = Some target"
      "ac_role actor' = ''owner'' \<or> ac_role actor' = ''admin'' \<and> ac_role target = ''member''"
      and s': "accounts s' = updateWhere (\<lambda>a. ac_id a = u \<and> ac_revision a = rv) (\<lambda>a. a\<lparr>ac_email := email, ac_displayName := d,
        ac_status := status, ac_revision := ac_revision a + 1,
        ac_authRevision := ac_authRevision a + (if ac_status a \<noteq> status \<or> \<not> sameEmail (ac_email a) email then 1 else 0), ac_updated := now\<rparr>) (accounts s)"
    have member: "ac_role target = ''member''" using a actor admin by simp
    show "nonMembers s' = nonMembers s" by (rule member_rewritten [OF ids a(2) member _ s']) simp
  qed
  show "issueCodeTx env i u purpose t w (n, s) = Inr (x, n', s') \<Longrightarrow> nonMembers s' = nonMembers s"
  proof (erule issueCodeTx_Inr)
    fix actor' target now
    assume a: "find (\<lambda>a. ac_id a = i \<and> ac_status a = ''active'') (accounts s) = Some actor'" "find (\<lambda>a. ac_id a = u) (accounts s) = Some target"
      "ac_role actor' = ''owner'' \<or> ac_role actor' = ''admin'' \<and> ac_role target = ''member''"
      and s': "accounts s' = updateWhere (\<lambda>a. ac_id a = u)
        (\<lambda>a. a\<lparr>ac_authRevision := ac_authRevision a + 1, ac_revision := ac_revision a + 1, ac_updated := now\<rparr>) (accounts s)"
    have member: "ac_role target = ''member''" using a actor admin by simp
    show "nonMembers s' = nonMembers s" by (rule member_rewritten [OF ids a(2) member, where p = "\<lambda>_. True"]) (simp_all add: s')
  qed simp
  show "transferOwnerTx i u rv w (n, s) \<noteq> Inr (x, n', s')"
  proof
    assume "transferOwnerTx i u rv w (n, s) = Inr (x, n', s')"
    then show False using actor admin by (clarsimp simp: transferOwnerTx_def tx_inv elim!: tx_elim refreshActor_Inr)
  qed
qed

lemma snd_case_tx: "snd (case r of (Inl e, s') \<Rightarrow> (Inl e, s') | (Inr x, s') \<Rightarrow> (f x s', s')) = snd r"
  by (auto split: prod.split sum.split)

text \<open>
  (C11) An admin manages members only: whatever an active admin does through the users service (create a
  user, change grants, email, name or status, issue a code, transfer the ownership), the accounts that
  are not members, the owner's, the admins' and his own, stay exactly as they were.
\<close>

theorem admin_confined:
  assumes ids: "distinct (map ac_id (accounts s))" and actor: "find (\<lambda>a. ac_id a = i \<and> ac_status a = ''active'') (accounts s) = Some actor"
    and admin: "ac_role actor = ''admin''"
    and "a \<in> {ACreateUser env i ci w1 w2, AUpdateGrants i u rv g w1 w2, AUpdateUser env i u rv ui w1 w2, AIssueCode env i u purpose w1 w2, ATransferOwner i u rv w1}"
  shows "nonMembers (act a s) = nonMembers s"
proof -
  note txs = admin_txs [OF ids actor admin]
  have tx: "nonMembers (snd (atomicT m w s)) = nonMembers s"
    if "\<And>n x n' s1. m w (n, s) = Inr (x, n', s1) \<Longrightarrow> nonMembers s1 = nonMembers s" for m :: "unit itx" and w
  proof (cases "atomicT m w s")
    case (Pair r s1)
    show ?thesis
    proof (cases r)
      case (Inl e)
      with Pair atomicT_error [of m w s e] show ?thesis by simp
    next
      case (Inr x)
      with Pair atomicT_Inr [of m w s x s1] that show ?thesis by auto
    qed
  qed
  have create: "nonMembers (snd (CreateUser env i ci w1 w2 s)) = nonMembers s"
    unfolding CreateUser_def Let_def by (auto split: prod.split sum.split simp: snd_case_tx) (rule tx, rule txs(1))
  have grants: "nonMembers (snd (UpdateGrants i u rv g w1 w2 s)) = nonMembers s"
    using tx [OF txs(2)] by (simp add: UpdateGrants_def Let_def snd_case_tx split: sum.split)
  have update: "nonMembers (snd (UpdateUser env i u rv ui w1 w2 s)) = nonMembers s"
    using tx [OF txs(3)] by (simp add: UpdateUser_def snd_case_tx)
  have issue: "nonMembers (snd (IssueCode env i u purpose w1 w2 s)) = nonMembers s"
  proof -
    have "nonMembers (snd (atomicT (issueCodeTx env i u purpose t) w2 s)) = nonMembers s" for t purpose by (rule tx) (rule txs(4))
    then show ?thesis by (simp add: IssueCode_def snd_case_tx split: prod.split sum.split)
  qed
  have transfer: "nonMembers (snd (TransferOwner i u rv w1 s)) = nonMembers s"
    unfolding TransferOwner_def using tx [OF txs(5) [THEN notE]] by simp
  from assms(4) show ?thesis by (elim insertE emptyE; simp add: create grants update issue transfer)
qed

definition adminStore :: identity where
  "adminStore = teamStore\<lparr>accounts := [ownerAccount, memberAccount, memberAccount\<lparr>ac_id := ''u3'', ac_email := ''a@x'', ac_role := ''admin''\<rparr>]\<rparr>"

theorem admin_confined_witness:
  "nonMembers (act (AUpdateUser plainEnv ''u3'' ''u1'' 1 \<lparr>uu_displayName = None, uu_email = None, uu_status = Some ''suspended''\<rparr> quietWorld quietWorld) adminStore) =
     [ownerAccount, memberAccount\<lparr>ac_id := ''u3'', ac_email := ''a@x'', ac_role := ''admin''\<rparr>]"
proof -
  have ids: "distinct (map ac_id (accounts adminStore))" by (simp add: adminStore_def ownerAccount_def memberAccount_def)
  have f: "find (\<lambda>a. ac_id a = ''u3'' \<and> ac_status a = ''active'') (accounts adminStore) = Some (memberAccount\<lparr>ac_id := ''u3'', ac_email := ''a@x'', ac_role := ''admin''\<rparr>)"
    by (simp add: adminStore_def ownerAccount_def memberAccount_def)
  have "nonMembers adminStore = [ownerAccount, memberAccount\<lparr>ac_id := ''u3'', ac_email := ''a@x'', ac_role := ''admin''\<rparr>]"
    by (simp add: adminStore_def ownerAccount_def memberAccount_def)
  moreover have "nonMembers (act (AUpdateUser plainEnv ''u3'' ''u1'' 1 \<lparr>uu_displayName = None, uu_email = None, uu_status = Some ''suspended''\<rparr>
      quietWorld quietWorld) adminStore) = nonMembers adminStore"
    by (rule admin_confined [OF ids f _ insertI2 [OF insertI2 [OF insertI1]]]) simp
  ultimately show ?thesis by simp
qed

end
