(* ===== verification/Logins.thy ===== *)
theory Logins
  imports Users
begin

text \<open>
  What the authentication service guarantees over several calls: the throttle that closes an account's
  login after five wrong passwords, the session that a login opens, and the change of password that
  ends every other session.
\<close>

section \<open>Throttled logins\<close>

text \<open>The throttle of one subject: its window and failures; the subjects are unique.\<close>

definition failuresAre :: "string \<Rightarrow> int \<Rightarrow> int \<Rightarrow> int \<Rightarrow> identity \<Rightarrow> bool" where
  "failuresAre sub started k blocked s \<longleftrightarrow> distinct (map th_subject (throttles s)) \<and>
     \<lparr>th_subject = sub, th_window = started, th_failures = k, th_blocked = blocked\<rparr> \<in> set (throttles s)"

lemma find_subject:
  assumes "distinct (map th_subject ts)" "r \<in> set ts"
  shows "find (\<lambda>t. th_subject t = th_subject r) ts = Some r"
  using find_distinct [OF assms] .

lemma upsert_distinct:
  "distinct (map th_subject ts) \<Longrightarrow> distinct (map th_subject (updateWhere (\<lambda>t. th_subject t = th_subject r) (\<lambda>_. r) ts))"
proof -
  have "map th_subject (updateWhere (\<lambda>t. th_subject t = th_subject r) (\<lambda>_. r) ts) = map th_subject ts" by (induction ts) simp_all
  then show "distinct (map th_subject ts) \<Longrightarrow> ?thesis" by simp
qed

lemma recordLoginFailure_Inr:
  assumes "recordLoginFailure env subject limit w (n, s) = Inr (x, n', s')" and ids: "distinct (map th_subject (throttles s))"
  obtains row kept where
    "kept = filter (\<lambda>t. \<not> (th_window t < w_now w n - loginWindow \<and> th_blocked t \<le> w_now w n)) (throttles s)"
    "row = (case find (\<lambda>t. th_subject t = verifierBytes env subject) kept of
        Some t \<Rightarrow> if th_window t + loginWindow \<le> w_now w n then (w_now w n, 0) else (th_window t, th_failures t) | None \<Rightarrow> (w_now w n, 0))"
    "failuresAre (verifierBytes env subject) (fst row) (snd row + 1) (if snd row + 1 \<ge> limit then w_now w n + loginBlock else 0) s'"
    "\<forall>t \<in> set kept. th_subject t \<noteq> verifierBytes env subject \<longrightarrow> t \<in> set (throttles s')"
    "\<forall>t \<in> set (throttles s'). th_subject t = verifierBytes env subject \<or> t \<in> set kept"
proof -
  let ?kept = "filter (\<lambda>t. \<not> (th_window t < w_now w n - loginWindow \<and> th_blocked t \<le> w_now w n)) (throttles s)"
  let ?row = "case find (\<lambda>t. th_subject t = verifierBytes env subject) ?kept of
        Some t \<Rightarrow> if th_window t + loginWindow \<le> w_now w n then (w_now w n, 0) else (th_window t, th_failures t) | None \<Rightarrow> (w_now w n, 0)"
  let ?new = "\<lparr>th_subject = verifierBytes env subject, th_window = fst ?row, th_failures = snd ?row + 1,
     th_blocked = if snd ?row + 1 \<ge> limit then w_now w n + loginBlock else 0\<rparr>"
  have kept: "distinct (map th_subject ?kept)" using ids by (rule distinct_map_filter)
  have "throttles s' = (if list_ex (\<lambda>t. th_subject t = verifierBytes env subject) ?kept
      then updateWhere (\<lambda>t. th_subject t = verifierBytes env subject) (\<lambda>_. ?new) ?kept else ?kept @ [?new])"
    using assms(1) by (clarsimp simp: recordLoginFailure_def tx_inv Let_def case_prod_beta elim!: tx_elim split: if_splits)
  then have thr: "throttles s' = (if list_ex (\<lambda>t. th_subject t = th_subject ?new) ?kept
      then updateWhere (\<lambda>t. th_subject t = th_subject ?new) (\<lambda>_. ?new) ?kept else ?kept @ [?new])" by simp
  have "failuresAre (verifierBytes env subject) (fst ?row) (snd ?row + 1) (if snd ?row + 1 \<ge> limit then w_now w n + loginBlock else 0) s'"
  proof (cases "list_ex (\<lambda>t. th_subject t = th_subject ?new) ?kept")
    case True
    then obtain t where "t \<in> set ?kept" "th_subject t = th_subject ?new" unfolding list_ex_iff by blast
    then have "?new \<in> set (updateWhere (\<lambda>t. th_subject t = th_subject ?new) (\<lambda>_. ?new) ?kept)"
      unfolding set_updateWhere by (intro image_eqI [of _ _ t]) simp_all
    with True upsert_distinct [OF kept, of ?new] show ?thesis unfolding failuresAre_def thr by simp
  next
    case False
    then have "distinct (map th_subject (?kept @ [?new]))" using kept by (auto simp: list_ex_iff)
    with False show ?thesis unfolding failuresAre_def thr by simp
  qed
  moreover have "t \<in> set (throttles s')" if "t \<in> set ?kept" "th_subject t \<noteq> verifierBytes env subject" for t
    using that unfolding thr by (auto simp: set_updateWhere intro!: image_eqI [of _ _ t])
  moreover have "th_subject t = verifierBytes env subject \<or> t \<in> set ?kept" if "t \<in> set (throttles s')" for t
    using that unfolding thr by (auto simp: set_updateWhere split: if_splits)
  ultimately show ?thesis by (intro that [OF refl refl]) auto
qed

text \<open>The failures of one login, in the order the source records them, one after the other.\<close>

primrec afterFailures :: "env \<Rightarrow> string \<Rightarrow> string \<Rightarrow> (world \<times> world) list \<Rightarrow> identity \<Rightarrow> identity option" where
  "afterFailures env email source [] s = Some s"
| "afterFailures env email source (ws # wss) s =
     (case recordLoginFailures env email source (fst ws) (snd ws) s of
        (Inl e, _) \<Rightarrow> None | (Inr _, s') \<Rightarrow> afterFailures env email source wss s')"

lemma failures_step:
  assumes run: "recordLoginFailure env subject limit w (n, s) = Inr (x, n', s')" and pre: "failuresAre (verifierBytes env subject) started k b s"
    and time: "started \<le> w_now w n" "w_now w n < started + loginWindow"
  shows "failuresAre (verifierBytes env subject) started (k + 1) (if k + 1 \<ge> limit then w_now w n + loginBlock else 0) s'"
proof -
  let ?old = "\<lparr>th_subject = verifierBytes env subject, th_window = started, th_failures = k, th_blocked = b\<rparr>"
  from pre have ids: "distinct (map th_subject (throttles s))" and m: "?old \<in> set (throttles s)" by (simp_all add: failuresAre_def)
  from run ids obtain row kept where kept: "kept = filter (\<lambda>t. \<not> (th_window t < w_now w n - loginWindow \<and> th_blocked t \<le> w_now w n)) (throttles s)"
    and row: "row = (case find (\<lambda>t. th_subject t = verifierBytes env subject) kept of
        Some t \<Rightarrow> if th_window t + loginWindow \<le> w_now w n then (w_now w n, 0) else (th_window t, th_failures t) | None \<Rightarrow> (w_now w n, 0))"
    and post: "failuresAre (verifierBytes env subject) (fst row) (snd row + 1) (if snd row + 1 \<ge> limit then w_now w n + loginBlock else 0) s'"
    by (rule recordLoginFailure_Inr) (rule that; assumption)
  have "?old \<in> set kept" "distinct (map th_subject kept)" using m time distinct_map_filter [OF ids] by (simp_all add: kept)
  from find_subject [OF this(2,1)] time have "row = (started, k)" by (simp add: row)
  with post show ?thesis by simp
qed

lemma failures_first:
  assumes run: "recordLoginFailure env subject limit w (n, s) = Inr (x, n', s')" and ids: "distinct (map th_subject (throttles s))"
    and none: "verifierBytes env subject \<notin> th_subject ` set (throttles s)"
  shows "failuresAre (verifierBytes env subject) (w_now w n) 1 (if 1 \<ge> limit then w_now w n + loginBlock else 0) s'"
proof -
  from run ids obtain row kept where kept: "kept = filter (\<lambda>t. \<not> (th_window t < w_now w n - loginWindow \<and> th_blocked t \<le> w_now w n)) (throttles s)"
    and row: "row = (case find (\<lambda>t. th_subject t = verifierBytes env subject) kept of
        Some t \<Rightarrow> if th_window t + loginWindow \<le> w_now w n then (w_now w n, 0) else (th_window t, th_failures t) | None \<Rightarrow> (w_now w n, 0))"
    and post: "failuresAre (verifierBytes env subject) (fst row) (snd row + 1) (if snd row + 1 \<ge> limit then w_now w n + loginBlock else 0) s'"
    by (rule recordLoginFailure_Inr) (rule that; assumption)
  have "find (\<lambda>t. th_subject t = verifierBytes env subject) kept = None" using none by (fastforce simp: kept find_None_iff image_iff)
  then have "row = (w_now w n, 0)" by (simp add: row)
  with post show ?thesis by simp
qed

lemma absent_other:
  assumes run: "recordLoginFailure env subject limit w (n, s) = Inr (x, n', s')" and ids: "distinct (map th_subject (throttles s))"
    and none: "sub \<notin> th_subject ` set (throttles s)" and other: "verifierBytes env subject \<noteq> sub"
  shows "distinct (map th_subject (throttles s')) \<and> sub \<notin> th_subject ` set (throttles s')"
proof -
  from run ids obtain row kept where kept: "kept = filter (\<lambda>t. \<not> (th_window t < w_now w n - loginWindow \<and> th_blocked t \<le> w_now w n)) (throttles s)"
    and post: "failuresAre (verifierBytes env subject) (fst row) (snd row + 1) (if snd row + 1 \<ge> limit then w_now w n + loginBlock else 0) s'"
    and all: "\<forall>t \<in> set (throttles s'). th_subject t = verifierBytes env subject \<or> t \<in> set kept"
    by (rule recordLoginFailure_Inr) (rule that; assumption)
  from all none other have "sub \<notin> th_subject ` set (throttles s')" by (auto simp: kept)
  with post show ?thesis by (simp add: failuresAre_def)
qed

lemma failures_other:
  assumes run: "recordLoginFailure env subject limit w (n, s) = Inr (x, n', s')" and pre: "failuresAre sub started k b s"
    and other: "verifierBytes env subject \<noteq> sub" and time: "w_now w n < started + loginWindow"
  shows "failuresAre sub started k b s'"
proof -
  let ?old = "\<lparr>th_subject = sub, th_window = started, th_failures = k, th_blocked = b\<rparr>"
  from pre have ids: "distinct (map th_subject (throttles s))" and m: "?old \<in> set (throttles s)" by (simp_all add: failuresAre_def)
  from run ids obtain row kept where kept: "kept = filter (\<lambda>t. \<not> (th_window t < w_now w n - loginWindow \<and> th_blocked t \<le> w_now w n)) (throttles s)"
    and "row = (case find (\<lambda>t. th_subject t = verifierBytes env subject) kept of
        Some t \<Rightarrow> if th_window t + loginWindow \<le> w_now w n then (w_now w n, 0) else (th_window t, th_failures t) | None \<Rightarrow> (w_now w n, 0))"
    and post: "failuresAre (verifierBytes env subject) (fst row) (snd row + 1) (if snd row + 1 \<ge> limit then w_now w n + loginBlock else 0) s'"
    and rest: "\<forall>t \<in> set kept. th_subject t \<noteq> verifierBytes env subject \<longrightarrow> t \<in> set (throttles s')"
    by (rule recordLoginFailure_Inr) (rule that; assumption)
  have "?old \<in> set kept" using m time by (simp add: kept)
  with rest other post show ?thesis by (auto simp: failuresAre_def)
qed

text \<open>The counter step of \<open>atomicT\<close>: \<^verbatim>\<open>BeginTx\<close> is step 0, the clock of the body is read at step 1.\<close>

lemma atomicT_body: "atomicT m w s = (Inr x, s') \<Longrightarrow> \<exists>n'. m w (Suc 0, s) = Inr (x, n', s')"
  by (auto simp: atomicT_def thenT_def bindT_def commitT_def stmtT_def split: sum.splits if_splits)

lemma recordLoginFailures_step:
  assumes run: "recordLoginFailures env email source w1 w2 s = (Inr x, s')"
    and pre: "failuresAre (verifierBytes env (''email:'' @ email)) started k b s"
    and other: "verifierBytes env (''source:'' @ source) \<noteq> verifierBytes env (''email:'' @ email)"
    and time: "w_now w1 1 < started + loginWindow" "started \<le> w_now w2 1" "w_now w2 1 < started + loginWindow"
  shows "failuresAre (verifierBytes env (''email:'' @ email)) started (k + 1) (if k + 1 \<ge> maxLoginFailures then w_now w2 1 + loginBlock else 0) s'"
proof -
  from run obtain s1 y where a: "atomicT (recordLoginFailure env (''source:'' @ source) 20) w1 s = (Inr y, s1)"
    and b: "atomicT (recordLoginFailure env (''email:'' @ email) maxLoginFailures) w2 s1 = (Inr x, s')"
    by (auto simp only: recordLoginFailures_def split: prod.splits sum.splits)
  from atomicT_body [OF a] obtain n1 where "recordLoginFailure env (''source:'' @ source) 20 w1 (Suc 0, s) = Inr (y, n1, s1)" ..
  from failures_other [OF this pre other] time have mid: "failuresAre (verifierBytes env (''email:'' @ email)) started k b s1" by simp
  from atomicT_body [OF b] obtain n2 where "recordLoginFailure env (''email:'' @ email) maxLoginFailures w2 (Suc 0, s1) = Inr (x, n2, s')" ..
  from failures_step [OF this mid] time show ?thesis by (simp split: if_splits)
qed

lemma afterFailures_count:
  assumes "afterFailures env email source wss s = Some s'" "failuresAre (verifierBytes env (''email:'' @ email)) started k b s"
    and "verifierBytes env (''source:'' @ source) \<noteq> verifierBytes env (''email:'' @ email)"
    and "\<forall>(w1, w2) \<in> set wss. w_now w1 1 < started + loginWindow \<and> started \<le> w_now w2 1 \<and> w_now w2 1 < started + loginWindow" "wss \<noteq> []"
  shows "failuresAre (verifierBytes env (''email:'' @ email)) started (k + int (length wss))
     (if k + int (length wss) \<ge> maxLoginFailures then w_now (snd (last wss)) 1 + loginBlock else 0) s'"
  using assms
proof (induction wss arbitrary: s k b)
  case (Cons ws wss)
  obtain w1 w2 where ws: "ws = (w1, w2)" by (cases ws)
  from Cons.prems(1) obtain x s1 where run: "recordLoginFailures env email source w1 w2 s = (Inr x, s1)" and rest: "afterFailures env email source wss s1 = Some s'"
    by (auto simp: ws split: prod.splits sum.splits)
  have t: "w_now w1 1 < started + loginWindow" "started \<le> w_now w2 1" "w_now w2 1 < started + loginWindow" using Cons.prems(4) by (auto simp: ws)
  note step = recordLoginFailures_step [OF run Cons.prems(2,3) t]
  show ?case
  proof (cases wss)
    case Nil
    with rest step show ?thesis by (simp add: ws split: if_splits)
  next
    case (Cons v vs)
    have "\<forall>(w1, w2) \<in> set wss. w_now w1 1 < started + loginWindow \<and> started \<le> w_now w2 1 \<and> w_now w2 1 < started + loginWindow"
      using Cons.prems(4) by simp
    note ih = Cons.IH [OF rest step Cons.prems(3) this]
    have "wss \<noteq> []" "last (ws # wss) = last wss" "k + 1 + int (length wss) = k + int (length (ws # wss))" using Cons by simp_all
    with ih show ?thesis by metis
  qed
qed simp

lemma blocked_login:
  assumes f: "failuresAre (verifierBytes env (''email:'' @ email)) started k blocked s" and e: "email = e_toLower env (TrimSpace (li_email input))"
    and w: "\<And>n. \<not> w_fault w n" "\<And>n. w_now w n < blocked"
  shows "autoT (loginCheck env slot cached input) w s = (Inl ErrTooManyAttempts, s)"
proof -
  have check: "checkLoginThrottle env subject w (n, s) = Inl ErrTooManyAttempts \<or> (\<exists>n'. checkLoginThrottle env subject w (n, s) = Inr ((), n', s))" for subject n
    using w(1) by (auto simp: checkLoginThrottle_def tx_defs split: option.splits)
  have found: "find (\<lambda>t. th_subject t = verifierBytes env (''email:'' @ email)) (throttles s) =
      Some \<lparr>th_subject = verifierBytes env (''email:'' @ email), th_window = started, th_failures = k, th_blocked = blocked\<rparr>"
    using find_subject f unfolding failuresAre_def by fastforce
  have last: "checkLoginThrottle env (''email:'' @ email) w (n, s) = Inl ErrTooManyAttempts" for n
    unfolding checkLoginThrottle_def bindT_def rowT_def queryT_def stmtT_def fst_conv snd_conv found using w by (simp add: tx_defs)
  have "forT (checkLoginThrottle env) [''source:'' @ source, ''email:'' @ email] w (0, s) = Inl ErrTooManyAttempts" for source
    using check [of "''source:'' @ source" 0] last
    unfolding forT.simps thenT_def bindT_def by (elim disjE exE) (simp_all only: sum.case prod.case)
  then show ?thesis unfolding autoT_def loginCheck_def Let_def e [symmetric] thenT_def bindT_def by (simp only: sum.case prod.case)
qed

text \<open>
  (C16) Five wrong passwords in a quarter of an hour close an account's login for the next quarter: after five
  recorded failures of an email inside one window, with nothing recorded for it before, every login
  for that email is refused with \<^verbatim>\<open>ErrTooManyAttempts\<close> until fifteen minutes after the last of them,
  whatever the password and the source, and nothing is written. Assumed: the subjects of the table are
  unique, SHA-256 gives the source and the email different subjects, and the driver does not fail the
  refused login.
\<close>

theorem login_throttled:
  assumes fresh: "find (\<lambda>t. th_subject t = verifierBytes env (''email:'' @ email)) (throttles s) = None" and ids: "distinct (map th_subject (throttles s))"
    and five: "afterFailures env email source wss s = Some s'" "length wss = 5"
    and other: "verifierBytes env (''source:'' @ source) \<noteq> verifierBytes env (''email:'' @ email)"
    and start: "started = w_now (snd (hd wss)) 1"
    and window: "\<forall>(w1, w2) \<in> set wss. w_now w1 1 < started + loginWindow \<and> started \<le> w_now w2 1 \<and> w_now w2 1 < started + loginWindow"
    and e: "e_toLower env (TrimSpace (li_email input)) = email"
    and w: "\<And>n. \<not> w_fault (ws 0) n" "\<And>n. w_now (ws 0) n < w_now (snd (last wss)) 1 + loginBlock"
  shows "Login env slot cached input ws s' = (Inl ErrTooManyAttempts, s')"
proof -
  obtain w1 w2 rest where wss: "wss = (w1, w2) # rest" and four: "length rest = 4" using five(2) by (cases wss) (auto simp: numeral_eq_Suc)
  from five(1) obtain x s1 where run: "recordLoginFailures env email source w1 w2 s = (Inr x, s1)" and after: "afterFailures env email source rest s1 = Some s'"
    by (auto simp: wss split: prod.splits sum.splits)
  from run obtain s0 y where a: "atomicT (recordLoginFailure env (''source:'' @ source) 20) w1 s = (Inr y, s0)"
    and b: "atomicT (recordLoginFailure env (''email:'' @ email) maxLoginFailures) w2 s0 = (Inr x, s1)"
    by (auto simp only: recordLoginFailures_def split: prod.splits sum.splits)
  have none: "verifierBytes env (''email:'' @ email) \<notin> th_subject ` set (throttles s)" using fresh by (auto simp: find_None_iff)
  from atomicT_body [OF a] obtain n1 where "recordLoginFailure env (''source:'' @ source) 20 w1 (Suc 0, s) = Inr (y, n1, s0)" ..
  from absent_other [OF this ids none other] have mid: "distinct (map th_subject (throttles s0))" "verifierBytes env (''email:'' @ email) \<notin> th_subject ` set (throttles s0)"
    by simp_all
  from atomicT_body [OF b] obtain n2 where "recordLoginFailure env (''email:'' @ email) maxLoginFailures w2 (Suc 0, s0) = Inr (x, n2, s1)" ..
  from failures_first [OF this mid] have one: "failuresAre (verifierBytes env (''email:'' @ email)) started 1 0 s1"
    by (simp add: maxLoginFailures_def start wss)
  have "rest \<noteq> []" "last wss = last rest" using four by (auto simp: wss)
  with afterFailures_count [OF after one other] window four
  have "failuresAre (verifierBytes env (''email:'' @ email)) started 5 (w_now (snd (last wss)) 1 + loginBlock) s'"
    by (simp add: wss maxLoginFailures_def)
  from blocked_login [OF this e [symmetric] w] show ?thesis by (simp add: Login_def)
qed

definition wrongLogin :: login_input where
  "wrongLogin = \<lparr>li_email = ''o@x'', li_password = ''wrong password'', li_userAgent = [], li_source = ''src''\<rparr>"

lemma afterFailures_sample: "\<exists>s'. afterFailures plainEnv ''o@x'' ''src'' (replicate 5 (quietWorld, quietWorld)) ownerStore = Some s'"
  by (simp add: numeral_eq_Suc recordLoginFailures_def recordLoginFailure_def atomicT_def identity_defs tx_defs verifierBytes_def Verifier_def
      plainEnv_def quietWorld_def ownerStore_def auth_constants Let_def)

theorem login_throttled_witness:
  "\<exists>s'. afterFailures plainEnv ''o@x'' ''src'' (replicate 5 (quietWorld, quietWorld)) ownerStore = Some s' \<and>
     Login plainEnv True None wrongLogin (\<lambda>_. quietWorld) s' = (Inl ErrTooManyAttempts, s')"
proof -
  obtain s' where five: "afterFailures plainEnv ''o@x'' ''src'' (replicate 5 (quietWorld, quietWorld)) ownerStore = Some s'"
    using afterFailures_sample by blast
  have trim: "TrimSpace ''o@x'' = ''o@x''" by code_simp
  have "Login plainEnv True None wrongLogin (\<lambda>_. quietWorld) s' = (Inl ErrTooManyAttempts, s')"
    by (rule login_throttled [OF _ _ five _ _ refl]) (simp_all add: ownerStore_def verifierBytes_def Verifier_def plainEnv_def wrongLogin_def trim quietWorld_def
        loginWindow_def loginBlock_def)
  with five show ?thesis by blast
qed

section \<open>Sessions opened\<close>

text \<open>The session row of an account, opened with a token at one time and expiring by another.\<close>

definition opens :: "env \<Rightarrow> string \<Rightarrow> account_row \<Rightarrow> int \<Rightarrow> int \<Rightarrow> session_row \<Rightarrow> bool" where
  "opens env token a now expires r \<longleftrightarrow> ss_verifier r = Verifier env token \<and> ss_user r = ac_id a \<and> ss_authRevision r = ac_authRevision a \<and>
     ss_lastSeen r = now \<and> ss_expires r = expires + sessionLifetime"

lemma createSession_Inr:
  assumes "createSession env u token now ua e w (n, s) = Inr (x, n', s')"
  obtains a r m where "find (\<lambda>a. ac_id a = u \<and> ac_status a = ''active'' \<and> (e = 0 \<or> ac_authRevision a = e)) (accounts s) = Some a"
    "\<forall>r \<in> set (sessions s). ss_verifier r \<noteq> Verifier env token" "opens env token a now (w_now w m) r" "accounts s' = accounts s" "sessions s' = sessions s @ [r]"
proof -
  from assms obtain sid created where one: "created = 1"
    and run: "insertSessionSelect (\<lambda>a. ac_id a = u \<and> ac_status a = ''active'' \<and> (e = 0 \<or> ac_authRevision a = e))
        (\<lambda>a. \<lparr>ss_id = ''ses_'' @ sid, ss_verifier = Verifier env token, ss_user = ac_id a, ss_expires = w_now w (Suc n) + sessionLifetime, ss_created = now,
          ss_lastSeen = now, ss_authenticated = now, ss_authRevision = ac_authRevision a, ss_userAgent = truncateUTF8 ua 200\<rparr>) w (Suc (Suc n), s) = Inr (created, n', s')"
    by (clarsimp simp: createSession_def tx_inv elim!: tx_elim)
  from run one obtain a where "find (\<lambda>a. ac_id a = u \<and> ac_status a = ''active'' \<and> (e = 0 \<or> ac_authRevision a = e)) (accounts s) = Some a"
    "\<not> list_ex (\<lambda>r. ss_id r = ''ses_'' @ sid \<or> ss_verifier r = Verifier env token) (sessions s)"
    "s' = sessions_update (\<lambda>rs. rs @ [\<lparr>ss_id = ''ses_'' @ sid, ss_verifier = Verifier env token, ss_user = ac_id a, ss_expires = w_now w (Suc n) + sessionLifetime,
       ss_created = now, ss_lastSeen = now, ss_authenticated = now, ss_authRevision = ac_authRevision a, ss_userAgent = truncateUTF8 ua 200\<rparr>]) s"
    by (auto simp: insertSessionSelect_def stmtT_def split: if_splits option.splits)
  then show ?thesis by (intro that [of a "Suc n"]) (auto simp: list_ex_iff opens_def)
qed

lemma in_sessionJoin: "(r, a) \<in> set (sessionJoin s) \<longleftrightarrow> r \<in> set (sessions s) \<and> a \<in> set (accounts s) \<and> ac_id a = ss_user r"
  by (auto simp: sessionJoin_def)

lemma decodeUserGrants_id: "decodeUserGrants a = Some u \<Longrightarrow> au_id u = ac_id a"
  by (auto simp: decodeUserGrants_def split: bind_splits)

lemma SessionInfo_Inr:
  assumes "SessionInfo env t w (n, s) = Inr (session, n', s')"
  obtains r a where "r \<in> set (sessions s)" "a \<in> set (accounts s)" "ac_id a = ss_user r" "ss_verifier r = Verifier env t" "ac_status a = ''active''"
    "ss_authRevision r = ac_authRevision a" "ss_expires r > w_now w n" "ss_lastSeen r > w_now w n - sessionIdleLifetime" "au_id (as_user session) = ac_id a"
proof -
  from assms obtain r a where f: "find (\<lambda>(r, a). ss_verifier r = Verifier env t \<and> ss_expires r > w_now w n \<and>
        ss_lastSeen r > w_now w n - sessionIdleLifetime \<and> ac_status a = ''active'' \<and> ss_authRevision r = ac_authRevision a) (sessionJoin s) = Some (r, a)"
    and u: "decodeUserGrants a = Some (as_user session)"
    by (clarsimp simp: SessionInfo_def tx_inv Let_def split: if_splits elim!: tx_elim)
  from find_SomeD [OF f] decodeUserGrants_id [OF u] show ?thesis by (intro that [of r a]) (auto simp: in_sessionJoin)
qed

text \<open>The forward direction: the session of a verifier no other session has.\<close>

lemma SessionInfo_run:
  assumes r: "r \<in> set (sessions s)" "\<And>y. y \<in> set (sessions s) \<Longrightarrow> ss_verifier y = Verifier env t \<Longrightarrow> y = r" "ss_verifier r = Verifier env t"
    and a: "a \<in> set (accounts s)" "ac_id a = ss_user r" "distinct (map ac_id (accounts s))" "ac_status a = ''active''" "ss_authRevision r = ac_authRevision a"
    and now: "ss_expires r > w_now w n" "ss_lastSeen r > w_now w n - sessionIdleLifetime" and u: "decodeUserGrants a = Some user" and w: "\<And>n. \<not> w_fault w n"
  shows "\<exists>session n' s'. SessionInfo env t w (n, s) = Inr (session, n', s') \<and> as_user session = user"
proof -
  have "find (\<lambda>(r, a). ss_verifier r = Verifier env t \<and> ss_expires r > w_now w n \<and>
        ss_lastSeen r > w_now w n - sessionIdleLifetime \<and> ac_status a = ''active'' \<and> ss_authRevision r = ac_authRevision a) (sessionJoin s) = Some (r, a)"
  proof (rule find_unique)
    show "(r, a) \<in> set (sessionJoin s)" using r(1) a(1,2) by (simp add: in_sessionJoin)
    show "case (r, a) of (r, a) \<Rightarrow> ss_verifier r = Verifier env t \<and> ss_expires r > w_now w n \<and>
        ss_lastSeen r > w_now w n - sessionIdleLifetime \<and> ac_status a = ''active'' \<and> ss_authRevision r = ac_authRevision a"
      using r(3) a(4,5) now by simp
    fix y assume y: "y \<in> set (sessionJoin s)" "case y of (r, a) \<Rightarrow> ss_verifier r = Verifier env t \<and> ss_expires r > w_now w n \<and>
        ss_lastSeen r > w_now w n - sessionIdleLifetime \<and> ac_status a = ''active'' \<and> ss_authRevision r = ac_authRevision a"
    obtain r' a' where ra: "y = (r', a')" by (cases y)
    from y have m: "r' \<in> set (sessions s)" "a' \<in> set (accounts s)" "ac_id a' = ss_user r'" "ss_verifier r' = Verifier env t"
      unfolding ra in_sessionJoin by simp_all
    from r(2) [OF m(1,4)] have "r' = r" .
    moreover have "a' = a" using distinct_keyD [OF a(3) m(2) a(1)] m(3) a(2) \<open>r' = r\<close> by simp
    ultimately show "y = (r, a)" by (simp add: ra)
  qed
  then show ?thesis by (simp add: SessionInfo_def tx_defs w u Let_def updateSessions_def list_all_iff)
qed

text \<open>The row that a login or a change of password writes lets its token in, as the account it belongs to.\<close>

lemma opened_session:
  assumes ids: "distinct (map ac_id (accounts s'))" and a: "a \<in> set (accounts s')" "ac_status a = ''active''" "decodeUserGrants a = Some user"
    and r: "opens env t a now expires r" "sessions s' = old @ [r]" "\<forall>y \<in> set old. ss_verifier y \<noteq> Verifier env t"
    and late: "\<And>n. w_now w n < expires + sessionLifetime" "\<And>n. w_now w n < now + sessionIdleLifetime" and w: "\<And>n. \<not> w_fault w n"
  shows "\<exists>session. fst (autoT (SessionInfo env t) w s') = Inr session \<and> as_user session = user"
proof -
  have m: "r \<in> set (sessions s')" and only: "\<And>y. y \<in> set (sessions s') \<Longrightarrow> ss_verifier y = Verifier env t \<Longrightarrow> y = r"
    using r by auto
  have op: "ss_verifier r = Verifier env t" "ac_id a = ss_user r" "ss_authRevision r = ac_authRevision a"
    and l: "w_now w 0 < ss_expires r" "w_now w 0 - sessionIdleLifetime < ss_lastSeen r"
    using r(1) late(1) [of 0] late(2) [of 0] by (simp_all add: opens_def)
  from SessionInfo_run [OF m only op(1) a(1) op(2) ids a(2) op(3) l a(3) w]
  obtain session n' s'' where "SessionInfo env t w (0, s') = Inr (session, n', s'')" "as_user session = user" by blast
  then show ?thesis by (simp add: autoT_def)
qed

lemma checkLoginThrottle_keeps: "keepsT I (checkLoginThrottle env subject)"
  by (auto simp: keepsT_def okT_def checkLoginThrottle_def tx_inv split: option.splits elim!: tx_elim)

lemma loginCheck_Inr:
  assumes "loginCheck env slot cached input w (n, s) = Inr (Some (user, authRevision), n', s')"
  obtains a where "a \<in> set (accounts s)" "sameEmail (ac_email a) (e_toLower env (TrimSpace (li_email input)))" "ac_status a = ''active''"
    "decodeUserGrants a = Some user" "authRevision = ac_authRevision a" "VerifyPassword env (li_password input) (ac_passwordHash a) = Inr True"
proof -
  let ?p = "\<lambda>a. sameEmail (ac_email a) (e_toLower env (TrimSpace (li_email input))) \<and> ac_status a = ''active''"
  let ?subjects = "[''source:'' @ loginSource env (li_source input), ''email:'' @ e_toLower env (TrimSpace (li_email input))]"
  have same: "keepsT (\<lambda>x. accounts x = accounts s) (forT (checkLoginThrottle env) ?subjects)"
    by (intro keeps checkLoginThrottle_keeps)
  from assms obtain m1 s1 a where t: "forT (checkLoginThrottle env) ?subjects w (n, s) = Inr ((), m1, s1)"
    and f: "find ?p (accounts s1) = Some a" and d: "decodeUserGrants a = Some user" "authRevision = ac_authRevision a"
      "VerifyPassword env (li_password input) (ac_passwordHash a) = Inr True"
    unfolding loginCheck_def Let_def
    by - (elim tx_elim; clarsimp simp: tx_inv split: option.splits if_splits simp del: forT.simps elim!: tx_elim)
  from keepsT_D [OF same _ t] have "accounts s1 = accounts s" by simp
  with find_SomeD [OF f] d show ?thesis by (intro that [of a]) simp_all
qed

lemma clearThrottle_keeps:
  "accounts (snd (autoT (clearThrottle env email) w s)) = accounts s" "sessions (snd (autoT (clearThrottle env email) w s)) = sessions s"
proof -
  have "keepsT (\<lambda>x. accounts x = accounts s \<and> sessions x = sessions s) (clearThrottle env email)"
    by (auto simp: keepsT_def okT_def clearThrottle_def tx_inv)
  from keepsT_auto [OF this] show "accounts (snd (autoT (clearThrottle env email) w s)) = accounts s"
    "sessions (snd (autoT (clearThrottle env email) w s)) = sessions s" by auto
qed

lemma startSession_Inr:
  assumes "startSession env user ua e w1 w2 s = (Inr (u, token), s')"
  obtains a r m where "u = user" "find (\<lambda>a. ac_id a = au_id user \<and> ac_status a = ''active'' \<and> (e = 0 \<or> ac_authRevision a = e)) (accounts s) = Some a"
    "\<forall>r \<in> set (sessions s). ss_verifier r \<noteq> Verifier env token" "opens env token a (w_now w2 1) (w_now w2 m) r"
    "accounts s' = accounts s" "sessions s' = sessions s @ [r]"
proof -
  from assms have u: "u = user" and "\<exists>x. atomicT (bindT nowT (\<lambda>now. thenT (createSession env (au_id user) token now ua e) commitT)) w2 s = (Inr x, s')"
    by (auto simp: startSession_def split: prod.splits sum.splits)
  then obtain x where "atomicT (bindT nowT (\<lambda>now. thenT (createSession env (au_id user) token now ua e) commitT)) w2 s = (Inr x, s')" by blast
  from atomicT_body [OF this] obtain y m m' where "createSession env (au_id user) token (w_now w2 1) ua e w2 (m, s) = Inr (y, m', s')"
    by (clarsimp simp: tx_inv elim!: tx_elim)
  then show ?thesis by (rule createSession_Inr) (rule that [OF u]; assumption)
qed

lemma Login_Inr:
  assumes "Login env slot cached input ws s = (Inr (user, token), s')"
  obtains e s1 n' t where "loginCheck env slot cached input (ws 0) (0, s) = Inr (Some (user, e), n', t)"
    "accounts s1 = accounts s" "sessions s1 = sessions s" "startSession env user (li_userAgent input) e (ws 4) (ws 5) s1 = (Inr (user, token), s')"
proof -
  let ?email = "e_toLower env (TrimSpace (li_email input))"
  from assms obtain u e s0 where c: "autoT (loginCheck env slot cached input) (ws 0) s = (Inr (Some (u, e)), s0)"
    and st: "startSession env u (li_userAgent input) e (ws 4) (ws 5) (snd (autoT (clearThrottle env ?email) (ws 3) s)) = (Inr (user, token), s')"
    unfolding Login_def Let_def by (auto split: prod.splits sum.splits option.splits)
  from c obtain n' where r: "loginCheck env slot cached input (ws 0) (0, s) = Inr (Some (u, e), n', s0)"
    by (auto simp: autoT_def split: sum.splits)
  from st have "u = user" by (auto elim: startSession_Inr)
  with r st clearThrottle_keeps [of env ?email "ws 3" s] show ?thesis by (intro that) auto
qed

text \<open>
  (C18) A login that succeeds was earned and works: the password given is verified by the stored hash of an
  active account with the email given, and the token handed out opens a session of exactly that
  account at every later request, until the session has been idle for half an hour. Assumed: account
  ids are unique, and the driver does not fail the later request.
\<close>

theorem Login_opens_session:
  assumes ids: "distinct (map ac_id (accounts s))" and run: "Login env slot cached input ws s = (Inr (user, token), s')"
    and w: "\<And>n. \<not> w_fault w n" "\<And>m n. w_now w n < w_now (ws 5) m + sessionIdleLifetime"
  shows "(\<exists>a \<in> set (accounts s). ac_id a = au_id user \<and> sameEmail (ac_email a) (e_toLower env (TrimSpace (li_email input))) \<and>
            ac_status a = ''active'' \<and> VerifyPassword env (li_password input) (ac_passwordHash a) = Inr True) \<and>
         (\<exists>session. fst (autoT (SessionInfo env token) w s') = Inr session \<and> as_user session = user)"
proof -
  from run obtain e s1 n' t where check: "loginCheck env slot cached input (ws 0) (0, s) = Inr (Some (user, e), n', t)"
    and s1: "accounts s1 = accounts s" "sessions s1 = sessions s"
    and start: "startSession env user (li_userAgent input) e (ws 4) (ws 5) s1 = (Inr (user, token), s')" by (rule Login_Inr)
  from check obtain a where a: "a \<in> set (accounts s)" "sameEmail (ac_email a) (e_toLower env (TrimSpace (li_email input)))" "ac_status a = ''active''"
    "decodeUserGrants a = Some user" "e = ac_authRevision a" "VerifyPassword env (li_password input) (ac_passwordHash a) = Inr True" by (rule loginCheck_Inr)
  have i: "au_id user = ac_id a" using a(4) by (rule decodeUserGrants_id)
  from start obtain b r m where b: "find (\<lambda>a. ac_id a = au_id user \<and> ac_status a = ''active'' \<and> (e = 0 \<or> ac_authRevision a = e)) (accounts s1) = Some b"
    and new: "\<forall>r \<in> set (sessions s1). ss_verifier r \<noteq> Verifier env token" "opens env token b (w_now (ws 5) 1) (w_now (ws 5) m) r"
    and s': "accounts s' = accounts s1" "sessions s' = sessions s1 @ [r]" by (rule startSession_Inr)
  from find_SomeD [OF b] s1 have "b \<in> set (accounts s)" "ac_id b = au_id user" by simp_all
  then have ba: "b = a" using distinct_keyD [OF ids _ a(1)] i by simp
  have late: "w_now w k < w_now (ws 5) m + sessionLifetime" for k
    using w(2) [of k m] by (simp add: sessionIdleLifetime_def sessionLifetime_def)
  have "distinct (map ac_id (accounts s'))" "a \<in> set (accounts s')" using ids a(1) s'(1) s1(1) by simp_all
  from opened_session [OF this a(3,4) new(2) [unfolded ba] s'(2) new(1) late w(2,1)]
  have "\<exists>session. fst (autoT (SessionInfo env token) w s') = Inr session \<and> as_user session = user" .
  with a i show ?thesis by auto
qed

section \<open>Changed passwords\<close>

lemma insertUserAudit_Inr:
  assumes "insertUserAudit actor action i d w (n, s) = Inr (x, n', s')"
  obtains row where "s' = trail_update (\<lambda>rs. rs @ [row]) s"
  using assms by (clarsimp simp: insertUserAudit_def tx_inv elim!: tx_elim)

lemma changePasswordTx_Inr:
  assumes "changePasswordTx env current h token ua w (n, s) = Inr (x, n', s')"
  obtains now a r m where
    "length (filter (\<lambda>a. ac_id a = au_id (as_user current) \<and> ac_authRevision a = as_authRevision current) (accounts s)) = 1"
    "accounts s' = updateWhere (\<lambda>a. ac_id a = au_id (as_user current) \<and> ac_authRevision a = as_authRevision current)
       (\<lambda>a. a\<lparr>ac_passwordHash := h, ac_authRevision := ac_authRevision a + 1, ac_revision := ac_revision a + 1, ac_updated := now\<rparr>) (accounts s)"
    "opens env token a now (w_now w m) r" "sessions s' = filter (\<lambda>r. ss_user r \<noteq> au_id (as_user current)) (sessions s) @ [r]"
  using assms
  by (clarsimp simp: changePasswordTx_def Let_def tx_inv elim!: tx_elim insertUserAudit_Inr createSession_Inr)

lemma ChangePassword_Inr:
  assumes "ChangePassword env slot current oldPassword newPassword ua w1 w2 s = (Inr token, s')"
    and argon: "\<And>p x. length (e_argon2 env p x) = 32"
  obtains a h n m where "find (\<lambda>a. ac_id a = au_id (as_user current)) (accounts s) = Some a" "VerifyPassword env oldPassword (ac_passwordHash a) = Inr True"
    "VerifyPassword env newPassword h = Inr True" "changePasswordTx env current h token ua w2 (n, s) = Inr ((), m, s')"
proof -
  from assms(1) obtain h s1 x where prep: "autoT (thenT (checkedT (validatePassword newPassword)) (
                  guardT (\<not> slot) ErrTooManyAttempts (
                  thenT (verifyCurrent env (au_id (as_user current)) oldPassword) (
                  bindT (HashPassword env newPassword) (\<lambda>newHash. bindT randT (\<lambda>token. returnT (newHash, token))))))) w1 s = (Inr (h, token), s1)"
    and tx: "atomicT (changePasswordTx env current h token ua) w2 s = (Inr x, s')"
    unfolding ChangePassword_def by (auto split: prod.splits sum.splits)
  from prep obtain n' where "thenT (checkedT (validatePassword newPassword)) (
                  guardT (\<not> slot) ErrTooManyAttempts (
                  thenT (verifyCurrent env (au_id (as_user current)) oldPassword) (
                  bindT (HashPassword env newPassword) (\<lambda>newHash. bindT randT (\<lambda>token. returnT (newHash, token)))))) w1 (0, s) = Inr ((h, token), n', s1)"
    unfolding autoT_def by (auto split: sum.splits)
  then obtain a k m t where "find (\<lambda>a. ac_id a = au_id (as_user current)) (accounts s) = Some a" "VerifyPassword env oldPassword (ac_passwordHash a) = Inr True"
    and hash: "HashPassword env newPassword w1 (k, s) = Inr (h, m, t)"
    by (clarsimp simp: tx_inv verifyCurrent_def elim!: tx_elim)
  moreover from argon hash have "VerifyPassword env newPassword h = Inr True" by (rule HashPassword_accepts) simp
  moreover from atomicT_body [OF tx] obtain k' where "changePasswordTx env current h token ua w2 (Suc 0, s) = Inr (x, k', s')" ..
  ultimately show ?thesis by (intro that) auto
qed

text \<open>
  (C17) A change of password is complete: it succeeds only with the current password and for a session of the
  account's present revision; afterwards the new password is verified by the stored hash, the
  account's revision is one higher, and of all tokens only the one returned is accepted as this
  account's: every other session is gone. Account ids are unique and Argon2id returns 32 bytes.
\<close>

theorem ChangePassword_reopens:
  assumes ids: "distinct (map ac_id (accounts s))" and argon: "\<And>p x. length (e_argon2 env p x) = 32"
    and run: "ChangePassword env slot current oldPassword newPassword ua w1 w2 s = (Inr token, s')"
  shows "(\<exists>a a'. a \<in> set (accounts s) \<and> a' \<in> set (accounts s') \<and> ac_id a = au_id (as_user current) \<and> ac_id a' = ac_id a \<and>
            VerifyPassword env oldPassword (ac_passwordHash a) = Inr True \<and> VerifyPassword env newPassword (ac_passwordHash a') = Inr True \<and>
            ac_authRevision a = as_authRevision current \<and> ac_authRevision a' = ac_authRevision a + 1) \<and>
         (\<forall>t w session. fst (autoT (SessionInfo env t) w s') = Inr session \<and> au_id (as_user session) = au_id (as_user current) \<longrightarrow>
            Verifier env t = Verifier env token)"
proof -
  let ?i = "au_id (as_user current)"
  let ?hit = "\<lambda>a. ac_id a = ?i \<and> ac_authRevision a = as_authRevision current"
  from run argon obtain a h n m where a: "find (\<lambda>a. ac_id a = ?i) (accounts s) = Some a" "VerifyPassword env oldPassword (ac_passwordHash a) = Inr True"
    "VerifyPassword env newPassword h = Inr True" and tx: "changePasswordTx env current h token ua w2 (n, s) = Inr ((), m, s')"
    by (rule ChangePassword_Inr)
  from tx obtain now b r k where one: "length (filter ?hit (accounts s)) = 1"
    and acc: "accounts s' = updateWhere ?hit (\<lambda>a. a\<lparr>ac_passwordHash := h, ac_authRevision := ac_authRevision a + 1, ac_revision := ac_revision a + 1, ac_updated := now\<rparr>) (accounts s)"
    and r: "opens env token b now (w_now w2 k) r" "sessions s' = filter (\<lambda>r. ss_user r \<noteq> ?i) (sessions s) @ [r]"
    by (rule changePasswordTx_Inr)
  from find_SomeD [OF a(1)] have am: "a \<in> set (accounts s)" "ac_id a = ?i" by simp_all
  from one have "filter ?hit (accounts s) \<noteq> []" by auto
  then obtain c where c: "c \<in> set (accounts s)" "ac_id c = ?i" "ac_authRevision c = as_authRevision current" unfolding filter_empty_conv by blast
  then have "c = a" using distinct_keyD [OF ids c(1) am(1)] am(2) by simp
  with c have rev: "ac_authRevision a = as_authRevision current" by simp
  have "a\<lparr>ac_passwordHash := h, ac_authRevision := ac_authRevision a + 1, ac_revision := ac_revision a + 1, ac_updated := now\<rparr> \<in> set (accounts s')"
    unfolding acc set_updateWhere using am rev by (intro image_eqI [of _ _ a]) simp_all
  note new = this
  have only: "Verifier env t = Verifier env token" if info: "fst (autoT (SessionInfo env t) w s') = Inr session" and i: "au_id (as_user session) = ?i" for t w session
  proof -
    from fst_autoT_Inr [OF info] obtain n1 s1 where "SessionInfo env t w (0, s') = Inr (session, n1, s1)" by blast
    then obtain q d where "q \<in> set (sessions s')" "d \<in> set (accounts s')" "ac_id d = ss_user q" "ss_verifier q = Verifier env t" "ac_status d = ''active''"
      "ss_authRevision q = ac_authRevision d" "ss_expires q > w_now w 0" "ss_lastSeen q > w_now w 0 - sessionIdleLifetime" "au_id (as_user session) = ac_id d"
      by (rule SessionInfo_Inr)
    then have q: "q \<in> set (sessions s')" "ss_user q = ?i" "ss_verifier q = Verifier env t" using i by simp_all
    with r(2) have "q = r" by auto
    with q r(1) show ?thesis by (simp add: opens_def)
  qed
  then have others: "\<forall>t w session. fst (autoT (SessionInfo env t) w s') = Inr session \<and> au_id (as_user session) = ?i \<longrightarrow> Verifier env t = Verifier env token"
    by (intro allI impI, elim conjE) (rule only)
  show ?thesis
    by (rule conjI [OF _ others], rule exI [of _ a], rule exI, intro conjI, rule am(1), rule new) (simp_all add: am a rev)
qed

section \<open>Samples\<close>

definition knownHash :: string where
  "knownHash = encodedHash plainEnv ''correct horse'' (replicate 16 (CHR ''s''))"

definition knownAccount :: account_row where
  "knownAccount = ownerAccount\<lparr>ac_passwordHash := knownHash\<rparr>"

definition knownStore :: identity where
  "knownStore = ownerStore\<lparr>accounts := [knownAccount]\<rparr>"

definition knownUser :: user where
  "knownUser = \<lparr>au_id = ''u1'', au_email = ''o@x'', au_displayName = ''O'', au_role = ''owner'', au_status = ''active'', au_unrestricted = True,
     au_scopes = [], au_models = [], au_connections = []\<rparr>"

definition rightLogin :: login_input where
  "rightLogin = wrongLogin\<lparr>li_password := ''correct horse''\<rparr>"

definition knownSession :: authenticated_session where
  "knownSession = \<lparr>as_id = ''ses_r'', as_user = knownUser, as_created = 5, as_lastSeen = 5, as_expires = 86400005, as_authenticated = 5, as_authRevision = 1,
     as_userAgent = []\<rparr>"

lemma knownHash_accepts: "VerifyPassword plainEnv ''correct horse'' knownHash = Inr True"
proof -
  have len: "length (e_argon2 plainEnv p x) = 32" for p x by (simp add: plainEnv_def)
  show ?thesis by (simp add: knownHash_def VerifyPassword_def Let_def splitOn_encoded base64Std_roundtrip len)
qed

lemma known_user: "decodeUserGrants knownAccount = Some knownUser"
proof -
  have "unmarshalStrings ''[]'' = Some []" by code_simp
  then show ?thesis by (simp add: decodeUserGrants_def knownAccount_def ownerAccount_def knownUser_def)
qed

lemma login_texts: "TrimSpace ''o@x'' = ''o@x''" "validPasswordSize ''correct horse''" "validatePassword ''battery staple'' = Inr ()"
proof -
  show "TrimSpace ''o@x'' = ''o@x''" by code_simp
  show "validPasswordSize ''correct horse''" by code_simp
  show "validatePassword ''battery staple'' = Inr ()" by code_simp
qed

lemma loginCheck_sample: "loginCheck plainEnv True None rightLogin quietWorld (0, knownStore) = Inr (Some (knownUser, 1), 3, knownStore)"
proof -
  have "sameEmail ''o@x'' ''o@x''" by code_simp
  then have acc: "find (\<lambda>a. sameEmail (ac_email a) ''o@x'' \<and> ac_status a = ''active'') (accounts knownStore) = Some knownAccount"
    by (simp add: knownStore_def knownAccount_def ownerAccount_def)
  have e: "e_toLower plainEnv (TrimSpace (li_email rightLogin)) = ''o@x''" "li_password rightLogin = ''correct horse''"
    by (simp_all add: rightLogin_def wrongLogin_def plainEnv_def login_texts)
  have v: "validLoginEmail plainEnv ''o@x''" by (simp add: validLoginEmail_def plainEnv_def)
  have t: "throttles knownStore = []" by (simp add: knownStore_def ownerStore_def)
  have h: "ac_passwordHash knownAccount = knownHash" "ac_authRevision knownAccount = 1" by (simp_all add: knownAccount_def ownerAccount_def)
  show ?thesis
    by (simp add: loginCheck_def checkLoginThrottle_def Let_def e v t acc h known_user knownHash_accepts login_texts tx_defs quietWorld_def)
qed

lemma Login_sample: "\<exists>s'. Login plainEnv True None rightLogin (\<lambda>_. quietWorld) knownStore = (Inr (knownUser, ''r''), s')"
proof -
  have c: "autoT (loginCheck plainEnv True None rightLogin) quietWorld knownStore = (Inr (Some (knownUser, 1)), knownStore)"
    by (simp add: autoT_def loginCheck_sample)
  have clear: "autoT (clearThrottle plainEnv email) quietWorld knownStore = (Inr 0, knownStore)" for email
    by (simp add: autoT_def clearThrottle_def identity_defs tx_defs quietWorld_def knownStore_def ownerStore_def)
  have "\<exists>s'. startSession plainEnv knownUser [] 1 quietWorld quietWorld knownStore = (Inr (knownUser, ''r''), s')"
    by (simp add: startSession_def autoT_def atomicT_def createSession_def insertSessionSelect_def tx_defs quietWorld_def
        knownStore_def ownerStore_def knownAccount_def ownerAccount_def knownUser_def)
  then show ?thesis by (simp add: Login_def c clear Let_def) (simp add: rightLogin_def wrongLogin_def)
qed

theorem Login_opens_session_witness:
  "\<exists>s'. Login plainEnv True None rightLogin (\<lambda>_. quietWorld) knownStore = (Inr (knownUser, ''r''), s') \<and>
     (\<exists>session. fst (autoT (SessionInfo plainEnv ''r'') quietWorld s') = Inr session \<and> as_user session = knownUser)"
proof -
  from Login_sample obtain s' where run: "Login plainEnv True None rightLogin (\<lambda>_. quietWorld) knownStore = (Inr (knownUser, ''r''), s')" ..
  have "distinct (map ac_id (accounts knownStore))" by (simp add: knownStore_def)
  from Login_opens_session [OF this run, of quietWorld] run show ?thesis by (auto simp: quietWorld_def sessionIdleLifetime_def)
qed

lemma ChangePassword_sample:
  "\<exists>s'. ChangePassword plainEnv True knownSession ''correct horse'' ''battery staple'' [] quietWorld quietWorld knownStore = (Inr ''r'', s')"
proof -
  have h: "ac_passwordHash knownAccount = knownHash" "ac_id knownAccount = ''u1''" by (simp_all add: knownAccount_def ownerAccount_def)
  have i: "au_id (as_user knownSession) = ''u1''" by (simp add: knownSession_def knownUser_def)
  have acc: "accounts knownStore = [knownAccount]" by (simp add: knownStore_def)
  have "\<exists>newHash. autoT (thenT (checkedT (validatePassword ''battery staple'')) (
                  guardT (\<not> True) ErrTooManyAttempts (
                  thenT (verifyCurrent plainEnv ''u1'' ''correct horse'') (
                  bindT (HashPassword plainEnv ''battery staple'') (\<lambda>newHash. bindT randT (\<lambda>token. returnT (newHash, token))))))) quietWorld knownStore
      = (Inr (newHash, ''r''), knownStore)"
    by (simp add: autoT_def checkedT_def verifyCurrent_def HashPassword_def saltT_def tx_defs acc h knownHash_accepts login_texts quietWorld_def)
  then obtain newHash where p: "autoT (thenT (checkedT (validatePassword ''battery staple'')) (
                  guardT (\<not> True) ErrTooManyAttempts (
                  thenT (verifyCurrent plainEnv ''u1'' ''correct horse'') (
                  bindT (HashPassword plainEnv ''battery staple'') (\<lambda>newHash. bindT randT (\<lambda>token. returnT (newHash, token))))))) quietWorld knownStore
      = (Inr (newHash, ''r''), knownStore)" ..
  have "\<exists>s'. atomicT (changePasswordTx plainEnv knownSession newHash ''r'' []) quietWorld knownStore = (Inr (), s')"
    by (simp add: atomicT_def changePasswordTx_def insertUserAudit_def createSession_def insertSessionSelect_def identity_defs tx_defs Let_def
        knownStore_def ownerStore_def knownAccount_def ownerAccount_def knownSession_def knownUser_def quietWorld_def hasAccount_def accountCheck_def)
  with p show ?thesis by (auto simp: ChangePassword_def i)
qed

theorem ChangePassword_reopens_witness:
  "\<exists>s'. ChangePassword plainEnv True knownSession ''correct horse'' ''battery staple'' [] quietWorld quietWorld knownStore = (Inr ''r'', s') \<and>
     (\<exists>a \<in> set (accounts s'). ac_id a = ''u1'' \<and> VerifyPassword plainEnv ''battery staple'' (ac_passwordHash a) = Inr True \<and> ac_authRevision a = 2)"
proof -
  from ChangePassword_sample obtain s' where
    run: "ChangePassword plainEnv True knownSession ''correct horse'' ''battery staple'' [] quietWorld quietWorld knownStore = (Inr ''r'', s')" ..
  have ids: "distinct (map ac_id (accounts knownStore))" by (simp add: knownStore_def)
  have len: "length (e_argon2 plainEnv p x) = 32" for p x by (simp add: plainEnv_def)
  have c: "au_id (as_user knownSession) = ''u1''" "as_authRevision knownSession = 1" by (simp_all add: knownSession_def knownUser_def)
  from conjunct1 [OF ChangePassword_reopens [OF ids len run, unfolded c]] obtain a a' where "a \<in> set (accounts knownStore)" "a' \<in> set (accounts s')" "ac_id a = ''u1''" "ac_id a' = ac_id a"
    "VerifyPassword plainEnv ''correct horse'' (ac_passwordHash a) = Inr True"
    "VerifyPassword plainEnv ''battery staple'' (ac_passwordHash a') = Inr True" "ac_authRevision a = 1" "ac_authRevision a' = ac_authRevision a + 1"
    by (elim exE conjE)
  with run show ?thesis by (intro exI [of _ s'] conjI bexI [of _ a']) simp_all
qed

end
