(* ===== verification/Spec2Isabelle.thy ===== *)
theory Spec2Isabelle
  imports Projected Routing System Access Logins
begin

text \<open>
  A verification development for pocket-ai-gateway, a gateway that puts the APIs of several AI
  providers behind API keys, quotas and prices (Go, \<^verbatim>\<open>src/internal\<close>).

  \<^bold>\<open>The program.\<close> A request enters through the HTTP handlers of \<^verbatim>\<open>gateway\<close>. Its key is authenticated by
  \<^verbatim>\<open>features/keys\<close>, the public model is routed to a target by \<^verbatim>\<open>features/providers\<close>, and each attempt at a
  target is admitted, marked and settled by \<^verbatim>\<open>features/usage\<close>, which reserves quota before the upstream
  call and books tokens and cost after it. Every change of these tables also writes an outbox event in
  the same transaction, which is projected into a second, analytics database. \<^verbatim>\<open>features/auth\<close> and
  \<^verbatim>\<open>features/users\<close> keep the accounts, sessions and grants that the keys depend on. The services share
  one SQLite database with a single connection, so that transactions run one after the other; what
  they promise is about sequences of transactions, any of which may fail at any statement, and about
  restarts between them.

  \<^bold>\<open>How it is modelled.\<close> A table is a list of records and a database a record of tables (\<open>store\<close> for the
  usage and routing services, \<open>identity\<close> for the identity services), with the CHECK, UNIQUE and
  foreign-key constraints of the migrations enforced by the statements that write. A transaction body
  is a function of a \<open>world\<close>, a step counter and the database, to an error or a result with the next
  counter and database (\<open>Transaction\<close>): the world gives what the clock reads, which random token is
  drawn and whether the driver fails, separately at each step, so every early return of the source is
  a branch of the model and a theorem for all worlds covers every failure. \<open>atomicT\<close> runs a body as a
  transaction (begin, commit, rollback on an error), \<open>autoT\<close> runs a statement of its own. An operation
  with several transactions takes a world for each. Amounts and counters are \<open>int\<close> with the int64 and
  uint64 range, overflow checks and wrap-around written out as in \<^verbatim>\<open>money.go\<close>. Byte strings are \<open>string\<close>.
  Every definition of the model computes. No definition needs fuel: the loops of the source run over
  rows read before, over strings that get shorter or over a fixed number of tries (\<open>finalizeTries\<close>, the
  three tries of \<^verbatim>\<open>FinalizeFailedRequest\<close>).

  \<^bold>\<open>Common ground.\<close> \<open>Prelude\<close>: the proof collections, Go's 64-bit integers and string functions.
  \<open>Transaction\<close>: errors, worlds, the combinators, and two ways to reason about a body: \<open>tx_elim\<close> and
  \<open>tx_inv\<close> open a successful run, \<open>okT\<close> and \<open>keepsT\<close> push a postcondition or an invariant through it.
  \<open>Calendar\<close>: civil dates, months and RFC 3339. \<open>Json\<close>: the subset of \<^verbatim>\<open>encoding/json\<close> that is written and read back, and
  \<^verbatim>\<open>path.Match\<close>. \<open>Store\<close>: the tables of the usage and routing services. \<open>Cursor\<close>: \<^verbatim>\<open>usage/cursor.go\<close> and the locale
  \<open>keyset\<close> for keyset pagination, interpreted by the policies.

  \<^bold>\<open>Usage.\<close> \<open>Money\<close> is \<^verbatim>\<open>usage/money.go\<close>; \<open>Policy\<close> is \<^verbatim>\<open>policy.go\<close>; \<open>Limits\<close> the limiter of \<^verbatim>\<open>admission.go\<close> and the
  counter helpers of \<^verbatim>\<open>settlement.go\<close>; \<open>Pricing\<close> the price versions of \<^verbatim>\<open>pricing.go\<close>; \<open>Admission\<close> the transaction of \<^verbatim>\<open>Admit\<close>
  and the progress marks; \<open>Settlement\<close> how an attempt ends (\<^verbatim>\<open>settlement.go\<close>, \<^verbatim>\<open>repair.go\<close>); \<open>Recovery\<close> the recovery at
  start-up, the sweep of stale requests and reconciliation; \<open>Repricing\<close> historical repricing and manual
  adjustment; \<open>Projection\<close> the delivery of the outbox, one statement or commit after the other.
  The proofs about them are layered. \<open>Runs\<close> says, one lemma per operation, what a successful run does
  to the tables. \<open>Books\<close> shows that each quota window counts exactly the reservations still held; its
  locale \<open>item_loop\<close> is the contract of a loop over rows read before its statements, and
  \<open>draining_loop\<close> extends it with a set of identifiers that the loop empties. \<open>Lifecycle\<close> ties requests, attempts
  and leases together, \<open>Attempts\<close> refines the abstract state machine of an attempt, \<open>Costs\<close> shows that
  the ledger explains every cost. \<open>Scenario\<close> evaluates a concrete request, \<open>Granted\<close> says what a granted
  admission means. \<open>System\<close> puts the operations into one transition system, with the locale \<open>service_invariant\<close> for
  an invariant of the service, interpreted for each of the three invariants above. \<open>Projected\<close> interleaves
  that system with passes of the projector, any of which may be cut off between the commit to the analytics database and
  the mark in the outbox, and shows that every event is counted once and that the daily totals are the recorded
  tokens and costs; it interprets \<open>service_invariant\<close> once more, for the order of the pending events.

  \<^bold>\<open>Routing.\<close> \<open>Providers\<close> holds the preset table (\<^verbatim>\<open>presets.go\<close>) and what routing needs of \<^verbatim>\<open>service.go\<close> and
  \<^verbatim>\<open>credential_source.go\<close>; \<open>Routing\<close> is \<^verbatim>\<open>routing.go\<close>: eligibility, the loop over the targets, the orderings
  (locale \<open>stable_order\<close>, for cost and for latency), configuration and observations.

  \<^bold>\<open>Identity.\<close> \<open>Grants\<close>: grant lists and model patterns. \<open>Identity\<close>: the tables of accounts, sessions,
  codes, throttles, keys and secrets, and \<^verbatim>\<open>credentials/credentials.go\<close>. \<open>Keys\<close> is \<^verbatim>\<open>keys/service.go\<close>, and shows that
  the admission transaction accepts what authentication accepted. \<open>Auth\<close> is \<^verbatim>\<open>auth/service.go\<close>,
  \<^verbatim>\<open>lifecycle.go\<close> and \<^verbatim>\<open>scopes.go\<close>; \<open>Users\<close> is \<^verbatim>\<open>users/service.go\<close>. \<open>Access\<close> puts all their operations into
  one transition system, with the locale \<open>access_invariant\<close>, interpreted for the single active owner and for
  the keys that stay revoked. \<open>Logins\<close> follows the throttle, a login and a change of password over several calls.

  \<^bold>\<open>What is shown.\<close> Invariants of every reachable store (reserved units, one attempt in flight, ledger and
  cost, a single active owner), limits that a granted admission respects, settlement at most once, recovery that
  leaves nothing open, refinement of the attempt's state machine, exact costs with their rounding and
  the one case that wraps, usage totals that count each event once, disjoint price versions, complete pagination, the targets a route offers
  and their order, the confinement of admins, final revocation, clamped grants, tokens and passwords
  that work and stop working when they should. Where the code does not do what it means to, a theorem shows it on
  concrete input: \<open>tokenCost_wraps_to_zero\<close>, \<open>stale_credential_error\<close>,
  \<open>keyless_presets_unroutable\<close>, \<open>modelIntersection_escape\<close>, \<open>pending_user_activated\<close>.

  \<^bold>\<open>Parameters.\<close> Code outside the repository is an argument of the definitions: \<open>env\<close> holds SHA-256,
  Argon2id, the mail address parser, Unicode lower case and the split of a host and port; the opening of a sealed
  provider secret and the files and variables it may come from are arguments of the routing definitions. What a theorem needs of them
  (a 32-byte key of Argon2id, different hashes of two subjects) is a hypothesis. Clock readings are
  milliseconds, the unit in which the code stores them. A random token is any string; uniqueness is left to the UNIQUE
  constraints, as in the code.

  \<^bold>\<open>Not modelled.\<close> The HTTP handlers of the services (decoding and writing of JSON around the calls
  modelled here); the forwarding, streaming and dialect endpoints of \<^verbatim>\<open>gateway\<close> and the translation of
  messages in \<^verbatim>\<open>protocol\<close>, which are transport and JSON rewriting and act on the decisions modelled
  here; management of connections and models in \<^verbatim>\<open>providers/service.go\<close> and the catalog download;
  \<^verbatim>\<open>mediajobs\<close> (polling of the upstream); \<^verbatim>\<open>storage\<close>, \<^verbatim>\<open>selfupdate\<close>, \<^verbatim>\<open>server\<close>, \<^verbatim>\<open>app\<close> and the command line, which are
  file, process and network input and output; \<^verbatim>\<open>operations\<close>, which besides backups and retention has the import of a
  configuration (\<^verbatim>\<open>ImportConfig\<close>): that transaction also rewrites connections, models, limit policies and price versions, so that
  "reachable" always means reachable by calls of the modelled services, without an import in between; SQLite and the generated queries themselves, of which the statements used are
  modelled with their constraints.
\<close>

end
